(* ===== verification/Registry_Types.thy ===== *)
theory Registry_Types
  imports Kraph_Prelude
begin

text \<open>
  Data of the on-chain registry (\<open>contracts/programs/supaba-registry/src/lib.rs\<close>): the size
  constants, the enums, the four account structs, the error codes and the events. Public keys
  and 32-byte roots are 256-bit words, \<open>[u8; 16]\<close> identifiers 128-bit words, \<open>i64\<close> timestamps
  64-bit words read with \<open>sint\<close>; a \<open>String\<close> is the list of its UTF-8 bytes, so \<open>length\<close> is
  Rust's \<open>len()\<close>.
\<close>

type_synonym pubkey = "256 word"
type_synonym instance_id = "128 word"

section \<open>Constants\<close>

definition MAX_ENDPOINT_LEN :: nat where "MAX_ENDPOINT_LEN = 256"
definition MAX_REGION_LEN :: nat where "MAX_REGION_LEN = 32"
definition MAX_REPLICA_NODES :: nat where "MAX_REPLICA_NODES = 3"
definition MAX_ENCRYPTED_DEK_LEN :: nat where "MAX_ENCRYPTED_DEK_LEN = 128"

lemmas limit_defs = MAX_ENDPOINT_LEN_def MAX_REGION_LEN_def MAX_REPLICA_NODES_def
  MAX_ENCRYPTED_DEK_LEN_def

definition NODE_RECORD_SIZE :: nat where
  "NODE_RECORD_SIZE = 8 + 32 + (4 + MAX_ENDPOINT_LEN) + 1 + 1 + 8 + 8 + 8 + 1
     + (4 + MAX_REGION_LEN) + 1"

definition INSTANCE_RECORD_SIZE :: nat where
  "INSTANCE_RECORD_SIZE = 8 + 32 + 16 + 32 + (4 + 32 * MAX_REPLICA_NODES)
     + (4 + MAX_ENCRYPTED_DEK_LEN) + 32 + 1 + 8 + 8 + 1"

definition PAYMENT_ESCROW_SIZE :: nat where
  "PAYMENT_ESCROW_SIZE = 8 + 32 + 16 + 8 + 8 + 8 + 8 + 1"

definition NETWORK_CONFIG_SIZE :: nat where
  "NETWORK_CONFIG_SIZE = 8 + 32 + 8 + 8 + 32 + 8 + 1 + 1"

lemmas size_defs = NODE_RECORD_SIZE_def INSTANCE_RECORD_SIZE_def PAYMENT_ESCROW_SIZE_def
  NETWORK_CONFIG_SIZE_def

section \<open>Enums\<close>

datatype node_status = NodeActive | NodeSuspended | Deregistering | Deregistered

datatype instance_status =
  Provisioning | InstanceActive | Migrating | InstanceSuspended | Destroyed

datatype slash_proof_type = Downtime | IntegrityViolation | Other

section \<open>Account structs\<close>

record network_config =
  cfg_authority :: pubkey
  cfg_min_stake :: u64
  cfg_default_rate_per_hour :: u64
  cfg_usdc_mint :: pubkey
  cfg_deregistration_cooldown :: i64
  cfg_slash_percentage :: u8
  cfg_bump :: u8

record node_record =
  node_operator :: pubkey
  node_endpoint :: string
  node_capacity :: u8
  node_active_instances :: u8
  node_stake :: u64
  node_registered_at :: i64
  node_last_heartbeat :: i64
  node_state :: node_status
  node_region :: string
  node_bump :: u8

record instance_record =
  inst_agent :: pubkey
  inst_id :: instance_id
  inst_primary_node :: pubkey
  inst_replica_nodes :: "pubkey list"
  inst_encrypted_dek :: "u8 list"
  inst_merkle_root :: "256 word"
  inst_status :: instance_status
  inst_created_at :: i64
  inst_updated_at :: i64
  inst_bump :: u8

record payment_escrow =
  esc_agent :: pubkey
  esc_instance_id :: instance_id
  esc_deposited :: u64
  esc_distributed :: u64
  esc_rate_per_hour :: u64
  esc_last_distribution_at :: i64
  esc_bump :: u8

text \<open>The account store holds one of the four structs behind its discriminator.\<close>

datatype account =
    AConfig network_config
  | ANode node_record
  | AInstance instance_record
  | AEscrow payment_escrow

text \<open>Borsh sizes, the discriminator included: what an account occupies when written back.\<close>

fun account_size :: "account \<Rightarrow> nat" where
  "account_size (AConfig c) = 8 + 32 + 8 + 8 + 32 + 8 + 1 + 1"
| "account_size (ANode n) = 8 + 32 + (4 + length (node_endpoint n)) + 1 + 1 + 8 + 8 + 8 + 1
     + (4 + length (node_region n)) + 1"
| "account_size (AInstance i) = 8 + 32 + 16 + 32 + (4 + 32 * length (inst_replica_nodes i))
     + (4 + length (inst_encrypted_dek i)) + 32 + 1 + 8 + 8 + 1"
| "account_size (AEscrow e) = 8 + 32 + 16 + 8 + 8 + 8 + 8 + 1"

fun account_space :: "account \<Rightarrow> nat" where
  "account_space (AConfig c) = NETWORK_CONFIG_SIZE"
| "account_space (ANode n) = NODE_RECORD_SIZE"
| "account_space (AInstance i) = INSTANCE_RECORD_SIZE"
| "account_space (AEscrow e) = PAYMENT_ESCROW_SIZE"

definition empty_escrow :: payment_escrow where
  "empty_escrow = \<lparr>esc_agent = 0, esc_instance_id = 0, esc_deposited = 0, esc_distributed = 0,
     esc_rate_per_hour = 0, esc_last_distribution_at = 0, esc_bump = 0\<rparr>"

section \<open>Errors\<close>

datatype supaba_error =
    EndpointTooLong | RegionTooLong | InvalidCapacity | NodeNotActive | NodeNotDeregistering
  | CooldownNotElapsed | ActiveInstancesRemaining | NodeAtCapacity | TooManyReplicas | DekTooLong
  | Unauthorized | InvalidStatusTransition | InstanceNotActive | InvalidMint | InvalidAmount
  | Overflow | InsufficientFunds | InvalidSlashPercentage | InvalidCooldown | CapacityBelowActive
  | ReplicaAccountMismatch | InvalidReplicaNode | ReplicaNodeNotActive | InvalidPrimaryNode

text \<open>
  The failures of the account checks that the framework derives from the \<open>Accounts\<close> structs,
  and a refusal by a program the registry calls (system, token, associated token).
\<close>

datatype anchor_error =
    AccountNotLoaded | AccountNotSigner | ConstraintSeeds | ConstraintRaw
  | ConstraintTokenMint | ConstraintTokenOwner | AccountNotAssociatedTokenAccount

datatype reg_error = Supaba supaba_error | Anchor anchor_error | CpiFailed

section \<open>Events\<close>

datatype event =
    ConfigInitialized pubkey u64 u64 pubkey
  | NodeRegistered pubkey string u8 u64
  | NodeUpdated pubkey
  | HeartbeatRecorded pubkey i64
  | NodeDeregistering pubkey i64
  | StakeClaimed pubkey u64
  | InstanceAllocated pubkey instance_id pubkey
  | InstanceActivated instance_id
  | InstanceStatusUpdated instance_id
  | InstanceDestroyed instance_id pubkey
  | PaymentDeposited pubkey instance_id u64 u64
  | PaymentDistributed instance_id u64 u64
  | MerkleRootCommitted instance_id "256 word"
  | NodeSlashed pubkey u64 slash_proof_type
  | InstanceMigrated instance_id pubkey pubkey

end
