(* ===== verification/Registry_Platform.thy ===== *)
theory Registry_Platform
  imports Registry_Types
begin

text \<open>
  The chain the registry runs on. The runtime, the system program, the token program and the
  associated-token program are not part of the repository: they are the fields of \<open>platform\<close>,
  and what the registry relies on is stated in \<open>platform_ok\<close> (their documented behaviour). The
  chain state is the registry's account store, the ledger of lamports and token accounts, and
  the event log.
\<close>

section \<open>Ledger and chain state\<close>

record token_account =
  tok_owner :: pubkey
  tok_mint :: pubkey
  tok_amount :: u64

record ledger =
  lamports :: "pubkey \<Rightarrow> u64"
  tokens :: "pubkey \<Rightarrow> token_account option"
  mints :: "pubkey list"

record chain =
  accounts :: "pubkey \<Rightarrow> account option"
  ledger :: ledger
  log :: "event list"

text \<open>A transaction brings its signers and the clock's \<open>unix_timestamp\<close>.\<close>

record tx =
  tx_signers :: "pubkey list"
  tx_now :: i64

datatype seed = SBytes string | SKey pubkey | SId instance_id

record platform =
  find_pda :: "seed list \<Rightarrow> (pubkey \<times> u8) option"
  create_pda :: "seed list \<Rightarrow> u8 \<Rightarrow> pubkey option"
  sys_create :: "ledger \<Rightarrow> pubkey \<Rightarrow> pubkey \<Rightarrow> nat \<Rightarrow> ledger option"
  sys_transfer :: "ledger \<Rightarrow> pubkey \<Rightarrow> pubkey \<Rightarrow> u64 \<Rightarrow> ledger option"
  spl_transfer :: "ledger \<Rightarrow> pubkey \<Rightarrow> pubkey \<Rightarrow> pubkey \<Rightarrow> bool \<Rightarrow> u64 \<Rightarrow> ledger option"
  ata_address :: "pubkey \<Rightarrow> pubkey \<Rightarrow> pubkey"
  ata_create :: "ledger \<Rightarrow> pubkey \<Rightarrow> pubkey \<Rightarrow> pubkey \<Rightarrow> pubkey \<Rightarrow> ledger option"

section \<open>What the registry relies on\<close>

text \<open>
  \<open>moved ls ls' a b n\<close>: exactly \<open>n\<close> lamports went from \<open>a\<close> to \<open>b\<close>.
\<close>

definition moved :: "(pubkey \<Rightarrow> u64) \<Rightarrow> (pubkey \<Rightarrow> u64) \<Rightarrow> pubkey \<Rightarrow> pubkey \<Rightarrow> u64 \<Rightarrow> bool" where
  "moved ls ls' a b n \<longleftrightarrow>
     (\<forall>k. k \<noteq> a \<and> k \<noteq> b \<longrightarrow> ls' k = ls k) \<and>
     (a \<noteq> b \<longrightarrow> unat (ls' a) + unat n = unat (ls a) \<and> unat (ls' b) = unat (ls b) + unat n)"

definition token_moved ::
  "(pubkey \<Rightarrow> token_account option) \<Rightarrow> (pubkey \<Rightarrow> token_account option)
     \<Rightarrow> pubkey \<Rightarrow> pubkey \<Rightarrow> u64 \<Rightarrow> bool" where
  "token_moved ts ts' a b n \<longleftrightarrow>
     (\<exists>x y. ts a = Some x \<and> ts b = Some y \<and> tok_mint x = tok_mint y \<and> n \<le> tok_amount x \<and>
       (if a = b then ts' = ts
        else unat (tok_amount y) + unat n < 2 ^ 64 \<and>
             ts' = ts(a \<mapsto> x\<lparr>tok_amount := tok_amount x - n\<rparr>,
                      b \<mapsto> y\<lparr>tok_amount := tok_amount y + n\<rparr>)))"

text \<open>
  \<^item> \<open>find_program_address\<close> returns an address that \<open>create_program_address\<close> gives for the
    same seeds and the bump it found.
  \<^item> The system program's transfer and account creation move lamports from the payer to the
    target, create nothing out of nothing and leave token accounts alone.
  \<^item> The token program moves tokens of one mint between two token accounts, only with the
    authority's signature.
  \<^item> The associated token program creates an empty token account at a fresh address.
\<close>

definition pda_law :: "platform \<Rightarrow> bool" where
  "pda_law P \<longleftrightarrow> (\<forall>s k b. find_pda P s = Some (k, b) \<longrightarrow> create_pda P s b = Some k)"

definition system_law :: "platform \<Rightarrow> bool" where
  "system_law P \<longleftrightarrow>
     (\<forall>l a b n l'. sys_transfer P l a b n = Some l' \<longrightarrow>
        moved (lamports l) (lamports l') a b n \<and> tokens l' = tokens l \<and> mints l' = mints l) \<and>
     (\<forall>l a b n l'. sys_create P l a b n = Some l' \<longrightarrow>
        (\<exists>r. moved (lamports l) (lamports l') a b r) \<and> tokens l' = tokens l \<and>
        mints l' = mints l)"

definition spl_law :: "platform \<Rightarrow> bool" where
  "spl_law P \<longleftrightarrow>
     (\<forall>l a b au sg n l'. spl_transfer P l a b au sg n = Some l' \<longrightarrow>
        sg \<and> token_moved (tokens l) (tokens l') a b n \<and> lamports l' = lamports l \<and>
        mints l' = mints l)"

definition ata_law :: "platform \<Rightarrow> bool" where
  "ata_law P \<longleftrightarrow>
     (\<forall>l p a au m l'. ata_create P l p a au m = Some l' \<longrightarrow>
        a = ata_address P au m \<and> tokens l a = None \<and>
        tokens l' = (tokens l)(a \<mapsto> \<lparr>tok_owner = au, tok_mint = m, tok_amount = 0\<rparr>) \<and>
        (\<exists>r. moved (lamports l) (lamports l') p a r) \<and> mints l' = mints l)"

definition platform_ok :: "platform \<Rightarrow> bool" where
  "platform_ok P \<longleftrightarrow> pda_law P \<and> system_law P \<and> spl_law P \<and> ata_law P"

text \<open>
  Addresses derived by \<open>create_program_address\<close> are off the curve: no private key signs for
  them, so no signer of a transaction is the address of a registry account.
\<close>

definition tx_ok :: "platform \<Rightarrow> tx \<Rightarrow> bool" where
  "tx_ok P t \<longleftrightarrow>
     (\<forall>k \<in> set (tx_signers t). \<forall>s b. create_pda P s b \<noteq> Some k)"

lemma pda_found: "platform_ok P \<Longrightarrow> find_pda P s = Some (k, b) \<Longrightarrow> create_pda P s b = Some k"
  unfolding platform_ok_def pda_law_def by blast

lemma sys_transfer_ok:
  assumes "platform_ok P" "sys_transfer P l a c n = Some l'"
  shows "moved (lamports l) (lamports l') a c n" "tokens l' = tokens l" "mints l' = mints l"
  using assms unfolding platform_ok_def system_law_def by blast+

lemma sys_create_ok:
  assumes "platform_ok P" "sys_create P l a c sp = Some l'"
  shows "\<exists>r. moved (lamports l) (lamports l') a c r" "tokens l' = tokens l" "mints l' = mints l"
  using assms unfolding platform_ok_def system_law_def by blast+

lemma spl_transfer_ok:
  assumes "platform_ok P" "spl_transfer P l a c au sg n = Some l'"
  shows "sg" "token_moved (tokens l) (tokens l') a c n" "lamports l' = lamports l"
    "mints l' = mints l"
  using assms unfolding platform_ok_def spl_law_def by blast+

lemma ata_create_ok:
  assumes "platform_ok P" "ata_create P l p a au m = Some l'"
  shows "a = ata_address P au m" "tokens l a = None"
    "tokens l' = (tokens l)(a \<mapsto> \<lparr>tok_owner = au, tok_mint = m, tok_amount = 0\<rparr>)"
    "\<exists>r. moved (lamports l) (lamports l') p a r" "mints l' = mints l"
  using assms unfolding platform_ok_def ata_law_def by blast+

lemma moved_keeps_other:
  "moved ls ls' a b n \<Longrightarrow> k \<noteq> a \<Longrightarrow> unat (ls k) \<le> unat (ls' k)"
  by (cases "k = b") (auto simp: moved_def)

section \<open>Loading accounts\<close>

text \<open>
  \<open>Account<'info, T>\<close>: the account must be owned by the program and carry the discriminator of
  \<open>T\<close>; \<open>Signer<'info>\<close> must have signed.
\<close>

definition load_config :: "chain \<Rightarrow> pubkey \<Rightarrow> reg_error + network_config" where
  "load_config st k = (case accounts st k of
     Some (AConfig c) \<Rightarrow> Inr c | _ \<Rightarrow> Inl (Anchor AccountNotLoaded))"

definition load_node :: "chain \<Rightarrow> pubkey \<Rightarrow> reg_error + node_record" where
  "load_node st k = (case accounts st k of
     Some (ANode n) \<Rightarrow> Inr n | _ \<Rightarrow> Inl (Anchor AccountNotLoaded))"

definition load_instance :: "chain \<Rightarrow> pubkey \<Rightarrow> reg_error + instance_record" where
  "load_instance st k = (case accounts st k of
     Some (AInstance i) \<Rightarrow> Inr i | _ \<Rightarrow> Inl (Anchor AccountNotLoaded))"

definition load_escrow :: "chain \<Rightarrow> pubkey \<Rightarrow> reg_error + payment_escrow" where
  "load_escrow st k = (case accounts st k of
     Some (AEscrow e) \<Rightarrow> Inr e | _ \<Rightarrow> Inl (Anchor AccountNotLoaded))"

definition load_token :: "chain \<Rightarrow> pubkey \<Rightarrow> reg_error + token_account" where
  "load_token st k = ok_or (Anchor AccountNotLoaded) (tokens (ledger st) k)"

lemma load_ok [ok_simps]:
  "load_config st k = Inr c \<longleftrightarrow> accounts st k = Some (AConfig c)"
  "load_node st k = Inr n \<longleftrightarrow> accounts st k = Some (ANode n)"
  "load_instance st k = Inr i \<longleftrightarrow> accounts st k = Some (AInstance i)"
  "load_escrow st k = Inr e \<longleftrightarrow> accounts st k = Some (AEscrow e)"
  "load_token st k = Inr t \<longleftrightarrow> tokens (ledger st) k = Some t"
  by (auto simp: load_config_def load_node_def load_instance_def load_escrow_def load_token_def
      ok_or_ok split: option.splits account.splits)

definition signed :: "tx \<Rightarrow> pubkey \<Rightarrow> bool" where
  "signed t k \<longleftrightarrow> k \<in> set (tx_signers t)"

text \<open>\<open>seeds = ..., bump = b\<close> on an existing account.\<close>

definition seeds_ok :: "platform \<Rightarrow> seed list \<Rightarrow> u8 \<Rightarrow> pubkey \<Rightarrow> bool" where
  "seeds_ok P s b k \<longleftrightarrow> create_pda P s b = Some k"

text \<open>
  \<open>init, payer, space, seeds, bump\<close>: the address must be the canonical one of the seeds, and
  the system program must agree to create it, which it refuses for an account in use.
\<close>

definition init_pda ::
  "platform \<Rightarrow> chain \<Rightarrow> pubkey \<Rightarrow> pubkey \<Rightarrow> seed list \<Rightarrow> nat \<Rightarrow> reg_error + u8 \<times> ledger" where
  "init_pda P st payer k s space =
     rbind (ok_or (Anchor ConstraintSeeds) (find_pda P s)) (\<lambda>(addr, bump).
     guard (addr = k) (Anchor ConstraintSeeds) (
     guard (accounts st k = None) CpiFailed (
     rbind (ok_or CpiFailed (sys_create P (ledger st) payer k space)) (\<lambda>l.
     Inr (bump, l)))))"

lemma init_pda_ok [ok_simps]:
  "init_pda P st payer k s space = Inr r \<longleftrightarrow>
     find_pda P s = Some (k, fst r) \<and> accounts st k = None \<and>
     sys_create P (ledger st) payer k space = Some (snd r)"
  by (cases r) (auto simp: init_pda_def ok_simps split: prod.splits)

text \<open>Direct lamport moves of the handlers: debit first, then credit what is there now.\<close>

definition move_lamports :: "ledger \<Rightarrow> pubkey \<Rightarrow> pubkey \<Rightarrow> u64 \<Rightarrow> reg_error + ledger" where
  "move_lamports l src dst n =
     rbind (ok_or (Supaba InsufficientFunds) (checked_sub (lamports l src) n)) (\<lambda>a.
     let ls1 = (lamports l)(src := a) in
     rbind (ok_or (Supaba Overflow) (checked_add (ls1 dst) n)) (\<lambda>b.
     Inr (l\<lparr>lamports := ls1(dst := b)\<rparr>)))"

lemma move_lamports_ok:
  assumes "move_lamports l src dst n = Inr l'"
  shows "tokens l' = tokens l" "mints l' = mints l"
    and "src \<noteq> dst \<Longrightarrow> moved (lamports l) (lamports l') src dst n"
  using assms
  by (auto simp: move_lamports_def ok_simps Let_def moved_def
      dest!: checked_sub_unat checked_add_unat)

definition emit :: "event \<Rightarrow> chain \<Rightarrow> chain" where
  "emit e st = st\<lparr>log := log st @ [e]\<rparr>"

definition store :: "pubkey \<Rightarrow> account \<Rightarrow> chain \<Rightarrow> chain" where
  "store k a st = st\<lparr>accounts := (accounts st)(k \<mapsto> a)\<rparr>"

definition with_ledger :: "ledger \<Rightarrow> chain \<Rightarrow> chain" where
  "with_ledger l st = st\<lparr>ledger := l\<rparr>"

lemma chain_fields [simp]:
  "accounts (emit e st) = accounts st"
  "ledger (emit e st) = ledger st"
  "log (emit e st) = log st @ [e]"
  "accounts (store k a st) = (accounts st)(k \<mapsto> a)"
  "ledger (store k a st) = ledger st"
  "log (store k a st) = log st"
  "accounts (with_ledger l st) = accounts st"
  "ledger (with_ledger l st) = l"
  "log (with_ledger l st) = log st"
  by (simp_all add: emit_def store_def with_ledger_def)

end
