(* ===== verification/Registry_Instances.thy ===== *)
theory Registry_Instances
  imports Registry_Platform
begin

text \<open>
  Instructions on instance records: \<open>allocate_instance\<close>, \<open>activate_instance\<close>,
  \<open>update_instance_status\<close>, \<open>destroy_instance\<close>, \<open>commit_merkle_root\<close> and
  \<open>migrate_instance\<close>, in the form described in \<open>Registry_Nodes\<close>.
\<close>

abbreviation instance_seeds :: "pubkey \<Rightarrow> instance_id \<Rightarrow> seed list" where
  "instance_seeds agent iid \<equiv> [SBytes ''instance'', SKey agent, SId iid]"

abbreviation escrow_seeds :: "pubkey \<Rightarrow> instance_id \<Rightarrow> seed list" where
  "escrow_seeds agent iid \<equiv> [SBytes ''escrow'', SKey agent, SId iid]"

section \<open>allocate_instance\<close>

definition AllocateInstance_accounts ::
  "platform \<Rightarrow> tx \<Rightarrow> pubkey \<Rightarrow> pubkey \<Rightarrow> pubkey \<Rightarrow> instance_id \<Rightarrow> chain
     \<Rightarrow> reg_error + node_record \<times> u8 \<times> ledger" where
  "AllocateInstance_accounts P t inst primary agent iid st =
     rbind (load_node st primary) (\<lambda>p.
     guard (signed t agent) (Anchor AccountNotSigner) (
     rbind (init_pda P st agent inst (instance_seeds agent iid) INSTANCE_RECORD_SIZE)
       (\<lambda>(bump, l).
     guard (node_state p = NodeActive) (Supaba NodeNotActive) (
     Inr (p, bump, l)))))"

text \<open>
  The loop over \<open>replica_nodes\<close>, position by position against the remaining accounts (the
  lengths agree when it starts). Wrong owner, wrong discriminator and undecodable data are the
  one error \<open>InvalidReplicaNode\<close>: what is not a node record in the account store.
\<close>

fun check_replicas :: "chain \<Rightarrow> pubkey list \<Rightarrow> pubkey list \<Rightarrow> reg_error + unit" where
  "check_replicas st (r # rs) (k # ks) =
     guard (r = k) (Supaba ReplicaAccountMismatch) (
     case accounts st r of
       Some (ANode n) \<Rightarrow>
         guard (node_state n = NodeActive) (Supaba ReplicaNodeNotActive) (check_replicas st rs ks)
     | _ \<Rightarrow> Inl (Supaba InvalidReplicaNode))"
| "check_replicas st _ _ = Inr ()"

definition allocate_instance ::
  "platform \<Rightarrow> tx \<Rightarrow> pubkey \<Rightarrow> pubkey \<Rightarrow> pubkey \<Rightarrow> pubkey list
     \<Rightarrow> instance_id \<Rightarrow> pubkey list \<Rightarrow> u8 list \<Rightarrow> chain \<Rightarrow> reg_error + chain" where
  "allocate_instance P t inst primary agent remaining iid replica_nodes encrypted_dek st =
     rbind (AllocateInstance_accounts P t inst primary agent iid st) (\<lambda>(p, bump, l).
     guard (length replica_nodes \<le> MAX_REPLICA_NODES) (Supaba TooManyReplicas) (
     guard (length encrypted_dek \<le> MAX_ENCRYPTED_DEK_LEN) (Supaba DekTooLong) (
     guard (node_state p = NodeActive) (Supaba NodeNotActive) (
     guard (node_active_instances p < node_capacity p) (Supaba NodeAtCapacity) (
     guard (length remaining = length replica_nodes) (Supaba ReplicaAccountMismatch) (
     rbind (check_replicas st remaining replica_nodes) (\<lambda>_.
     rbind (ok_or (Supaba Overflow) (checked_add (node_active_instances p) 1)) (\<lambda>cnt.
     let p' = p\<lparr>node_active_instances := cnt\<rparr>;
         i = \<lparr>inst_agent = agent, inst_id = iid, inst_primary_node = primary,
              inst_replica_nodes = replica_nodes, inst_encrypted_dek = encrypted_dek,
              inst_merkle_root = 0, inst_status = Provisioning,
              inst_created_at = tx_now t, inst_updated_at = tx_now t, inst_bump = bump\<rparr>
     in Inr (emit (InstanceAllocated agent iid primary)
              (store primary (ANode p') (store inst (AInstance i) (with_ledger l st))))))))))))"

section \<open>activate_instance and commit_merkle_root\<close>

text \<open>The structs \<open>ActivateInstance\<close> and \<open>CommitMerkleRoot\<close> are the same.\<close>

definition operator_instance_accounts ::
  "platform \<Rightarrow> tx \<Rightarrow> pubkey \<Rightarrow> pubkey \<Rightarrow> pubkey \<Rightarrow> instance_id \<Rightarrow> chain
     \<Rightarrow> reg_error + instance_record" where
  "operator_instance_accounts P t inst primary operator iid st =
     rbind (load_instance st inst) (\<lambda>i.
     rbind (load_node st primary) (\<lambda>p.
     guard (signed t operator) (Anchor AccountNotSigner) (
     guard (seeds_ok P (instance_seeds (inst_agent i) iid) (inst_bump i) inst)
       (Anchor ConstraintSeeds) (
     guard (primary = inst_primary_node i) (Supaba Unauthorized) (
     guard (node_operator p = operator) (Supaba Unauthorized) (
     Inr i))))))"

definition activate_instance ::
  "platform \<Rightarrow> tx \<Rightarrow> pubkey \<Rightarrow> pubkey \<Rightarrow> pubkey \<Rightarrow> instance_id
     \<Rightarrow> chain \<Rightarrow> reg_error + chain" where
  "activate_instance P t inst primary operator iid st =
     rbind (operator_instance_accounts P t inst primary operator iid st) (\<lambda>i.
     guard (inst_status i = Provisioning) (Supaba InvalidStatusTransition) (
     Inr (emit (InstanceActivated (inst_id i))
           (store inst (AInstance (i\<lparr>inst_status := InstanceActive,
                                     inst_updated_at := tx_now t\<rparr>)) st))))"

definition commit_merkle_root ::
  "platform \<Rightarrow> tx \<Rightarrow> pubkey \<Rightarrow> pubkey \<Rightarrow> pubkey \<Rightarrow> instance_id \<Rightarrow> 256 word
     \<Rightarrow> chain \<Rightarrow> reg_error + chain" where
  "commit_merkle_root P t inst primary operator iid root st =
     rbind (operator_instance_accounts P t inst primary operator iid st) (\<lambda>i.
     guard (inst_status i = InstanceActive) (Supaba InstanceNotActive) (
     Inr (emit (MerkleRootCommitted (inst_id i) root)
           (store inst (AInstance (i\<lparr>inst_merkle_root := root,
                                     inst_updated_at := tx_now t\<rparr>)) st))))"

section \<open>update_instance_status\<close>

definition UpdateInstanceStatus_accounts ::
  "platform \<Rightarrow> tx \<Rightarrow> pubkey \<Rightarrow> pubkey \<Rightarrow> pubkey \<Rightarrow> instance_id \<Rightarrow> chain
     \<Rightarrow> reg_error + instance_record \<times> node_record" where
  "UpdateInstanceStatus_accounts P t inst primary signer iid st =
     rbind (load_instance st inst) (\<lambda>i.
     rbind (load_node st primary) (\<lambda>p.
     guard (signed t signer) (Anchor AccountNotSigner) (
     guard (seeds_ok P (instance_seeds (inst_agent i) iid) (inst_bump i) inst)
       (Anchor ConstraintSeeds) (
     guard (primary = inst_primary_node i) (Supaba Unauthorized) (
     Inr (i, p))))))"

fun status_permitted :: "instance_status \<Rightarrow> bool \<Rightarrow> bool \<Rightarrow> reg_error + unit" where
  "status_permitted InstanceSuspended is_agent is_node_operator =
     guard (is_agent \<or> is_node_operator) (Supaba Unauthorized) (Inr ())"
| "status_permitted Destroyed is_agent is_node_operator =
     guard is_agent (Supaba Unauthorized) (Inr ())"
| "status_permitted Migrating is_agent is_node_operator =
     guard is_node_operator (Supaba Unauthorized) (Inr ())"
| "status_permitted _ is_agent is_node_operator = Inl (Supaba InvalidStatusTransition)"

definition update_instance_status ::
  "platform \<Rightarrow> tx \<Rightarrow> pubkey \<Rightarrow> pubkey \<Rightarrow> pubkey \<Rightarrow> instance_id \<Rightarrow> instance_status
     \<Rightarrow> chain \<Rightarrow> reg_error + chain" where
  "update_instance_status P t inst primary signer iid new_status st =
     rbind (UpdateInstanceStatus_accounts P t inst primary signer iid st) (\<lambda>(i, p).
     rbind (status_permitted new_status (signer = inst_agent i) (signer = node_operator p)) (\<lambda>_.
     Inr (emit (InstanceStatusUpdated (inst_id i))
           (store inst (AInstance (i\<lparr>inst_status := new_status,
                                     inst_updated_at := tx_now t\<rparr>)) st))))"

section \<open>destroy_instance\<close>

definition DestroyInstance_accounts ::
  "platform \<Rightarrow> tx \<Rightarrow> pubkey \<Rightarrow> pubkey \<Rightarrow> pubkey \<Rightarrow> pubkey \<Rightarrow> pubkey \<Rightarrow> pubkey
     \<Rightarrow> instance_id \<Rightarrow> chain \<Rightarrow> reg_error + instance_record \<times> node_record \<times> payment_escrow" where
  "DestroyInstance_accounts P t inst primary escrow escrow_token agent_token agent iid st =
     rbind (load_instance st inst) (\<lambda>i.
     rbind (load_node st primary) (\<lambda>p.
     rbind (load_escrow st escrow) (\<lambda>e.
     rbind (load_token st escrow_token) (\<lambda>et.
     rbind (load_token st agent_token) (\<lambda>at.
     guard (signed t agent) (Anchor AccountNotSigner) (
     guard (seeds_ok P (instance_seeds agent iid) (inst_bump i) inst) (Anchor ConstraintSeeds) (
     guard (inst_agent i = agent) (Supaba Unauthorized) (
     guard (primary = inst_primary_node i) (Supaba Unauthorized) (
     guard (seeds_ok P (escrow_seeds agent iid) (esc_bump e) escrow) (Anchor ConstraintSeeds) (
     guard (tok_owner et = escrow) (Anchor ConstraintRaw) (
     guard (tok_owner at = agent) (Anchor ConstraintRaw) (
     Inr (i, p, e)))))))))))))"

text \<open>
  \<open>CpiContext::new_with_signer\<close>: the escrow signs when the seeds derive its own address.
\<close>

definition escrow_transfer ::
  "platform \<Rightarrow> pubkey \<Rightarrow> pubkey \<Rightarrow> instance_id \<Rightarrow> u8 \<Rightarrow> ledger \<Rightarrow> pubkey \<Rightarrow> pubkey \<Rightarrow> u64
     \<Rightarrow> ledger option" where
  "escrow_transfer P escrow agent iid bump l src dst amount =
     spl_transfer P l src dst escrow (seeds_ok P (escrow_seeds agent iid) bump escrow) amount"

definition refund_escrow ::
  "platform \<Rightarrow> pubkey \<Rightarrow> instance_record \<Rightarrow> payment_escrow \<Rightarrow> pubkey \<Rightarrow> pubkey \<Rightarrow> ledger
     \<Rightarrow> reg_error + ledger" where
  "refund_escrow P escrow i e escrow_token agent_token l =
     rbind (ok_or (Supaba Overflow) (checked_sub (esc_deposited e) (esc_distributed e)))
       (\<lambda>remaining.
     if 0 < remaining
     then ok_or CpiFailed (escrow_transfer P escrow (inst_agent i) (inst_id i) (esc_bump e) l
            escrow_token agent_token remaining)
     else Inr l)"

definition destroy_instance ::
  "platform \<Rightarrow> tx \<Rightarrow> pubkey \<Rightarrow> pubkey \<Rightarrow> pubkey \<Rightarrow> pubkey \<Rightarrow> pubkey \<Rightarrow> pubkey
     \<Rightarrow> instance_id \<Rightarrow> chain \<Rightarrow> reg_error + chain" where
  "destroy_instance P t inst primary escrow escrow_token agent_token agent iid st =
     rbind (DestroyInstance_accounts P t inst primary escrow escrow_token agent_token agent iid st)
       (\<lambda>(i, p, e).
     let i' = i\<lparr>inst_status := Destroyed, inst_updated_at := tx_now t\<rparr> in
     rbind (ok_or (Supaba Overflow) (checked_sub (node_active_instances p) 1)) (\<lambda>cnt.
     rbind (refund_escrow P escrow i e escrow_token agent_token (ledger st)) (\<lambda>l.
     Inr (emit (InstanceDestroyed (inst_id i) (inst_agent i))
           (store primary (ANode (p\<lparr>node_active_instances := cnt\<rparr>))
             (store inst (AInstance i') (with_ledger l st)))))))"

section \<open>migrate_instance\<close>

definition MigrateInstance_accounts ::
  "platform \<Rightarrow> tx \<Rightarrow> pubkey \<Rightarrow> pubkey \<Rightarrow> pubkey \<Rightarrow> pubkey \<Rightarrow> instance_id \<Rightarrow> chain
     \<Rightarrow> reg_error + instance_record \<times> node_record \<times> node_record" where
  "MigrateInstance_accounts P t inst old_primary new_primary agent iid st =
     rbind (load_instance st inst) (\<lambda>i.
     rbind (load_node st old_primary) (\<lambda>old.
     rbind (load_node st new_primary) (\<lambda>new.
     guard (signed t agent) (Anchor AccountNotSigner) (
     guard (seeds_ok P (instance_seeds agent iid) (inst_bump i) inst) (Anchor ConstraintSeeds) (
     guard (inst_agent i = agent) (Supaba Unauthorized) (
     guard (old_primary = inst_primary_node i) (Supaba InvalidPrimaryNode) (
     guard (node_state new = NodeActive) (Supaba NodeNotActive) (
     Inr (i, old, new)))))))))"

text \<open>
  The two node accounts are decoded separately and written back in field order, so when the
  same account is passed twice the second write-back is the one that stays.
\<close>

definition migrate_instance ::
  "platform \<Rightarrow> tx \<Rightarrow> pubkey \<Rightarrow> pubkey \<Rightarrow> pubkey \<Rightarrow> pubkey \<Rightarrow> instance_id
     \<Rightarrow> chain \<Rightarrow> reg_error + chain" where
  "migrate_instance P t inst old_primary new_primary agent iid st =
     rbind (MigrateInstance_accounts P t inst old_primary new_primary agent iid st)
       (\<lambda>(i, old, new).
     guard (node_state new = NodeActive) (Supaba NodeNotActive) (
     guard (node_active_instances new < node_capacity new) (Supaba NodeAtCapacity) (
     rbind (ok_or (Supaba Overflow) (checked_sub (node_active_instances old) 1)) (\<lambda>o_cnt.
     rbind (ok_or (Supaba Overflow) (checked_add (node_active_instances new) 1)) (\<lambda>n_cnt.
     let i' = i\<lparr>inst_primary_node := new_primary, inst_status := Migrating,
                inst_updated_at := tx_now t\<rparr>
     in Inr (emit (InstanceMigrated (inst_id i) old_primary new_primary)
              (store new_primary (ANode (new\<lparr>node_active_instances := n_cnt\<rparr>))
                (store old_primary (ANode (old\<lparr>node_active_instances := o_cnt\<rparr>))
                  (store inst (AInstance i') st)))))))))"

end
