(* ===== verification/Registry_Nodes.thy ===== *)
theory Registry_Nodes
  imports Registry_Platform
begin

text \<open>
  Instructions on the configuration and on node records: \<open>initialize_config\<close>,
  \<open>register_node\<close>, \<open>update_node\<close>, \<open>heartbeat\<close>, \<open>deregister_node\<close>, \<open>claim_stake\<close> and
  \<open>slash_node\<close>. Each instruction is a function \<open>..._accounts\<close> for its \<open>Accounts\<close> struct (loads
  and signer checks in field order, then initialisations, then the constraints) and the handler,
  which returns the error or the new chain; an error leaves the chain as it was.
\<close>

section \<open>initialize_config\<close>

definition InitializeConfig_accounts ::
  "platform \<Rightarrow> tx \<Rightarrow> pubkey \<Rightarrow> pubkey \<Rightarrow> chain \<Rightarrow> reg_error + u8 \<times> ledger" where
  "InitializeConfig_accounts P t config authority st =
     guard (signed t authority) (Anchor AccountNotSigner) (
     init_pda P st authority config [SBytes ''config''] NETWORK_CONFIG_SIZE)"

definition initialize_config ::
  "platform \<Rightarrow> tx \<Rightarrow> pubkey \<Rightarrow> pubkey \<Rightarrow> u64 \<Rightarrow> u64 \<Rightarrow> pubkey \<Rightarrow> i64 \<Rightarrow> u8
     \<Rightarrow> chain \<Rightarrow> reg_error + chain" where
  "initialize_config P t config authority min_stake default_rate usdc_mint cooldown slash_pct st =
     rbind (InitializeConfig_accounts P t config authority st) (\<lambda>(bump, l).
     guard (slash_pct \<le> 100) (Supaba InvalidSlashPercentage) (
     guard (0 \<le> sint cooldown) (Supaba InvalidCooldown) (
     let c = \<lparr>cfg_authority = authority, cfg_min_stake = min_stake,
              cfg_default_rate_per_hour = default_rate, cfg_usdc_mint = usdc_mint,
              cfg_deregistration_cooldown = cooldown, cfg_slash_percentage = slash_pct,
              cfg_bump = bump\<rparr>
     in Inr (emit (ConfigInitialized authority min_stake default_rate usdc_mint)
              (store config (AConfig c) (with_ledger l st))))))"

section \<open>register_node\<close>

text \<open>\<open>seeds = [b"config"], bump = config.bump\<close>, shared by the contexts that read the config.\<close>

definition config_ok :: "platform \<Rightarrow> pubkey \<Rightarrow> network_config \<Rightarrow> bool" where
  "config_ok P k c \<longleftrightarrow> seeds_ok P [SBytes ''config''] (cfg_bump c) k"

definition RegisterNode_accounts ::
  "platform \<Rightarrow> tx \<Rightarrow> pubkey \<Rightarrow> pubkey \<Rightarrow> pubkey \<Rightarrow> chain
     \<Rightarrow> reg_error + network_config \<times> u8 \<times> ledger" where
  "RegisterNode_accounts P t node operator config st =
     guard (signed t operator) (Anchor AccountNotSigner) (
     rbind (load_config st config) (\<lambda>c.
     rbind (init_pda P st operator node [SBytes ''node'', SKey operator] NODE_RECORD_SIZE)
       (\<lambda>(bump, l).
     guard (config_ok P config c) (Anchor ConstraintSeeds) (
     Inr (c, bump, l)))))"

definition register_node ::
  "platform \<Rightarrow> tx \<Rightarrow> pubkey \<Rightarrow> pubkey \<Rightarrow> pubkey \<Rightarrow> string \<Rightarrow> u8 \<Rightarrow> string
     \<Rightarrow> chain \<Rightarrow> reg_error + chain" where
  "register_node P t node operator config endpoint capacity region st =
     rbind (RegisterNode_accounts P t node operator config st) (\<lambda>(c, bump, l).
     guard (length endpoint \<le> MAX_ENDPOINT_LEN) (Supaba EndpointTooLong) (
     guard (length region \<le> MAX_REGION_LEN) (Supaba RegionTooLong) (
     guard (0 < capacity) (Supaba InvalidCapacity) (
     let stake_amount = cfg_min_stake c in
     rbind (ok_or CpiFailed (sys_transfer P l operator node stake_amount)) (\<lambda>l'.
     let n = \<lparr>node_operator = operator, node_endpoint = endpoint, node_capacity = capacity,
              node_active_instances = 0, node_stake = stake_amount,
              node_registered_at = tx_now t, node_last_heartbeat = tx_now t,
              node_state = NodeActive, node_region = region, node_bump = bump\<rparr>
     in Inr (emit (NodeRegistered operator endpoint capacity stake_amount)
              (store node (ANode n) (with_ledger l' st))))))))"

section \<open>update_node, heartbeat, deregister_node\<close>

text \<open>The structs \<open>UpdateNode\<close>, \<open>Heartbeat\<close> and \<open>DeregisterNode\<close> are the same.\<close>

definition own_node_accounts ::
  "platform \<Rightarrow> tx \<Rightarrow> pubkey \<Rightarrow> pubkey \<Rightarrow> chain \<Rightarrow> reg_error + node_record" where
  "own_node_accounts P t node operator st =
     rbind (load_node st node) (\<lambda>n.
     guard (signed t operator) (Anchor AccountNotSigner) (
     guard (seeds_ok P [SBytes ''node'', SKey operator] (node_bump n) node)
       (Anchor ConstraintSeeds) (
     guard (node_operator n = operator) (Supaba Unauthorized) (
     Inr n))))"

definition set_endpoint :: "string option \<Rightarrow> node_record \<Rightarrow> reg_error + node_record" where
  "set_endpoint endpoint n = (case endpoint of
     None \<Rightarrow> Inr n
   | Some ep \<Rightarrow> guard (length ep \<le> MAX_ENDPOINT_LEN) (Supaba EndpointTooLong) (
       Inr (n\<lparr>node_endpoint := ep\<rparr>)))"

definition set_capacity :: "u8 option \<Rightarrow> node_record \<Rightarrow> reg_error + node_record" where
  "set_capacity capacity n = (case capacity of
     None \<Rightarrow> Inr n
   | Some cap \<Rightarrow> guard (0 < cap) (Supaba InvalidCapacity) (
       guard (node_active_instances n \<le> cap) (Supaba CapacityBelowActive) (
       Inr (n\<lparr>node_capacity := cap\<rparr>))))"

definition set_region :: "string option \<Rightarrow> node_record \<Rightarrow> reg_error + node_record" where
  "set_region region n = (case region of
     None \<Rightarrow> Inr n
   | Some reg \<Rightarrow> guard (length reg \<le> MAX_REGION_LEN) (Supaba RegionTooLong) (
       Inr (n\<lparr>node_region := reg\<rparr>)))"

definition update_node ::
  "platform \<Rightarrow> tx \<Rightarrow> pubkey \<Rightarrow> pubkey \<Rightarrow> string option \<Rightarrow> u8 option \<Rightarrow> string option
     \<Rightarrow> chain \<Rightarrow> reg_error + chain" where
  "update_node P t node operator endpoint capacity region st =
     rbind (own_node_accounts P t node operator st) (\<lambda>n.
     guard (node_state n = NodeActive) (Supaba NodeNotActive) (
     rbind (set_endpoint endpoint n) (\<lambda>n1.
     rbind (set_capacity capacity n1) (\<lambda>n2.
     rbind (set_region region n2) (\<lambda>n3.
     Inr (emit (NodeUpdated (node_operator n3)) (store node (ANode n3) st)))))))"

definition heartbeat ::
  "platform \<Rightarrow> tx \<Rightarrow> pubkey \<Rightarrow> pubkey \<Rightarrow> chain \<Rightarrow> reg_error + chain" where
  "heartbeat P t node operator st =
     rbind (own_node_accounts P t node operator st) (\<lambda>n.
     guard (node_state n = NodeActive) (Supaba NodeNotActive) (
     Inr (emit (HeartbeatRecorded (node_operator n) (tx_now t))
           (store node (ANode (n\<lparr>node_last_heartbeat := tx_now t\<rparr>)) st))))"

definition deregister_node ::
  "platform \<Rightarrow> tx \<Rightarrow> pubkey \<Rightarrow> pubkey \<Rightarrow> chain \<Rightarrow> reg_error + chain" where
  "deregister_node P t node operator st =
     rbind (own_node_accounts P t node operator st) (\<lambda>n.
     guard (node_state n = NodeActive) (Supaba NodeNotActive) (
     Inr (emit (NodeDeregistering (node_operator n) (tx_now t))
           (store node (ANode (n\<lparr>node_state := Deregistering,
                                 node_last_heartbeat := tx_now t\<rparr>)) st))))"

section \<open>claim_stake\<close>

definition ClaimStake_accounts ::
  "platform \<Rightarrow> tx \<Rightarrow> pubkey \<Rightarrow> pubkey \<Rightarrow> pubkey \<Rightarrow> chain
     \<Rightarrow> reg_error + node_record \<times> network_config" where
  "ClaimStake_accounts P t node operator config st =
     rbind (load_node st node) (\<lambda>n.
     guard (signed t operator) (Anchor AccountNotSigner) (
     rbind (load_config st config) (\<lambda>c.
     guard (seeds_ok P [SBytes ''node'', SKey operator] (node_bump n) node)
       (Anchor ConstraintSeeds) (
     guard (node_operator n = operator) (Supaba Unauthorized) (
     guard (config_ok P config c) (Anchor ConstraintSeeds) (
     Inr (n, c)))))))"

definition claim_stake ::
  "platform \<Rightarrow> tx \<Rightarrow> pubkey \<Rightarrow> pubkey \<Rightarrow> pubkey \<Rightarrow> chain \<Rightarrow> reg_error + chain" where
  "claim_stake P t node operator config st =
     rbind (ClaimStake_accounts P t node operator config st) (\<lambda>(n, c).
     guard (node_state n = Deregistering) (Supaba NodeNotDeregistering) (
     guard (node_active_instances n = 0) (Supaba ActiveInstancesRemaining) (
     let elapsed = i64_saturating_sub (tx_now t) (node_last_heartbeat n) in
     guard (sint (cfg_deregistration_cooldown c) \<le> sint elapsed) (Supaba CooldownNotElapsed) (
     let stake_amount = node_stake n;
         n' = n\<lparr>node_stake := 0, node_state := Deregistered\<rparr> in
     rbind (move_lamports (ledger st) node operator stake_amount) (\<lambda>l.
     Inr (emit (StakeClaimed (node_operator n) stake_amount)
           (store node (ANode n') (with_ledger l st))))))))"

section \<open>slash_node\<close>

definition SlashNode_accounts ::
  "platform \<Rightarrow> tx \<Rightarrow> pubkey \<Rightarrow> pubkey \<Rightarrow> pubkey \<Rightarrow> chain
     \<Rightarrow> reg_error + node_record \<times> network_config" where
  "SlashNode_accounts P t node config authority st =
     rbind (load_node st node) (\<lambda>n.
     rbind (load_config st config) (\<lambda>c.
     guard (signed t authority) (Anchor AccountNotSigner) (
     guard (config_ok P config c) (Anchor ConstraintSeeds) (
     guard (cfg_authority c = authority) (Supaba Unauthorized) (
     Inr (n, c))))))"

definition slash_amount :: "node_record \<Rightarrow> network_config \<Rightarrow> reg_error + u64" where
  "slash_amount n c =
     rbind (ok_or (Supaba Overflow)
              (checked_mul (node_stake n) (ucast (cfg_slash_percentage c)))) (\<lambda>x.
     ok_or (Supaba Overflow) (checked_div x 100))"

definition slash_node ::
  "platform \<Rightarrow> tx \<Rightarrow> pubkey \<Rightarrow> pubkey \<Rightarrow> pubkey \<Rightarrow> slash_proof_type
     \<Rightarrow> chain \<Rightarrow> reg_error + chain" where
  "slash_node P t node config authority proof_type st =
     rbind (SlashNode_accounts P t node config authority st) (\<lambda>(n, c).
     rbind (slash_amount n c) (\<lambda>amount.
     rbind (ok_or (Supaba Overflow) (checked_sub (node_stake n) amount)) (\<lambda>stake'.
     let n' = n\<lparr>node_stake := stake', node_state := NodeSuspended\<rparr> in
     rbind (move_lamports (ledger st) node authority amount) (\<lambda>l.
     Inr (emit (NodeSlashed (node_operator n) amount proof_type)
           (store node (ANode n') (with_ledger l st)))))))"

end
