(* ===== verification/Registry_Payments.thy ===== *)
theory Registry_Payments
  imports Registry_Instances Registry_Nodes
begin

text \<open>
  The payment instructions \<open>deposit_payment\<close> and \<open>distribute_payment\<close>.
\<close>

section \<open>deposit_payment\<close>

text \<open>
  \<open>init_if_needed\<close> on the escrow: an absent account is created and reads as all zeroes, an
  existing one is decoded; the address must be the canonical one either way.
\<close>

definition init_escrow ::
  "platform \<Rightarrow> chain \<Rightarrow> pubkey \<Rightarrow> pubkey \<Rightarrow> instance_id
     \<Rightarrow> reg_error + payment_escrow \<times> u8 \<times> ledger" where
  "init_escrow P st agent escrow iid =
     rbind (ok_or (Anchor ConstraintSeeds) (find_pda P (escrow_seeds agent iid))) (\<lambda>(addr, bump).
     guard (addr = escrow) (Anchor ConstraintSeeds) (
     case accounts st escrow of
       None \<Rightarrow>
         rbind (ok_or CpiFailed (sys_create P (ledger st) agent escrow PAYMENT_ESCROW_SIZE)) (\<lambda>l.
         Inr (empty_escrow, bump, l))
     | Some _ \<Rightarrow> rbind (load_escrow st escrow) (\<lambda>e. Inr (e, bump, ledger st))))"

definition init_escrow_token ::
  "platform \<Rightarrow> ledger \<Rightarrow> pubkey \<Rightarrow> pubkey \<Rightarrow> pubkey \<Rightarrow> pubkey \<Rightarrow> reg_error + ledger" where
  "init_escrow_token P l agent escrow_token escrow mint =
     (case tokens l escrow_token of
        None \<Rightarrow> ok_or CpiFailed (ata_create P l agent escrow_token escrow mint)
      | Some tk \<Rightarrow>
          guard (tok_mint tk = mint) (Anchor ConstraintTokenMint) (
          guard (tok_owner tk = escrow) (Anchor ConstraintTokenOwner) (
          guard (escrow_token = ata_address P escrow mint)
            (Anchor AccountNotAssociatedTokenAccount) (
          Inr l))))"

definition DepositPayment_accounts ::
  "platform \<Rightarrow> tx \<Rightarrow> pubkey \<Rightarrow> pubkey \<Rightarrow> pubkey \<Rightarrow> pubkey \<Rightarrow> pubkey \<Rightarrow> pubkey
     \<Rightarrow> instance_id \<Rightarrow> chain \<Rightarrow> reg_error + payment_escrow \<times> u8 \<times> network_config \<times> ledger" where
  "DepositPayment_accounts P t escrow escrow_token agent_token usdc_mint config agent iid st =
     rbind (load_token st agent_token) (\<lambda>at.
     guard (usdc_mint \<in> set (mints (ledger st))) (Anchor AccountNotLoaded) (
     rbind (load_config st config) (\<lambda>c.
     guard (signed t agent) (Anchor AccountNotSigner) (
     rbind (init_escrow P st agent escrow iid) (\<lambda>(e, bump, l).
     rbind (init_escrow_token P l agent escrow_token escrow usdc_mint) (\<lambda>l'.
     guard (tok_owner at = agent) (Anchor ConstraintRaw) (
     guard (tok_mint at = usdc_mint) (Anchor ConstraintRaw) (
     guard (config_ok P config c) (Anchor ConstraintSeeds) (
     guard (cfg_usdc_mint c = usdc_mint) (Supaba InvalidMint) (
     Inr (e, bump, c, l')))))))))))"

definition first_deposit ::
  "tx \<Rightarrow> pubkey \<Rightarrow> instance_id \<Rightarrow> network_config \<Rightarrow> u8 \<Rightarrow> payment_escrow \<Rightarrow> payment_escrow" where
  "first_deposit t agent iid c bump e =
     (if esc_deposited e = 0 \<and> esc_distributed e = 0 \<and> esc_rate_per_hour e = 0
      then e\<lparr>esc_agent := agent, esc_instance_id := iid,
             esc_rate_per_hour := cfg_default_rate_per_hour c,
             esc_last_distribution_at := tx_now t, esc_bump := bump\<rparr>
      else e)"

definition deposit_payment ::
  "platform \<Rightarrow> tx \<Rightarrow> pubkey \<Rightarrow> pubkey \<Rightarrow> pubkey \<Rightarrow> pubkey \<Rightarrow> pubkey \<Rightarrow> pubkey
     \<Rightarrow> instance_id \<Rightarrow> u64 \<Rightarrow> chain \<Rightarrow> reg_error + chain" where
  "deposit_payment P t escrow escrow_token agent_token usdc_mint config agent iid amount st =
     rbind (DepositPayment_accounts P t escrow escrow_token agent_token usdc_mint config agent
              iid st) (\<lambda>(e, bump, c, l).
     guard (0 < amount) (Supaba InvalidAmount) (
     rbind (ok_or CpiFailed
              (spl_transfer P l agent_token escrow_token agent (signed t agent) amount)) (\<lambda>l'.
     let e1 = first_deposit t agent iid c bump e in
     rbind (ok_or (Supaba Overflow) (checked_add (esc_deposited e1) amount)) (\<lambda>total.
     let e2 = e1\<lparr>esc_deposited := total\<rparr> in
     Inr (emit (PaymentDeposited (esc_agent e2) iid amount total)
           (store escrow (AEscrow e2) (with_ledger l' st)))))))"

section \<open>distribute_payment\<close>

definition DistributePayment_accounts ::
  "platform \<Rightarrow> tx \<Rightarrow> pubkey \<Rightarrow> pubkey \<Rightarrow> pubkey \<Rightarrow> pubkey \<Rightarrow> pubkey \<Rightarrow> instance_id \<Rightarrow> chain
     \<Rightarrow> reg_error + payment_escrow \<times> instance_record" where
  "DistributePayment_accounts P t escrow escrow_token inst primary_token cranker iid st =
     rbind (load_escrow st escrow) (\<lambda>e.
     rbind (load_token st escrow_token) (\<lambda>et.
     rbind (load_instance st inst) (\<lambda>i.
     rbind (load_token st primary_token) (\<lambda>pt.
     guard (signed t cranker) (Anchor AccountNotSigner) (
     guard (seeds_ok P (escrow_seeds (esc_agent e) iid) (esc_bump e) escrow)
       (Anchor ConstraintSeeds) (
     guard (tok_owner et = escrow) (Anchor ConstraintRaw) (
     guard (seeds_ok P (instance_seeds (inst_agent i) iid) (inst_bump i) inst)
       (Anchor ConstraintSeeds) (
     Inr (e, i)))))))))"

text \<open>
  What is due: the elapsed seconds (an \<open>i64\<close> difference read as \<open>u64\<close>) times the hourly rate,
  capped at what the escrow has left.
\<close>

definition payment_due :: "i64 \<Rightarrow> payment_escrow \<Rightarrow> reg_error + u64" where
  "payment_due now e =
     rbind (ok_or (Supaba Overflow) (i64_checked_sub now (esc_last_distribution_at e))) (\<lambda>elapsed.
     rbind (ok_or (Supaba Overflow) (checked_mul elapsed (esc_rate_per_hour e))) (\<lambda>x.
     rbind (ok_or (Supaba Overflow) (checked_div x 3600)) (\<lambda>payment.
     rbind (ok_or (Supaba Overflow) (checked_sub (esc_deposited e) (esc_distributed e)))
       (\<lambda>remaining.
     Inr (min payment remaining)))))"

definition share_of :: "u64 \<Rightarrow> u64 \<Rightarrow> reg_error + u64" where
  "share_of percent amount =
     rbind (ok_or (Supaba Overflow) (checked_mul amount percent)) (\<lambda>x.
     ok_or (Supaba Overflow) (checked_div x 100))"

text \<open>One payment: skipped when the share is zero, else transferred and added to the total.\<close>

definition pay ::
  "(ledger \<Rightarrow> pubkey \<Rightarrow> u64 \<Rightarrow> ledger option) \<Rightarrow> u64 \<Rightarrow> pubkey \<Rightarrow> ledger \<times> u64
     \<Rightarrow> reg_error + ledger \<times> u64" where
  "pay xfer share dst acc = (case acc of (l, paid) \<Rightarrow>
     if 0 < share then
       rbind (ok_or CpiFailed (xfer l dst share)) (\<lambda>l'.
       rbind (ok_or (Supaba Overflow) (checked_add paid share)) (\<lambda>paid'.
       Inr (l', paid')))
     else Inr (l, paid))"

text \<open>\<open>for i in 0..replica_count\<close>, leaving the loop when the remaining accounts run out.\<close>

fun pay_replicas ::
  "(ledger \<Rightarrow> pubkey \<Rightarrow> u64 \<Rightarrow> ledger option) \<Rightarrow> u64 \<Rightarrow> nat \<Rightarrow> pubkey list \<Rightarrow> ledger \<times> u64
     \<Rightarrow> reg_error + ledger \<times> u64" where
  "pay_replicas xfer share (Suc n) (a # as) acc =
     rbind (pay xfer share a acc) (pay_replicas xfer share n as)"
| "pay_replicas xfer share _ _ acc = Inr acc"

definition pay_all ::
  "(ledger \<Rightarrow> pubkey \<Rightarrow> u64 \<Rightarrow> ledger option) \<Rightarrow> u64 \<Rightarrow> u64 \<Rightarrow> nat \<Rightarrow> pubkey
     \<Rightarrow> pubkey list \<Rightarrow> ledger \<Rightarrow> reg_error + ledger \<times> u64" where
  "pay_all xfer primary_share replica_share n primary_token remaining l =
     rbind (pay xfer primary_share primary_token (l, 0))
       (pay_replicas xfer replica_share n remaining)"

definition distribute_payment ::
  "platform \<Rightarrow> tx \<Rightarrow> pubkey \<Rightarrow> pubkey \<Rightarrow> pubkey \<Rightarrow> pubkey \<Rightarrow> pubkey \<Rightarrow> pubkey list
     \<Rightarrow> instance_id \<Rightarrow> chain \<Rightarrow> reg_error + chain" where
  "distribute_payment P t escrow escrow_token inst primary_token cranker remaining iid st =
     rbind (DistributePayment_accounts P t escrow escrow_token inst primary_token cranker iid st)
       (\<lambda>(e, i).
     rbind (payment_due (tx_now t) e) (\<lambda>actual.
     if actual = 0 then Inr st
     else
       rbind (share_of 70 actual) (\<lambda>primary_share.
       rbind (share_of 15 actual) (\<lambda>replica_share.
       rbind (pay_all (\<lambda>l. escrow_transfer P escrow (esc_agent e) (esc_instance_id e) (esc_bump e)
                             l escrow_token)
                primary_share replica_share
                (min (length (inst_replica_nodes i)) MAX_REPLICA_NODES)
                primary_token remaining (ledger st)) (\<lambda>(l, total).
       rbind (ok_or (Supaba Overflow) (checked_add (esc_distributed e) total)) (\<lambda>dist.
       rbind (ok_or (Supaba Overflow) (checked_sub (esc_deposited e) dist)) (\<lambda>new_remaining.
       let e' = e\<lparr>esc_distributed := dist, esc_last_distribution_at := tx_now t\<rparr>;
           i' = (if new_remaining = 0
                 then i\<lparr>inst_status := InstanceSuspended, inst_updated_at := tx_now t\<rparr> else i)
       in Inr (emit (PaymentDistributed (inst_id i) total new_remaining)
                (store inst (AInstance i') (store escrow (AEscrow e') (with_ledger l st)))))))))))"

end
