(* ===== verification/Registry.thy ===== *)
theory Registry
  imports Registry_Payments
begin

text \<open>
  The registry as a state machine: the fifteen instructions behind one dispatcher, the step
  relation of the chain (a successful instruction, or a transaction of other programs that
  leaves the registry's accounts alone), the well-formedness invariant of the account store
  and its preservation, one lemma per instruction.
\<close>

section \<open>Dispatcher and steps\<close>

datatype instruction =
    InitializeConfig pubkey pubkey u64 u64 pubkey i64 u8
  | RegisterNode pubkey pubkey pubkey string u8 string
  | UpdateNode pubkey pubkey "string option" "u8 option" "string option"
  | Heartbeat pubkey pubkey
  | DeregisterNode pubkey pubkey
  | ClaimStake pubkey pubkey pubkey
  | AllocateInstance pubkey pubkey pubkey "pubkey list" instance_id "pubkey list" "u8 list"
  | ActivateInstance pubkey pubkey pubkey instance_id
  | UpdateInstanceStatus pubkey pubkey pubkey instance_id instance_status
  | DestroyInstance pubkey pubkey pubkey pubkey pubkey pubkey instance_id
  | DepositPayment pubkey pubkey pubkey pubkey pubkey pubkey instance_id u64
  | DistributePayment pubkey pubkey pubkey pubkey pubkey "pubkey list" instance_id
  | CommitMerkleRoot pubkey pubkey pubkey instance_id "256 word"
  | SlashNode pubkey pubkey pubkey slash_proof_type
  | MigrateInstance pubkey pubkey pubkey pubkey instance_id

fun execute :: "platform \<Rightarrow> tx \<Rightarrow> instruction \<Rightarrow> chain \<Rightarrow> reg_error + chain" where
  "execute P t (InitializeConfig k a ms dr um cd sp) = initialize_config P t k a ms dr um cd sp"
| "execute P t (RegisterNode k oper cfg ep cap reg) = register_node P t k oper cfg ep cap reg"
| "execute P t (UpdateNode k oper ep cap reg) = update_node P t k oper ep cap reg"
| "execute P t (Heartbeat k oper) = heartbeat P t k oper"
| "execute P t (DeregisterNode k oper) = deregister_node P t k oper"
| "execute P t (ClaimStake k oper cfg) = claim_stake P t k oper cfg"
| "execute P t (AllocateInstance k p a rem iid reps dek) =
     allocate_instance P t k p a rem iid reps dek"
| "execute P t (ActivateInstance k p oper iid) = activate_instance P t k p oper iid"
| "execute P t (UpdateInstanceStatus k p s iid ns) = update_instance_status P t k p s iid ns"
| "execute P t (DestroyInstance k p e et at a iid) = destroy_instance P t k p e et at a iid"
| "execute P t (DepositPayment e et at um cfg a iid amt) =
     deposit_payment P t e et at um cfg a iid amt"
| "execute P t (DistributePayment e et k pt cr rem iid) =
     distribute_payment P t e et k pt cr rem iid"
| "execute P t (CommitMerkleRoot k p oper iid root) = commit_merkle_root P t k p oper iid root"
| "execute P t (SlashNode k cfg a pt) = slash_node P t k cfg a pt"
| "execute P t (MigrateInstance k o' n' a iid) = migrate_instance P t k o' n' a iid"

text \<open>
  What other programs can do to the ledger: they cannot debit an account the registry owns and
  cannot take tokens out of (or retype) a token account whose owner is a registry address.
\<close>

definition outside_change :: "chain \<Rightarrow> ledger \<Rightarrow> bool" where
  "outside_change st l' \<longleftrightarrow>
     (\<forall>k. accounts st k \<noteq> None \<longrightarrow> unat (lamports (ledger st) k) \<le> unat (lamports l' k)) \<and>
     (\<forall>k tk. tokens (ledger st) k = Some tk \<and> accounts st (tok_owner tk) \<noteq> None \<longrightarrow>
        (\<exists>tk'. tokens l' k = Some tk' \<and> tok_owner tk' = tok_owner tk \<and>
               tok_mint tk' = tok_mint tk \<and> tok_amount tk \<le> tok_amount tk'))"

inductive chain_step :: "platform \<Rightarrow> chain \<Rightarrow> chain \<Rightarrow> bool" for P where
  instruction_step:
    "tx_ok P t \<Longrightarrow> execute P t ix st = Inr st' \<Longrightarrow> chain_step P st st'"
| outside_step:
    "outside_change st l' \<Longrightarrow> chain_step P st (with_ledger l' st)"

inductive_cases chain_stepE: "chain_step P st st'"

definition genesis :: "chain \<Rightarrow> bool" where
  "genesis st \<longleftrightarrow> accounts st = (\<lambda>_. None) \<and> log st = []"

section \<open>The invariant\<close>

fun record_ok :: "platform \<Rightarrow> pubkey \<Rightarrow> account \<Rightarrow> bool" where
  "record_ok P k (AConfig c) \<longleftrightarrow>
     config_ok P k c \<and> cfg_slash_percentage c \<le> 100 \<and> 0 \<le> sint (cfg_deregistration_cooldown c)"
| "record_ok P k (ANode n) \<longleftrightarrow>
     seeds_ok P [SBytes ''node'', SKey (node_operator n)] (node_bump n) k \<and>
     length (node_endpoint n) \<le> MAX_ENDPOINT_LEN \<and> length (node_region n) \<le> MAX_REGION_LEN \<and>
     0 < node_capacity n \<and> node_active_instances n \<le> node_capacity n \<and>
     (node_state n = Deregistered \<longrightarrow> node_stake n = 0 \<and> node_active_instances n = 0)"
| "record_ok P k (AInstance i) \<longleftrightarrow>
     seeds_ok P (instance_seeds (inst_agent i) (inst_id i)) (inst_bump i) k \<and>
     length (inst_replica_nodes i) \<le> MAX_REPLICA_NODES \<and>
     length (inst_encrypted_dek i) \<le> MAX_ENCRYPTED_DEK_LEN"
| "record_ok P k (AEscrow e) \<longleftrightarrow>
     seeds_ok P (escrow_seeds (esc_agent e) (esc_instance_id e)) (esc_bump e) k \<and>
     esc_distributed e \<le> esc_deposited e"

definition records_ok :: "platform \<Rightarrow> (pubkey \<Rightarrow> account option) \<Rightarrow> bool" where
  "records_ok P m \<longleftrightarrow> (\<forall>k a. m k = Some a \<longrightarrow> record_ok P k a)"

definition stake_backed :: "(pubkey \<Rightarrow> account option) \<Rightarrow> ledger \<Rightarrow> bool" where
  "stake_backed m l \<longleftrightarrow>
     (\<forall>k n. m k = Some (ANode n) \<longrightarrow> unat (node_stake n) \<le> unat (lamports l k))"

definition primaries_exist :: "(pubkey \<Rightarrow> account option) \<Rightarrow> bool" where
  "primaries_exist m \<longleftrightarrow>
     (\<forall>k i. m k = Some (AInstance i) \<longrightarrow> (\<exists>n. m (inst_primary_node i) = Some (ANode n)))"

definition registry_inv :: "platform \<Rightarrow> chain \<Rightarrow> bool" where
  "registry_inv P st \<longleftrightarrow>
     records_ok P (accounts st) \<and> stake_backed (accounts st) (ledger st) \<and>
     primaries_exist (accounts st)"

named_theorems keep \<open>how an update of the store or the ledger keeps the parts of the invariant\<close>

lemma records_ok_upd [keep]:
  "records_ok P m \<Longrightarrow> record_ok P k a \<Longrightarrow> records_ok P (m(k \<mapsto> a))"
  by (auto simp: records_ok_def)

lemma records_okD: "records_ok P m \<Longrightarrow> m k = Some a \<Longrightarrow> record_ok P k a"
  by (auto simp: records_ok_def)

fun staked :: "account \<Rightarrow> nat" where
  "staked (ANode n) = unat (node_stake n)"
| "staked _ = 0"

lemma stake_backed_upd [keep]:
  "stake_backed m l \<Longrightarrow> staked a \<le> unat (lamports l k) \<Longrightarrow> stake_backed (m(k \<mapsto> a)) l"
  by (auto simp: stake_backed_def)

lemma stake_backedD:
  "stake_backed m l \<Longrightarrow> m k = Some (ANode n) \<Longrightarrow> unat (node_stake n) \<le> unat (lamports l k)"
  by (auto simp: stake_backed_def)

lemma stake_backed_grow:
  "stake_backed m l \<Longrightarrow>
     (\<And>k n. m k = Some (ANode n) \<Longrightarrow> unat (lamports l k) \<le> unat (lamports l' k)) \<Longrightarrow>
     stake_backed m l'"
  unfolding stake_backed_def by (meson order_trans)

lemma stake_backed_same: "lamports l' = lamports l \<Longrightarrow> stake_backed m l' = stake_backed m l"
  by (simp add: stake_backed_def)

lemma primaries_existD:
  "primaries_exist m \<Longrightarrow> m k = Some (AInstance i) \<Longrightarrow>
     \<exists>n. m (inst_primary_node i) = Some (ANode n)"
  by (auto simp: primaries_exist_def)

text \<open>An update that turns no node record into something else keeps the primaries.\<close>

lemma primaries_exist_upd:
  assumes m: "primaries_exist m"
    and node: "(\<exists>n. m k = Some (ANode n)) \<Longrightarrow> \<exists>n. a = ANode n"
    and inst: "\<And>i. a = AInstance i \<Longrightarrow> \<exists>n. m (inst_primary_node i) = Some (ANode n)"
  shows "primaries_exist (m(k \<mapsto> a))"
  unfolding primaries_exist_def
proof (intro allI impI)
  fix q i assume q: "(m(k \<mapsto> a)) q = Some (AInstance i)"
  have "\<exists>n. m (inst_primary_node i) = Some (ANode n)"
    using q inst primaries_existD [OF m] by (cases "q = k") auto
  then show "\<exists>n. (m(k \<mapsto> a)) (inst_primary_node i) = Some (ANode n)"
    using node by (cases "inst_primary_node i = k") auto
qed

lemma primaries_exist_kinds [keep]:
  "primaries_exist m \<Longrightarrow> primaries_exist (m(k \<mapsto> ANode n))"
  "primaries_exist m \<Longrightarrow> (\<And>n. m k \<noteq> Some (ANode n)) \<Longrightarrow>
     m (inst_primary_node i) = Some (ANode p) \<Longrightarrow> primaries_exist (m(k \<mapsto> AInstance i))"
  "primaries_exist m \<Longrightarrow> (\<And>n. m k \<noteq> Some (ANode n)) \<Longrightarrow> primaries_exist (m(k \<mapsto> AEscrow e))"
  "primaries_exist m \<Longrightarrow> (\<And>n. m k \<noteq> Some (ANode n)) \<Longrightarrow> primaries_exist (m(k \<mapsto> AConfig c))"
  by (rule primaries_exist_upd; auto)+

lemma record_at_pda:
  assumes "record_ok P k a"
  shows "\<exists>s b. create_pda P s b = Some k"
  using assms by (cases a) (auto simp: seeds_ok_def config_ok_def)

lemma signer_not_stored:
  assumes "records_ok P m" "tx_ok P t" "signed t k"
  shows "m k = None"
proof (cases "m k")
  case (Some a)
  then show ?thesis
    using record_at_pda [OF records_okD [OF assms(1) Some]] assms(2,3)
    by (auto simp: tx_ok_def signed_def)
qed simp

section \<open>Preservation, one lemma per instruction\<close>

text \<open>What the invariant says of one account.\<close>

lemma node_inv:
  assumes "accounts st k = Some (ANode n)" "registry_inv P st"
  shows "seeds_ok P [SBytes ''node'', SKey (node_operator n)] (node_bump n) k \<and>
     length (node_endpoint n) \<le> MAX_ENDPOINT_LEN \<and> length (node_region n) \<le> MAX_REGION_LEN \<and>
     0 < node_capacity n \<and> node_active_instances n \<le> node_capacity n \<and>
     (node_state n = Deregistered \<longrightarrow> node_stake n = 0 \<and> node_active_instances n = 0) \<and>
     unat (node_stake n) \<le> unat (lamports (ledger st) k)"
  using assms(2) records_okD [of P "accounts st", OF _ assms(1)] stake_backedD [of "accounts st" "ledger st", OF _ assms(1)]
  by (auto simp: registry_inv_def)

lemma instance_inv:
  assumes "accounts st k = Some (AInstance i)" "registry_inv P st"
  shows "seeds_ok P (instance_seeds (inst_agent i) (inst_id i)) (inst_bump i) k \<and>
     length (inst_replica_nodes i) \<le> MAX_REPLICA_NODES \<and>
     length (inst_encrypted_dek i) \<le> MAX_ENCRYPTED_DEK_LEN \<and>
     (\<exists>n. accounts st (inst_primary_node i) = Some (ANode n))"
  using assms(2) records_okD [of P "accounts st", OF _ assms(1)] primaries_existD [of "accounts st", OF _ assms(1)]
  by (auto simp: registry_inv_def)

lemma escrow_inv:
  assumes "accounts st k = Some (AEscrow e)" "registry_inv P st"
  shows "seeds_ok P (escrow_seeds (esc_agent e) (esc_instance_id e)) (esc_bump e) k \<and>
     esc_distributed e \<le> esc_deposited e"
  using assms(2) records_okD [of P "accounts st", OF _ assms(1)] by (auto simp: registry_inv_def)

lemma config_inv:
  assumes "accounts st k = Some (AConfig c)" "registry_inv P st"
  shows "config_ok P k c \<and> cfg_slash_percentage c \<le> 100 \<and>
     0 \<le> sint (cfg_deregistration_cooldown c)"
  using assms(2) records_okD [of P "accounts st", OF _ assms(1)] by (auto simp: registry_inv_def)

text \<open>What an update of the chain has to provide.\<close>

lemma emit_inv [keep]: "registry_inv P st \<Longrightarrow> registry_inv P (emit e st)"
  by (simp add: registry_inv_def)

lemma store_node_inv [keep]:
  "registry_inv P st \<Longrightarrow> record_ok P k (ANode n) \<Longrightarrow>
     unat (node_stake n) \<le> unat (lamports (ledger st) k) \<Longrightarrow> registry_inv P (store k (ANode n) st)"
  by (auto simp: registry_inv_def intro!: keep simp del: record_ok.simps)

lemma store_instance_inv [keep]:
  "registry_inv P st \<Longrightarrow> record_ok P k (AInstance i) \<Longrightarrow> (\<And>n. accounts st k \<noteq> Some (ANode n)) \<Longrightarrow>
     \<exists>n. accounts st (inst_primary_node i) = Some (ANode n) \<Longrightarrow>
     registry_inv P (store k (AInstance i) st)"
  by (auto simp: registry_inv_def intro!: keep simp del: record_ok.simps)

lemma store_escrow_inv [keep]:
  "registry_inv P st \<Longrightarrow> record_ok P k (AEscrow e) \<Longrightarrow> (\<And>n. accounts st k \<noteq> Some (ANode n)) \<Longrightarrow>
     registry_inv P (store k (AEscrow e) st)"
  by (auto simp: registry_inv_def intro!: keep simp del: record_ok.simps)

lemma store_config_inv [keep]:
  "registry_inv P st \<Longrightarrow> record_ok P k (AConfig c) \<Longrightarrow> (\<And>n. accounts st k \<noteq> Some (ANode n)) \<Longrightarrow>
     registry_inv P (store k (AConfig c) st)"
  by (auto simp: registry_inv_def intro!: keep simp del: record_ok.simps)

lemma with_ledger_inv:
  assumes "registry_inv P st"
    and "\<And>k. accounts st k \<noteq> None \<Longrightarrow> unat (lamports (ledger st) k) \<le> unat (lamports l k)"
  shows "registry_inv P (with_ledger l st)"
  using assms unfolding registry_inv_def chain_fields
  by (blast intro: stake_backed_grow)

text \<open>
  Ledger changes that an instruction makes on behalf of a signer: no registry account is
  debited, because a signer is not a registry account.
\<close>

lemma payer_keeps_inv:
  assumes inv: "registry_inv P st" and t: "tx_ok P t" "signed t payer"
    and mv: "moved (lamports (ledger st)) (lamports l) payer dst n"
  shows "registry_inv P (with_ledger l st)"
proof (rule with_ledger_inv [OF inv])
  fix k assume "accounts st k \<noteq> None"
  then have "k \<noteq> payer"
    using signer_not_stored [of P "accounts st", OF _ t] inv by (auto simp: registry_inv_def)
  then show "unat (lamports (ledger st) k) \<le> unat (lamports l k)"
    using moved_keeps_other [OF mv] by blast
qed

lemma sys_create_inv:
  "platform_ok P \<Longrightarrow> registry_inv P st \<Longrightarrow> tx_ok P t \<Longrightarrow> signed t payer \<Longrightarrow>
     sys_create P (ledger st) payer k n = Some l \<Longrightarrow> registry_inv P (with_ledger l st)"
  using sys_create_ok(1) payer_keeps_inv by blast

lemma same_lamports_inv:
  "registry_inv P st \<Longrightarrow> lamports l = lamports (ledger st) \<Longrightarrow> registry_inv P (with_ledger l st)"
  by (rule with_ledger_inv) auto

lemma initialize_config_inv:
  assumes "platform_ok P" "tx_ok P t" "registry_inv P st"
    "initialize_config P t k a ms dr um cd sp st = Inr st'"
  shows "registry_inv P st'"
  using assms
  by (auto simp: initialize_config_def InitializeConfig_accounts_def ok_simps Let_def
      config_ok_def seeds_ok_def split: prod.splits
      intro!: keep dest: pda_found intro: sys_create_inv)

lemma set_endpoint_ok:
  "set_endpoint ep n = Inr n' \<Longrightarrow> record_ok P k (ANode n) \<Longrightarrow>
     record_ok P k (ANode n') \<and> node_stake n' = node_stake n \<and> node_operator n' = node_operator n"
  by (auto simp: set_endpoint_def split: option.splits if_splits)

lemma set_capacity_ok:
  "set_capacity cap n = Inr n' \<Longrightarrow> record_ok P k (ANode n) \<Longrightarrow>
     record_ok P k (ANode n') \<and> node_stake n' = node_stake n \<and> node_operator n' = node_operator n"
  by (auto simp: set_capacity_def split: option.splits if_splits)

lemma set_region_ok:
  "set_region reg n = Inr n' \<Longrightarrow> record_ok P k (ANode n) \<Longrightarrow>
     record_ok P k (ANode n') \<and> node_stake n' = node_stake n \<and> node_operator n' = node_operator n"
  by (auto simp: set_region_def split: option.splits if_splits)

lemma update_node_inv:
  assumes inv: "registry_inv P st" and up: "update_node P t k oper ep cap reg st = Inr st'"
  shows "registry_inv P st'"
proof -
  from up obtain n n1 n2 n3 where n: "accounts st k = Some (ANode n)"
    and e: "set_endpoint ep n = Inr n1" "set_capacity cap n1 = Inr n2" "set_region reg n2 = Inr n3"
    and st': "st' = emit (NodeUpdated (node_operator n3)) (store k (ANode n3) st)"
    by (auto simp: update_node_def own_node_accounts_def ok_simps)
  have "record_ok P k (ANode n)"
    using node_inv [OF n inv] by simp
  with e have "record_ok P k (ANode n3) \<and> node_stake n3 = node_stake n"
    by (metis set_endpoint_ok set_capacity_ok set_region_ok)
  then show ?thesis
    using inv node_inv [OF n inv] by (auto simp: st' intro!: keep simp del: record_ok.simps)
qed

lemma heartbeat_inv:
  "registry_inv P st \<Longrightarrow> heartbeat P t k oper st = Inr st' \<Longrightarrow> registry_inv P st'"
  by (clarsimp simp: heartbeat_def own_node_accounts_def ok_simps, frule (1) node_inv)
    (auto intro!: keep)

lemma deregister_node_inv:
  "registry_inv P st \<Longrightarrow> deregister_node P t k oper st = Inr st' \<Longrightarrow> registry_inv P st'"
  by (clarsimp simp: deregister_node_def own_node_accounts_def ok_simps, frule (1) node_inv)
    (auto intro!: keep)

lemma replace_node_inv:
  assumes inv: "registry_inv P st" and n: "record_ok P k (ANode n)"
    and stake: "unat (node_stake n) \<le> unat (lamports l k)"
    and others: "\<And>j. accounts st j \<noteq> None \<Longrightarrow> j \<noteq> k \<Longrightarrow>
      unat (lamports (ledger st) j) \<le> unat (lamports l j)"
  shows "registry_inv P (store k (ANode n) (with_ledger l st))"
  unfolding registry_inv_def chain_fields
proof (intro conjI)
  show "records_ok P ((accounts st)(k \<mapsto> ANode n))" "primaries_exist ((accounts st)(k \<mapsto> ANode n))"
    using inv n by (auto simp: registry_inv_def intro!: keep simp del: record_ok.simps)
  show "stake_backed ((accounts st)(k \<mapsto> ANode n)) l"
    unfolding stake_backed_def
  proof (intro allI impI)
    fix j m assume j: "((accounts st)(k \<mapsto> ANode n)) j = Some (ANode m)"
    show "unat (node_stake m) \<le> unat (lamports l j)"
    proof (cases "j = k")
      case False
      with j have "accounts st j = Some (ANode m)" by simp
      with node_inv [OF this inv] others [of j] False show ?thesis by simp
    qed (use j stake in simp)
  qed
qed

lemma register_node_inv:
  assumes P: "platform_ok P" and t: "tx_ok P t" and inv: "registry_inv P st"
    and reg: "register_node P t k oper cfg ep cap rg st = Inr st'"
  shows "registry_inv P st'"
proof -
  from reg obtain c bump l l' where
    acc: "RegisterNode_accounts P t k oper cfg st = Inr (c, bump, l)"
    and tr: "sys_transfer P l oper k (cfg_min_stake c) = Some l'"
    and len: "length ep \<le> MAX_ENDPOINT_LEN" "length rg \<le> MAX_REGION_LEN" "0 < cap"
    and st': "st' = emit (NodeRegistered oper ep cap (cfg_min_stake c)) (store k (ANode
      \<lparr>node_operator = oper, node_endpoint = ep, node_capacity = cap, node_active_instances = 0,
       node_stake = cfg_min_stake c, node_registered_at = tx_now t,
       node_last_heartbeat = tx_now t, node_state = NodeActive, node_region = rg,
       node_bump = bump\<rparr>) (with_ledger l' st))"
    by (auto simp: register_node_def ok_simps Let_def split: prod.splits)
  from acc have o: "signed t oper"
    and pda: "find_pda P [SBytes ''node'', SKey oper] = Some (k, bump)"
    and cr: "sys_create P (ledger st) oper k NODE_RECORD_SIZE = Some l"
    by (auto simp: RegisterNode_accounts_def ok_simps split: prod.splits)
  have k: "create_pda P [SBytes ''node'', SKey oper] bump = Some k"
    by (rule pda_found [OF P pda])
  with t o have ne: "oper \<noteq> k" by (auto simp: tx_ok_def signed_def)
  have free: "accounts st oper = None"
    using signer_not_stored [of P "accounts st", OF _ t o] inv by (auto simp: registry_inv_def)
  obtain r where m1: "moved (lamports (ledger st)) (lamports l) oper k r"
    using sys_create_ok(1) [OF P cr] by blast
  note m2 = sys_transfer_ok(1) [OF P tr]
  have grow: "unat (lamports (ledger st) j) \<le> unat (lamports l' j)" if "accounts st j \<noteq> None" for j
  proof -
    have "j \<noteq> oper" using that free by auto
    then show ?thesis using moved_keeps_other [OF m1] moved_keeps_other [OF m2] by (meson order_trans)
  qed
  show ?thesis
    unfolding st'
  proof (intro emit_inv replace_node_inv [OF inv])
    show "record_ok P k (ANode \<lparr>node_operator = oper, node_endpoint = ep, node_capacity = cap,
       node_active_instances = 0, node_stake = cfg_min_stake c, node_registered_at = tx_now t,
       node_last_heartbeat = tx_now t, node_state = NodeActive, node_region = rg,
       node_bump = bump\<rparr>)"
      using k len by (simp add: seeds_ok_def)
  qed (use ne m2 grow in \<open>auto simp: moved_def\<close>)
qed

lemma claim_stake_inv:
  assumes t: "tx_ok P t" and inv: "registry_inv P st"
    and cl: "claim_stake P t k oper cfg st = Inr st'"
  shows "registry_inv P st'"
proof -
  from cl obtain n l where n: "accounts st k = Some (ANode n)" and o: "signed t oper"
    and z: "node_active_instances n = 0"
    and mv: "move_lamports (ledger st) k oper (node_stake n) = Inr l"
    and st': "st' = emit (StakeClaimed (node_operator n) (node_stake n))
      (store k (ANode (n\<lparr>node_stake := 0, node_state := Deregistered\<rparr>)) (with_ledger l st))"
    by (auto simp: claim_stake_def ClaimStake_accounts_def ok_simps Let_def)
  have "k \<noteq> oper"
    using signer_not_stored [of P "accounts st", OF _ t o] inv n by (auto simp: registry_inv_def)
  note m = move_lamports_ok(3) [OF mv this]
  show ?thesis
    unfolding st' using node_inv [OF n inv] z moved_keeps_other [OF m]
    by (intro emit_inv replace_node_inv [OF inv]) auto
qed

lemma slash_node_inv:
  assumes t: "tx_ok P t" and inv: "registry_inv P st"
    and sl: "slash_node P t k cfg auth pt st = Inr st'"
  shows "registry_inv P st'"
proof -
  from sl obtain n a s l where n: "accounts st k = Some (ANode n)" and o: "signed t auth"
    and s: "checked_sub (node_stake n) a = Some s"
    and mv: "move_lamports (ledger st) k auth a = Inr l"
    and st': "st' = emit (NodeSlashed (node_operator n) a pt)
      (store k (ANode (n\<lparr>node_stake := s, node_state := NodeSuspended\<rparr>)) (with_ledger l st))"
    by (auto simp: slash_node_def SlashNode_accounts_def ok_simps Let_def)
  have ne: "k \<noteq> auth"
    using signer_not_stored [of P "accounts st", OF _ t o] inv n by (auto simp: registry_inv_def)
  note m = move_lamports_ok(3) [OF mv ne]
  have "unat s \<le> unat (lamports l k)"
    using node_inv [OF n inv] checked_sub_unat [OF s] m ne by (auto simp: moved_def)
  then show ?thesis
    unfolding st' using node_inv [OF n inv] moved_keeps_other [OF m]
    by (intro emit_inv replace_node_inv [OF inv]) auto
qed

lemma allocate_instance_inv:
  assumes P: "platform_ok P" and t: "tx_ok P t" and inv: "registry_inv P st"
    and al: "allocate_instance P t k p a rm iid reps dek st = Inr st'"
  shows "registry_inv P st'"
proof -
  from al obtain n bump l cnt where
    acc: "AllocateInstance_accounts P t k p a iid st = Inr (n, bump, l)"
    and len: "length reps \<le> MAX_REPLICA_NODES" "length dek \<le> MAX_ENCRYPTED_DEK_LEN"
    and cap: "node_active_instances n < node_capacity n" and act: "node_state n = NodeActive"
    and cnt: "checked_add (node_active_instances n) 1 = Some cnt"
    and st': "st' = emit (InstanceAllocated a iid p)
      (store p (ANode (n\<lparr>node_active_instances := cnt\<rparr>)) (store k (AInstance
        \<lparr>inst_agent = a, inst_id = iid, inst_primary_node = p, inst_replica_nodes = reps,
         inst_encrypted_dek = dek, inst_merkle_root = 0, inst_status = Provisioning,
         inst_created_at = tx_now t, inst_updated_at = tx_now t, inst_bump = bump\<rparr>)
        (with_ledger l st)))"
    by (auto simp: allocate_instance_def ok_simps Let_def split: prod.splits)
  from acc have n: "accounts st p = Some (ANode n)" and sg: "signed t a"
    and pda: "find_pda P (instance_seeds a iid) = Some (k, bump)" and free: "accounts st k = None"
    and cr: "sys_create P (ledger st) a k INSTANCE_RECORD_SIZE = Some l"
    by (auto simp: AllocateInstance_accounts_def ok_simps split: prod.splits)
  have inv1: "registry_inv P (with_ledger l st)"
    by (rule sys_create_inv [OF P inv t sg cr])
  have "cnt \<le> node_capacity n"
    using checked_add_unat [OF cnt] cap by (simp add: word_le_nat_alt word_less_nat_alt)
  moreover have "unat (node_stake n) \<le> unat (lamports l p)"
    using node_inv [OF _ inv1, of p n] n by simp
  ultimately show ?thesis
    unfolding st' using n len free act node_inv [OF n inv] pda_found [OF P pda]
    by (intro emit_inv store_node_inv store_instance_inv inv1) (auto simp: seeds_ok_def)
qed

lemma touch_instance_inv:
  assumes inv: "registry_inv P st" and i: "accounts st k = Some (AInstance i)"
    and i': "inst_agent i' = inst_agent i" "inst_id i' = inst_id i"
      "inst_bump i' = inst_bump i" "inst_replica_nodes i' = inst_replica_nodes i"
      "inst_encrypted_dek i' = inst_encrypted_dek i"
    and p: "\<exists>n. accounts st (inst_primary_node i') = Some (ANode n)"
  shows "registry_inv P (store k (AInstance i') st)"
  using instance_inv [OF i inv] i i' p by (intro store_instance_inv inv) auto

lemma activate_instance_inv:
  assumes inv: "registry_inv P st" and ac: "activate_instance P t k p oper iid st = Inr st'"
  shows "registry_inv P st'"
proof -
  from ac obtain i where i: "accounts st k = Some (AInstance i)"
    and st': "st' = emit (InstanceActivated (inst_id i)) (store k (AInstance
      (i\<lparr>inst_status := InstanceActive, inst_updated_at := tx_now t\<rparr>)) st)"
    by (auto simp: activate_instance_def operator_instance_accounts_def ok_simps)
  show ?thesis
    unfolding st' using instance_inv [OF i inv]
    by (intro emit_inv touch_instance_inv [OF inv i]) auto
qed

lemma commit_merkle_root_inv:
  assumes inv: "registry_inv P st" and co: "commit_merkle_root P t k p oper iid root st = Inr st'"
  shows "registry_inv P st'"
proof -
  from co obtain i where i: "accounts st k = Some (AInstance i)"
    and st': "st' = emit (MerkleRootCommitted (inst_id i) root) (store k (AInstance
      (i\<lparr>inst_merkle_root := root, inst_updated_at := tx_now t\<rparr>)) st)"
    by (auto simp: commit_merkle_root_def operator_instance_accounts_def ok_simps)
  show ?thesis
    unfolding st' using instance_inv [OF i inv]
    by (intro emit_inv touch_instance_inv [OF inv i]) auto
qed

lemma update_instance_status_inv:
  assumes inv: "registry_inv P st" and up: "update_instance_status P t k p s iid ns st = Inr st'"
  shows "registry_inv P st'"
proof -
  from up obtain i where i: "accounts st k = Some (AInstance i)"
    and st': "st' = emit (InstanceStatusUpdated (inst_id i)) (store k (AInstance
      (i\<lparr>inst_status := ns, inst_updated_at := tx_now t\<rparr>)) st)"
    by (auto simp: update_instance_status_def UpdateInstanceStatus_accounts_def ok_simps
        split: prod.splits)
  show ?thesis
    unfolding st' using instance_inv [OF i inv]
    by (intro emit_inv touch_instance_inv [OF inv i]) auto
qed

lemma escrow_transfer_lamports:
  "platform_ok P \<Longrightarrow> escrow_transfer P e a iid b l src dst n = Some l' \<Longrightarrow>
     lamports l' = lamports l"
  unfolding escrow_transfer_def by (rule spl_transfer_ok(3))

lemma refund_escrow_lamports:
  "platform_ok P \<Longrightarrow> refund_escrow P e i esc et at l = Inr l' \<Longrightarrow> lamports l' = lamports l"
  by (auto simp: refund_escrow_def ok_simps split: if_splits dest: escrow_transfer_lamports)

lemma destroy_instance_inv:
  assumes P: "platform_ok P" and inv: "registry_inv P st"
    and de: "destroy_instance P t k p e et at a iid st = Inr st'"
  shows "registry_inv P st'"
proof -
  from de obtain i n esc cnt l where
    acc: "DestroyInstance_accounts P t k p e et at a iid st = Inr (i, n, esc)"
    and cnt: "checked_sub (node_active_instances n) 1 = Some cnt"
    and rf: "refund_escrow P e i esc et at (ledger st) = Inr l"
    and st': "st' = emit (InstanceDestroyed (inst_id i) (inst_agent i))
      (store p (ANode (n\<lparr>node_active_instances := cnt\<rparr>)) (store k (AInstance
        (i\<lparr>inst_status := Destroyed, inst_updated_at := tx_now t\<rparr>)) (with_ledger l st)))"
    by (auto simp: destroy_instance_def ok_simps Let_def split: prod.splits)
  from acc have i: "accounts st k = Some (AInstance i)" and n: "accounts st p = Some (ANode n)"
    by (auto simp: DestroyInstance_accounts_def ok_simps)
  note lam = refund_escrow_lamports [OF P rf]
  have inv1: "registry_inv P (with_ledger l st)" by (rule same_lamports_inv [OF inv lam])
  have i1: "accounts (with_ledger l st) k = Some (AInstance i)" using i by simp
  have "cnt \<le> node_capacity n"
    using checked_sub_unat [OF cnt] node_inv [OF n inv] by (auto simp: word_le_nat_alt)
  moreover have "node_state n \<noteq> Deregistered"
    using checked_sub_unat [OF cnt] node_inv [OF n inv] by auto
  ultimately show ?thesis
    unfolding st' using n lam node_inv [OF n inv] instance_inv [OF i inv]
    by (intro emit_inv store_node_inv touch_instance_inv [OF inv1 i1]) auto
qed

lemma migrate_instance_inv:
  assumes inv: "registry_inv P st" and mi: "migrate_instance P t k o' n' a iid st = Inr st'"
  shows "registry_inv P st'"
proof -
  from mi obtain i old new oc nc where
    acc: "MigrateInstance_accounts P t k o' n' a iid st = Inr (i, old, new)"
    and cap: "node_active_instances new < node_capacity new" and act: "node_state new = NodeActive"
    and oc: "checked_sub (node_active_instances old) 1 = Some oc"
    and nc: "checked_add (node_active_instances new) 1 = Some nc"
    and st': "st' = emit (InstanceMigrated (inst_id i) o' n')
      (store n' (ANode (new\<lparr>node_active_instances := nc\<rparr>))
        (store o' (ANode (old\<lparr>node_active_instances := oc\<rparr>)) (store k (AInstance
          (i\<lparr>inst_primary_node := n', inst_status := Migrating, inst_updated_at := tx_now t\<rparr>))
          st)))"
    by (auto simp: migrate_instance_def ok_simps Let_def split: prod.splits)
  from acc have i: "accounts st k = Some (AInstance i)"
    and old: "accounts st o' = Some (ANode old)" and new: "accounts st n' = Some (ANode new)"
    by (auto simp: MigrateInstance_accounts_def ok_simps)
  have "oc \<le> node_capacity old"
    using checked_sub_unat [OF oc] node_inv [OF old inv] by (auto simp: word_le_nat_alt)
  moreover have "nc \<le> node_capacity new"
    using checked_add_unat [OF nc] cap by (simp add: word_le_nat_alt word_less_nat_alt)
  moreover have "node_state old \<noteq> Deregistered"
    using checked_sub_unat [OF oc] node_inv [OF old inv] by auto
  ultimately show ?thesis
    unfolding st' using new old act node_inv [OF old inv] node_inv [OF new inv]
    by (intro emit_inv store_node_inv touch_instance_inv [OF inv i]) auto
qed

lemma with_ledger_twice [simp]: "with_ledger l' (with_ledger l st) = with_ledger l' st"
  by (simp add: with_ledger_def)

lemma with_ledger_same [simp]: "with_ledger (ledger st) st = st"
  by (simp add: with_ledger_def)

lemma init_escrow_inv:
  assumes "platform_ok P" "tx_ok P t" "registry_inv P st" "signed t a"
    "init_escrow P st a e iid = Inr (esc, bump, l)"
  shows "registry_inv P (with_ledger l st)"
  using assms by (auto simp: init_escrow_def ok_simps intro: sys_create_inv split: prod.splits option.splits)

lemma init_escrow_record:
  assumes "platform_ok P" "registry_inv P st" "init_escrow P st a e iid = Inr (esc, bump, l)"
  shows "seeds_ok P (escrow_seeds a iid) bump e \<and> (\<forall>n. accounts st e \<noteq> Some (ANode n)) \<and>
     (accounts st e = Some (AEscrow esc) \<or> accounts st e = None \<and> esc = empty_escrow)"
  using assms
  by (auto simp: init_escrow_def ok_simps seeds_ok_def dest: pda_found
      split: prod.splits option.splits)

lemma init_escrow_token_inv:
  assumes P: "platform_ok P" and t: "tx_ok P t" "signed t a" and inv: "registry_inv P (with_ledger l st)"
    and it: "init_escrow_token P l a et e mint = Inr l'"
  shows "registry_inv P (with_ledger l' st)"
proof (cases "tokens l et")
  case None
  with it have "ata_create P l a et e mint = Some l'"
    by (simp add: init_escrow_token_def ok_simps)
  then obtain r where "moved (lamports l) (lamports l') a et r"
    using ata_create_ok(4) [OF P] by blast
  then have "moved (lamports (ledger (with_ledger l st))) (lamports l') a et r" by simp
  from payer_keeps_inv [OF inv t this] show ?thesis by simp
qed (use it inv in \<open>auto simp: init_escrow_token_def ok_simps\<close>)

lemma first_deposit_record:
  assumes inv: "registry_inv P st" and s: "seeds_ok P (escrow_seeds a iid) bump e"
    and esc: "accounts st e = Some (AEscrow esc) \<or> accounts st e = None \<and> esc = empty_escrow"
  shows "record_ok P e (AEscrow (first_deposit t a iid c bump esc)) \<and>
    esc_deposited (first_deposit t a iid c bump esc) = esc_deposited esc \<and>
    esc_distributed (first_deposit t a iid c bump esc) = esc_distributed esc"
  using s esc
proof (elim disjE)
  assume "accounts st e = Some (AEscrow esc)"
  with s show ?thesis
    using escrow_inv [of st e esc, OF _ inv] by (auto simp: first_deposit_def)
qed (auto simp: first_deposit_def empty_escrow_def)

lemma deposit_payment_inv:
  assumes P: "platform_ok P" and t: "tx_ok P t" and inv: "registry_inv P st"
    and de: "deposit_payment P t e et at um cfg a iid amt st = Inr st'"
  shows "registry_inv P st'"
proof -
  from de obtain esc bump c l l' tot where
    acc: "DepositPayment_accounts P t e et at um cfg a iid st = Inr (esc, bump, c, l)"
    and tr: "spl_transfer P l at et a (signed t a) amt = Some l'"
    and tot: "checked_add (esc_deposited (first_deposit t a iid c bump esc)) amt = Some tot"
    and st': "st' = emit (PaymentDeposited (esc_agent (first_deposit t a iid c bump esc)) iid amt tot)
      (store e (AEscrow ((first_deposit t a iid c bump esc)\<lparr>esc_deposited := tot\<rparr>))
        (with_ledger l' st))"
    by (auto simp: deposit_payment_def ok_simps Let_def split: prod.splits)
  from acc obtain l0 where sg: "signed t a" and ie: "init_escrow P st a e iid = Inr (esc, bump, l0)"
    and it: "init_escrow_token P l0 a et e um = Inr l"
    by (auto simp: DepositPayment_accounts_def ok_simps split: prod.splits)
  have "registry_inv P (with_ledger l st)"
    by (rule init_escrow_token_inv [OF P t sg init_escrow_inv [OF P t inv sg ie] it])
  from same_lamports_inv [OF this, of l'] spl_transfer_ok(3) [OF P tr]
  have inv': "registry_inv P (with_ledger l' st)" by simp
  note r = init_escrow_record [OF P inv ie]
  have rec: "record_ok P e (AEscrow (first_deposit t a iid c bump esc))"
    using first_deposit_record [OF inv] r by blast
  have "esc_distributed (first_deposit t a iid c bump esc) \<le> tot"
    using rec checked_add_unat [OF tot] by (simp add: word_le_nat_alt)
  then show ?thesis
    unfolding st' using rec r by (intro emit_inv store_escrow_inv inv') auto
qed

text \<open>A ledger relation that every single payment keeps is kept by the whole distribution.\<close>

lemma pay_rel:
  assumes "pay xfer s d (l, x) = Inr (l', x')" "R l l"
    and "\<And>l'. xfer l d s = Some l' \<Longrightarrow> R l l'"
  shows "R l l'"
  using assms by (auto simp: pay_def ok_simps split: if_splits)

lemma pay_replicas_rel:
  assumes "\<And>l. R l l" "\<And>l1 l2 l3. R l1 l2 \<Longrightarrow> R l2 l3 \<Longrightarrow> R l1 l3"
    and "\<And>l d l'. xfer l d s = Some l' \<Longrightarrow> R l l'"
    and "pay_replicas xfer s n as acc = Inr acc'"
  shows "R (fst acc) (fst acc')"
  using assms(4)
proof (induction n arbitrary: as acc)
  case (Suc n)
  show ?case
  proof (cases as)
    case (Cons a bs)
    with Suc.prems obtain mid where mid: "pay xfer s a acc = Inr mid"
      and rest: "pay_replicas xfer s n bs mid = Inr acc'"
      by (auto simp: ok_simps)
    have "R (fst acc) (fst mid)"
      using pay_rel [of xfer s a "fst acc" "snd acc" "fst mid" "snd mid" R] mid assms(1,3) by simp
    then show ?thesis using Suc.IH [OF rest] assms(2) by blast
  qed (use Suc.prems assms(1) in simp)
qed (use assms(1) in simp)

lemma pay_all_lamports:
  assumes P: "platform_ok P"
    and pa: "pay_all (\<lambda>l. escrow_transfer P e a iid b l et) s1 s2 n pt rem l = Inr (l', x)"
  shows "lamports l' = lamports l"
proof -
  let ?xfer = "\<lambda>l. escrow_transfer P e a iid b l et"
  let ?R = "\<lambda>l l'. lamports l' = lamports l"
  have x: "?xfer l1 d s = Some l2 \<Longrightarrow> ?R l1 l2" for l1 d s l2
    using escrow_transfer_lamports [OF P] by blast
  from pa obtain mid where mid: "pay ?xfer s1 pt (l, 0) = Inr mid"
    and rest: "pay_replicas ?xfer s2 n rem mid = Inr (l', x)"
    by (auto simp: pay_all_def ok_simps)
  have "?R l (fst mid)"
    using pay_rel [of ?xfer s1 pt l 0 "fst mid" "snd mid" ?R] mid x by simp
  moreover have "?R (fst mid) l'"
    using pay_replicas_rel [of ?R ?xfer s2, OF _ _ _ rest] x by simp
  ultimately show ?thesis by simp
qed

lemma distribute_payment_cases:
  assumes "distribute_payment P t e et k pt cr rm iid st = Inr st'"
  obtains (idle) esc i where
      "DistributePayment_accounts P t e et k pt cr iid st = Inr (esc, i)"
      "payment_due (tx_now t) esc = Inr 0" "st' = st"
  | (paid) esc i act s1 s2 l tot dist rem where
      "DistributePayment_accounts P t e et k pt cr iid st = Inr (esc, i)"
      "payment_due (tx_now t) esc = Inr act" "act \<noteq> 0"
      "share_of 70 act = Inr s1" "share_of 15 act = Inr s2"
      "pay_all (\<lambda>l. escrow_transfer P e (esc_agent esc) (esc_instance_id esc) (esc_bump esc)
         l et) s1 s2 (min (length (inst_replica_nodes i)) MAX_REPLICA_NODES) pt rm (ledger st)
       = Inr (l, tot)"
      "checked_add (esc_distributed esc) tot = Some dist"
      "checked_sub (esc_deposited esc) dist = Some rem"
      "st' = emit (PaymentDistributed (inst_id i) tot rem)
        (store k (AInstance (if rem = 0 then i\<lparr>inst_status := InstanceSuspended,
                                               inst_updated_at := tx_now t\<rparr> else i))
          (store e (AEscrow (esc\<lparr>esc_distributed := dist, esc_last_distribution_at := tx_now t\<rparr>))
            (with_ledger l st)))"
proof -
  from assms obtain esc i act where acc:
      "DistributePayment_accounts P t e et k pt cr iid st = Inr (esc, i)"
    and due: "payment_due (tx_now t) esc = Inr act"
    by (simp only: distribute_payment_def rbind_ok split_paired_Ex prod.case) blast
  show thesis
  proof (cases "act = 0")
    case True
    with assms acc due have "st' = st" by (simp add: distribute_payment_def)
    with acc due True show thesis using idle by simp
  next
    case False
    from assms show thesis
      unfolding distribute_payment_def acc due rbind_simps prod.case
      by (simp only: False if_False rbind_ok ok_or_ok split_paired_Ex prod.case Let_def sum.inject)
        (elim exE conjE, rule paid [OF acc due False], (assumption | erule sym)+)
  qed
qed

lemma DistributePayment_loads:
  assumes "DistributePayment_accounts P t e et k pt cr iid st = Inr (esc, i)"
  shows "accounts st e = Some (AEscrow esc)" "accounts st k = Some (AInstance i)"
    "\<exists>tk. tokens (ledger st) et = Some tk \<and> tok_owner tk = e"
  using assms by (auto simp: DistributePayment_accounts_def ok_simps)

lemma distribute_payment_inv:
  assumes P: "platform_ok P" and inv: "registry_inv P st"
    and di: "distribute_payment P t e et k pt cr rm iid st = Inr st'"
  shows "registry_inv P st'"
  using di
proof (cases rule: distribute_payment_cases)
  case (paid esc i act s1 s2 l tot dist rem)
  note ld = DistributePayment_loads [OF paid(1)]
  have inv1: "registry_inv P (with_ledger l st)"
    by (rule same_lamports_inv [OF inv pay_all_lamports [OF P paid(6)]])
  have "dist \<le> esc_deposited esc"
    using checked_sub_unat [OF paid(8)] by (simp add: word_le_nat_alt)
  then show ?thesis
    unfolding paid(9) using ld escrow_inv [OF ld(1) inv] instance_inv [OF ld(2) inv]
    by (intro emit_inv store_escrow_inv store_instance_inv inv1) auto
qed (use inv in simp)

text \<open>The dispatcher, and with it every step of the chain, keeps the invariant.\<close>

lemma execute_inv:
  "platform_ok P \<Longrightarrow> tx_ok P t \<Longrightarrow> registry_inv P st \<Longrightarrow> execute P t ix st = Inr st' \<Longrightarrow>
     registry_inv P st'"
  by (cases ix; simp only: execute.simps)
    (fast elim: initialize_config_inv register_node_inv update_node_inv heartbeat_inv
      deregister_node_inv claim_stake_inv allocate_instance_inv activate_instance_inv
      update_instance_status_inv destroy_instance_inv deposit_payment_inv distribute_payment_inv
      commit_merkle_root_inv slash_node_inv migrate_instance_inv)+

lemma chain_step_inv:
  assumes "platform_ok P" "registry_inv P st" "chain_step P st st'"
  shows "registry_inv P st'"
  using assms(3)
proof (rule chain_stepE)
  fix l' assume "st' = with_ledger l' st" "outside_change st l'"
  then show ?thesis
    using assms(2) by (auto simp: outside_change_def intro: with_ledger_inv)
next
  fix t ix assume "tx_ok P t" "execute P t ix st = Inr st'"
  then show ?thesis using assms(1,2) execute_inv by blast
qed

lemma genesis_inv: "genesis st \<Longrightarrow> registry_inv P st"
  by (simp add: genesis_def registry_inv_def records_ok_def stake_backed_def primaries_exist_def)

text \<open>Steps on a platform that behaves as documented.\<close>

definition platform_step :: "platform \<Rightarrow> chain \<Rightarrow> chain \<Rightarrow> bool" where
  "platform_step P st st' \<longleftrightarrow> platform_ok P \<and> chain_step P st st'"

interpretation reg: inductive_invariant genesis "platform_step P" "registry_inv P" for P
  by unfold_locales (auto simp: platform_step_def intro: genesis_inv chain_step_inv)

end
