(* ===== verification/Registry_Lifecycle.thy ===== *)
theory Registry_Lifecycle
  imports Registry
begin

text \<open>
  The abstract life cycles of nodes and instances as step relations on their statuses, and the
  simulation: every instruction of the registry moves every record along an edge and leaves its
  identity fields alone. The trace lemmas at the end follow from the simulation.
\<close>

section \<open>Abstract life cycles\<close>

inductive node_edge :: "node_status \<Rightarrow> node_status \<Rightarrow> bool" where
  node_stays: "node_edge s s"
| node_leaves: "node_edge NodeActive Deregistering"
| node_claims: "node_edge Deregistering Deregistered"
| node_slashed: "node_edge s NodeSuspended"

inductive instance_edge :: "instance_status \<Rightarrow> instance_status \<Rightarrow> bool" where
  instance_stays: "instance_edge s s"
| instance_activates: "instance_edge Provisioning InstanceActive"
| instance_suspends: "instance_edge s InstanceSuspended"
| instance_destroyed: "instance_edge s Destroyed"
| instance_migrates: "instance_edge s Migrating"

inductive_cases node_edgeE: "node_edge s s'"
inductive_simps node_edge_from_suspended [simp]: "node_edge NodeSuspended s"
inductive_simps node_edge_to_active [simp]: "node_edge s NodeActive"
inductive_simps instance_edge_to_active [simp]: "instance_edge s InstanceActive"
inductive_simps instance_edge_to_provisioning [simp]: "instance_edge s Provisioning"

lemmas edge_intros [simp, intro] = node_edge.intros instance_edge.intros

section \<open>The simulation\<close>

definition node_follows :: "node_record \<Rightarrow> node_record \<Rightarrow> bool" where
  "node_follows n n' \<longleftrightarrow> node_edge (node_state n) (node_state n') \<and>
     node_operator n' = node_operator n \<and> node_bump n' = node_bump n \<and>
     node_registered_at n' = node_registered_at n"

definition instance_follows :: "instance_record \<Rightarrow> instance_record \<Rightarrow> bool" where
  "instance_follows i i' \<longleftrightarrow> instance_edge (inst_status i) (inst_status i') \<and>
     inst_agent i' = inst_agent i \<and> inst_id i' = inst_id i \<and> inst_bump i' = inst_bump i \<and>
     inst_replica_nodes i' = inst_replica_nodes i \<and>
     inst_encrypted_dek i' = inst_encrypted_dek i \<and> inst_created_at i' = inst_created_at i"

fun account_follows :: "account option \<Rightarrow> account option \<Rightarrow> bool" where
  "account_follows (Some (ANode n)) (Some (ANode n')) = node_follows n n'"
| "account_follows (Some (AInstance i)) (Some (AInstance i')) = instance_follows i i'"
| "account_follows (Some (AConfig c)) (Some (AConfig c')) = (c' = c)"
| "account_follows (Some (AEscrow e)) (Some (AEscrow e')) =
     (esc_deposited e \<le> esc_deposited e' \<and> esc_distributed e \<le> esc_distributed e')"
| "account_follows None x = True"
| "account_follows (Some _) _ = False"

definition store_follows :: "chain \<Rightarrow> chain \<Rightarrow> bool" where
  "store_follows st st' \<longleftrightarrow> (\<forall>k. account_follows (accounts st k) (accounts st' k))"

lemma account_follows_refl [simp]: "account_follows x x"
proof (cases x)
  case (Some a)
  then show ?thesis
    by (cases a) (auto simp: node_follows_def instance_follows_def)
qed simp

lemma store_follows_refl [simp]: "store_follows st st"
  by (simp add: store_follows_def)

lemma store_follows_emit [simp]: "store_follows st (emit e st') = store_follows st st'"
  by (simp add: store_follows_def)

lemma store_follows_ledger [simp]: "store_follows st (with_ledger l st') = store_follows st st'"
  by (simp add: store_follows_def)

lemma store_follows_store:
  "store_follows st st' \<Longrightarrow> account_follows (accounts st k) (Some a) \<Longrightarrow>
     store_follows st (store k a st')"
  by (simp add: store_follows_def)

lemmas follow_defs = node_follows_def instance_follows_def

lemma node_instructions_follow:
  "initialize_config P t k a ms dr um cd sp st = Inr st' \<Longrightarrow> store_follows st st'"
  "register_node P t k oper cfg ep cap rg st = Inr st' \<Longrightarrow> store_follows st st'"
  "heartbeat P t k oper st = Inr st' \<Longrightarrow> store_follows st st'"
  "deregister_node P t k oper st = Inr st' \<Longrightarrow> store_follows st st'"
  "claim_stake P t k oper cfg st = Inr st' \<Longrightarrow> store_follows st st'"
  "slash_node P t k cfg a pt st = Inr st' \<Longrightarrow> store_follows st st'"
  by (auto simp: initialize_config_def InitializeConfig_accounts_def register_node_def
      RegisterNode_accounts_def heartbeat_def deregister_node_def own_node_accounts_def
      claim_stake_def ClaimStake_accounts_def slash_node_def SlashNode_accounts_def
      ok_simps Let_def follow_defs split: prod.splits
      intro!: store_follows_store)

lemma update_node_follows:
  "update_node P t k oper ep cap rg st = Inr st' \<Longrightarrow> store_follows st st'"
  by (auto simp: update_node_def own_node_accounts_def set_endpoint_def set_capacity_def
      set_region_def ok_simps follow_defs split: option.splits if_splits
      intro!: store_follows_store)

lemma instance_instructions_follow:
  "activate_instance P t k p oper iid st = Inr st' \<Longrightarrow> store_follows st st'"
  "commit_merkle_root P t k p oper iid root st = Inr st' \<Longrightarrow> store_follows st st'"
  "destroy_instance P t k p e et at a iid st = Inr st' \<Longrightarrow> store_follows st st'"
  "allocate_instance P t k p a rm iid reps dek st = Inr st' \<Longrightarrow> store_follows st st'"
  "migrate_instance P t k o' n' a iid st = Inr st' \<Longrightarrow> store_follows st st'"
  by (auto simp: activate_instance_def commit_merkle_root_def operator_instance_accounts_def
      destroy_instance_def DestroyInstance_accounts_def allocate_instance_def
      AllocateInstance_accounts_def migrate_instance_def MigrateInstance_accounts_def
      ok_simps Let_def follow_defs split: prod.splits
      intro!: store_follows_store)

lemma permitted_edge: "status_permitted ns a b = Inr () \<Longrightarrow> instance_edge s ns"
  by (cases ns) (auto)

lemma update_instance_status_follows:
  "update_instance_status P t k p s iid ns st = Inr st' \<Longrightarrow> store_follows st st'"
  by (auto simp: update_instance_status_def UpdateInstanceStatus_accounts_def ok_simps follow_defs
      split: prod.splits intro!: store_follows_store permitted_edge)

lemma init_escrow_kind:
  "init_escrow P st a e iid = Inr (esc, bump, l) \<Longrightarrow>
     accounts st e = Some (AEscrow esc) \<or> accounts st e = None"
  by (auto simp: init_escrow_def ok_simps split: prod.splits option.splits)

lemma checked_add_ge: "checked_add a b = Some c \<Longrightarrow> a \<le> c"
  by (auto simp: word_le_nat_alt dest: checked_add_unat)

lemma first_deposit_totals [simp]:
  "esc_deposited (first_deposit t a iid c bump e) = esc_deposited e"
  "esc_distributed (first_deposit t a iid c bump e) = esc_distributed e"
  by (simp_all add: first_deposit_def)

lemma deposit_payment_follows:
  "deposit_payment P t e et at um cfg a iid amt st = Inr st' \<Longrightarrow> store_follows st st'"
  by (auto simp: deposit_payment_def DepositPayment_accounts_def ok_simps Let_def
      split: prod.splits intro!: store_follows_store dest!: init_escrow_kind checked_add_ge)

lemma distribute_payment_follows:
  "distribute_payment P t e et k pt cr rm iid st = Inr st' \<Longrightarrow> store_follows st st'"
  by (auto simp: distribute_payment_def DistributePayment_accounts_def ok_simps Let_def follow_defs
      split: prod.splits if_splits intro!: store_follows_store dest!: checked_add_ge)

lemma execute_follows: "execute P t ix st = Inr st' \<Longrightarrow> store_follows st st'"
  by (cases ix; simp only: execute.simps)
    (fast elim: node_instructions_follow update_node_follows instance_instructions_follow
      update_instance_status_follows deposit_payment_follows distribute_payment_follows)+

lemma chain_step_follows: "chain_step P st st' \<Longrightarrow> store_follows st st'"
  by (erule chain_stepE) (auto intro: execute_follows)

lemma account_follows_node:
  "account_follows (Some (ANode n)) x \<longleftrightarrow> (\<exists>n'. x = Some (ANode n') \<and> node_follows n n')"
  by (cases "(Some (ANode n), x)" rule: account_follows.cases) auto

lemma account_follows_instance:
  "account_follows (Some (AInstance i)) x \<longleftrightarrow>
     (\<exists>i'. x = Some (AInstance i') \<and> instance_follows i i')"
  by (cases "(Some (AInstance i), x)" rule: account_follows.cases) auto

lemma account_follows_config:
  "account_follows (Some (AConfig c)) x \<longleftrightarrow> x = Some (AConfig c)"
  by (cases "(Some (AConfig c), x)" rule: account_follows.cases) auto

lemma follows_node:
  "store_follows st st' \<Longrightarrow> accounts st k = Some (ANode n) \<Longrightarrow>
     \<exists>n'. accounts st' k = Some (ANode n') \<and> node_follows n n'"
  unfolding store_follows_def by (metis account_follows_node)

lemma follows_instance:
  "store_follows st st' \<Longrightarrow> accounts st k = Some (AInstance i) \<Longrightarrow>
     \<exists>i'. accounts st' k = Some (AInstance i') \<and> instance_follows i i'"
  unfolding store_follows_def by (metis account_follows_instance)

text \<open>
  A status from which no edge leads back into a set is never left: the trace version of the
  simulation, for any predicate that the edges keep.
\<close>

lemma instance_stays_in:
  assumes steps: "(chain_step P)\<^sup>*\<^sup>* st st'"
    and i: "accounts st k = Some (AInstance i)" "Q (inst_status i)"
    and keep: "\<And>s s'. Q s \<Longrightarrow> instance_edge s s' \<Longrightarrow> Q s'"
  shows "\<exists>i'. accounts st' k = Some (AInstance i') \<and> Q (inst_status i') \<and>
    inst_agent i' = inst_agent i \<and> inst_id i' = inst_id i"
  using steps
proof (induction rule: rtranclp_induct)
  case (step st1 st2)
  then obtain i1 where i1: "accounts st1 k = Some (AInstance i1)" "Q (inst_status i1)"
    "inst_agent i1 = inst_agent i" "inst_id i1 = inst_id i" by blast
  from follows_instance [OF chain_step_follows [OF step.hyps(2)] i1(1)]
  show ?case using i1 keep by (auto simp: instance_follows_def)
qed (use i in simp)

lemma node_stays_in:
  assumes steps: "(chain_step P)\<^sup>*\<^sup>* st st'"
    and n: "accounts st k = Some (ANode n)" "Q (node_state n)"
    and keep: "\<And>s s'. Q s \<Longrightarrow> node_edge s s' \<Longrightarrow> Q s'"
  shows "\<exists>n'. accounts st' k = Some (ANode n') \<and> Q (node_state n') \<and>
    node_operator n' = node_operator n"
  using steps
proof (induction rule: rtranclp_induct)
  case (step st1 st2)
  then obtain n1 where n1: "accounts st1 k = Some (ANode n1)" "Q (node_state n1)"
    "node_operator n1 = node_operator n" by blast
  from follows_node [OF chain_step_follows [OF step.hyps(2)] n1(1)]
  show ?case using n1 keep by (auto simp: node_follows_def)
qed (use n in simp)

end
