(* ===== verification/Registry_Escrow.thy ===== *)
theory Registry_Escrow
  imports Registry_Lifecycle
begin

text \<open>
  The money of an escrow: what one distribution pays in numbers and moves into which token account,
  and the backing of every escrow by its associated token account, kept by every instruction but the
  refund.
\<close>

section \<open>Distribution in numbers\<close>

lemma share_of_unat: "share_of p a = Inr s \<Longrightarrow> unat s = unat a * unat p div 100"
  by (auto simp: share_of_def ok_simps dest!: checked_mul_unat checked_div_unat)

lemma payment_due_unat:
  "payment_due now e = Inr d \<Longrightarrow>
     unat d = min (unat (now - esc_last_distribution_at e) * unat (esc_rate_per_hour e) div 3600)
                  (unat (esc_deposited e) - unat (esc_distributed e)) \<and>
     unat (esc_distributed e) \<le> unat (esc_deposited e)"
  by (auto simp: payment_due_def ok_simps min_word_unat
      dest!: checked_mul_unat checked_div_unat checked_sub_unat i64_checked_sub_Some)

lemma pay_unat: "pay xfer s a (l, x) = Inr (l', x') \<Longrightarrow> unat x' = unat x + unat s"
  by (auto simp: pay_def ok_simps word_gt_0 dest!: checked_add_unat split: if_splits)

lemma pay_replicas_unat:
  "pay_replicas xfer s n as acc = Inr acc' \<Longrightarrow>
     unat (snd acc') = unat (snd acc) + min n (length as) * unat s"
proof (induction xfer s n as acc rule: pay_replicas.induct)
  case (1 xfer s n a as acc)
  then obtain mid where mid: "pay xfer s a acc = Inr mid" "pay_replicas xfer s n as mid = Inr acc'"
    by (auto simp: ok_simps)
  have "unat (snd mid) = unat (snd acc) + unat s"
    using pay_unat [of xfer s a "fst acc" "snd acc" "fst mid" "snd mid"] mid(1) by simp
  then show ?case using "1.IH" [OF mid(2)] by simp
qed auto

lemma pay_all_unat:
  assumes "pay_all xfer s1 s2 n pt rem l = Inr (l', x)"
  shows "unat x = unat s1 + min n (length rem) * unat s2"
proof -
  from assms obtain mid where mid: "pay xfer s1 pt (l, 0) = Inr mid"
    "pay_replicas xfer s2 n rem mid = Inr (l', x)"
    by (auto simp: pay_all_def ok_simps)
  have "unat (snd mid) = unat s1"
    using pay_unat [of xfer s1 pt l 0 "fst mid" "snd mid"] mid(1) by simp
  then show ?thesis using pay_replicas_unat [OF mid(2)] by simp
qed

section \<open>Token movements\<close>

text \<open>
  \<open>loses l l' a n\<close>: every token account survives with its owner and mint, only \<open>a\<close> may have
  less than before, and at most \<open>n\<close> less.
\<close>

definition loses :: "ledger \<Rightarrow> ledger \<Rightarrow> pubkey \<Rightarrow> nat \<Rightarrow> bool" where
  "loses l l' a n \<longleftrightarrow>
     (\<forall>k tk. tokens l k = Some tk \<longrightarrow>
        (\<exists>tk'. tokens l' k = Some tk' \<and> tok_owner tk' = tok_owner tk \<and> tok_mint tk' = tok_mint tk \<and>
           unat (tok_amount tk) \<le> unat (tok_amount tk') + (if k = a then n else 0)))"

lemma loses_refl [simp]: "loses l l a 0"
  by (simp add: loses_def)

lemma loses_trans:
  assumes "loses l1 l2 a n" "loses l2 l3 a m"
  shows "loses l1 l3 a (n + m)"
  unfolding loses_def
proof (intro allI impI)
  fix k tk assume "tokens l1 k = Some tk"
  with assms(1) obtain tk2 where 2: "tokens l2 k = Some tk2" "tok_owner tk2 = tok_owner tk"
    "tok_mint tk2 = tok_mint tk" "unat (tok_amount tk) \<le> unat (tok_amount tk2) + (if k = a then n else 0)"
    unfolding loses_def by blast
  with assms(2) obtain tk3 where 3: "tokens l3 k = Some tk3" "tok_owner tk3 = tok_owner tk2"
    "tok_mint tk3 = tok_mint tk2"
    "unat (tok_amount tk2) \<le> unat (tok_amount tk3) + (if k = a then m else 0)"
    unfolding loses_def by blast
  show "\<exists>tk'. tokens l3 k = Some tk' \<and> tok_owner tk' = tok_owner tk \<and> tok_mint tk' = tok_mint tk \<and>
      unat (tok_amount tk) \<le> unat (tok_amount tk') + (if k = a then n + m else 0)"
    using 2 3 by (auto split: if_splits)
qed

lemma loses_same_tokens: "tokens l' = tokens l \<Longrightarrow> loses l l' a 0"
  by (simp add: loses_def)

lemma token_moved_loses:
  assumes "token_moved (tokens l) (tokens l') a b n"
  shows "loses l l' a (unat n)"
proof -
  from assms obtain x y where xy: "tokens l a = Some x" "tokens l b = Some y" "n \<le> tok_amount x"
    and eff: "if a = b then tokens l' = tokens l
        else unat (tok_amount y) + unat n < 2 ^ 64 \<and>
             tokens l' = (tokens l)(a \<mapsto> x\<lparr>tok_amount := tok_amount x - n\<rparr>,
                                    b \<mapsto> y\<lparr>tok_amount := tok_amount y + n\<rparr>)"
    unfolding token_moved_def by blast
  have sub: "unat (tok_amount x - n) = unat (tok_amount x) - unat n"
    using xy(3) by (rule unat_sub)
  have add: "a \<noteq> b \<Longrightarrow> unat (tok_amount y + n) = unat (tok_amount y) + unat n"
    using eff unat_add_lem [of "tok_amount y" n] by simp
  show ?thesis
    unfolding loses_def using xy eff sub add by (auto split: if_splits)
qed

lemma escrow_transfer_loses:
  "platform_ok P \<Longrightarrow> escrow_transfer P e a iid b l src dst n = Some l' \<Longrightarrow>
     loses l l' src (unat n)"
  unfolding escrow_transfer_def by (blast dest: spl_transfer_ok(2) token_moved_loses)

lemma pay_loses:
  assumes "\<And>l d s l'. xfer l d s = Some l' \<Longrightarrow> loses l l' et (unat s)"
    and "pay xfer s a (l, x) = Inr (l', x')"
  shows "loses l l' et (unat s)"
  using assms(2) by (auto simp: pay_def ok_simps word_gt_0 intro: assms(1) split: if_splits)

lemma pay_replicas_loses:
  assumes x: "\<And>l d s l'. xfer l d s = Some l' \<Longrightarrow> loses l l' et (unat s)"
  shows "pay_replicas xfer s n as acc = Inr acc' \<Longrightarrow>
     loses (fst acc) (fst acc') et (min n (length as) * unat s)"
  using x
proof (induction xfer s n as acc rule: pay_replicas.induct)
  case (1 xfer s n a as acc)
  then obtain mid where mid: "pay xfer s a acc = Inr mid" "pay_replicas xfer s n as mid = Inr acc'"
    by (auto simp: ok_simps)
  have "loses (fst acc) (fst mid) et (unat s)"
    using pay_loses [of xfer et s a "fst acc" "snd acc" "fst mid" "snd mid", OF "1.prems"(2)] mid(1)
    by simp
  from loses_trans [OF this "1.IH" [OF mid(2) "1.prems"(2)]] show ?case by simp
qed auto

lemma pay_all_loses:
  assumes P: "platform_ok P"
    and pa: "pay_all (\<lambda>l. escrow_transfer P e a iid b l et) s1 s2 n pt rem l = Inr (l', x)"
  shows "loses l l' et (unat x)"
proof -
  let ?xfer = "\<lambda>l. escrow_transfer P e a iid b l et"
  have x: "?xfer l1 d s = Some l2 \<Longrightarrow> loses l1 l2 et (unat s)" for l1 d s l2
    using escrow_transfer_loses [OF P] .
  from pa obtain mid where mid: "pay ?xfer s1 pt (l, 0) = Inr mid"
    "pay_replicas ?xfer s2 n rem mid = Inr (l', x)"
    by (auto simp: pay_all_def ok_simps)
  have "loses l (fst mid) et (unat s1)"
    using pay_loses [of ?xfer et s1 pt l 0 "fst mid" "snd mid", OF x] mid(1) by simp
  from loses_trans [OF this pay_replicas_loses [OF x mid(2)]]
  show ?thesis using pay_all_unat [OF pa] by simp
qed

section \<open>What the payees get\<close>

text \<open>
  \<open>share_for ps k\<close>: what the list of payees and amounts gives to \<open>k\<close>. \<open>paid_to l l' et ps\<close>:
  the ledger moves exactly the amounts of \<open>ps\<close> out of \<open>et\<close>, each into the token account it
  names; a transfer from \<open>et\<close> to itself changes nothing, and no token account comes or goes.
\<close>

definition share_for :: "(pubkey \<times> nat) list \<Rightarrow> pubkey \<Rightarrow> nat" where
  "share_for ps k = (\<Sum>(a, n) \<leftarrow> ps. if a = k then n else 0)"

definition share_out :: "(pubkey \<times> nat) list \<Rightarrow> pubkey \<Rightarrow> nat" where
  "share_out ps et = (\<Sum>(a, n) \<leftarrow> ps. if a = et then 0 else n)"

definition paid_to :: "ledger \<Rightarrow> ledger \<Rightarrow> pubkey \<Rightarrow> (pubkey \<times> nat) list \<Rightarrow> bool" where
  "paid_to l l' et ps \<longleftrightarrow>
     (\<forall>(a, n) \<in> set ps. 0 < n \<longrightarrow> tokens l a \<noteq> None) \<and>
     (\<forall>k. case tokens l k of
        None \<Rightarrow> tokens l' k = None
      | Some tk \<Rightarrow> (\<exists>tk'. tokens l' k = Some tk' \<and> tok_owner tk' = tok_owner tk \<and>
          tok_mint tk' = tok_mint tk \<and>
          (if k = et then unat (tok_amount tk') + share_out ps et = unat (tok_amount tk)
           else unat (tok_amount tk') = unat (tok_amount tk) + share_for ps k)))"

lemma share_append [simp]:
  "share_for (ps @ qs) k = share_for ps k + share_for qs k"
  "share_out (ps @ qs) k = share_out ps k + share_out qs k"
  by (simp_all add: share_for_def share_out_def)

lemma share_empty [simp]: "share_for [] k = 0" "share_out [] k = 0"
  by (simp_all add: share_for_def share_out_def)

lemma paid_to_nothing [simp]: "paid_to l l et []"
  by (auto simp: paid_to_def split: option.split)

lemma paid_to_none:
  assumes "paid_to l l' et ps"
  shows "tokens l' k = None \<longleftrightarrow> tokens l k = None"
  using conjunct2 [OF assms [unfolded paid_to_def], THEN spec, of k]
  by (cases "tokens l k") auto

lemma paid_to_append:
  assumes "paid_to l1 l2 et ps" "paid_to l2 l3 et qs"
  shows "paid_to l1 l3 et (ps @ qs)"
  unfolding paid_to_def
proof (intro conjI allI)
  show "\<forall>(a, n) \<in> set (ps @ qs). 0 < n \<longrightarrow> tokens l1 a \<noteq> None"
    using assms(2) paid_to_none [OF assms(1)] assms(1) unfolding paid_to_def by auto
  fix k
  from assms have
    "case tokens l1 k of None \<Rightarrow> tokens l2 k = None
      | Some tk \<Rightarrow> (\<exists>tk'. tokens l2 k = Some tk' \<and> tok_owner tk' = tok_owner tk \<and>
          tok_mint tk' = tok_mint tk \<and>
          (if k = et then unat (tok_amount tk') + share_out ps et = unat (tok_amount tk)
           else unat (tok_amount tk') = unat (tok_amount tk) + share_for ps k))"
    "case tokens l2 k of None \<Rightarrow> tokens l3 k = None
      | Some tk \<Rightarrow> (\<exists>tk'. tokens l3 k = Some tk' \<and> tok_owner tk' = tok_owner tk \<and>
          tok_mint tk' = tok_mint tk \<and>
          (if k = et then unat (tok_amount tk') + share_out qs et = unat (tok_amount tk)
           else unat (tok_amount tk') = unat (tok_amount tk) + share_for qs k))"
    unfolding paid_to_def by blast+
  then show "case tokens l1 k of None \<Rightarrow> tokens l3 k = None
      | Some tk \<Rightarrow> (\<exists>tk'. tokens l3 k = Some tk' \<and> tok_owner tk' = tok_owner tk \<and>
          tok_mint tk' = tok_mint tk \<and>
          (if k = et then unat (tok_amount tk') + share_out (ps @ qs) et = unat (tok_amount tk)
           else unat (tok_amount tk') = unat (tok_amount tk) + share_for (ps @ qs) k))"
    by (cases "tokens l1 k"; cases "k = et") (auto split: option.splits)
qed

lemma token_moved_paid:
  assumes "token_moved (tokens l) (tokens l') et b n"
  shows "paid_to l l' et [(b, unat n)]"
proof -
  from assms obtain x y where xy: "tokens l et = Some x" "tokens l b = Some y" "n \<le> tok_amount x"
    and eff: "if et = b then tokens l' = tokens l
        else unat (tok_amount y) + unat n < 2 ^ 64 \<and>
             tokens l' = (tokens l)(et \<mapsto> x\<lparr>tok_amount := tok_amount x - n\<rparr>,
                                    b \<mapsto> y\<lparr>tok_amount := tok_amount y + n\<rparr>)"
    unfolding token_moved_def by blast
  have sub: "unat (tok_amount x - n) + unat n = unat (tok_amount x)"
    using xy(3) by (simp add: unat_sub word_le_nat_alt)
  have add: "et \<noteq> b \<Longrightarrow> unat (tok_amount y + n) = unat (tok_amount y) + unat n"
    using eff unat_add_lem [of "tok_amount y" n] by simp
  show ?thesis
    unfolding paid_to_def share_for_def share_out_def using xy eff sub add
    by (auto split: if_splits option.split)
qed

lemma escrow_transfer_pays:
  "platform_ok P \<Longrightarrow> escrow_transfer P e a iid b l et dst n = Some l' \<Longrightarrow>
     paid_to l l' et [(dst, unat n)]"
  unfolding escrow_transfer_def by (blast dest: spl_transfer_ok(2) token_moved_paid)

text \<open>A share of zero is not transferred, which pays its account the zero it is due.\<close>

lemma paid_to_zero: "paid_to l l et [(a, 0)]"
  by (auto simp: paid_to_def share_for_def share_out_def split: option.split)

lemma pay_pays:
  assumes "\<And>l d s l'. xfer l d s = Some l' \<Longrightarrow> paid_to l l' et [(d, unat s)]"
    and "pay xfer s a (l, x) = Inr (l', x')"
  shows "paid_to l l' et [(a, unat s)]"
  using assms(2)
  by (auto simp: pay_def ok_simps word_gt_0 paid_to_zero intro: assms(1) split: if_splits)

lemma pay_replicas_pay:
  assumes x: "\<And>l d s l'. xfer l d s = Some l' \<Longrightarrow> paid_to l l' et [(d, unat s)]"
  shows "pay_replicas xfer s n as acc = Inr acc' \<Longrightarrow>
     paid_to (fst acc) (fst acc') et (map (\<lambda>a. (a, unat s)) (take n as))"
  using x
proof (induction xfer s n as acc rule: pay_replicas.induct)
  case (1 xfer s n a as acc)
  then obtain mid where mid: "pay xfer s a acc = Inr mid" "pay_replicas xfer s n as mid = Inr acc'"
    by (auto simp: ok_simps)
  have "paid_to (fst acc) (fst mid) et [(a, unat s)]"
    using pay_pays [of xfer et s a "fst acc" "snd acc" "fst mid" "snd mid", OF "1.prems"(2)] mid(1)
    by simp
  from paid_to_append [OF this "1.IH" [OF mid(2) "1.prems"(2)]] show ?case by simp
qed auto

lemma pay_all_pays:
  assumes P: "platform_ok P"
    and pa: "pay_all (\<lambda>l. escrow_transfer P e a iid b l et) s1 s2 n pt rem l = Inr (l', x)"
  shows "paid_to l l' et ((pt, unat s1) # map (\<lambda>a. (a, unat s2)) (take n rem))"
proof -
  let ?xfer = "\<lambda>l. escrow_transfer P e a iid b l et"
  have x: "?xfer l1 d s = Some l2 \<Longrightarrow> paid_to l1 l2 et [(d, unat s)]" for l1 d s l2
    using escrow_transfer_pays [OF P] .
  from pa obtain mid where mid: "pay ?xfer s1 pt (l, 0) = Inr mid"
    "pay_replicas ?xfer s2 n rem mid = Inr (l', x)"
    by (auto simp: pay_all_def ok_simps)
  have "paid_to l (fst mid) et [(pt, unat s1)]"
    using pay_pays [of ?xfer et s1 pt l 0 "fst mid" "snd mid", OF x] mid(1) by simp
  from paid_to_append [OF this pay_replicas_pay [OF x mid(2)]] show ?thesis by simp
qed

section \<open>Backing\<close>

definition mint_is :: "platform \<Rightarrow> pubkey \<Rightarrow> chain \<Rightarrow> bool" where
  "mint_is P m st \<longleftrightarrow>
     (\<exists>k c b. find_pda P [SBytes ''config''] = Some (k, b) \<and> accounts st k = Some (AConfig c)) \<and>
     (\<forall>k c. accounts st k = Some (AConfig c) \<longrightarrow> cfg_usdc_mint c = m)"

definition escrow_backed :: "platform \<Rightarrow> pubkey \<Rightarrow> ledger \<Rightarrow> pubkey \<Rightarrow> payment_escrow \<Rightarrow> bool" where
  "escrow_backed P m l k e \<longleftrightarrow>
     (\<exists>tk. tokens l (ata_address P k m) = Some tk \<and> tok_owner tk = k \<and> tok_mint tk = m \<and>
        unat (esc_deposited e) \<le> unat (esc_distributed e) + unat (tok_amount tk))"

definition backed :: "platform \<Rightarrow> pubkey \<Rightarrow> chain \<Rightarrow> bool" where
  "backed P m st \<longleftrightarrow>
     (\<forall>k e. accounts st k = Some (AEscrow e) \<longrightarrow> escrow_backed P m (ledger st) k e)"

lemma escrow_backed_loses:
  assumes "escrow_backed P m l k e" "loses l l' a n"
    and "\<And>tk. tokens l a = Some tk \<Longrightarrow> tok_owner tk \<noteq> k"
  shows "escrow_backed P m l' k e"
proof -
  from assms(1) obtain tk where tk: "tokens l (ata_address P k m) = Some tk" "tok_owner tk = k"
    "tok_mint tk = m" "unat (esc_deposited e) \<le> unat (esc_distributed e) + unat (tok_amount tk)"
    by (auto simp: escrow_backed_def)
  with assms(3) have ne: "ata_address P k m \<noteq> a" by auto
  from assms(2) tk(1) obtain tk' where "tokens l' (ata_address P k m) = Some tk'"
    "tok_owner tk' = tok_owner tk" "tok_mint tk' = tok_mint tk"
    "unat (tok_amount tk) \<le> unat (tok_amount tk') + (if ata_address P k m = a then n else 0)"
    unfolding loses_def by blast
  with tk ne show ?thesis by (auto simp: escrow_backed_def)
qed

lemma escrow_backed_same:
  "escrow_backed P m l k e \<Longrightarrow> tokens l' = tokens l \<Longrightarrow> escrow_backed P m l' k e"
  by (simp add: escrow_backed_def)

text \<open>An instruction that leaves tokens and escrow records alone keeps the backing.\<close>

definition escrow_neutral :: "chain \<Rightarrow> chain \<Rightarrow> bool" where
  "escrow_neutral st st' \<longleftrightarrow> tokens (ledger st') = tokens (ledger st) \<and>
     (\<forall>k e. accounts st' k = Some (AEscrow e) \<longrightarrow> accounts st k = Some (AEscrow e))"

lemma backed_neutral: "backed P m st \<Longrightarrow> escrow_neutral st st' \<Longrightarrow> backed P m st'"
  unfolding backed_def escrow_neutral_def by (blast intro: escrow_backed_same)

lemma neutral_config: "platform_ok P \<Longrightarrow>
  initialize_config P t k a ms dr um cd sp st = Inr st' \<Longrightarrow> escrow_neutral st st'"
  by (auto simp: escrow_neutral_def initialize_config_def InitializeConfig_accounts_def ok_simps
      Let_def split: prod.splits if_splits dest: sys_create_ok(2))

lemma create_transfer_tokens:
  "platform_ok P \<Longrightarrow> sys_create P l a b n = Some l1 \<Longrightarrow> sys_transfer P l1 c d x = Some l2 \<Longrightarrow>
     tokens l2 = tokens l"
  by (simp add: sys_create_ok(2) sys_transfer_ok(2))

lemma neutral_register: "platform_ok P \<Longrightarrow>
  register_node P t k oper cfg ep cap rg st = Inr st' \<Longrightarrow> escrow_neutral st st'"
  by (auto simp: escrow_neutral_def register_node_def RegisterNode_accounts_def ok_simps Let_def
      split: prod.splits if_splits dest: create_transfer_tokens)

lemma neutral_lamports:
  "claim_stake P t k oper cfg st = Inr st' \<Longrightarrow> escrow_neutral st st'"
  "slash_node P t k cfg a pt st = Inr st' \<Longrightarrow> escrow_neutral st st'"
  by (auto simp: escrow_neutral_def claim_stake_def ClaimStake_accounts_def slash_node_def
      SlashNode_accounts_def ok_simps Let_def split: prod.splits if_splits
      dest!: move_lamports_ok(1))

lemma neutral_node:
  "heartbeat P t k oper st = Inr st' \<Longrightarrow> escrow_neutral st st'"
  "deregister_node P t k oper st = Inr st' \<Longrightarrow> escrow_neutral st st'"
  "update_node P t k oper ep cap rg st = Inr st' \<Longrightarrow> escrow_neutral st st'"
  by (auto simp: escrow_neutral_def heartbeat_def deregister_node_def own_node_accounts_def
      update_node_def ok_simps split: if_splits)

lemma neutral_instance:
  "activate_instance P t k p oper iid st = Inr st' \<Longrightarrow> escrow_neutral st st'"
  "commit_merkle_root P t k p oper iid root st = Inr st' \<Longrightarrow> escrow_neutral st st'"
  "update_instance_status P t k p s iid ns st = Inr st' \<Longrightarrow> escrow_neutral st st'"
  "migrate_instance P t k o' n' a iid st = Inr st' \<Longrightarrow> escrow_neutral st st'"
  by (auto simp: escrow_neutral_def activate_instance_def commit_merkle_root_def
      operator_instance_accounts_def update_instance_status_def UpdateInstanceStatus_accounts_def
      migrate_instance_def MigrateInstance_accounts_def ok_simps Let_def split: prod.splits if_splits)

lemma neutral_allocate: "platform_ok P \<Longrightarrow>
  allocate_instance P t k p a rm iid reps dek st = Inr st' \<Longrightarrow> escrow_neutral st st'"
  by (auto simp: escrow_neutral_def allocate_instance_def AllocateInstance_accounts_def ok_simps
      Let_def split: prod.splits if_splits dest!: sys_create_ok(2))

lemmas neutral_instructions = neutral_config neutral_register neutral_lamports neutral_node
  neutral_instance neutral_allocate

lemma init_escrow_tokens:
  "platform_ok P \<Longrightarrow> init_escrow P st a e iid = Inr (esc, bump, l) \<Longrightarrow>
     tokens l = tokens (ledger st)"
  by (auto simp: init_escrow_def ok_simps dest: sys_create_ok(2) split: prod.splits option.splits)

lemma init_escrow_token_effect:
  assumes P: "platform_ok P" and it: "init_escrow_token P l a et e mint = Inr l'"
  shows "loses l l' x 0" "et = ata_address P e mint"
    "\<exists>tk. tokens l' et = Some tk \<and> tok_owner tk = e \<and> tok_mint tk = mint"
proof -
  have "loses l l' x 0 \<and> et = ata_address P e mint \<and>
    (\<exists>tk. tokens l' et = Some tk \<and> tok_owner tk = e \<and> tok_mint tk = mint)"
  proof (cases "tokens l et")
    case None
    with it have "ata_create P l a et e mint = Some l'"
      by (simp add: init_escrow_token_def ok_simps)
    from ata_create_ok(1-3) [OF P this] None show ?thesis by (auto simp: loses_def)
  qed (use it in \<open>auto simp: init_escrow_token_def ok_simps\<close>)
  then show "loses l l' x 0" "et = ata_address P e mint"
    "\<exists>tk. tokens l' et = Some tk \<and> tok_owner tk = e \<and> tok_mint tk = mint" by blast+
qed

lemma deposit_payment_backed:
  assumes P: "platform_ok P" and t: "tx_ok P t" and inv: "registry_inv P st"
    and m: "mint_is P m st" and b: "backed P m st"
    and de: "deposit_payment P t e et at um cfg a iid amt st = Inr st'"
  shows "backed P m st'"
proof -
  from de obtain esc bump c l l' tot where
    acc: "DepositPayment_accounts P t e et at um cfg a iid st = Inr (esc, bump, c, l)"
    and tr: "spl_transfer P l at et a (signed t a) amt = Some l'"
    and tot: "checked_add (esc_deposited (first_deposit t a iid c bump esc)) amt = Some tot"
    and st': "st' = emit (PaymentDeposited (esc_agent (first_deposit t a iid c bump esc)) iid amt tot)
      (store e (AEscrow ((first_deposit t a iid c bump esc)\<lparr>esc_deposited := tot\<rparr>))
        (with_ledger l' st))"
    by (auto simp: deposit_payment_def ok_simps Let_def split: prod.splits)
  from acc obtain l0 atk where sg: "signed t a" and ie: "init_escrow P st a e iid = Inr (esc, bump, l0)"
    and it: "init_escrow_token P l0 a et e um = Inr l" and um: "cfg_usdc_mint c = um"
    and c: "accounts st cfg = Some (AConfig c)"
    and at: "tokens (ledger st) at = Some atk" "tok_owner atk = a"
    by (auto simp: DepositPayment_accounts_def ok_simps split: prod.splits)
  have um: "um = m" using m c um by (auto simp: mint_is_def)
  have loss0: "loses (ledger st) l at 0"
    using init_escrow_token_effect(1) [OF P it, of at] init_escrow_tokens [OF P ie]
    by (simp add: loses_def)
  note et = init_escrow_token_effect(2,3) [OF P it]
  note moved = spl_transfer_ok(2) [OF P tr]
  have free: "accounts st a = None"
    using signer_not_stored [of P "accounts st", OF _ t sg] inv by (auto simp: registry_inv_def)
  have s_e: "create_pda P (escrow_seeds a iid) bump = Some e"
    using init_escrow_record [OF P inv ie] by (simp add: seeds_ok_def)
  then have ae: "a \<noteq> e" using t sg by (auto simp: tx_ok_def signed_def)
  obtain atl where at_l: "tokens l at = Some atl" "tok_owner atl = a"
    using loss0 at unfolding loses_def by blast
  have others: "escrow_backed P m l' k x" if "accounts st k = Some (AEscrow x)" for k x
  proof -
    have bk: "escrow_backed P m (ledger st) k x" using b that by (simp add: backed_def)
    have "a \<noteq> k" using free that by auto
    then have "escrow_backed P m l k x"
      by (intro escrow_backed_loses [OF bk loss0]) (use at in auto)
    then show ?thesis
      by (rule escrow_backed_loses [OF _ token_moved_loses [OF moved]])
        (use at_l \<open>a \<noteq> k\<close> in auto)
  qed
  obtain tk where tk: "tokens l et = Some tk" "tok_owner tk = e" "tok_mint tk = um"
    using et(2) by blast
  have "at \<noteq> et" using at_l tk ae by auto
  with moved tk have tk': "tokens l' et = Some (tk\<lparr>tok_amount := tok_amount tk + amt\<rparr>)"
    and room: "unat (tok_amount tk + amt) = unat (tok_amount tk) + unat amt"
    using unat_add_lem [of "tok_amount tk" amt] by (auto simp: token_moved_def)
  have own: "unat (esc_deposited esc) \<le> unat (esc_distributed esc) + unat (tok_amount tk)"
  proof (cases "accounts st e")
    case None
    with init_escrow_record [OF P inv ie] show ?thesis by (auto simp: empty_escrow_def)
  next
    case (Some r)
    with init_escrow_kind [OF ie] have "escrow_backed P m (ledger st) e esc"
      using b by (simp add: backed_def)
    then have "escrow_backed P m l e esc"
      by (rule escrow_backed_loses [OF _ loss0]) (use at ae in auto)
    then show ?thesis using tk et(1) um by (simp add: escrow_backed_def)
  qed
  have "escrow_backed P m l' e ((first_deposit t a iid c bump esc)\<lparr>esc_deposited := tot\<rparr>)"
    using own tk tk' room et(1) um checked_add_unat [OF tot] by (simp add: escrow_backed_def)
  then show ?thesis unfolding st' backed_def using others by simp
qed

lemma distribute_payment_backed:
  assumes P: "platform_ok P" and b: "backed P m st"
    and di: "distribute_payment P t e et k pt cr rm iid st = Inr st'"
  shows "backed P m st'"
  using di
proof (cases rule: distribute_payment_cases)
  case (paid esc i act s1 s2 l tot dist rem)
  note ld = DistributePayment_loads [OF paid(1)]
  note loss = pay_all_loses [OF P paid(6)]
  have others: "escrow_backed P m l j x" if "accounts st j = Some (AEscrow x)" "j \<noteq> e" for j x
    using escrow_backed_loses [OF _ loss] b that ld(3) by (auto simp: backed_def)
  from b ld(1) obtain tk where tk: "tokens (ledger st) (ata_address P e m) = Some tk"
    "tok_owner tk = e" "tok_mint tk = m"
    "unat (esc_deposited esc) \<le> unat (esc_distributed esc) + unat (tok_amount tk)"
    by (auto simp: backed_def escrow_backed_def)
  from loss tk(1) obtain tk' where "tokens l (ata_address P e m) = Some tk'"
    "tok_owner tk' = tok_owner tk" "tok_mint tk' = tok_mint tk"
    "unat (tok_amount tk) \<le> unat (tok_amount tk') + (if ata_address P e m = et then unat tot else 0)"
    unfolding loses_def by blast
  then have "escrow_backed P m l e (esc\<lparr>esc_distributed := dist, esc_last_distribution_at := tx_now t\<rparr>)"
    using tk checked_add_unat [OF paid(7)] by (auto simp: escrow_backed_def split: if_splits)
  then show ?thesis
    unfolding paid(9) backed_def using others by (auto simp: fun_upd_def split: if_splits)
qed (use b in simp)

fun is_refund :: "instruction \<Rightarrow> bool" where
  "is_refund (DestroyInstance _ _ _ _ _ _ _) = True"
| "is_refund _ = False"

lemma execute_backed:
  assumes "platform_ok P" "tx_ok P t" "registry_inv P st" "mint_is P m st" "backed P m st"
    "execute P t ix st = Inr st'" "\<not> is_refund ix"
  shows "backed P m st'"
  using assms
  by (cases ix; simp only: execute.simps is_refund.simps)
    (fast intro: backed_neutral neutral_instructions
       elim: deposit_payment_backed distribute_payment_backed)+

text \<open>The configuration is never replaced: only its own initialisation writes one.\<close>

definition config_kept :: "platform \<Rightarrow> chain \<Rightarrow> chain \<Rightarrow> bool" where
  "config_kept P st st' \<longleftrightarrow>
     (\<forall>k c. accounts st' k = Some (AConfig c) \<longrightarrow> accounts st k = Some (AConfig c) \<or>
        accounts st k = None \<and> (\<exists>b. find_pda P [SBytes ''config''] = Some (k, b)))"

lemma mint_is_kept:
  assumes "mint_is P m st" "config_kept P st st'" "store_follows st st'"
  shows "mint_is P m st'"
proof -
  from assms(1) obtain k0 c0 b0 where k0: "find_pda P [SBytes ''config''] = Some (k0, b0)"
    "accounts st k0 = Some (AConfig c0)" and all: "\<And>k c. accounts st k = Some (AConfig c) \<Longrightarrow> cfg_usdc_mint c = m"
    by (auto simp: mint_is_def)
  have "accounts st' k0 = Some (AConfig c0)"
    using assms(3) k0(2) account_follows_config by (simp add: store_follows_def) (metis account_follows_config)
  moreover have "cfg_usdc_mint c = m" if "accounts st' k = Some (AConfig c)" for k c
  proof (cases "accounts st k")
    case None
    with that assms(2) k0 show ?thesis by (fastforce simp: config_kept_def)
  next
    case (Some a)
    with that assms(2) have "accounts st k = Some (AConfig c)"
      unfolding config_kept_def by fastforce
    then show ?thesis by (rule all)
  qed
  ultimately show ?thesis using k0(1) by (auto simp: mint_is_def)
qed

lemma config_kept_nodes:
  "initialize_config P t k a ms dr um cd sp st = Inr st' \<Longrightarrow> config_kept P st st'"
  "register_node P t k oper cfg ep cap rg st = Inr st' \<Longrightarrow> config_kept P st st'"
  "heartbeat P t k oper st = Inr st' \<Longrightarrow> config_kept P st st'"
  "deregister_node P t k oper st = Inr st' \<Longrightarrow> config_kept P st st'"
  "update_node P t k oper ep' cap' rg' st = Inr st' \<Longrightarrow> config_kept P st st'"
  "claim_stake P t k oper cfg st = Inr st' \<Longrightarrow> config_kept P st st'"
  "slash_node P t k cfg a pt st = Inr st' \<Longrightarrow> config_kept P st st'"
  by (auto simp: config_kept_def initialize_config_def InitializeConfig_accounts_def
      register_node_def RegisterNode_accounts_def heartbeat_def deregister_node_def
      own_node_accounts_def update_node_def claim_stake_def ClaimStake_accounts_def slash_node_def
      SlashNode_accounts_def ok_simps Let_def split: prod.splits if_splits)

lemma config_kept_instances:
  "activate_instance P t k p oper iid st = Inr st' \<Longrightarrow> config_kept P st st'"
  "commit_merkle_root P t k p oper iid root st = Inr st' \<Longrightarrow> config_kept P st st'"
  "update_instance_status P t k p s iid ns st = Inr st' \<Longrightarrow> config_kept P st st'"
  "allocate_instance P t k p a rm iid reps dek st = Inr st' \<Longrightarrow> config_kept P st st'"
  "migrate_instance P t k o' n' a iid st = Inr st' \<Longrightarrow> config_kept P st st'"
  "destroy_instance P t k p e et at a iid st = Inr st' \<Longrightarrow> config_kept P st st'"
  by (auto simp: config_kept_def activate_instance_def commit_merkle_root_def
      operator_instance_accounts_def update_instance_status_def UpdateInstanceStatus_accounts_def
      allocate_instance_def AllocateInstance_accounts_def migrate_instance_def
      MigrateInstance_accounts_def destroy_instance_def ok_simps Let_def
      split: prod.splits if_splits)

lemma config_kept_deposit:
  "deposit_payment P t e et at um cfg a iid amt st = Inr st' \<Longrightarrow> config_kept P st st'"
  by (auto simp: config_kept_def deposit_payment_def ok_simps Let_def
      split: prod.splits if_splits)

lemma config_kept_distribute:
  assumes "distribute_payment P t e et k pt cr rm iid st = Inr st'"
  shows "config_kept P st st'"
  using assms
proof (cases rule: distribute_payment_cases)
  case (paid esc i act s1 s2 l tot dist rem)
  then show ?thesis by (auto simp: config_kept_def split: if_splits)
qed (simp add: config_kept_def)

lemma execute_config_kept: "execute P t ix st = Inr st' \<Longrightarrow> config_kept P st st'"
  by (cases ix; simp only: execute.simps)
    (fast elim: config_kept_nodes config_kept_instances config_kept_deposit config_kept_distribute)+

text \<open>Steps without a refund, and the backing as their invariant.\<close>

definition unrefunded_step :: "platform \<Rightarrow> chain \<Rightarrow> chain \<Rightarrow> bool" where
  "unrefunded_step P st st' \<longleftrightarrow> platform_ok P \<and>
     ((\<exists>t ix. tx_ok P t \<and> \<not> is_refund ix \<and> execute P t ix st = Inr st') \<or>
      (\<exists>l. outside_change st l \<and> st' = with_ledger l st))"

definition backed_inv :: "platform \<Rightarrow> pubkey \<Rightarrow> chain \<Rightarrow> bool" where
  "backed_inv P m st \<longleftrightarrow> registry_inv P st \<and> mint_is P m st \<and> backed P m st"

lemma outside_backed:
  assumes "backed P m st" "outside_change st l"
  shows "backed P m (with_ledger l st)"
  unfolding backed_def
proof (intro allI impI)
  fix k e assume "accounts (with_ledger l st) k = Some (AEscrow e)"
  then have k: "accounts st k = Some (AEscrow e)" by simp
  with assms(1) obtain tk where tk: "tokens (ledger st) (ata_address P k m) = Some tk"
    "tok_owner tk = k" "tok_mint tk = m"
    "unat (esc_deposited e) \<le> unat (esc_distributed e) + unat (tok_amount tk)"
    by (auto simp: backed_def escrow_backed_def)
  have "accounts st (tok_owner tk) \<noteq> None" using tk(2) k by simp
  with assms(2) tk(1) obtain tk' where "tokens l (ata_address P k m) = Some tk'"
    "tok_owner tk' = tok_owner tk" "tok_mint tk' = tok_mint tk" "tok_amount tk \<le> tok_amount tk'"
    unfolding outside_change_def by blast
  with tk show "escrow_backed P m (ledger (with_ledger l st)) k e"
    by (auto simp: escrow_backed_def word_le_nat_alt)
qed

lemma unrefunded_step_inv:
  assumes "backed_inv P m st" "unrefunded_step P st st'"
  shows "backed_inv P m st'"
  using assms(2) unfolding unrefunded_step_def
proof (elim conjE disjE exE)
  fix t ix assume P: "platform_ok P" and t: "tx_ok P t" and ix: "\<not> is_refund ix"
    and ex: "execute P t ix st = Inr st'"
  then show ?thesis
    using assms(1) execute_inv [OF P t _ ex] execute_backed [OF P t _ _ _ ex ix]
      mint_is_kept [OF _ execute_config_kept [OF ex] execute_follows [OF ex]]
    by (auto simp: backed_inv_def)
next
  fix l assume "platform_ok P" "outside_change st l" "st' = with_ledger l st"
  moreover from this have "registry_inv P st'"
    using assms(1) chain_step_inv [of P st st'] outside_step [of st l P]
    by (simp add: backed_inv_def)
  ultimately show ?thesis
    using assms(1) outside_backed by (auto simp: backed_inv_def mint_is_def)
qed

interpretation bk: inductive_invariant "backed_inv P m" "unrefunded_step P" "backed_inv P m" for P m
  by unfold_locales (auto intro: unrefunded_step_inv)

end
