(* ===== verification/Registry_Demo.thy ===== *)
theory Registry_Demo
  imports Registry_Escrow
begin

text \<open>
  A concrete platform and a short history of the registry on it, used by the witnesses: wallet
  \<open>9\<close> initialises the configuration, wallets \<open>1\<close> and \<open>2\<close> register nodes, wallet \<open>3\<close> allocates
  instance \<open>7\<close> on node \<open>101\<close> with a replica, pays for it, and a cranker distributes.
\<close>

section \<open>A platform\<close>

fun demo_address :: "seed list \<Rightarrow> pubkey option" where
  "demo_address [SBytes s] = (if s = ''config'' then Some 100 else None)"
| "demo_address [SBytes s, SKey k] =
     (if s = ''node'' then if k = 1 then Some 101 else if k = 2 then Some 102 else None else None)"
| "demo_address [SBytes s, SKey k, SId i] =
     (if k = 3 \<and> i = 7 then
        if s = ''instance'' then Some 201 else if s = ''escrow'' then Some 202 else None
      else None)"
| "demo_address _ = None"

definition demo_sys :: "ledger \<Rightarrow> pubkey \<Rightarrow> pubkey \<Rightarrow> u64 \<Rightarrow> ledger option" where
  "demo_sys l a b n =
     (if a \<noteq> b \<and> n \<le> lamports l a \<and> unat (lamports l b) + unat n < 2 ^ 64
      then Some (l\<lparr>lamports := (lamports l)(a := lamports l a - n, b := lamports l b + n)\<rparr>)
      else None)"

definition demo_spl :: "ledger \<Rightarrow> pubkey \<Rightarrow> pubkey \<Rightarrow> pubkey \<Rightarrow> bool \<Rightarrow> u64 \<Rightarrow> ledger option" where
  "demo_spl l a b au sg n = (case (tokens l a, tokens l b) of
     (Some x, Some y) \<Rightarrow>
       (if sg \<and> tok_owner x = au \<and> tok_mint x = tok_mint y \<and> n \<le> tok_amount x then
          if a = b then Some l
          else if unat (tok_amount y) + unat n < 2 ^ 64 then
            Some (l\<lparr>tokens := (tokens l)(a \<mapsto> x\<lparr>tok_amount := tok_amount x - n\<rparr>,
                                        b \<mapsto> y\<lparr>tok_amount := tok_amount y + n\<rparr>)\<rparr>)
          else None
        else None)
   | _ \<Rightarrow> None)"

definition demo_ata :: "pubkey \<Rightarrow> pubkey \<Rightarrow> pubkey" where
  "demo_ata k m = k + 1000"

definition demo_ata_create :: "ledger \<Rightarrow> pubkey \<Rightarrow> pubkey \<Rightarrow> pubkey \<Rightarrow> pubkey \<Rightarrow> ledger option" where
  "demo_ata_create l p a au m =
     (if a = demo_ata au m \<and> tokens l a = None then
        map_option (\<lambda>l'. l'\<lparr>tokens := (tokens l)(a \<mapsto>
                              \<lparr>tok_owner = au, tok_mint = m, tok_amount = 0\<rparr>)\<rparr>)
          (demo_sys l p a 1)
      else None)"

definition demo :: platform where
  "demo = \<lparr>find_pda = (\<lambda>s. map_option (\<lambda>k. (k, 255)) (demo_address s)),
     create_pda = (\<lambda>s b. if b = 255 then demo_address s else None),
     sys_create = (\<lambda>l a b n. demo_sys l a b 5),
     sys_transfer = demo_sys, spl_transfer = demo_spl,
     ata_address = demo_ata, ata_create = demo_ata_create\<rparr>"

lemma demo_sys_moves:
  assumes "demo_sys l a b n = Some l'"
  shows "moved (lamports l) (lamports l') a b n" "tokens l' = tokens l" "mints l' = mints l"
proof -
  have g: "a \<noteq> b" "n \<le> lamports l a" "unat (lamports l b) + unat n < 2 ^ 64"
    and l': "l' = l\<lparr>lamports := (lamports l)(a := lamports l a - n, b := lamports l b + n)\<rparr>"
    using assms by (auto simp: demo_sys_def split: if_splits)
  then show "tokens l' = tokens l" "mints l' = mints l" by simp_all
  have "unat (lamports l a - n) = unat (lamports l a) - unat n" by (rule unat_sub [OF g(2)])
  moreover have "unat (lamports l b + n) = unat (lamports l b) + unat n"
    using g(3) unat_add_lem [of "lamports l b" n] by simp
  ultimately show "moved (lamports l) (lamports l') a b n"
    using g(1,2) l' by (auto simp: moved_def word_le_nat_alt)
qed

lemma demo_fields:
  "sys_transfer demo = demo_sys" "sys_create demo = (\<lambda>l a b n. demo_sys l a b 5)"
  by (simp_all add: demo_def)

lemma demo_pda: "pda_law demo"
  by (auto simp: pda_law_def demo_def)

lemma demo_system: "system_law demo"
  unfolding system_law_def demo_fields
  by (intro conjI allI impI exI) (erule demo_sys_moves)+

lemma demo_spl_moves:
  assumes "demo_spl l a b au sg n = Some l'"
  shows "sg" "token_moved (tokens l) (tokens l') a b n" "lamports l' = lamports l"
    "mints l' = mints l"
proof -
  from assms obtain x y where xy: "tokens l a = Some x" "tokens l b = Some y"
    by (auto simp: demo_spl_def split: option.splits)
  with assms have g: "sg" "tok_mint x = tok_mint y" "n \<le> tok_amount x"
    and eff: "if a = b then l' = l else unat (tok_amount y) + unat n < 2 ^ 64 \<and>
      l' = l\<lparr>tokens := (tokens l)(a \<mapsto> x\<lparr>tok_amount := tok_amount x - n\<rparr>,
                                  b \<mapsto> y\<lparr>tok_amount := tok_amount y + n\<rparr>)\<rparr>"
    by (auto simp: demo_spl_def split: if_splits)
  then show "sg" "lamports l' = lamports l" "mints l' = mints l"
    by (auto split: if_splits)
  show "token_moved (tokens l) (tokens l') a b n"
    unfolding token_moved_def
    by (rule exI [of _ x], rule exI [of _ y]) (use xy g eff in \<open>simp split: if_splits\<close>)
qed

lemma demo_token: "spl_law demo"
proof -
  have f: "spl_transfer demo = demo_spl" by (simp add: demo_def)
  show ?thesis
    unfolding spl_law_def f by (intro conjI allI impI) (erule demo_spl_moves)+
qed

lemma demo_ata_moves:
  assumes "demo_ata_create l p a au m = Some l'"
  shows "a = demo_ata au m" "tokens l a = None"
    "tokens l' = (tokens l)(a \<mapsto> \<lparr>tok_owner = au, tok_mint = m, tok_amount = 0\<rparr>)"
    "moved (lamports l) (lamports l') p a 1" "mints l' = mints l"
  using assms by (auto simp: demo_ata_create_def split: if_splits dest: demo_sys_moves)

lemma demo_ata: "ata_law demo"
proof -
  have f: "ata_create demo = demo_ata_create" "ata_address demo = demo_ata"
    by (simp_all add: demo_def)
  show ?thesis
    unfolding ata_law_def f by (intro conjI allI impI exI) (erule demo_ata_moves)+
qed

lemma demo_ok: "platform_ok demo"
  by (simp add: platform_ok_def demo_pda demo_system demo_token demo_ata)

lemma demo_address_range: "demo_address s = Some k \<Longrightarrow> k \<in> {100, 101, 102, 201, 202}"
  by (cases s rule: demo_address.cases) (auto split: if_splits)

lemma demo_tx_ok: "set ks \<subseteq> {1, 2, 3, 9} \<Longrightarrow> tx_ok demo \<lparr>tx_signers = ks, tx_now = n\<rparr>"
  by (auto simp: tx_ok_def demo_def dest!: demo_address_range)

section \<open>A history\<close>

definition demo0 :: chain where
  "demo0 = \<lparr>accounts = (\<lambda>_. None),
     ledger = \<lparr>lamports = (\<lambda>k. if k < 10 then 10000 else 0),
       tokens = (\<lambda>k. if k = 53 then Some \<lparr>tok_owner = 3, tok_mint = 70, tok_amount = 5000\<rparr>
                     else if k = 51 then Some \<lparr>tok_owner = 1, tok_mint = 70, tok_amount = 0\<rparr>
                     else if k = 52 then Some \<lparr>tok_owner = 2, tok_mint = 70, tok_amount = 0\<rparr>
                     else None),
       mints = [70]\<rparr>,
     log = []\<rparr>"

text \<open>A history of successful transactions: stops at the first error.\<close>

fun run :: "platform \<Rightarrow> (tx \<times> instruction) list \<Rightarrow> chain \<Rightarrow> reg_error + chain" where
  "run P [] st = Inr st"
| "run P ((t, ix) # rest) st = rbind (execute P t ix st) (run P rest)"

abbreviation tx_at :: "pubkey \<Rightarrow> i64 \<Rightarrow> tx" where
  "tx_at k n \<equiv> \<lparr>tx_signers = [k], tx_now = n\<rparr>"

definition demo_history :: "(tx \<times> instruction) list" where
  "demo_history =
    [(tx_at 9 10, InitializeConfig 100 9 1000 3600 70 60 50),
     (tx_at 1 20, RegisterNode 101 1 100 ''https://a'' 2 ''eu''),
     (tx_at 2 30, RegisterNode 102 2 100 ''https://b'' 4 ''us''),
     (tx_at 3 40, AllocateInstance 201 101 3 [102] 7 [102] [1, 2, 3]),
     (tx_at 1 50, ActivateInstance 201 101 1 7),
     (tx_at 3 60, DepositPayment 202 1202 53 70 100 3 7 2000)]"

definition demo_state :: chain where
  "demo_state = (case run demo demo_history demo0 of Inr st \<Rightarrow> st | Inl _ \<Rightarrow> demo0)"

lemmas instruction_defs =
  initialize_config_def InitializeConfig_accounts_def register_node_def RegisterNode_accounts_def
  own_node_accounts_def update_node_def heartbeat_def deregister_node_def claim_stake_def
  ClaimStake_accounts_def slash_node_def SlashNode_accounts_def slash_amount_def config_ok_def
  allocate_instance_def AllocateInstance_accounts_def activate_instance_def
  commit_merkle_root_def operator_instance_accounts_def update_instance_status_def
  UpdateInstanceStatus_accounts_def destroy_instance_def DestroyInstance_accounts_def
  refund_escrow_def escrow_transfer_def migrate_instance_def MigrateInstance_accounts_def
  deposit_payment_def DepositPayment_accounts_def init_escrow_def init_escrow_token_def
  first_deposit_def distribute_payment_def DistributePayment_accounts_def payment_due_def
  share_of_def pay_def pay_all_def init_pda_def seeds_ok_def signed_def move_lamports_def
  load_config_def load_node_def load_instance_def load_escrow_def load_token_def
  checked_add_def checked_sub_def checked_mul_def checked_div_def i64_checked_sub_def in_i64_def

lemmas demo_defs = demo_def demo_sys_def demo_spl_def demo_ata_def demo_ata_create_def

lemma demo_history_runs: "run demo demo_history demo0 = Inr demo_state"
  by (simp add: demo_state_def demo_history_def demo0_def demo_defs instruction_defs limit_defs
      empty_escrow_def)

lemmas demo_eval = demo_state_def demo_history_def demo0_def demo_defs instruction_defs limit_defs
  empty_escrow_def

definition demo_store :: "pubkey \<Rightarrow> account option" where
  "demo_store = (\<lambda>_. None)
    (100 \<mapsto> AConfig \<lparr>cfg_authority = 9, cfg_min_stake = 1000, cfg_default_rate_per_hour = 3600,
       cfg_usdc_mint = 70, cfg_deregistration_cooldown = 60, cfg_slash_percentage = 50,
       cfg_bump = 255\<rparr>,
     102 \<mapsto> ANode \<lparr>node_operator = 2, node_endpoint = ''https://b'', node_capacity = 4,
       node_active_instances = 0, node_stake = 1000, node_registered_at = 30,
       node_last_heartbeat = 30, node_state = NodeActive, node_region = ''us'', node_bump = 255\<rparr>,
     101 \<mapsto> ANode \<lparr>node_operator = 1, node_endpoint = ''https://a'', node_capacity = 2,
       node_active_instances = 1, node_stake = 1000, node_registered_at = 20,
       node_last_heartbeat = 20, node_state = NodeActive, node_region = ''eu'', node_bump = 255\<rparr>,
     201 \<mapsto> AInstance \<lparr>inst_agent = 3, inst_id = 7, inst_primary_node = 101,
       inst_replica_nodes = [102], inst_encrypted_dek = [1, 2, 3], inst_merkle_root = 0,
       inst_status = InstanceActive, inst_created_at = 40, inst_updated_at = 50, inst_bump = 255\<rparr>,
     202 \<mapsto> AEscrow \<lparr>esc_agent = 3, esc_instance_id = 7, esc_deposited = 2000,
       esc_distributed = 0, esc_rate_per_hour = 3600, esc_last_distribution_at = 60,
       esc_bump = 255\<rparr>)"

definition demo_ledger :: ledger where
  "demo_ledger = \<lparr>lamports = (\<lambda>k. if k < 10 then 10000 else 0)
        (9 := 9995, 100 := 5, 1 := 8995, 101 := 1005, 2 := 8995, 102 := 1005,
         201 := 5, 202 := 5, 3 := 9989, 1202 := 1),
      tokens = (\<lambda>k. if k = 53 then Some \<lparr>tok_owner = 3, tok_mint = 70, tok_amount = 5000\<rparr>
                     else if k = 51 then Some \<lparr>tok_owner = 1, tok_mint = 70, tok_amount = 0\<rparr>
                     else if k = 52 then Some \<lparr>tok_owner = 2, tok_mint = 70, tok_amount = 0\<rparr>
                     else None)
        (53 \<mapsto> \<lparr>tok_owner = 3, tok_mint = 70, tok_amount = 3000\<rparr>,
         1202 \<mapsto> \<lparr>tok_owner = 202, tok_mint = 70, tok_amount = 2000\<rparr>),
      mints = [70]\<rparr>"

lemma demo_state_eq:
  "\<exists>lg. demo_state = \<lparr>accounts = demo_store, ledger = demo_ledger, log = lg\<rparr>"
  by (simp add: demo_eval demo_store_def demo_ledger_def emit_def store_def with_ledger_def)

lemma demo_state_fields [simp]:
  "accounts demo_state = demo_store" "ledger demo_state = demo_ledger"
proof -
  obtain lg where st: "demo_state = \<lparr>accounts = demo_store, ledger = demo_ledger, log = lg\<rparr>"
    using demo_state_eq by blast
  show "accounts demo_state = demo_store" "ledger demo_state = demo_ledger"
    unfolding st by (rule chain.select_convs)+
qed

end
