(* ===== verification/Registry_Properties.thy ===== *)
theory Registry_Properties
  imports Registry_Demo
begin

text \<open>
  What the registry guarantees, stated over its instructions and over the reachable states of
  the chain, each with a witness in the history of \<open>Registry_Demo\<close>.
\<close>

section \<open>The demonstration state is reachable\<close>

lemma exec_reachable:
  "reachable genesis (platform_step P) st \<Longrightarrow> platform_ok P \<Longrightarrow> tx_ok P t \<Longrightarrow>
     execute P t ix st = Inr st' \<Longrightarrow> reachable genesis (platform_step P) st'"
  by (rule reach_step) (auto simp: platform_step_def intro: instruction_step)

lemma run_reachable:
  "run P h st = Inr st' \<Longrightarrow> platform_ok P \<Longrightarrow> \<forall>(t, ix) \<in> set h. tx_ok P t \<Longrightarrow>
     reachable genesis (platform_step P) st \<Longrightarrow> reachable genesis (platform_step P) st'"
  by (induction P h st rule: run.induct)
    (auto simp: ok_simps dest: exec_reachable)

lemma demo_genesis: "genesis demo0"
  by (simp add: genesis_def demo0_def)

lemma demo_reachable: "reachable genesis (platform_step demo) demo_state"
  by (rule run_reachable [OF demo_history_runs demo_ok])
    (auto simp: demo_history_def intro!: demo_tx_ok reach_init demo_genesis)

lemma demo_accounts:
  "accounts demo_state 100 = Some (AConfig \<lparr>cfg_authority = 9, cfg_min_stake = 1000,
     cfg_default_rate_per_hour = 3600, cfg_usdc_mint = 70, cfg_deregistration_cooldown = 60,
     cfg_slash_percentage = 50, cfg_bump = 255\<rparr>)"
  "accounts demo_state 101 = Some (ANode \<lparr>node_operator = 1, node_endpoint = ''https://a'',
     node_capacity = 2, node_active_instances = 1, node_stake = 1000, node_registered_at = 20,
     node_last_heartbeat = 20, node_state = NodeActive, node_region = ''eu'', node_bump = 255\<rparr>)"
  "accounts demo_state 102 = Some (ANode \<lparr>node_operator = 2, node_endpoint = ''https://b'',
     node_capacity = 4, node_active_instances = 0, node_stake = 1000, node_registered_at = 30,
     node_last_heartbeat = 30, node_state = NodeActive, node_region = ''us'', node_bump = 255\<rparr>)"
  "accounts demo_state 201 = Some (AInstance \<lparr>inst_agent = 3, inst_id = 7,
     inst_primary_node = 101, inst_replica_nodes = [102], inst_encrypted_dek = [1, 2, 3],
     inst_merkle_root = 0, inst_status = InstanceActive, inst_created_at = 40,
     inst_updated_at = 50, inst_bump = 255\<rparr>)"
  "accounts demo_state 202 = Some (AEscrow \<lparr>esc_agent = 3, esc_instance_id = 7,
     esc_deposited = 2000, esc_distributed = 0, esc_rate_per_hour = 3600,
     esc_last_distribution_at = 60, esc_bump = 255\<rparr>)"
  by (simp_all add: demo_store_def demo_ledger_def)

lemma demo_ledger:
  "lamports (ledger demo_state) 101 = 1005" "lamports (ledger demo_state) 102 = 1005"
  "lamports (ledger demo_state) 9 = 9995" "lamports (ledger demo_state) 2 = 8995"
  "tokens (ledger demo_state) 1202 = Some \<lparr>tok_owner = 202, tok_mint = 70, tok_amount = 2000\<rparr>"
  "tokens (ledger demo_state) 51 = Some \<lparr>tok_owner = 1, tok_mint = 70, tok_amount = 0\<rparr>"
  "tokens (ledger demo_state) 52 = Some \<lparr>tok_owner = 2, tok_mint = 70, tok_amount = 0\<rparr>"
  by (simp_all add: demo_store_def demo_ledger_def)

lemma demo_account_cases:
  "accounts demo_state k \<noteq> None \<Longrightarrow> k \<in> {100, 101, 102, 201, 202}"
  by (auto simp: demo_store_def split: if_splits)

section \<open>Nodes\<close>

text \<open>
  C9: In every reachable state of the chain a node record keeps at most as many active
  instances as its capacity, its recorded stake is covered by the lamports of its account, and
  once deregistered it has neither stake nor instances.
\<close>

theorem nodes_stay_sound:
  assumes "reachable genesis (platform_step P) st" "accounts st k = Some (ANode n)"
  shows "unat (node_active_instances n) \<le> unat (node_capacity n) \<and> 0 < node_capacity n \<and>
    unat (node_stake n) \<le> unat (lamports (ledger st) k) \<and>
    (node_state n = Deregistered \<longrightarrow> node_stake n = 0 \<and> node_active_instances n = 0)"
  using node_inv [OF assms(2) reg.inv_reachable [OF assms(1)]] by (auto simp: word_le_nat_alt)

theorem nodes_stay_sound_witness:
  "\<exists>n. accounts demo_state 101 = Some (ANode n) \<and>
    unat (node_active_instances n) \<le> unat (node_capacity n) \<and>
    unat (node_stake n) \<le> unat (lamports (ledger demo_state) 101)"
  using nodes_stay_sound [OF demo_reachable demo_accounts(2)] demo_accounts(2) by blast

text \<open>
  C39: In every reachable state every account, serialised with its discriminator, fits the space
  it was allocated with, so no write-back of an instruction can run out of account space.
\<close>

theorem records_fit_space:
  assumes "reachable genesis (platform_step P) st" "accounts st k = Some a"
  shows "account_size a \<le> account_space a"
proof (cases a)
  case (ANode n)
  then show ?thesis
    using node_inv [of st k n P] assms reg.inv_reachable [OF assms(1)]
    by (auto simp: size_defs limit_defs)
next
  case (AInstance i)
  then show ?thesis
    using instance_inv [of st k i P] assms reg.inv_reachable [OF assms(1)]
    by (auto simp: size_defs limit_defs)
qed (simp_all add: size_defs)

theorem records_fit_space_witness:
  "\<exists>a. accounts demo_state 201 = Some a \<and> account_size a \<le> account_space a"
  using records_fit_space [OF demo_reachable demo_accounts(4)] demo_accounts(4) by blast

lemma move_lamports_total:
  assumes "unat n \<le> unat (lamports l src)" "src \<noteq> dst" "unat (lamports l dst) + unat n < 2 ^ 64"
  shows "\<exists>l'. move_lamports l src dst n = Inr l'"
  using assms
  by (auto simp: move_lamports_def checked_sub_def checked_add_def word_le_nat_alt Let_def)

text \<open>
  A claim of the stake succeeds exactly when the operator signs for its own deregistering
  node without instances after the cool-down (measured in saturating \<open>i64\<close> arithmetic since the
  deregistration), and then the recorded stake, no more and no less, goes to the operator.
\<close>

lemma claim_stake_exact:
  assumes inv: "registry_inv P st" and t: "tx_ok P t"
    and n: "accounts st k = Some (ANode n)" and c: "accounts st cfg = Some (AConfig c)"
    and room: "unat (lamports (ledger st) oper) + unat (node_stake n) < 2 ^ 64"
  shows "(is_ok (claim_stake P t k oper cfg st) \<longleftrightarrow>
      node_operator n = oper \<and> signed t oper \<and> node_state n = Deregistering \<and>
      node_active_instances n = 0 \<and>
      sint (cfg_deregistration_cooldown c) \<le>
        max (- (2 ^ 63)) (min (2 ^ 63 - 1) (sint (tx_now t) - sint (node_last_heartbeat n)))) \<and>
    (\<forall>st'. claim_stake P t k oper cfg st = Inr st' \<longrightarrow>
      accounts st' = (accounts st)
        (k \<mapsto> ANode (n\<lparr>node_stake := 0, node_state := Deregistered\<rparr>)) \<and>
      moved (lamports (ledger st)) (lamports (ledger st')) k oper (node_stake n))"
proof -
  have ne: "k \<noteq> oper" if "signed t oper"
    using signer_not_stored [of P "accounts st", OF _ t that] inv n
    by (auto simp: registry_inv_def)
  have mv: "\<exists>l'. move_lamports (ledger st) k oper (node_stake n) = Inr l'" if "signed t oper"
    using move_lamports_total ne [OF that] node_inv [OF n inv] room by blast
  show ?thesis
    using n c mv ne node_inv [OF n inv] config_inv [OF c inv]
    by (auto simp: is_ok_iff claim_stake_def ClaimStake_accounts_def ok_simps Let_def
        i64_saturating_sub_sint dest: move_lamports_ok(3))
qed

text \<open>A deregistering node whose cool-down has elapsed, reached from the history by one more step.\<close>

definition demo_leaving :: chain where
  "demo_leaving = (case execute demo (tx_at 2 100) (DeregisterNode 102 2) demo_state of
     Inr st \<Rightarrow> st | Inl _ \<Rightarrow> demo_state)"

lemma demo_leaving_step: "execute demo (tx_at 2 100) (DeregisterNode 102 2) demo_state = Inr demo_leaving"
  by (simp add: demo_leaving_def demo_eval demo_accounts)

lemma demo_leaving_reachable: "reachable genesis (platform_step demo) demo_leaving"
  by (rule exec_reachable [OF demo_reachable demo_ok _ demo_leaving_step]) (simp add: demo_tx_ok)

lemma demo_leaving_fields:
  "accounts demo_leaving 100 = accounts demo_state 100"
  "accounts demo_leaving 102 = Some (ANode \<lparr>node_operator = 2, node_endpoint = ''https://b'',
     node_capacity = 4, node_active_instances = 0, node_stake = 1000, node_registered_at = 30,
     node_last_heartbeat = 100, node_state = Deregistering, node_region = ''us'',
     node_bump = 255\<rparr>)"
  "ledger demo_leaving = ledger demo_state"
  by (simp_all add: demo_leaving_def demo_eval demo_accounts)

lemma claim_stake_exact_witness:
  "is_ok (claim_stake demo (tx_at 2 160) 102 2 100 demo_leaving) \<and>
   \<not> is_ok (claim_stake demo (tx_at 2 159) 102 2 100 demo_leaving)"
proof -
  note inv = reg.inv_reachable [OF demo_leaving_reachable]
  have c: "accounts demo_leaving 100 = Some (AConfig \<lparr>cfg_authority = 9, cfg_min_stake = 1000,
     cfg_default_rate_per_hour = 3600, cfg_usdc_mint = 70, cfg_deregistration_cooldown = 60,
     cfg_slash_percentage = 50, cfg_bump = 255\<rparr>)"
    using demo_accounts(1) demo_leaving_fields(1) by simp
  have r: "unat (lamports (ledger demo_leaving) 2) + unat (1000 :: u64) < 2 ^ 64"
    by (simp add: demo_leaving_fields demo_ledger_def)
  show ?thesis
    using claim_stake_exact [OF inv demo_tx_ok demo_leaving_fields(2) c, of "[2]" 2 160]
      claim_stake_exact [OF inv demo_tx_ok demo_leaving_fields(2) c, of "[2]" 2 159] r
    by (simp add: signed_def)
qed

text \<open>
  Slashing succeeds exactly when the configured authority signs (and the product of stake
  and percentage fits 64 bits and the authority's balance has room); it then takes the configured
  percentage of the recorded stake, never more than the stake, moves exactly those lamports to
  the authority and suspends the node, whatever its status was.
\<close>

lemma slash_node_exact:
  assumes inv: "registry_inv P st" and t: "tx_ok P t"
    and n: "accounts st k = Some (ANode n)" and c: "accounts st cfg = Some (AConfig c)"
    and room: "unat (lamports (ledger st) auth) + unat (node_stake n) < 2 ^ 64"
    and small: "unat (node_stake n) * 100 < 2 ^ 64"
  shows "(is_ok (slash_node P t k cfg auth pt st) \<longleftrightarrow> cfg_authority c = auth \<and> signed t auth) \<and>
    (\<forall>st'. slash_node P t k cfg auth pt st = Inr st' \<longrightarrow>
      (\<exists>n' a. unat a = unat (node_stake n) * unat (cfg_slash_percentage c) div 100 \<and>
        unat a \<le> unat (node_stake n) \<and> accounts st' = (accounts st)(k \<mapsto> ANode n') \<and>
        n' = n\<lparr>node_stake := node_stake n - a, node_state := NodeSuspended\<rparr> \<and>
        moved (lamports (ledger st)) (lamports (ledger st')) k auth a))"
proof -
  have ne: "k \<noteq> auth" if "signed t auth"
    using signer_not_stored [of P "accounts st", OF _ t that] inv n
    by (auto simp: registry_inv_def)
  have pct: "unat (cfg_slash_percentage c) \<le> 100"
    using config_inv [OF c inv] by (simp add: word_le_nat_alt)
  have u: "unat (ucast (cfg_slash_percentage c) :: u64) = unat (cfg_slash_percentage c)"
    by (rule unat_ucast_u8)
  have fits: "unat (node_stake n) * unat (cfg_slash_percentage c) < 2 ^ 64"
    using small pct by (meson le_less_trans mult_le_mono2)
  then obtain a where a: "slash_amount n c = Inr a"
    by (auto simp: slash_amount_def checked_mul_def checked_div_def u)
  have ua: "unat a = unat (node_stake n) * unat (cfg_slash_percentage c) div 100"
    using a u by (auto simp: slash_amount_def ok_simps dest!: checked_mul_unat checked_div_unat)
  have le: "unat a \<le> unat (node_stake n)"
    using div_le_mono [OF mult_le_mono2 [OF pct, of "unat (node_stake n)"], of 100] ua by simp
  have mv: "\<exists>l'. move_lamports (ledger st) k auth a = Inr l'" if "signed t auth"
    using le room node_inv [OF n inv] by (intro move_lamports_total ne that) auto
  have sub: "checked_sub (node_stake n) a = Some (node_stake n - a)"
    using le by (simp add: checked_sub_def word_le_nat_alt)
  have "is_ok (slash_node P t k cfg auth pt st) \<longleftrightarrow> cfg_authority c = auth \<and> signed t auth"
    using n c mv a sub config_inv [OF c inv]
    by (auto simp: is_ok_iff slash_node_def SlashNode_accounts_def ok_simps Let_def)
  moreover have "accounts st' = (accounts st)(k \<mapsto> ANode (n\<lparr>node_stake := node_stake n - a,
      node_state := NodeSuspended\<rparr>)) \<and> moved (lamports (ledger st)) (lamports (ledger st')) k auth a"
    if "slash_node P t k cfg auth pt st = Inr st'" for st'
    using that n c ne a sub
    by (auto simp: slash_node_def SlashNode_accounts_def ok_simps Let_def dest: move_lamports_ok(3))
  ultimately show ?thesis using ua le by blast
qed

lemma slash_node_exact_witness:
  "is_ok (slash_node demo (tx_at 9 200) 101 100 9 Downtime demo_state) \<and>
   \<not> is_ok (slash_node demo (tx_at 3 200) 101 100 3 Downtime demo_state)"
proof -
  note inv = reg.inv_reachable [OF demo_reachable]
  show ?thesis
    using slash_node_exact [OF inv demo_tx_ok demo_accounts(2,1), of "[9]" 9 200 Downtime]
      slash_node_exact [OF inv demo_tx_ok demo_accounts(2,1), of "[3]" 3 200 Downtime]
    by (simp add: signed_def demo_ledger_def)
qed

end
