(* ===== verification/Registry_Guarantees.thy ===== *)
theory Registry_Guarantees
  imports Registry_Properties
begin

text \<open>
  Guarantees that concern the money of the escrows, the life cycles and who may change what.
\<close>

section \<open>Escrows\<close>

text \<open>
  C3: Along any history without a refund, deposits stay backed: the associated token account of
  every escrow holds at least what has been deposited and not yet distributed, whatever
  instructions, signers and accounts are used and whatever other programs do in between.
\<close>

theorem deposits_stay_backed:
  assumes "(unrefunded_step P)\<^sup>*\<^sup>* st st'" "registry_inv P st" "mint_is P m st" "backed P m st"
    and "accounts st' k = Some (AEscrow e)"
  shows "\<exists>tk. tokens (ledger st') (ata_address P k m) = Some tk \<and> tok_owner tk = k \<and>
    tok_mint tk = m \<and>
    unat (esc_deposited e) \<le> unat (esc_distributed e) + unat (tok_amount tk)"
  using bk.inv_steps [OF assms(1), of m] assms(2-5)
  by (auto simp: backed_inv_def backed_def escrow_backed_def)

lemma demo_mint: "mint_is demo 70 demo_state"
  unfolding mint_is_def using demo_accounts(1)
  by (auto simp: demo_def demo_store_def split: if_splits)

lemma demo_backed: "backed demo 70 demo_state"
  by (auto simp: backed_def escrow_backed_def demo_store_def demo_def demo_ata_def demo_ledger_def
      split: if_splits)

definition demo_pay :: instruction where
  "demo_pay = DistributePayment 202 1202 201 51 9 [52] 7"

definition demo_paid :: chain where
  "demo_paid = (case execute demo (tx_at 9 160) demo_pay demo_state of Inr st \<Rightarrow> st | Inl _ \<Rightarrow> demo_state)"

lemma demo_paid_step: "execute demo (tx_at 9 160) demo_pay demo_state = Inr demo_paid"
  by (simp add: demo_paid_def demo_pay_def demo_eval demo_accounts demo_ledger)

lemma demo_paid_escrow:
  "accounts demo_paid 202 = Some (AEscrow \<lparr>esc_agent = 3, esc_instance_id = 7,
     esc_deposited = 2000, esc_distributed = 85, esc_rate_per_hour = 3600,
     esc_last_distribution_at = 160, esc_bump = 255\<rparr>)"
  by (simp add: demo_paid_def demo_pay_def demo_eval demo_accounts demo_ledger)

theorem deposits_stay_backed_witness:
  "\<exists>tk. tokens (ledger demo_paid) 1202 = Some tk \<and> 2000 \<le> 85 + unat (tok_amount tk)"
proof -
  have "unrefunded_step demo demo_state demo_paid"
    unfolding unrefunded_step_def using demo_paid_step demo_ok
    by (intro conjI disjI1 exI [of _ "tx_at 9 160"] exI [of _ demo_pay])
      (simp_all add: demo_pay_def demo_tx_ok)
  then have "(unrefunded_step demo)\<^sup>*\<^sup>* demo_state demo_paid" by blast
  from deposits_stay_backed [OF this reg.inv_reachable [OF demo_reachable] demo_mint demo_backed
      demo_paid_escrow]
  show ?thesis by (auto simp: demo_def demo_ata_def)
qed

text \<open>
  C4: A successful distribution computes the due amount \<open>d\<close> from the elapsed seconds and the
  hourly rate, capped by what is left, and the ledger moves exactly 70 percent of it into the
  primary's token account and 15 percent into each replica account given (at most as many as the
  instance has replicas, at most three), out of the escrow's token account: every payee of a share
  that is not zero has a token account, each account gains the sum of its shares, the escrow's
  token account loses what went to others, and no other token account changes. What is recorded as
  distributed grows by exactly the sum of the shares and never exceeds what was deposited.
\<close>

theorem distribution_pays_shares:
  assumes P: "platform_ok P"
    and di: "distribute_payment P t e et k pt cr rm iid st = Inr st'"
    and esc: "accounts st e = Some (AEscrow esc)" and i: "accounts st k = Some (AInstance i)"
  shows "\<exists>esc' d total. accounts st' e = Some (AEscrow esc') \<and>
    d = min (unat (tx_now t - esc_last_distribution_at esc) * unat (esc_rate_per_hour esc) div 3600)
            (unat (esc_deposited esc) - unat (esc_distributed esc)) \<and>
    total = d * 70 div 100 +
      min (min (length (inst_replica_nodes i)) 3) (length rm) * (d * 15 div 100) \<and>
    unat (esc_distributed esc') = unat (esc_distributed esc) + total \<and>
    esc_deposited esc' = esc_deposited esc \<and>
    unat (esc_distributed esc') \<le> unat (esc_deposited esc') \<and>
    loses (ledger st) (ledger st') et total \<and>
    paid_to (ledger st) (ledger st') et
      ((pt, d * 70 div 100) # map (\<lambda>a. (a, d * 15 div 100))
         (take (min (length (inst_replica_nodes i)) 3) rm))"
  using di
proof (cases rule: distribute_payment_cases)
  case (idle esc0 i0)
  then have "esc0 = esc" using DistributePayment_loads [OF idle(1)] esc by simp
  have none: "paid_to (ledger st) (ledger st) et (map (\<lambda>a. (a, 0)) as)" for as
  proof (induction as)
    case (Cons a as)
    then show ?case using paid_to_append [OF paid_to_zero Cons, of a] by simp
  qed simp
  show ?thesis
    using payment_due_unat [OF idle(2)] idle(3) esc \<open>esc0 = esc\<close>
      none [of "pt # take (min (length (inst_replica_nodes i)) 3) rm"]
    by (intro exI [of _ esc]) simp
next
  case (paid esc0 i0 act s1 s2 l tot dist rem)
  have eq: "esc0 = esc" "i0 = i"
    using DistributePayment_loads [OF paid(1)] esc i by simp_all
  have "e \<noteq> k" using esc i by auto
  have tot: "unat tot = unat act * 70 div 100 +
      min (min (length (inst_replica_nodes i)) 3) (length rm) * (unat act * 15 div 100)"
    using pay_all_unat [OF paid(6)] share_of_unat [OF paid(4)] share_of_unat [OF paid(5)] eq
    by (simp add: MAX_REPLICA_NODES_def)
  have d: "unat act = min (unat (tx_now t - esc_last_distribution_at esc) *
      unat (esc_rate_per_hour esc) div 3600) (unat (esc_deposited esc) - unat (esc_distributed esc))"
    using payment_due_unat [OF paid(2)] eq by simp
  let ?e = "esc\<lparr>esc_distributed := dist, esc_last_distribution_at := tx_now t\<rparr>"
  have sums: "unat dist = unat (esc_distributed esc) + unat tot" "unat dist \<le> unat (esc_deposited esc)"
    using checked_add_unat [OF paid(7)] checked_sub_unat [OF paid(8)] eq by simp_all
  show ?thesis
  proof (intro exI conjI)
    show "accounts st' e = Some (AEscrow ?e)" using paid(9) eq \<open>e \<noteq> k\<close> by simp
    show "unat (esc_distributed ?e) = unat (esc_distributed esc) + unat tot"
      "unat (esc_distributed ?e) \<le> unat (esc_deposited ?e)" using sums by simp_all
    show "loses (ledger st) (ledger st') et (unat tot)"
      using pay_all_loses [OF P paid(6)] paid(9) by simp
    show "paid_to (ledger st) (ledger st') et
        ((pt, unat act * 70 div 100) # map (\<lambda>a. (a, unat act * 15 div 100))
           (take (min (length (inst_replica_nodes i)) 3) rm))"
      using pay_all_pays [OF P paid(6)] share_of_unat [OF paid(4)] share_of_unat [OF paid(5)]
        paid(9) eq by (simp add: MAX_REPLICA_NODES_def)
    show "esc_deposited ?e = esc_deposited esc" by simp
  qed (fact d tot)+
qed

theorem distribution_pays_shares_witness:
  "\<exists>d total. d = (100 :: nat) \<and> total = (85 :: nat) \<and> loses demo_ledger (ledger demo_paid) 1202 total \<and>
     paid_to demo_ledger (ledger demo_paid) 1202 [(51, 70), (52, 15)]"
proof -
  have di: "distribute_payment demo (tx_at 9 160) 202 1202 201 51 9 [52] 7 demo_state = Inr demo_paid"
    using demo_paid_step by (simp add: demo_pay_def)
  show ?thesis
    using distribution_pays_shares [OF demo_ok di demo_accounts(5,4)]
    by (auto simp: demo_paid_escrow)
qed

text \<open>
  C36: With at most two replica accounts a distribution never pays more than is due; with three
  (the maximum number of replicas) and 27 units or more due it pays more than is due, and it
  succeeds only when the escrow holds more than is due: the last payment of an escrow, where
  everything left is due, is always refused.
\<close>

theorem three_replicas_overdraw:
  assumes "distribute_payment P t e et k pt cr rm iid st = Inr st'"
    and esc: "accounts st e = Some (AEscrow esc)" and i: "accounts st k = Some (AInstance i)"
    and act: "payment_due (tx_now t) esc = Inr act" and esc': "accounts st' e = Some (AEscrow esc')"
    and r: "r = min (length (inst_replica_nodes i)) (length rm)"
  shows "(r \<le> 2 \<longrightarrow> unat (esc_distributed esc') - unat (esc_distributed esc) \<le> unat act) \<and>
    (r \<ge> 3 \<and> 27 \<le> unat act \<longrightarrow>
       unat act < unat (esc_distributed esc') - unat (esc_distributed esc) \<and>
       unat act < unat (esc_deposited esc) - unat (esc_distributed esc))"
  using assms(1)
proof (cases rule: distribute_payment_cases)
  case (idle esc0 i0)
  then show ?thesis using act esc esc' DistributePayment_loads [OF idle(1)] by simp
next
  case (paid esc0 i0 a s1 s2 l tot dist rem)
  have eq: "esc0 = esc" "i0 = i"
    using DistributePayment_loads [OF paid(1)] esc i by simp_all
  then have a: "a = act" using paid(2) act by simp
  have "e \<noteq> k" using esc i by auto
  then have e': "esc_distributed esc' = dist" using esc' paid(9) by auto
  have tot: "unat tot = unat act * 70 div 100 + min (min (length (inst_replica_nodes i)) 3)
      (length rm) * (unat act * 15 div 100)"
    using pay_all_unat [OF paid(6)] share_of_unat [OF paid(4)] share_of_unat [OF paid(5)] eq a
    by (simp add: MAX_REPLICA_NODES_def)
  have diff: "unat (esc_distributed esc') - unat (esc_distributed esc) = unat tot"
    "unat tot \<le> unat (esc_deposited esc) - unat (esc_distributed esc)"
    using checked_add_unat [OF paid(7)] checked_sub_unat [OF paid(8)] eq e' by auto
  have "unat tot \<le> unat act" if "r \<le> 2"
  proof -
    have "min (min (length (inst_replica_nodes i)) 3) (length rm) \<le> 2" using that r by auto
    then have "unat tot \<le> unat act * 70 div 100 + 2 * (unat act * 15 div 100)"
      using tot by (simp add: mult_le_mono1)
    then show ?thesis by linarith
  qed
  moreover have "unat act < unat tot" if "r \<ge> 3" "27 \<le> unat act"
  proof -
    have "min (min (length (inst_replica_nodes i)) 3) (length rm) = 3" using that r by auto
    then have "unat tot = unat act * 70 div 100 + 3 * (unat act * 15 div 100)" using tot by simp
    with that(2) show ?thesis by linarith
  qed
  ultimately show ?thesis using diff by auto
qed

theorem three_replicas_overdraw_witness:
  "\<exists>esc'. accounts demo_paid 202 = Some (AEscrow esc') \<and> unat (esc_distributed esc') \<le> 100"
proof -
  have di: "distribute_payment demo (tx_at 9 160) 202 1202 201 51 9 [52] 7 demo_state = Inr demo_paid"
    using demo_paid_step by (simp add: demo_pay_def)
  have due: "payment_due (tx_now (tx_at 9 160)) \<lparr>esc_agent = 3, esc_instance_id = 7,
     esc_deposited = 2000, esc_distributed = 0, esc_rate_per_hour = 3600,
     esc_last_distribution_at = 60, esc_bump = 255\<rparr> = Inr 100"
    by (simp add: demo_eval)
  show ?thesis
    using three_replicas_overdraw [OF di demo_accounts(5,4) due demo_paid_escrow refl]
    by (simp add: demo_paid_escrow)
qed

section \<open>Life cycles and authority\<close>

text \<open>
  C8: Every step of the chain moves every node along the abstract node life cycle and every
  instance along the abstract instance life cycle, and keeps what identifies them: the operator
  of a node, the agent, identifier, replicas and encrypted key of an instance.
\<close>

theorem steps_refine_life_cycles:
  assumes "chain_step P st st'"
  shows "(\<forall>n. accounts st k = Some (ANode n) \<longrightarrow>
      (\<exists>n'. accounts st' k = Some (ANode n') \<and> node_edge (node_state n) (node_state n') \<and>
         node_operator n' = node_operator n)) \<and>
    (\<forall>i. accounts st k = Some (AInstance i) \<longrightarrow>
      (\<exists>i'. accounts st' k = Some (AInstance i') \<and>
         instance_edge (inst_status i) (inst_status i') \<and>
         inst_agent i' = inst_agent i \<and> inst_id i' = inst_id i \<and>
         inst_replica_nodes i' = inst_replica_nodes i \<and>
         inst_encrypted_dek i' = inst_encrypted_dek i))"
  using follows_node [OF chain_step_follows [OF assms], of k]
    follows_instance [OF chain_step_follows [OF assms], of k]
  unfolding node_follows_def instance_follows_def by blast

lemma demo_leaving_chain_step: "chain_step demo demo_state demo_leaving"
  by (rule instruction_step [OF _ demo_leaving_step]) (simp add: demo_tx_ok)

theorem steps_refine_life_cycles_witness:
  "\<exists>n'. accounts demo_leaving 102 = Some (ANode n') \<and> node_edge NodeActive (node_state n')"
  using steps_refine_life_cycles [OF demo_leaving_chain_step, of 102] demo_accounts(3) by auto

text \<open>
  Once an instance has left the statuses provisioning and active there is no way back: in
  every later state of the chain a commitment of a Merkle root for it is refused.
\<close>

lemma left_active_never_commits:
  assumes "(chain_step P)\<^sup>*\<^sup>* st st'" "accounts st k = Some (AInstance i)"
    and "inst_status i \<notin> {Provisioning, InstanceActive}"
  shows "\<not> is_ok (commit_merkle_root P t k p oper iid root st')"
proof -
  have keep: "s' \<notin> {Provisioning, InstanceActive}"
    if "s \<notin> {Provisioning, InstanceActive}" "instance_edge s s'" for s s'
    using that by auto
  obtain i' where i': "accounts st' k = Some (AInstance i')"
    "inst_status i' \<notin> {Provisioning, InstanceActive}"
    using instance_stays_in [where Q = "\<lambda>s. s \<notin> {Provisioning, InstanceActive}",
        OF assms] keep by blast
  show ?thesis
  proof
    assume "is_ok (commit_merkle_root P t k p oper iid root st')"
    then have "inst_status i' = InstanceActive"
      using i'(1) by (auto simp: is_ok_iff commit_merkle_root_def operator_instance_accounts_def ok_simps)
    with i'(2) show False by simp
  qed
qed

definition demo_suspended :: chain where
  "demo_suspended = (case execute demo (tx_at 3 70) (UpdateInstanceStatus 201 101 3 7 InstanceSuspended)
     demo_state of Inr st \<Rightarrow> st | Inl _ \<Rightarrow> demo_state)"

lemma left_active_never_commits_witness:
  "is_ok (commit_merkle_root demo (tx_at 1 80) 201 101 1 7 5 demo_state) \<and>
   \<not> is_ok (commit_merkle_root demo (tx_at 1 80) 201 101 1 7 5 demo_suspended)"
proof -
  have acc: "\<exists>i. accounts demo_suspended 201 = Some (AInstance i) \<and>
      inst_status i \<notin> {Provisioning, InstanceActive}"
    by (simp add: demo_suspended_def demo_eval demo_accounts)
  have "is_ok (commit_merkle_root demo (tx_at 1 80) 201 101 1 7 5 demo_state)"
    by (simp add: demo_eval demo_accounts)
  moreover have "\<not> is_ok (commit_merkle_root demo (tx_at 1 80) 201 101 1 7 5 demo_suspended)"
    using left_active_never_commits [OF rtranclp.rtrancl_refl] acc by blast
  ultimately show ?thesis by blast
qed

text \<open>
  Who may change what, one lemma per kind of instruction: the fields an operator controls, and
  the fields of an instance.
\<close>

definition node_secured :: "tx \<Rightarrow> node_record \<Rightarrow> node_record \<Rightarrow> bool" where
  "node_secured t n n' \<longleftrightarrow>
     (node_endpoint n' = node_endpoint n \<and> node_capacity n' = node_capacity n \<and>
      node_region n' = node_region n \<and> node_last_heartbeat n' = node_last_heartbeat n) \<or>
     signed t (node_operator n)"

definition instance_secured :: "tx \<Rightarrow> chain \<Rightarrow> instance_record \<Rightarrow> instance_record \<Rightarrow> bool" where
  "instance_secured t st i i' \<longleftrightarrow>
     (inst_merkle_root i' = inst_merkle_root i \<or>
       (\<exists>p. accounts st (inst_primary_node i) = Some (ANode p) \<and> signed t (node_operator p))) \<and>
     (inst_primary_node i' = inst_primary_node i \<or> signed t (inst_agent i)) \<and>
     (inst_status i' = Destroyed \<longrightarrow> inst_status i = Destroyed \<or> signed t (inst_agent i))"

definition secured :: "tx \<Rightarrow> chain \<Rightarrow> chain \<Rightarrow> bool" where
  "secured t st st' \<longleftrightarrow>
     (\<forall>k n n'. accounts st k = Some (ANode n) \<and> accounts st' k = Some (ANode n') \<longrightarrow>
        node_secured t n n') \<and>
     (\<forall>k i i'. accounts st k = Some (AInstance i) \<and> accounts st' k = Some (AInstance i') \<longrightarrow>
        instance_secured t st i i')"

lemmas secured_defs = secured_def node_secured_def instance_secured_def

lemma secured_nodes:
  "initialize_config P t k a ms dr um cd sp st = Inr st' \<Longrightarrow> secured t st st'"
  "register_node P t k oper cfg ep cap rg st = Inr st' \<Longrightarrow> secured t st st'"
  "heartbeat P t k oper st = Inr st' \<Longrightarrow> secured t st st'"
  "deregister_node P t k oper st = Inr st' \<Longrightarrow> secured t st st'"
  "update_node P t k oper ep' cap' rg' st = Inr st' \<Longrightarrow> secured t st st'"
  "claim_stake P t k oper cfg st = Inr st' \<Longrightarrow> secured t st st'"
  "slash_node P t k cfg a pt st = Inr st' \<Longrightarrow> secured t st st'"
  by (auto simp: secured_defs initialize_config_def InitializeConfig_accounts_def
      register_node_def RegisterNode_accounts_def heartbeat_def deregister_node_def
      own_node_accounts_def update_node_def claim_stake_def ClaimStake_accounts_def slash_node_def
      SlashNode_accounts_def ok_simps Let_def split: prod.splits if_splits)

lemma secured_operator:
  "activate_instance P t k p oper iid st = Inr st' \<Longrightarrow> secured t st st'"
  "commit_merkle_root P t k p oper iid root st = Inr st' \<Longrightarrow> secured t st st'"
  by (auto simp: secured_defs activate_instance_def commit_merkle_root_def
      operator_instance_accounts_def ok_simps split: if_splits)

lemma secured_status:
  "update_instance_status P t k p s iid ns st = Inr st' \<Longrightarrow> secured t st st'"
  by (cases ns) (auto simp: secured_defs update_instance_status_def
      UpdateInstanceStatus_accounts_def ok_simps split: prod.splits if_splits)

lemma secured_agent:
  "allocate_instance P t k p a rm iid reps dek st = Inr st' \<Longrightarrow> secured t st st'"
  "migrate_instance P t k o' n' a iid st = Inr st' \<Longrightarrow> secured t st st'"
  "destroy_instance P t k p e et at a iid st = Inr st' \<Longrightarrow> secured t st st'"
  by (auto simp: secured_defs allocate_instance_def AllocateInstance_accounts_def
      migrate_instance_def MigrateInstance_accounts_def destroy_instance_def
      DestroyInstance_accounts_def ok_simps Let_def split: prod.splits if_splits)

lemma secured_deposit:
  "deposit_payment P t e et at um cfg a iid amt st = Inr st' \<Longrightarrow> secured t st st'"
  by (auto simp: secured_defs deposit_payment_def ok_simps Let_def split: prod.splits if_splits)

lemma secured_distribute:
  assumes "distribute_payment P t e et k pt cr rm iid st = Inr st'"
  shows "secured t st st'"
  using assms
proof (cases rule: distribute_payment_cases)
  case (paid esc i act s1 s2 l tot dist rem)
  then show ?thesis
    using DistributePayment_loads [OF paid(1)] by (auto simp: secured_defs split: if_splits)
qed (auto simp: secured_defs)

lemma execute_secured: "execute P t ix st = Inr st' \<Longrightarrow> secured t st st'"
  by (cases ix; simp only: execute.simps)
    (fast elim: secured_nodes secured_operator secured_status secured_agent secured_deposit
      secured_distribute)+

text \<open>
  C2: Whatever instruction succeeds: the endpoint, capacity, region and heartbeat of a node
  change only in a transaction its operator signed; the Merkle root of an instance changes only
  with the signature of its primary node's operator; its primary node changes, and it becomes
  destroyed, only with the signature of its agent.
\<close>

theorem changes_need_signatures:
  assumes "execute P t ix st = Inr st'"
  shows "(\<forall>k n n'. accounts st k = Some (ANode n) \<and> accounts st' k = Some (ANode n') \<and>
      \<not> signed t (node_operator n) \<longrightarrow>
      node_endpoint n' = node_endpoint n \<and> node_capacity n' = node_capacity n \<and>
      node_region n' = node_region n \<and> node_last_heartbeat n' = node_last_heartbeat n) \<and>
    (\<forall>k i i' p. accounts st k = Some (AInstance i) \<and> accounts st' k = Some (AInstance i') \<and>
      accounts st (inst_primary_node i) = Some (ANode p) \<longrightarrow>
      (inst_merkle_root i' \<noteq> inst_merkle_root i \<longrightarrow> signed t (node_operator p)) \<and>
      (inst_primary_node i' \<noteq> inst_primary_node i \<longrightarrow> signed t (inst_agent i)) \<and>
      (inst_status i' = Destroyed \<and> inst_status i \<noteq> Destroyed \<longrightarrow> signed t (inst_agent i)))"
  using execute_secured [OF assms] unfolding secured_defs by fastforce

theorem changes_need_signatures_witness:
  "\<exists>n'. accounts demo_leaving 101 = Some (ANode n') \<and> node_endpoint n' = ''https://a''"
proof -
  have n': "accounts demo_leaving 101 = accounts demo_state 101"
    by (simp add: demo_leaving_def demo_eval demo_accounts)
  show ?thesis
    using changes_need_signatures [OF demo_leaving_step] demo_accounts(2) n' by simp
qed

end
