(* ===== verification/Credits_Hook.thy ===== *)
theory Credits_Hook
  imports Registry_Platform
begin

text \<open>
  The transfer-hook program of the credits token (\<open>contracts/programs/kraph-credits-hook\<close>): the
  allow-list account, its administration, the per-mint list of extra accounts and the gate that
  the token program calls on every transfer. Address derivation, account creation and the token
  program are parameters; a token account is what the token program hands over.
\<close>

section \<open>State\<close>

record allowlist =
  al_admin :: pubkey
  al_bump :: u8
  al_entries :: "pubkey list"

definition MAX_ENTRIES :: nat where "MAX_ENTRIES = 64"

definition ALLOWLIST_SPACE :: nat where
  "ALLOWLIST_SPACE = 8 + 32 + 1 + 4 + 32 * MAX_ENTRIES"

definition allowlist_size :: "allowlist \<Rightarrow> nat" where
  "allowlist_size a = 8 + 32 + 1 + (4 + 32 * length (al_entries a))"

datatype hook_error =
    TransferNotAllowed | HookUnauthorized | AllowlistFull
  | HookAccountNotLoaded | HookNotSigner | HookSeeds | HookTokenMint | HookCpi
  | InvalidInstructionData

datatype hook_event =
    AllowlistInitialized pubkey pubkey
  | AllowlistAdded pubkey
  | AllowlistRemoved pubkey
  | AdminTransferred pubkey pubkey

text \<open>
  The program's accounts: allow-lists and extra-account lists (the literal seeds registered in
  each). \<open>hook_creates payer key space\<close> is the verdict of the system program.
\<close>

record hook_state =
  allowlists :: "pubkey \<Rightarrow> allowlist option"
  meta_lists :: "pubkey \<Rightarrow> string list option"
  hook_log :: "hook_event list"

record hook_env =
  hook_find_pda :: "seed list \<Rightarrow> (pubkey \<times> u8) option"
  hook_create_pda :: "seed list \<Rightarrow> u8 \<Rightarrow> pubkey option"
  hook_creates :: "pubkey \<Rightarrow> pubkey \<Rightarrow> nat \<Rightarrow> bool"
  hook_meta_size :: "nat \<Rightarrow> nat"
  hook_signers :: "pubkey list"

section \<open>initialize_allowlist\<close>

abbreviation allowlist_seeds :: "seed list" where
  "allowlist_seeds \<equiv> [SBytes ''allowlist'']"

definition initialize_allowlist ::
  "hook_env \<Rightarrow> pubkey \<Rightarrow> pubkey \<Rightarrow> pubkey \<Rightarrow> pubkey \<Rightarrow> hook_state \<Rightarrow> hook_error + hook_state" where
  "initialize_allowlist E payer k admin first_entry st =
     guard (payer \<in> set (hook_signers E)) HookNotSigner (
     rbind (ok_or HookSeeds (hook_find_pda E allowlist_seeds)) (\<lambda>(addr, bump).
     guard (addr = k) HookSeeds (
     guard (allowlists st k = None \<and> meta_lists st k = None \<and>
            hook_creates E payer k ALLOWLIST_SPACE) HookCpi (
     Inr (st\<lparr>allowlists := (allowlists st)(k \<mapsto>
                \<lparr>al_admin = admin, al_bump = bump, al_entries = [first_entry]\<rparr>),
             hook_log := hook_log st @ [AllowlistInitialized admin first_entry]\<rparr>)))))"

section \<open>Administration\<close>

definition load_allowlist :: "hook_state \<Rightarrow> pubkey \<Rightarrow> hook_error + allowlist" where
  "load_allowlist st k = ok_or HookAccountNotLoaded (allowlists st k)"

text \<open>\<open>AdminMutate\<close>: the signer check, the account and its seeds.\<close>

definition AdminMutate_accounts ::
  "hook_env \<Rightarrow> pubkey \<Rightarrow> pubkey \<Rightarrow> hook_state \<Rightarrow> hook_error + allowlist" where
  "AdminMutate_accounts E admin k st =
     guard (admin \<in> set (hook_signers E)) HookNotSigner (
     rbind (load_allowlist st k) (\<lambda>a.
     guard (hook_create_pda E allowlist_seeds (al_bump a) = Some k) HookSeeds (
     Inr a)))"

definition put_allowlist :: "pubkey \<Rightarrow> allowlist \<Rightarrow> hook_event list \<Rightarrow> hook_state \<Rightarrow> hook_state" where
  "put_allowlist k a evs st =
     st\<lparr>allowlists := (allowlists st)(k \<mapsto> a), hook_log := hook_log st @ evs\<rparr>"

definition add_to_allowlist ::
  "hook_env \<Rightarrow> pubkey \<Rightarrow> pubkey \<Rightarrow> pubkey \<Rightarrow> hook_state \<Rightarrow> hook_error + hook_state" where
  "add_to_allowlist E admin k wallet st =
     rbind (AdminMutate_accounts E admin k st) (\<lambda>a.
     guard (al_admin a = admin) HookUnauthorized (
     guard (length (al_entries a) < MAX_ENTRIES) AllowlistFull (
     if wallet \<notin> set (al_entries a)
     then Inr (put_allowlist k (a\<lparr>al_entries := al_entries a @ [wallet]\<rparr>) [AllowlistAdded wallet] st)
     else Inr (put_allowlist k a [] st))))"

definition remove_from_allowlist ::
  "hook_env \<Rightarrow> pubkey \<Rightarrow> pubkey \<Rightarrow> pubkey \<Rightarrow> hook_state \<Rightarrow> hook_error + hook_state" where
  "remove_from_allowlist E admin k wallet st =
     rbind (AdminMutate_accounts E admin k st) (\<lambda>a.
     guard (al_admin a = admin) HookUnauthorized (
     let before = length (al_entries a);
         a' = a\<lparr>al_entries := filter (\<lambda>w. w \<noteq> wallet) (al_entries a)\<rparr>
     in Inr (put_allowlist k a'
               (if length (al_entries a') \<noteq> before then [AllowlistRemoved wallet] else []) st)))"

definition transfer_admin ::
  "hook_env \<Rightarrow> pubkey \<Rightarrow> pubkey \<Rightarrow> pubkey \<Rightarrow> hook_state \<Rightarrow> hook_error + hook_state" where
  "transfer_admin E admin k new_admin st =
     rbind (AdminMutate_accounts E admin k st) (\<lambda>a.
     guard (al_admin a = admin) HookUnauthorized (
     Inr (put_allowlist k (a\<lparr>al_admin := new_admin\<rparr>) [AdminTransferred (al_admin a) new_admin] st)))"

section \<open>The extra-account list and the gate\<close>

abbreviation meta_seeds :: "pubkey \<Rightarrow> seed list" where
  "meta_seeds mint \<equiv> [SBytes ''extra-account-metas'', SKey mint]"

definition initialize_extra_account_meta_list ::
  "hook_env \<Rightarrow> pubkey \<Rightarrow> pubkey \<Rightarrow> pubkey \<Rightarrow> hook_state \<Rightarrow> hook_error + hook_state" where
  "initialize_extra_account_meta_list E payer k mint st =
     guard (payer \<in> set (hook_signers E)) HookNotSigner (
     rbind (ok_or HookSeeds (hook_find_pda E (meta_seeds mint))) (\<lambda>(addr, bump).
     guard (addr = k) HookSeeds (
     guard (hook_create_pda E (meta_seeds mint) bump = Some k \<and> meta_lists st k = None \<and>
            allowlists st k = None \<and> hook_creates E payer k (hook_meta_size E 1)) HookCpi (
     Inr (st\<lparr>meta_lists := (meta_lists st)(k \<mapsto> [''allowlist''])\<rparr>)))))"

text \<open>
  \<open>TransferHook\<close>: both token accounts are of the mint, the extra-account list is the mint's and
  the allow-list is at its own address; the amount plays no role.
\<close>

definition transfer_hook ::
  "hook_env \<Rightarrow> token_account \<Rightarrow> pubkey \<Rightarrow> token_account \<Rightarrow> pubkey \<Rightarrow> pubkey \<Rightarrow> u64 \<Rightarrow> hook_state
     \<Rightarrow> hook_error + unit" where
  "transfer_hook E source_token mint destination_token extra k amount st =
     rbind (load_allowlist st k) (\<lambda>a.
     guard (tok_mint source_token = mint) HookTokenMint (
     guard (tok_mint destination_token = mint) HookTokenMint (
     guard (\<exists>b. hook_find_pda E (meta_seeds mint) = Some (extra, b)) HookSeeds (
     guard (hook_create_pda E allowlist_seeds (al_bump a) = Some k) HookSeeds (
     let allowed = tok_owner source_token \<in> set (al_entries a) \<or>
                   tok_owner destination_token \<in> set (al_entries a) in
     guard allowed TransferNotAllowed (Inr ()))))))"

datatype hook_interface = Execute u64 | InitializeMetas | UpdateMetas

text \<open>\<open>fallback\<close>: the interface's execute call is routed to the gate, nothing else is.\<close>

fun fallback ::
  "hook_env \<Rightarrow> token_account \<Rightarrow> pubkey \<Rightarrow> token_account \<Rightarrow> pubkey \<Rightarrow> pubkey
     \<Rightarrow> hook_interface option \<Rightarrow> hook_state \<Rightarrow> hook_error + unit" where
  "fallback E src mint dst extra k (Some (Execute amount)) st =
     transfer_hook E src mint dst extra k amount st"
| "fallback E src mint dst extra k (Some _) st = Inl InvalidInstructionData"
| "fallback E src mint dst extra k None st = Inl InvalidInstructionData"

section \<open>Steps and invariant\<close>

datatype hook_instruction =
    InitializeAllowlist pubkey pubkey pubkey pubkey
  | AddToAllowlist pubkey pubkey pubkey
  | RemoveFromAllowlist pubkey pubkey pubkey
  | TransferAdmin pubkey pubkey pubkey
  | InitializeExtraAccountMetaList pubkey pubkey pubkey

fun hook_execute :: "hook_env \<Rightarrow> hook_instruction \<Rightarrow> hook_state \<Rightarrow> hook_error + hook_state" where
  "hook_execute E (InitializeAllowlist p k a f) st = initialize_allowlist E p k a f st"
| "hook_execute E (AddToAllowlist a k w) st = add_to_allowlist E a k w st"
| "hook_execute E (RemoveFromAllowlist a k w) st = remove_from_allowlist E a k w st"
| "hook_execute E (TransferAdmin a k n) st = transfer_admin E a k n st"
| "hook_execute E (InitializeExtraAccountMetaList p k m) st =
     initialize_extra_account_meta_list E p k m st"

definition hook_step :: "hook_state \<Rightarrow> hook_state \<Rightarrow> bool" where
  "hook_step st st' \<longleftrightarrow> (\<exists>E ix. hook_execute E ix st = Inr st')"

definition hook_init :: "hook_state \<Rightarrow> bool" where
  "hook_init st \<longleftrightarrow> allowlists st = (\<lambda>_. None)"

definition hook_inv :: "hook_state \<Rightarrow> bool" where
  "hook_inv st \<longleftrightarrow> (\<forall>k a. allowlists st k = Some a \<longrightarrow>
     distinct (al_entries a) \<and> length (al_entries a) \<le> MAX_ENTRIES)"

lemmas hook_defs = initialize_allowlist_def add_to_allowlist_def remove_from_allowlist_def
  transfer_admin_def initialize_extra_account_meta_list_def AdminMutate_accounts_def
  load_allowlist_def

lemma put_allowlist_fields [simp]:
  "allowlists (put_allowlist k a evs st) = (allowlists st)(k \<mapsto> a)"
  "meta_lists (put_allowlist k a evs st) = meta_lists st"
  by (simp_all add: put_allowlist_def)

lemma put_allowlist_inv:
  "hook_inv st \<Longrightarrow> distinct (al_entries a) \<Longrightarrow> length (al_entries a) \<le> MAX_ENTRIES \<Longrightarrow>
     hook_inv (put_allowlist k a evs st)"
  by (auto simp: hook_inv_def)

lemma hook_invD:
  "hook_inv st \<Longrightarrow> allowlists st k = Some a \<Longrightarrow>
     distinct (al_entries a) \<and> length (al_entries a) \<le> MAX_ENTRIES"
  by (simp add: hook_inv_def)

lemma retain_bound: "length xs \<le> n \<Longrightarrow> length (filter p xs) \<le> n"
  by (rule order_trans [OF length_filter_le])

lemma hook_execute_inv:
  assumes inv: "hook_inv st" and ex: "hook_execute E ix st = Inr st'"
  shows "hook_inv st'"
proof (cases ix)
  case (InitializeAllowlist p k a f)
  with ex inv show ?thesis
    by (auto simp: initialize_allowlist_def ok_simps hook_inv_def MAX_ENTRIES_def
        split: prod.splits if_splits)
next
  case (AddToAllowlist ad k w)
  with ex obtain a where a: "allowlists st k = Some a" "length (al_entries a) < MAX_ENTRIES"
    and st': "st' = (if w \<notin> set (al_entries a)
       then put_allowlist k (a\<lparr>al_entries := al_entries a @ [w]\<rparr>) [AllowlistAdded w] st
       else put_allowlist k a [] st)"
    by (auto simp: add_to_allowlist_def AdminMutate_accounts_def load_allowlist_def ok_simps
        simp flip: if_distrib [of Inr])
  show ?thesis
    using hook_invD [OF inv a(1)] a(2) by (auto simp: st' intro!: put_allowlist_inv inv)
next
  case (RemoveFromAllowlist ad k w)
  with ex obtain a evs where a: "allowlists st k = Some a"
    and st': "st' = put_allowlist k (a\<lparr>al_entries := filter (\<lambda>x. x \<noteq> w) (al_entries a)\<rparr>) evs st"
    by (auto simp: remove_from_allowlist_def AdminMutate_accounts_def load_allowlist_def ok_simps Let_def)
  show ?thesis
    using hook_invD [OF inv a] by (auto simp: st' intro!: put_allowlist_inv inv retain_bound)
next
  case (TransferAdmin ad k n)
  with ex inv show ?thesis
    by (auto simp: transfer_admin_def AdminMutate_accounts_def load_allowlist_def ok_simps
        intro!: put_allowlist_inv dest: hook_invD)
next
  case (InitializeExtraAccountMetaList p k m)
  with ex inv show ?thesis
    by (auto simp: initialize_extra_account_meta_list_def ok_simps hook_inv_def split: prod.splits)
qed

interpretation hook: inductive_invariant hook_init hook_step hook_inv
  by unfold_locales
    (auto simp: hook_init_def hook_step_def intro: hook_execute_inv, simp add: hook_inv_def)

text \<open>A concrete environment and state.\<close>

definition demo_hook :: "pubkey list \<Rightarrow> hook_env" where
  "demo_hook sg = \<lparr>
     hook_find_pda = (\<lambda>s. if s = allowlist_seeds then Some (50, 255)
                          else if s = meta_seeds 70 then Some (60, 254) else None),
     hook_create_pda = (\<lambda>s b. if s = allowlist_seeds \<and> b = 255 then Some 50
                              else if s = meta_seeds 70 \<and> b = 254 then Some 60 else None),
     hook_creates = (\<lambda>p k n. True), hook_meta_size = (\<lambda>n. 51), hook_signers = sg\<rparr>"

definition demo_hook_state :: hook_state where
  "demo_hook_state = \<lparr>allowlists = [50 \<mapsto> \<lparr>al_admin = 9, al_bump = 255, al_entries = [1]\<rparr>],
     meta_lists = Map.empty, hook_log = [AllowlistInitialized 9 1]\<rparr>"

lemma demo_hook_reachable: "reachable hook_init hook_step demo_hook_state"
proof (rule reach_step [OF reach_init])
  show "hook_init \<lparr>allowlists = Map.empty, meta_lists = Map.empty, hook_log = []\<rparr>"
    by (simp add: hook_init_def)
  have "hook_execute (demo_hook [3]) (InitializeAllowlist 3 50 9 1)
      \<lparr>allowlists = Map.empty, meta_lists = Map.empty, hook_log = []\<rparr> = Inr demo_hook_state"
    by (simp add: hook_defs demo_hook_def demo_hook_state_def)
  then show "hook_step \<lparr>allowlists = Map.empty, meta_lists = Map.empty, hook_log = []\<rparr> demo_hook_state"
    unfolding hook_step_def by blast
qed

section \<open>Properties\<close>

text \<open>
  The gate lets a transfer of the mint pass exactly when the owner of the source or the
  owner of the destination is on the allow-list, whatever the amount; with neither, the error is
  \<open>TransferNotAllowed\<close>. Every other call of the interface is refused.
\<close>

lemma hook_gates_transfers:
  assumes "allowlists st k = Some a" "hook_create_pda E allowlist_seeds (al_bump a) = Some k"
    and "hook_find_pda E (meta_seeds mint) = Some (extra, b)"
    and "tok_mint src = mint" "tok_mint dst = mint"
  shows "fallback E src mint dst extra k (Some (Execute n)) st =
      (if tok_owner src \<in> set (al_entries a) \<or> tok_owner dst \<in> set (al_entries a)
       then Inr () else Inl TransferNotAllowed) \<and>
    (is_ok (fallback E src mint dst extra k call st) \<longrightarrow> (\<exists>m. call = Some (Execute m)))"
  using assms
  by (cases "(E, src, mint, dst, extra, k, call, st)" rule: fallback.cases)
    (simp_all add: transfer_hook_def load_allowlist_def)

lemma hook_gates_transfers_witness:
  "fallback (demo_hook []) \<lparr>tok_owner = 4, tok_mint = 70, tok_amount = 5\<rparr> 70
     \<lparr>tok_owner = 5, tok_mint = 70, tok_amount = 5\<rparr> 60 50 (Some (Execute 5)) demo_hook_state
   = Inl TransferNotAllowed"
proof -
  have 1: "allowlists demo_hook_state 50 = Some \<lparr>al_admin = 9, al_bump = 255, al_entries = [1]\<rparr>"
    by (simp add: demo_hook_state_def)
  have 2: "hook_create_pda (demo_hook []) allowlist_seeds
      (al_bump \<lparr>al_admin = 9, al_bump = 255, al_entries = [1]\<rparr>) = Some 50"
    and 3: "hook_find_pda (demo_hook []) (meta_seeds 70) = Some (60, 254)"
    by (simp_all add: demo_hook_def)
  show ?thesis using hook_gates_transfers [OF 1 2 3] by simp
qed

text \<open>
  In every reachable state every allow-list has distinct entries, at most 64 of them, and
  its serialisation fits the space it was allocated with.
\<close>

lemma allowlists_stay_bounded:
  assumes "reachable hook_init hook_step st" "allowlists st k = Some a"
  shows "distinct (al_entries a) \<and> length (al_entries a) \<le> MAX_ENTRIES \<and>
    allowlist_size a \<le> ALLOWLIST_SPACE"
  using hook.inv_reachable [OF assms(1)] assms(2)
  by (auto simp: hook_inv_def allowlist_size_def ALLOWLIST_SPACE_def)

lemma allowlists_stay_bounded_witness:
  "\<exists>a. allowlists demo_hook_state 50 = Some a \<and> allowlist_size a \<le> ALLOWLIST_SPACE"
proof -
  have 1: "allowlists demo_hook_state 50 = Some \<lparr>al_admin = 9, al_bump = 255, al_entries = [1]\<rparr>"
    by (simp add: demo_hook_state_def)
  show ?thesis using allowlists_stay_bounded [OF demo_hook_reachable 1] 1 by blast
qed

text \<open>
  C38: The administration implements a finite set under the admin's signature. Adding, removing and
  handing over succeed exactly when the caller is the admin of the list and has signed, the list is
  at its own address and, for adding, it is not full (even for a wallet that is already on it);
  then adding inserts, removing deletes, handing over replaces the admin, and the other lists are
  untouched. Whatever instruction of the program succeeds, a list only changes with the signature of
  its admin.
\<close>

theorem administration_refines_set:
  assumes a: "allowlists st k = Some a"
  shows "(is_ok (add_to_allowlist E admin k w st) \<longleftrightarrow>
      admin \<in> set (hook_signers E) \<and> hook_create_pda E allowlist_seeds (al_bump a) = Some k \<and>
      al_admin a = admin \<and> length (al_entries a) < 64) \<and>
    (is_ok (remove_from_allowlist E admin k w st) \<longleftrightarrow>
      admin \<in> set (hook_signers E) \<and> hook_create_pda E allowlist_seeds (al_bump a) = Some k \<and> al_admin a = admin) \<and>
    (is_ok (transfer_admin E admin k n st) \<longleftrightarrow>
      admin \<in> set (hook_signers E) \<and> hook_create_pda E allowlist_seeds (al_bump a) = Some k \<and> al_admin a = admin) \<and>
    (\<forall>ix st'. hook_execute E ix st = Inr st' \<and> allowlists st' k \<noteq> Some a \<longrightarrow> al_admin a \<in> set (hook_signers E)) \<and>
    (\<forall>st'. transfer_admin E admin k n st = Inr st' \<longrightarrow> allowlists st' = (allowlists st)(k \<mapsto> a\<lparr>al_admin := n\<rparr>)) \<and>
    (\<forall>st'. add_to_allowlist E admin k w st = Inr st' \<longrightarrow>
      (\<exists>a'. allowlists st' = (allowlists st)(k \<mapsto> a') \<and> al_admin a' = al_admin a \<and>
            set (al_entries a') = insert w (set (al_entries a)))) \<and>
    (\<forall>st'. remove_from_allowlist E admin k w st = Inr st' \<longrightarrow>
      (\<exists>a'. allowlists st' = (allowlists st)(k \<mapsto> a') \<and> al_admin a' = al_admin a \<and>
            set (al_entries a') = set (al_entries a) - {w}))"
proof -
  have "al_admin a \<in> set (hook_signers E)" if "hook_execute E ix st = Inr st'" "allowlists st' k \<noteq> Some a" for ix st'
    using a that by (cases ix) (auto simp: hook_defs ok_simps Let_def split: prod.splits if_splits)
  then show ?thesis using a by (auto simp: hook_defs is_ok_iff ok_simps Let_def MAX_ENTRIES_def)
qed

theorem administration_refines_set_witness:
  "is_ok (add_to_allowlist (demo_hook [9]) 9 50 7 demo_hook_state) \<and>
   \<not> is_ok (add_to_allowlist (demo_hook [8]) 8 50 7 demo_hook_state) \<and>
   \<not> is_ok (add_to_allowlist (demo_hook []) 9 50 7 demo_hook_state)"
proof -
  have 1: "allowlists demo_hook_state 50 = Some \<lparr>al_admin = 9, al_bump = 255, al_entries = [1]\<rparr>"
    by (simp add: demo_hook_state_def)
  show ?thesis
    using administration_refines_set [OF 1, of "demo_hook [9]" 9 7, THEN conjunct1]
      administration_refines_set [OF 1, of "demo_hook [8]" 8 7, THEN conjunct1]
      administration_refines_set [OF 1, of "demo_hook []" 9 7, THEN conjunct1]
    by (simp add: demo_hook_def)
qed

end
