(* ===== verification/Path_Safety.thy ===== *)
theory Path_Safety
  imports Kraph_Text
begin

text \<open>
  The validators of \<open>path_safety.rs\<close> (and the segment-name filter of \<open>replication.rs\<close>): what
  may become part of a path on the node, and the join of such parts under a base directory. A
  panic of the code is the error \<open>Panic\<close>. The file system is a parameter.
\<close>

datatype path_error =
    IsEmpty | TooLong | InvalidCharacter | BadLength | BadHead | BadMiddleLength | BadMiddle
  | BadStart | ContainsNul | ContainsSeparator | SpecialDirectory | NotNormal
  | CanonicalizeFailed | EscapesBase | Panic

section \<open>Identifiers\<close>

definition id_char :: "char \<Rightarrow> bool" where
  "id_char c \<longleftrightarrow> is_ascii_alphanumeric c \<or> c = CHR ''_'' \<or> c = CHR ''-''"

definition validate_instance_id_component :: "string \<Rightarrow> path_error + unit" where
  "validate_instance_id_component s =
     guard (s \<noteq> []) IsEmpty (
     guard (length s \<le> 64) TooLong (
     guard (list_all id_char s) InvalidCharacter (Inr ())))"

definition function_char :: "char \<Rightarrow> bool" where
  "function_char c \<longleftrightarrow> is_ascii_lowercase c \<or> is_ascii_digit c \<or> c = CHR ''-''"

definition validate_function_name :: "string \<Rightarrow> path_error + unit" where
  "validate_function_name s =
     guard (s \<noteq> []) IsEmpty (
     guard (length s \<le> 64) TooLong (
     guard (list_all function_char s) InvalidCharacter (Inr ())))"

definition env_key_char :: "char \<Rightarrow> bool" where
  "env_key_char c \<longleftrightarrow> is_ascii_alphanumeric c \<or> c = CHR ''_''"

definition validate_env_key :: "string \<Rightarrow> path_error + unit" where
  "validate_env_key s =
     guard (s \<noteq> []) IsEmpty (
     guard (length s \<le> 128) TooLong (
     guard (is_ascii_alphabetic (hd s) \<or> hd s = CHR ''_'') BadStart (
     guard (list_all env_key_char (tl s)) InvalidCharacter (Inr ()))))"

section \<open>WAL segment names\<close>

definition is_upper_hex :: "char \<Rightarrow> bool" where
  "is_upper_hex c \<longleftrightarrow> is_ascii_digit c \<or>
     (is_ascii_alphabetic c \<and> is_ascii_uppercase c \<and> is_ascii_hexdigit c)"

definition validate_segment_name :: "string \<Rightarrow> path_error + unit" where
  "validate_segment_name s =
     guard (s \<noteq> []) IsEmpty (
     guard (\<not> (length s < 9 \<or> 32 < length s)) BadLength (
     rbind (ok_or Panic (split_at s 8)) (\<lambda>(head, tail).
     guard (list_all is_upper_hex head) BadHead (
     if tail = ''.history'' then Inr ()
     else
       let mid = (case strip_suffix ''.partial'' tail of Some stripped \<Rightarrow> stripped | None \<Rightarrow> tail) in
       guard (length mid = 16) BadMiddleLength (
       guard (list_all is_upper_hex mid) BadMiddle (Inr ()))))))"

text \<open>
  The same filter as it stands in \<open>process_instance_wal\<close>, on the names a container lists;
  \<open>None\<close> is the panic of \<open>split_at\<close>.
\<close>

definition wal_hex :: "char \<Rightarrow> bool" where
  "wal_hex c \<longleftrightarrow> is_ascii_hexdigit c \<and> (is_ascii_digit c \<or> is_ascii_uppercase c)"

definition is_valid_wal_name :: "string \<Rightarrow> bool option" where
  "is_valid_wal_name name =
     (if length name < 9 \<or> 32 < length name then Some False
      else case split_at name 8 of
        None \<Rightarrow> None
      | Some (head, tail) \<Rightarrow>
          if \<not> list_all wal_hex head then Some False
          else if tail = ''.history'' then Some True
          else
            let mid = (case strip_suffix ''.partial'' tail of Some stripped \<Rightarrow> stripped | None \<Rightarrow> tail)
            in if length mid \<noteq> 16 then Some False
               else if \<not> list_all wal_hex mid then Some False
               else Some True)"

text \<open>The three forms the comment describes.\<close>

definition wal_name :: "string \<Rightarrow> bool" where
  "wal_name s \<longleftrightarrow>
     (\<exists>h. length h = 8 \<and> list_all is_upper_hex h \<and> s = h @ ''.history'') \<or>
     (\<exists>h. length h = 24 \<and> list_all is_upper_hex h \<and> (s = h \<or> s = h @ ''.partial''))"

section \<open>Joining under a base\<close>

type_synonym path = "string list"

text \<open>
  An absolute path is the list of its components; \<open>exists\<close> and \<open>canonicalize\<close> are the file
  system's. The probe walks up from the joined path to the deepest existing ancestor.
\<close>

definition check_component :: "string \<Rightarrow> path_error + unit" where
  "check_component c =
     guard (c \<noteq> []) IsEmpty (
     guard (CHR 0x00 \<notin> set c) ContainsNul (
     guard (CHR ''/'' \<notin> set c \<and> CHR 0x5C \<notin> set c) ContainsSeparator (
     guard (c \<noteq> ''.'' \<and> c \<noteq> ''..'') SpecialDirectory (Inr ()))))"

fun check_components :: "string list \<Rightarrow> path_error + unit" where
  "check_components [] = Inr ()"
| "check_components (c # cs) = rbind (check_component c) (\<lambda>_. check_components cs)"

text \<open>The walk on the reversed path: its head is the last component.\<close>

fun probe :: "(path \<Rightarrow> bool) \<Rightarrow> (path \<Rightarrow> path option) \<Rightarrow> path \<Rightarrow> path_error + path option" where
  "probe ex canon p =
     (if ex (rev p) then
        (case canon (rev p) of None \<Rightarrow> Inl CanonicalizeFailed | Some r \<Rightarrow> Inr (Some r))
      else case p of [] \<Rightarrow> Inr None | _ # up \<Rightarrow> probe ex canon up)"

declare probe.simps [simp del]

definition is_under :: "path \<Rightarrow> path \<Rightarrow> bool" where
  "is_under base p \<longleftrightarrow> take (length base) p = base"

definition safe_join_under ::
  "(path \<Rightarrow> bool) \<Rightarrow> (path \<Rightarrow> path option) \<Rightarrow> path \<Rightarrow> string list \<Rightarrow> path_error + path" where
  "safe_join_under ex canon base components =
     rbind (check_components components) (\<lambda>_.
     let joined = base @ components in
     if ex base then
       rbind (ok_or CanonicalizeFailed (canon base)) (\<lambda>base_real.
       rbind (probe ex canon (rev joined)) (\<lambda>ancestor.
       case ancestor of
         None \<Rightarrow> Inl EscapesBase
       | Some a \<Rightarrow> guard (is_under base_real a) EscapesBase (Inr joined)))
     else Inr joined)"

section \<open>Lemmas\<close>

lemma upper_hex_same: "is_upper_hex c = wal_hex c"
  by (auto simp: is_upper_hex_def wal_hex_def ascii_defs)

lemma upper_hex_safe: "is_upper_hex c \<Longrightarrow> 48 \<le> byte c \<and> byte c < 128 \<and> c \<noteq> CHR ''.''"
  by (auto simp: is_upper_hex_def ascii_defs)

lemma id_char_safe: "id_char c \<Longrightarrow> c \<notin> {CHR ''/'', CHR 0x5C, CHR ''.'', CHR 0x00}"
  by (auto simp: id_char_def ascii_defs)

lemma function_char_safe: "function_char c \<Longrightarrow> c \<notin> {CHR ''/'', CHR 0x5C, CHR ''.'', CHR 0x00}"
  by (auto simp: function_char_def ascii_defs)

lemma segment_name_ok_iff:
  "validate_segment_name s = Inr u \<longleftrightarrow>
     9 \<le> length s \<and> length s \<le> 32 \<and> is_char_boundary s 8 \<and> list_all is_upper_hex (take 8 s) \<and>
     (drop 8 s = ''.history'' \<or>
      (drop 8 s \<noteq> ''.history'' \<and>
       (let mid = (case strip_suffix ''.partial'' (drop 8 s) of Some m \<Rightarrow> m | None \<Rightarrow> drop 8 s)
        in length mid = 16 \<and> list_all is_upper_hex mid)))"
  by (auto simp: validate_segment_name_def split_at_def ok_simps Let_def)

lemma ninth_boundary: "8 < length s \<Longrightarrow> \<not> is_continuation (s ! 8) \<Longrightarrow> is_char_boundary s 8"
  by (simp add: is_char_boundary_def)

lemma wal_name_boundary:
  assumes "wal_name s"
  shows "is_char_boundary s 8 \<and> 9 \<le> length s \<and> length s \<le> 32"
proof -
  from assms consider
      (history) h where "length h = 8" "s = h @ ''.history''"
    | (wal) h where "length h = 24" "list_all is_upper_hex h" "s = h \<or> s = h @ ''.partial''"
    unfolding wal_name_def by blast
  then show ?thesis
  proof cases
    case history
    then show ?thesis by (simp add: is_char_boundary_def is_continuation_def nth_append)
  next
    case wal
    then have "s ! 8 = h ! 8" by (auto simp: nth_append)
    moreover have "is_upper_hex (h ! 8)" using wal by (simp add: list_all_length)
    ultimately show ?thesis
      using upper_hex_safe [of "h ! 8"] wal(1,3) by (auto simp: is_char_boundary_def is_continuation_def)
  qed
qed

lemma segment_name_sound: "validate_segment_name s = Inr u \<Longrightarrow> wal_name s"
proof -
  assume "validate_segment_name s = Inr u"
  then have l: "9 \<le> length s" and h: "list_all is_upper_hex (take 8 s)"
    and c: "drop 8 s = ''.history'' \<or>
       (let mid = (case strip_suffix ''.partial'' (drop 8 s) of Some m \<Rightarrow> m | None \<Rightarrow> drop 8 s)
        in length mid = 16 \<and> list_all is_upper_hex mid)"
    unfolding segment_name_ok_iff by blast+
  have s: "s = take 8 s @ drop 8 s" by simp
  show ?thesis
  proof (cases "drop 8 s = ''.history''")
    case True
    then have "s = take 8 s @ ''.history''" by (metis s)
    moreover have "length (take 8 s) = 8" using l by simp
    ultimately show ?thesis using h unfolding wal_name_def by blast
  next
    case False
    show ?thesis
    proof (cases "strip_suffix ''.partial'' (drop 8 s)")
      case None
      with c False have "length (drop 8 s) = 16" "list_all is_upper_hex (drop 8 s)" by simp_all
      then have "length s = 24" "list_all is_upper_hex s" using l h
        by (simp_all, metis append_take_drop_id list_all_append)
      then show ?thesis unfolding wal_name_def by blast
    next
      case (Some m)
      with c False have m: "length m = 16" "list_all is_upper_hex m" by simp_all
      from Some have "drop 8 s = m @ ''.partial''" by (simp add: strip_suffix_iff)
      then have "s = (take 8 s @ m) @ ''.partial''" by (metis append_assoc s)
      moreover have "length (take 8 s @ m) = 24" "list_all is_upper_hex (take 8 s @ m)"
        using l h m by simp_all
      ultimately show ?thesis unfolding wal_name_def by blast
    qed
  qed
qed

lemma check_components_ok:
  "check_components cs = Inr u \<longleftrightarrow> (\<forall>c \<in> set cs. check_component c = Inr ())"
  by (induction cs) (auto simp: ok_simps)

lemma probe_finds:
  "probe ex canon p = Inr (Some r) \<Longrightarrow>
     \<exists>n. ex (rev (drop n p)) \<and> canon (rev (drop n p)) = Some r \<and> (\<forall>m < n. \<not> ex (rev (drop m p)))"
proof (induction p)
  case Nil
  then show ?case by (subst (asm) probe.simps) (auto split: if_splits option.splits intro!: exI [of _ 0])
next
  case (Cons c p)
  show ?case
  proof (cases "ex (rev (c # p))")
    case True
    with Cons.prems show ?thesis
      by (subst (asm) probe.simps) (auto split: option.splits intro!: exI [of _ 0])
  next
    case False
    with Cons.prems have "probe ex canon p = Inr (Some r)" by (subst (asm) probe.simps) simp
    from Cons.IH [OF this] obtain n where n: "ex (rev (drop n p))" "canon (rev (drop n p)) = Some r"
      "\<forall>m < n. \<not> ex (rev (drop m p))" by blast
    show ?thesis
      by (rule exI [of _ "Suc n"]) (use n False in \<open>auto simp: less_Suc_eq_0_disj\<close>)
  qed
qed

lemma segment_name_complete:
  assumes "wal_name s"
  shows "validate_segment_name s = Inr ()"
proof -
  note b = wal_name_boundary [OF assms]
  from assms consider
      (history) h where "length h = 8" "list_all is_upper_hex h" "s = h @ ''.history''"
    | (plain) h where "length h = 24" "list_all is_upper_hex h" "s = h"
    | (part) h where "length h = 24" "list_all is_upper_hex h" "s = h @ ''.partial''"
    unfolding wal_name_def by blast
  then show ?thesis
  proof cases
    case history
    with b show ?thesis by (simp add: segment_name_ok_iff)
  next
    case plain
    have mid: "length (drop 8 h) = 16" "list_all is_upper_hex (drop 8 h)" "list_all is_upper_hex (take 8 h)"
      using plain by (simp_all add: list_all_length)
    have "strip_suffix ''.partial'' (drop 8 h) = None"
      unfolding strip_suffix_None
    proof
      assume "\<exists>r. drop 8 h = r @ ''.partial''"
      then have "is_upper_hex (CHR ''.'')" using mid(2) by auto
      then show False using upper_hex_safe by blast
    qed
    with b mid plain show ?thesis by (auto simp: segment_name_ok_iff)
  next
    case part
    have d: "drop 8 s = drop 8 h @ ''.partial''" "take 8 s = take 8 h" using part by simp_all
    have mid: "length (drop 8 h) = 16" "list_all is_upper_hex (drop 8 h)" "list_all is_upper_hex (take 8 h)"
      using part by (simp_all add: list_all_length)
    have "strip_suffix ''.partial'' (drop 8 s) = Some (drop 8 h)"
      by (simp add: d strip_suffix_iff)
    with b mid d show ?thesis by (auto simp: segment_name_ok_iff)
  qed
qed

lemma segment_name_panics:
  "validate_segment_name s = Inl Panic \<longleftrightarrow>
     9 \<le> length s \<and> length s \<le> 32 \<and> is_continuation (s ! 8)"
  by (auto simp: validate_segment_name_def rbind_err split_at_def is_char_boundary_def Let_def
      split: if_splits)

text \<open>The two copies of the filter agree, panics included.\<close>

lemma wal_filters_agree:
  "is_valid_wal_name s =
     (case validate_segment_name s of
        Inr _ \<Rightarrow> Some True | Inl e \<Rightarrow> if e = Panic then None else Some False)"
proof -
  have h: "list_all is_upper_hex = list_all wal_hex"
    by (intro ext list.pred_cong) (simp_all add: upper_hex_same)
  show ?thesis
    unfolding is_valid_wal_name_def validate_segment_name_def h
    by (cases "split_at s 8") (auto simp: Let_def split: if_splits)
qed

section \<open>Properties\<close>

text \<open>
  C40: A segment name is accepted exactly when it has one of the three forms of a Postgres WAL
  file (24 upper-case hex digits, the same with \<open>.partial\<close>, 8 of them with \<open>.history\<close>); the
  filter applied to the names a container lists agrees with it on every input. On a name of 9 to
  32 bytes whose ninth byte continues a multi-byte character both copies panic.
\<close>

theorem segment_names_exact:
  "(validate_segment_name s = Inr () \<longleftrightarrow> wal_name s) \<and>
   (is_valid_wal_name s = Some True \<longleftrightarrow> wal_name s) \<and>
   (is_valid_wal_name s = None \<longleftrightarrow> validate_segment_name s = Inl Panic) \<and>
   (validate_segment_name s = Inl Panic \<longleftrightarrow>
      9 \<le> length s \<and> length s \<le> 32 \<and> is_continuation (s ! 8))"
proof -
  have ok: "validate_segment_name s = Inr () \<longleftrightarrow> wal_name s"
    using segment_name_sound segment_name_complete by blast
  have agree: "(is_valid_wal_name s = Some True \<longleftrightarrow> validate_segment_name s = Inr ()) \<and>
      (is_valid_wal_name s = None \<longleftrightarrow> validate_segment_name s = Inl Panic)"
    unfolding wal_filters_agree by (cases "validate_segment_name s") auto
  show ?thesis using ok agree segment_name_panics by blast
qed

text \<open>
  C30: Joining validated parts stays under the base: on success the result is the base followed
  by the given components, none of which is empty, a special directory or contains a separator or
  a NUL byte; and when the base exists, the result has a deepest existing ancestor (nothing of the
  result below it exists), whose canonical form is the canonical base with parts appended. Whatever
  of the result exists already is thus not reached through a link that leaves the base.
\<close>

theorem join_stays_under_base:
  assumes "safe_join_under ex canon base cs = Inr p"
  shows "p = base @ cs \<and>
    (\<forall>c \<in> set cs. c \<noteq> [] \<and> c \<noteq> ''.'' \<and> c \<noteq> ''..'' \<and> CHR ''/'' \<notin> set c \<and>
       CHR 0x5C \<notin> set c \<and> CHR 0x00 \<notin> set c) \<and>
    (ex base \<longrightarrow> (\<exists>anc rest base_real below. base @ cs = anc @ rest \<and> ex anc \<and>
       (\<forall>a b. rest = a @ b \<and> a \<noteq> [] \<longrightarrow> \<not> ex (anc @ a)) \<and>
       canon base = Some base_real \<and> canon anc = Some (base_real @ below)))"
proof -
  have cs: "\<forall>c \<in> set cs. check_component c = Inr ()" and p: "p = base @ cs"
    using assms by (auto simp: safe_join_under_def ok_simps check_components_ok Let_def
        split: if_splits option.splits)
  have "\<exists>anc rest base_real below. base @ cs = anc @ rest \<and> ex anc \<and>
       (\<forall>a b. rest = a @ b \<and> a \<noteq> [] \<longrightarrow> \<not> ex (anc @ a)) \<and>
       canon base = Some base_real \<and> canon anc = Some (base_real @ below)" if "ex base"
  proof -
    from that assms obtain br a where br: "canon base = Some br"
      and pr: "probe ex canon (rev (base @ cs)) = Inr (Some a)" and u: "is_under br a"
      by (auto simp: safe_join_under_def ok_simps Let_def split: if_splits option.splits)
    let ?p = "base @ cs"
    from probe_finds [OF pr] obtain n where n: "ex (rev (drop n (rev ?p)))"
      "canon (rev (drop n (rev ?p))) = Some a" "\<forall>m < n. \<not> ex (rev (drop m (rev ?p)))" by blast
    define anc rest where "anc = rev (drop n (rev ?p))" and "rest = rev (take n (rev ?p))"
    have split: "?p = anc @ rest" unfolding anc_def rest_def by (metis append_take_drop_id rev_append rev_rev_ident)
    have deepest: "\<not> ex (anc @ x)" if "rest = x @ y" "x \<noteq> []" for x y
    proof -
      have "rev (drop (length y) (rev ?p)) = anc @ x" unfolding split that(1) by simp
      moreover have "length rest \<le> n" by (simp add: rest_def)
      then have "length y < n" using that by (cases x) auto
      ultimately show ?thesis using n(3) by metis
    qed
    have "a = br @ drop (length br) a" using u unfolding is_under_def by (metis append_take_drop_id)
    then have real: "canon anc = Some (br @ drop (length br) a)" using n(2) by (simp add: anc_def)
    have there: "ex anc" using n(1) by (simp add: anc_def)
    have all: "\<forall>x y. rest = x @ y \<and> x \<noteq> [] \<longrightarrow> \<not> ex (anc @ x)" using deepest by blast
    show ?thesis
      by (rule exI [of _ anc], rule exI [of _ rest], rule exI [of _ br], rule exI [of _ "drop (length br) a"])
        (intro conjI split there all br real)
  qed
  moreover have "\<forall>c \<in> set cs. c \<noteq> [] \<and> c \<noteq> ''.'' \<and> c \<noteq> ''..'' \<and> CHR ''/'' \<notin> set c \<and>
      CHR 0x5C \<notin> set c \<and> CHR 0x00 \<notin> set c"
    using cs by (auto simp: check_component_def split: if_splits)
  ultimately show ?thesis using p by blast
qed

theorem join_stays_under_base_witness:
  "safe_join_under (\<lambda>p. length p \<le> 1) Some [''data''] [''inst-1'', ''wal''] =
     Inr [''data'', ''inst-1'', ''wal''] \<and> CHR ''/'' \<notin> set ''inst-1''"
proof -
  have j: "safe_join_under (\<lambda>p. length p \<le> 1) Some [''data''] [''inst-1'', ''wal''] =
     Inr [''data'', ''inst-1'', ''wal'']"
    by (simp add: safe_join_under_def check_component_def probe.simps is_under_def)
  show ?thesis using join_stays_under_base [OF j, THEN conjunct2, THEN conjunct1] j by simp
qed

text \<open>An accepted identifier or function name is a single harmless component.\<close>

lemma identifiers_are_components:
  assumes "validate_instance_id_component s = Inr () \<or> validate_function_name s = Inr ()"
  shows "check_component s = Inr () \<and> CHR ''.'' \<notin> set s \<and> 0 < length s \<and> length s \<le> 64"
proof -
  have safe: "\<forall>c \<in> set s. c \<notin> {CHR ''/'', CHR 0x5C, CHR ''.'', CHR 0x00}"
    using assms id_char_safe function_char_safe
    by (auto simp: validate_instance_id_component_def validate_function_name_def list_all_iff
        split: if_splits)
  have len: "s \<noteq> [] \<and> length s \<le> 64"
    using assms by (auto simp: validate_instance_id_component_def validate_function_name_def
        split: if_splits)
  have no: "CHR ''/'' \<notin> set s" "CHR 0x5C \<notin> set s" "CHR ''.'' \<notin> set s" "CHR 0x00 \<notin> set s"
    using safe by blast+
  then have "s \<noteq> ''.''" "s \<noteq> ''..''" by force+
  with no len show ?thesis by (simp add: check_component_def)
qed

end
