(* ===== verification/Kraph_Crypto.thy ===== *)
theory Kraph_Crypto
  imports Kraph_Text
begin

text \<open>
  Third-party primitives the node uses, as the fields of one record: hashing, message
  authentication, text encodings, signatures and authenticated encryption. Byte strings are
  \<open>string\<close> as well. What a property relies on is one of the laws below, taken as a hypothesis;
  \<open>demo_crypto\<close> satisfies them and serves the witnesses.
\<close>

record crypto =
  sha256 :: "string \<Rightarrow> string"
  sha384 :: "string \<Rightarrow> string"
  hmac_sha256 :: "string \<Rightarrow> string \<Rightarrow> string"
  hex_encode :: "string \<Rightarrow> string"
  hex_decode :: "string \<Rightarrow> string option"
  b58_decode :: "string \<Rightarrow> string option"
  b64_encode :: "string \<Rightarrow> string"
  b64_decode :: "string \<Rightarrow> string option"
  b64url_encode :: "string \<Rightarrow> string"
  b64url_decode :: "string \<Rightarrow> string option"
  ed25519_key :: "string \<Rightarrow> bool"
  ed25519_verify :: "string \<Rightarrow> string \<Rightarrow> string \<Rightarrow> bool"
  aead_encrypt :: "string \<Rightarrow> string \<Rightarrow> string \<Rightarrow> string \<Rightarrow> string option"
  aead_decrypt :: "string \<Rightarrow> string \<Rightarrow> string \<Rightarrow> string \<Rightarrow> string option"

definition digest_law :: "crypto \<Rightarrow> bool" where
  "digest_law C \<longleftrightarrow> (\<forall>x. length (sha256 C x) = 32) \<and> (\<forall>x. length (sha384 C x) = 48)"

definition hex_law :: "crypto \<Rightarrow> bool" where
  "hex_law C \<longleftrightarrow> (\<forall>x. hex_decode C (hex_encode C x) = Some x) \<and>
     (\<forall>x. CHR '':'' \<notin> set (hex_encode C x))"

definition b64_law :: "crypto \<Rightarrow> bool" where
  "b64_law C \<longleftrightarrow> (\<forall>x. b64_decode C (b64_encode C x) = Some x) \<and>
     (\<forall>x. CHR '':'' \<notin> set (b64_encode C x))"

definition b64url_law :: "crypto \<Rightarrow> bool" where
  "b64url_law C \<longleftrightarrow> (\<forall>x. b64url_decode C (b64url_encode C x) = Some x) \<and>
     (\<forall>x. list_all (\<lambda>c. is_ascii_alphanumeric c \<or> c = CHR ''-'' \<or> c = CHR ''_'') (b64url_encode C x))"

text \<open>Decryption under the same key, nonce and associated data gives the plain text back.\<close>

definition aead_law :: "crypto \<Rightarrow> bool" where
  "aead_law C \<longleftrightarrow>
     (\<forall>k n a p c. aead_encrypt C k n a p = Some c \<longrightarrow> aead_decrypt C k n a c = Some p)"

text \<open>And under other associated data it fails (authenticity).\<close>

definition aead_binds :: "crypto \<Rightarrow> bool" where
  "aead_binds C \<longleftrightarrow>
     (\<forall>k n a a' p c. aead_encrypt C k n a p = Some c \<and> a' \<noteq> a \<longrightarrow> aead_decrypt C k n a' c = None)"

section \<open>An instance\<close>

definition nibble :: "nat \<Rightarrow> char" where
  "nibble n = (if n < 10 then char_of (48 + n) else char_of (87 + n))"

definition nibble_value :: "char \<Rightarrow> nat option" where
  "nibble_value c =
     (if is_ascii_digit c then Some (byte c - 48)
      else if 97 \<le> byte c \<and> byte c \<le> 102 then Some (byte c - 87) else None)"

fun hexes :: "string \<Rightarrow> string" where
  "hexes [] = []"
| "hexes (c # s) = nibble (byte c div 16) # nibble (byte c mod 16) # hexes s"

fun unhexes :: "string \<Rightarrow> string option" where
  "unhexes [] = Some []"
| "unhexes (a # b # s) =
     (case (nibble_value a, nibble_value b, unhexes s) of
        (Some x, Some y, Some r) \<Rightarrow> Some (char_of (16 * x + y) # r) | _ \<Rightarrow> None)"
| "unhexes [a] = None"

lemma byte_nibble: "n < 16 \<Longrightarrow> byte (nibble n) = (if n < 10 then 48 + n else 87 + n)"
  by (simp add: nibble_def of_char_of)

lemma nibble_value_nibble: "n < 16 \<Longrightarrow> nibble_value (nibble n) = Some n"
  by (auto simp: nibble_value_def byte_nibble is_ascii_digit_def)

lemma byte_less: "byte c < 256"
  by simp

lemma unhexes_hexes: "unhexes (hexes s) = Some s"
proof (induction s)
  case (Cons c s)
  have "byte c div 16 < 16" using less_mult_imp_div_less [of "byte c" 16 16] by simp
  then show ?case
    using Cons by (simp add: nibble_value_nibble mult.commute [of 16] div_mult_mod_eq)
qed simp

lemma nibble_plain:
  "n < 16 \<Longrightarrow> 48 \<le> byte (nibble n) \<and> byte (nibble n) \<le> 57 \<or>
     97 \<le> byte (nibble n) \<and> byte (nibble n) \<le> 102"
  by (auto simp: byte_nibble)

lemma hexes_plain: "c \<in> set (hexes s) \<Longrightarrow> 48 \<le> byte c \<and> byte c \<le> 57 \<or> 97 \<le> byte c \<and> byte c \<le> 102"
proof (induction s)
  case (Cons d s)
  have "byte d div 16 < 16" using less_mult_imp_div_less [of "byte d" 16 16] by simp
  then consider "c = nibble (byte d div 16)" | "c = nibble (byte d mod 16)" | "c \<in> set (hexes s)"
    using Cons.prems by auto
  then show ?case
    using Cons.IH nibble_plain [of "byte d div 16"] nibble_plain [of "byte d mod 16"]
      \<open>byte d div 16 < 16\<close> by cases simp_all
qed simp

lemma hexes_no_mark: "CHR '':'' \<notin> set (hexes s)" "CHR ''.'' \<notin> set (hexes s)" "CHR '';'' \<notin> set (hexes s)"
  by (auto dest!: hexes_plain)

text \<open>Cipher text carries the key, nonce and associated data in clear: it shows the laws hold.\<close>

definition demo_crypto :: crypto where
  "demo_crypto = \<lparr>sha256 = (\<lambda>x. take 32 (x @ replicate 32 (CHR ''0''))),
     sha384 = (\<lambda>x. take 48 (x @ replicate 48 (CHR ''0''))),
     hmac_sha256 = (\<lambda>k m. k @ m),
     hex_encode = hexes, hex_decode = unhexes, b58_decode = Some,
     b64_encode = hexes, b64_decode = unhexes, b64url_encode = hexes, b64url_decode = unhexes,
     ed25519_key = (\<lambda>k. True), ed25519_verify = (\<lambda>k m s. take (length k) s = k),
     aead_encrypt = (\<lambda>k n a p. Some (hexes k @ '':'' @ hexes n @ '':'' @ hexes a @ '':'' @ p)),
     aead_decrypt = (\<lambda>k n a c. strip_prefix (hexes k @ '':'' @ hexes n @ '':'' @ hexes a @ '':'') c)\<rparr>"

lemma demo_digest: "digest_law demo_crypto"
  by (auto simp: digest_law_def demo_crypto_def min_def)

lemma demo_hex: "hex_law demo_crypto"
  by (simp add: hex_law_def demo_crypto_def unhexes_hexes hexes_no_mark)

lemma demo_b64: "b64_law demo_crypto"
  by (simp add: b64_law_def demo_crypto_def unhexes_hexes hexes_no_mark)

lemma demo_b64url: "b64url_law demo_crypto"
  by (auto simp: b64url_law_def demo_crypto_def unhexes_hexes list_all_iff ascii_defs dest!: hexes_plain)

lemma demo_aead: "aead_law demo_crypto"
  by (simp add: aead_law_def demo_crypto_def strip_prefix_iff)

lemma hexes_inj: "hexes s = hexes t \<Longrightarrow> s = t"
  by (metis option.inject unhexes_hexes)

lemma hexes_field:
  assumes "hexes a @ '':'' @ r = hexes b @ '':'' @ s"
  shows "a = b \<and> r = s"
proof -
  have "split_on (CHR '':'') (hexes a @ CHR '':'' # r) = hexes a # split_on (CHR '':'') r"
    "split_on (CHR '':'') (hexes b @ CHR '':'' # s) = hexes b # split_on (CHR '':'') s"
    by (simp_all add: split_on_append hexes_no_mark)
  with assms have "hexes a = hexes b" by simp
  with assms show ?thesis using hexes_inj by auto
qed

lemma demo_aead_binds: "aead_binds demo_crypto"
  unfolding aead_binds_def demo_crypto_def
proof (simp, intro allI impI)
  fix k n a a' p :: string
  assume ne: "a' \<noteq> a"
  show "strip_prefix (hexes k @ CHR '':'' # hexes n @ CHR '':'' # hexes a' @ '':'')
      (hexes k @ CHR '':'' # hexes n @ CHR '':'' # hexes a @ CHR '':'' # p) = None"
    unfolding strip_prefix_None
  proof
    assume "\<exists>r. hexes k @ CHR '':'' # hexes n @ CHR '':'' # hexes a @ CHR '':'' # p =
      (hexes k @ CHR '':'' # hexes n @ CHR '':'' # hexes a' @ '':'') @ r"
    then obtain r where "hexes a @ '':'' @ p = hexes a' @ '':'' @ r" by auto
    from hexes_field [OF this] ne show False by simp
  qed
qed

end
