(* ===== verification/Sigauth.thy ===== *)
theory Sigauth
  imports Kraph_Crypto "HOL-Library.AList"
begin

text \<open>
  Per-call request signatures (\<open>sigauth.rs\<close>): the store of seen nonces and the verification of
  a request. Wall-clock seconds are \<open>i64\<close> (subtraction and \<open>abs\<close> wrap, as the node is built
  without overflow checks), monotonic time is in nanoseconds. Header values are those that
  \<open>to_str\<close> accepts.
\<close>

definition SIG_TIMESTAMP_SKEW_SECS :: int where "SIG_TIMESTAMP_SKEW_SECS = 5 * 60"
definition NONCE_RETENTION :: nat where "NONCE_RETENTION = 10 * 60 * 1000000000"
definition NONCE_CLEANUP_THRESHOLD :: nat where "NONCE_CLEANUP_THRESHOLD = 100000"
definition MAX_NONCE_LEN :: nat where "MAX_NONCE_LEN = 128"

datatype sig_outcome = SigMissing | SigVerified

datatype sig_error =
    MissingSignature | IncompleteHeaders | TimestampNotInteger | SkewTooLarge | NonceTooLong
  | NonceReplayed | BodyHashMismatch | SignatureNotBase58 | SignatureNot64 | SignerNotBase58
  | SignerNot32 | InvalidKey | SignatureRejected

type_synonym nonce_map = "(string \<times> nat) list"

text \<open>The map of nonces to expiry instants; \<open>len\<close> of the hash map is the length.\<close>

definition check_and_record_nonce :: "nat \<Rightarrow> string \<Rightarrow> nonce_map \<Rightarrow> bool \<times> nonce_map" where
  "check_and_record_nonce now nonce m =
     (let m1 = (if NONCE_CLEANUP_THRESHOLD < length m then filter (\<lambda>(_, expires). now < expires) m else m);
          expires = now + NONCE_RETENTION
      in case map_of m1 nonce of
           Some old \<Rightarrow> if now < old then (False, m1) else (True, AList.update nonce expires m1)
         | None \<Rightarrow> (True, AList.update nonce expires m1))"

text \<open>\<open>SUPABA_SIGAUTH_ALLOW_MISSING\<close>\<close>

definition lower :: "char \<Rightarrow> char" where
  "lower c = (if is_ascii_uppercase c then char_of (byte c + 32) else c)"

definition sigauth_missing_allowed :: "string option \<Rightarrow> bool" where
  "sigauth_missing_allowed v = (case v of
     None \<Rightarrow> False
   | Some s \<Rightarrow> let t = map lower (trim s) in t = ''1'' \<or> t = ''true'' \<or> t = ''yes'')"

record request =
  rq_headers :: "string \<Rightarrow> string option"
  rq_method :: string
  rq_path :: string
  rq_body :: string
  rq_signer :: string

definition i64_abs :: "i64 \<Rightarrow> i64" where
  "i64_abs x = (if sint x < 0 then - x else x)"

definition canonical_message :: "string \<Rightarrow> string \<Rightarrow> string \<Rightarrow> string \<Rightarrow> i64 \<Rightarrow> string" where
  "canonical_message method rpath body_hash nonce ts =
     ''kraph-auth:v1:'' @ method @ '':'' @ rpath @ '':'' @ body_hash @ '':'' @ nonce @ '':'' @ show_int (sint ts)"

text \<open>The part after the nonce has been recorded: body hash, decoding and the signature.\<close>

definition verify_crypto ::
  "crypto \<Rightarrow> request \<Rightarrow> string \<Rightarrow> string \<Rightarrow> i64 \<Rightarrow> sig_error + sig_outcome" where
  "verify_crypto C rq sig_b58 nonce ts =
     (let body_hash = hex_encode C (sha256 C (rq_body rq)) in
      guard (case rq_headers rq ''X-Kraph-Auth-Hash'' of Some claimed \<Rightarrow> claimed = body_hash | None \<Rightarrow> True)
        BodyHashMismatch (
      let canonical = canonical_message (rq_method rq) (rq_path rq) body_hash nonce ts in
      rbind (ok_or SignatureNotBase58 (b58_decode C sig_b58)) (\<lambda>sig.
      guard (length sig = 64) SignatureNot64 (
      rbind (ok_or SignerNotBase58 (b58_decode C (rq_signer rq))) (\<lambda>key.
      guard (length key = 32) SignerNot32 (
      guard (ed25519_key C key) InvalidKey (
      guard (ed25519_verify C key canonical sig) SignatureRejected (
      Inr SigVerified))))))))"

definition verify_request_sig ::
  "crypto \<Rightarrow> bool \<Rightarrow> i64 \<Rightarrow> nat \<Rightarrow> request \<Rightarrow> nonce_map \<Rightarrow> (sig_error + sig_outcome) \<times> nonce_map" where
  "verify_request_sig C allow_missing now instant rq m =
     (case (rq_headers rq ''X-Kraph-Auth-Sig'', rq_headers rq ''X-Kraph-Auth-Nonce'',
            rq_headers rq ''X-Kraph-Auth-Ts'') of
        (None, None, None) \<Rightarrow> (if allow_missing then Inr SigMissing else Inl MissingSignature, m)
      | (Some sig, Some nonce, Some ts_str) \<Rightarrow>
          (case parse_i64 ts_str of
             None \<Rightarrow> (Inl TimestampNotInteger, m)
           | Some ts \<Rightarrow>
               if SIG_TIMESTAMP_SKEW_SECS < sint (i64_abs (now - ts)) then (Inl SkewTooLarge, m)
               else if MAX_NONCE_LEN < length nonce then (Inl NonceTooLong, m)
               else
                 (case check_and_record_nonce instant nonce m of
                    (False, m') \<Rightarrow> (Inl NonceReplayed, m')
                  | (True, m') \<Rightarrow> (verify_crypto C rq sig nonce ts, m')))
      | _ \<Rightarrow> (Inl IncompleteHeaders, m))"

section \<open>The nonce store\<close>

text \<open>A nonce is live at an instant when its recorded expiry lies ahead.\<close>

definition live :: "nonce_map \<Rightarrow> nat \<Rightarrow> string \<Rightarrow> bool" where
  "live m t nonce \<longleftrightarrow> (\<exists>e. map_of m nonce = Some e \<and> t < e)"

lemma map_of_filter_live:
  "distinct (map fst m) \<Longrightarrow>
     map_of (filter (\<lambda>(_, e). t < e) m) k = (case map_of m k of
        Some e \<Rightarrow> if t < e then Some e else None | None \<Rightarrow> None)"
  by (induction m) (auto split: option.splits simp: map_of_eq_None_iff image_iff)

definition nonces_ok :: "nonce_map \<Rightarrow> bool" where
  "nonces_ok m \<longleftrightarrow> distinct (map fst m)"

lemma nonces_ok_check: "nonces_ok m \<Longrightarrow> nonces_ok (snd (check_and_record_nonce t k m))"
  by (auto simp: nonces_ok_def check_and_record_nonce_def Let_def distinct_map_filter
      intro!: distinct_update split: option.splits)

definition pruned :: "nat \<Rightarrow> nonce_map \<Rightarrow> nonce_map" where
  "pruned t m = (if NONCE_CLEANUP_THRESHOLD < length m then filter (\<lambda>(_, e). t < e) m else m)"

lemma pruned_live: "nonces_ok m \<Longrightarrow> t \<le> t' \<Longrightarrow> live (pruned t m) t' k = live m t' k"
  by (cases "map_of m k")
    (simp_all add: nonces_ok_def pruned_def live_def map_of_filter_live del: map_of_eq_Some_iff)

lemma check_unfold:
  "check_and_record_nonce t k m =
     (if live (pruned t m) t k then (False, pruned t m)
      else (True, AList.update k (t + NONCE_RETENTION) (pruned t m)))"
  by (auto simp: check_and_record_nonce_def pruned_def live_def Let_def split: option.splits)

lemma check_fresh_iff: "nonces_ok m \<Longrightarrow> fst (check_and_record_nonce t k m) \<longleftrightarrow> \<not> live m t k"
  by (simp add: check_unfold pruned_live)

lemma live_update:
  "live (AList.update k e m) t' k' \<longleftrightarrow> (if k' = k then t' < e else live m t' k')"
  by (simp add: live_def update_conv')

lemma check_live:
  "nonces_ok m \<Longrightarrow> t \<le> t' \<Longrightarrow>
     live (snd (check_and_record_nonce t k m)) t' k' \<longleftrightarrow>
       (if k' = k \<and> \<not> live m t k then t' < t + NONCE_RETENTION else live m t' k')"
  by (simp add: check_unfold pruned_live live_update)

section \<open>Sequences of requests\<close>

text \<open>What verification does to the store: nothing, or one check.\<close>

lemma verify_store:
  "snd (verify_request_sig C am now t rq m) = m \<or>
   (\<exists>k. snd (verify_request_sig C am now t rq m) = snd (check_and_record_nonce t k m))"
  unfolding verify_request_sig_def
  by (simp split: option.splits prod.splits bool.splits) (metis snd_conv)

lemma verify_nonces_ok: "nonces_ok m \<Longrightarrow> nonces_ok (snd (verify_request_sig C am now t rq m))"
  using verify_store [of C am now t rq m] nonces_ok_check by metis

lemma verify_live_kept:
  assumes "nonces_ok m" "t \<le> t'" "live m t' k" "t' < t + NONCE_RETENTION"
  shows "live (snd (verify_request_sig C am now t rq m)) t' k"
proof (cases "snd (verify_request_sig C am now t rq m) = m")
  case False
  with verify_store [of C am now t rq m] obtain k1 where
    "snd (verify_request_sig C am now t rq m) = snd (check_and_record_nonce t k1 m)" by blast
  then show ?thesis using check_live [OF assms(1,2), of k1 k] assms(3,4) by simp
qed (use assms in simp)

text \<open>A run: requests with their wall-clock and monotonic times, outcomes collected.\<close>

fun serve ::
  "crypto \<Rightarrow> bool \<Rightarrow> (i64 \<times> nat \<times> request) list \<Rightarrow> nonce_map \<Rightarrow> nonce_map" where
  "serve C am [] m = m"
| "serve C am ((now, t, rq) # rest) m = serve C am rest (snd (verify_request_sig C am now t rq m))"

lemma serve_nonces_ok: "nonces_ok m \<Longrightarrow> nonces_ok (serve C am es m)"
  by (induction es arbitrary: m) (auto simp: verify_nonces_ok)

lemma serve_live_kept:
  assumes "nonces_ok m" "live m t' k" "\<forall>(_, t, _) \<in> set es. t \<le> t' \<and> t' < t + NONCE_RETENTION"
  shows "live (serve C am es m) t' k"
  using assms by (induction es arbitrary: m) (auto simp: verify_nonces_ok verify_live_kept)

lemma verify_accepted:
  assumes ok: "nonces_ok m" and v: "verify_request_sig C am now t rq m = (Inr SigVerified, m')"
  obtains sig nonce ts_str ts where
    "rq_headers rq ''X-Kraph-Auth-Sig'' = Some sig" "rq_headers rq ''X-Kraph-Auth-Nonce'' = Some nonce"
    "rq_headers rq ''X-Kraph-Auth-Ts'' = Some ts_str" "parse_i64 ts_str = Some ts"
    "sint (i64_abs (now - ts)) \<le> SIG_TIMESTAMP_SKEW_SECS" "length nonce \<le> MAX_NONCE_LEN"
    "\<not> live m t nonce" "m' = snd (check_and_record_nonce t nonce m)"
    "verify_crypto C rq sig nonce ts = Inr SigVerified"
  using v check_fresh_iff [OF ok]
  by (fastforce simp: verify_request_sig_def split: option.splits prod.splits bool.splits if_splits)

section \<open>Properties\<close>

lemma sint_abs: "sint (i64_abs x) = (if sint x = - (2 ^ 63) then - (2 ^ 63) else \<bar>sint x\<bar>)"
proof (cases "sint x < 0 \<and> sint x \<noteq> - (2 ^ 63)")
  case True
  then have "in_i64 (- sint x)" using i64_range [of x] by (auto simp: in_i64_def)
  then have "sint (word_of_int (- sint x) :: i64) = - sint x" by (rule sint_in_i64)
  then show ?thesis using True by (simp add: i64_abs_def)
next
  case False
  show ?thesis
  proof (cases "sint x < 0")
    case True
    with False have x: "sint x = - (2 ^ 63)" by simp
    have "x = word_of_int (sint x)" by simp
    then have "x = word_of_int (- (2 ^ 63))" unfolding x .
    then show ?thesis by (simp add: i64_abs_def)
  qed (auto simp: i64_abs_def)
qed

text \<open>
  C17: A request counts as verified only if all three headers are present, its time stamp is an
  integer within 300 seconds of the clock (or exactly \<open>2^63\<close> away from it, where the wrapping
  absolute value is negative), its nonce is at most 128 bytes and not live in the store, a claimed
  body hash is the hash of the body, and the signature of the expected signer verifies the message
  made of method, path, body hash, nonce and time stamp.
\<close>

theorem verified_requests_are_signed:
  assumes ok: "nonces_ok m" and v: "verify_request_sig C am now t rq m = (Inr SigVerified, m')"
  shows "\<exists>sig nonce ts key raw.
    rq_headers rq ''X-Kraph-Auth-Sig'' = Some sig \<and> rq_headers rq ''X-Kraph-Auth-Nonce'' = Some nonce \<and>
    (\<exists>s. rq_headers rq ''X-Kraph-Auth-Ts'' = Some s \<and> parse_i64 s = Some ts) \<and>
    (\<bar>sint (now - ts)\<bar> \<le> 300 \<or> sint (now - ts) = - (2 ^ 63)) \<and>
    length nonce \<le> 128 \<and> \<not> live m t nonce \<and>
    rq_headers rq ''X-Kraph-Auth-Hash'' \<in> {None, Some (hex_encode C (sha256 C (rq_body rq)))} \<and>
    b58_decode C sig = Some raw \<and> length raw = 64 \<and>
    b58_decode C (rq_signer rq) = Some key \<and> length key = 32 \<and> ed25519_key C key \<and>
    ed25519_verify C key (canonical_message (rq_method rq) (rq_path rq)
      (hex_encode C (sha256 C (rq_body rq))) nonce ts) raw"
proof -
  obtain sig nonce ts_str ts where h:
    "rq_headers rq ''X-Kraph-Auth-Sig'' = Some sig" "rq_headers rq ''X-Kraph-Auth-Nonce'' = Some nonce"
    "rq_headers rq ''X-Kraph-Auth-Ts'' = Some ts_str" "parse_i64 ts_str = Some ts"
    "sint (i64_abs (now - ts)) \<le> SIG_TIMESTAMP_SKEW_SECS" "length nonce \<le> MAX_NONCE_LEN"
    "\<not> live m t nonce" "verify_crypto C rq sig nonce ts = Inr SigVerified"
    using verify_accepted [OF ok v] by metis
  have skew: "\<bar>sint (now - ts)\<bar> \<le> 300 \<or> sint (now - ts) = - (2 ^ 63)"
    using h(5) by (auto simp: sint_abs SIG_TIMESTAMP_SKEW_SECS_def split: if_splits)
  have hash: "rq_headers rq ''X-Kraph-Auth-Hash'' \<in> {None, Some (hex_encode C (sha256 C (rq_body rq)))}"
    using h(8) by (cases "rq_headers rq ''X-Kraph-Auth-Hash''")
      (auto simp: verify_crypto_def Let_def split: if_splits)
  obtain raw key where "b58_decode C sig = Some raw" "length raw = 64"
    "b58_decode C (rq_signer rq) = Some key" "length key = 32" "ed25519_key C key"
    "ed25519_verify C key (canonical_message (rq_method rq) (rq_path rq)
      (hex_encode C (sha256 C (rq_body rq))) nonce ts) raw"
    using h(8) by (auto simp: verify_crypto_def Let_def ok_simps)
  with h skew hash show ?thesis unfolding MAX_NONCE_LEN_def by blast
qed

text \<open>A request of the demonstration, signed for time stamp \<open>n\<close>.\<close>

definition demo_request :: "string \<Rightarrow> request" where
  "demo_request ts = \<lparr>rq_headers = [''X-Kraph-Auth-Sig'' \<mapsto> replicate 64 (CHR ''k''),
     ''X-Kraph-Auth-Nonce'' \<mapsto> ''n-1'', ''X-Kraph-Auth-Ts'' \<mapsto> ts], rq_method = ''POST'',
     rq_path = ''/deploy'', rq_body = ''{}'', rq_signer = replicate 32 (CHR ''k'')\<rparr>"

lemma demo_crypto_ok: "verify_crypto demo_crypto (demo_request ts) (replicate 64 (CHR ''k'')) n i = Inr SigVerified"
  by (simp add: verify_crypto_def demo_request_def demo_crypto_def Let_def)

lemma parse_1300: "parse_i64 ''1300'' = Some 1300"
  by (simp add: parse_i64_def parse_nat_def is_ascii_digit_def in_i64_def)

lemma demo_verified:
  "verify_request_sig demo_crypto False 1000 5 (demo_request ''1300'') [] =
     (Inr SigVerified, [(''n-1'', 5 + NONCE_RETENTION)])"
  using demo_crypto_ok [of "''1300''"] parse_1300
  by (simp add: verify_request_sig_def demo_request_def check_and_record_nonce_def Let_def
      i64_abs_def SIG_TIMESTAMP_SKEW_SECS_def MAX_NONCE_LEN_def NONCE_CLEANUP_THRESHOLD_def)

theorem verified_requests_are_signed_witness:
  "\<exists>sig. rq_headers (demo_request ''1300'') ''X-Kraph-Auth-Sig'' = Some sig \<and> length sig = 64"
proof -
  have "nonces_ok []" by (simp add: nonces_ok_def)
  from verified_requests_are_signed [OF this demo_verified] show ?thesis
    by (auto simp: demo_crypto_def)
qed

lemma replay_refused:
  assumes ok: "nonces_ok m" and v: "verify_request_sig C am now t0 rq m = (Inr SigVerified, m1)"
    and between: "\<forall>(_, t, _) \<in> set es. t0 \<le> t \<and> t \<le> t1" and t1: "t1 < t0 + NONCE_RETENTION"
    and same: "rq_headers rq2 ''X-Kraph-Auth-Nonce'' = rq_headers rq ''X-Kraph-Auth-Nonce''"
    and le: "t0 \<le> t1"
  shows "\<exists>e. fst (verify_request_sig C am now2 t1 rq2 (serve C am es m1)) = Inl e"
proof -
  obtain nonce where n: "rq_headers rq ''X-Kraph-Auth-Nonce'' = Some nonce" "\<not> live m t0 nonce"
    "m1 = snd (check_and_record_nonce t0 nonce m)"
    using verify_accepted [OF ok v] by metis
  have "live m1 t1 nonce"
    using check_live [OF ok le, of nonce nonce] n t1 by simp
  moreover have ok1: "nonces_ok m1" using nonces_ok_check [OF ok] n(3) by simp
  ultimately have lv: "live (serve C am es m1) t1 nonce"
    using between t1 by (intro serve_live_kept) auto
  have ok2: "nonces_ok (serve C am es m1)" by (rule serve_nonces_ok [OF ok1])
  then have "\<not> fst (check_and_record_nonce t1 nonce (serve C am es m1))"
    using check_fresh_iff lv by simp
  then show ?thesis
    using n(1) same
    by (auto simp: verify_request_sig_def split: option.splits prod.splits bool.splits)
qed

lemma replay_at_window_edge:
  assumes ok: "nonces_ok m" and v: "verify_request_sig C am now t0 rq m = (Inr SigVerified, m1)"
    and ts: "rq_headers rq ''X-Kraph-Auth-Ts'' = Some s" "parse_i64 s = Some (now + 300)"
    and clock: "in_i64 (sint now + 600)"
  shows "fst (verify_request_sig C am (now + 600) (t0 + NONCE_RETENTION) rq m1) = Inr SigVerified"
proof -
  obtain sig nonce s' ts' where a:
    "rq_headers rq ''X-Kraph-Auth-Sig'' = Some sig" "rq_headers rq ''X-Kraph-Auth-Nonce'' = Some nonce"
    "rq_headers rq ''X-Kraph-Auth-Ts'' = Some s'" "parse_i64 s' = Some ts'"
    "length nonce \<le> MAX_NONCE_LEN" "\<not> live m t0 nonce"
    "m1 = snd (check_and_record_nonce t0 nonce m)" "verify_crypto C rq sig nonce ts' = Inr SigVerified"
    by (rule verify_accepted [OF ok v])
  have "s' = s" "ts' = now + 300" using a(3,4) ts by simp_all
  note h = a(1,2,5-7) a(8) [unfolded this]
  have ok1: "nonces_ok m1" using nonces_ok_check [OF ok] h(5) by simp
  have "\<not> live m1 (t0 + NONCE_RETENTION) nonce"
    using check_live [OF ok, of t0 "t0 + NONCE_RETENTION" nonce nonce] h(4,5) by simp
  then have fresh: "fst (check_and_record_nonce (t0 + NONCE_RETENTION) nonce m1)"
    using check_fresh_iff [OF ok1] by simp
  have "now + 600 - (now + 300) = (300 :: i64)" by simp
  then have "sint (i64_abs (now + 600 - (now + 300))) \<le> SIG_TIMESTAMP_SKEW_SECS"
    by (simp add: i64_abs_def SIG_TIMESTAMP_SKEW_SECS_def)
  then show ?thesis
    using h ts fresh
    by (cases "check_and_record_nonce (t0 + NONCE_RETENTION) nonce m1")
      (auto simp: verify_request_sig_def)
qed

text \<open>
  C18: The nonces protect for exactly ten minutes. After a request has been verified at monotonic
  time \<open>t0\<close>, any later request with the same nonce at a time less than ten minutes after \<open>t0\<close> is
  refused, whatever requests are served in between. At the edge of the window there is a gap: a
  request dated 300 seconds ahead of the clock is verified again, nonce and all, exactly ten
  minutes later, when its time stamp is still acceptable and its nonce has just expired.
\<close>

theorem nonce_window_is_exact:
  assumes "nonces_ok m" and "verify_request_sig C am now t0 rq m = (Inr SigVerified, m1)"
  shows "(\<forall>es t1 now2 rq2. (\<forall>(_, t, _) \<in> set es. t0 \<le> t \<and> t \<le> t1) \<and> t0 \<le> t1 \<and> t1 < t0 + NONCE_RETENTION \<and>
      rq_headers rq2 ''X-Kraph-Auth-Nonce'' = rq_headers rq ''X-Kraph-Auth-Nonce'' \<longrightarrow>
      (\<exists>e. fst (verify_request_sig C am now2 t1 rq2 (serve C am es m1)) = Inl e)) \<and>
    (\<forall>s. rq_headers rq ''X-Kraph-Auth-Ts'' = Some s \<and> parse_i64 s = Some (now + 300) \<and>
      in_i64 (sint now + 600) \<longrightarrow>
      fst (verify_request_sig C am (now + 600) (t0 + NONCE_RETENTION) rq m1) = Inr SigVerified)"
  using replay_refused [OF assms] replay_at_window_edge [OF assms] by blast

theorem nonce_window_is_exact_witness:
  "(\<exists>e. fst (verify_request_sig demo_crypto False 1001 6 (demo_request ''1300'')
     [(''n-1'', 5 + NONCE_RETENTION)]) = Inl e) \<and>
   fst (verify_request_sig demo_crypto False 1600 (5 + NONCE_RETENTION) (demo_request ''1300'')
     [(''n-1'', 5 + NONCE_RETENTION)]) = Inr SigVerified"
proof
  have ok: "nonces_ok []" by (simp add: nonces_ok_def)
  note window = nonce_window_is_exact [OF ok demo_verified]
  have "(\<forall>(_, t, _) \<in> set ([] :: (i64 \<times> nat \<times> request) list). 5 \<le> t \<and> t \<le> 6) \<and> (5 :: nat) \<le> 6 \<and> 6 < 5 + NONCE_RETENTION \<and>
      rq_headers (demo_request ''1300'') ''X-Kraph-Auth-Nonce'' = rq_headers (demo_request ''1300'') ''X-Kraph-Auth-Nonce''"
    by (simp add: NONCE_RETENTION_def)
  from conjunct1 [OF window, rule_format, OF this]
  show "\<exists>e. fst (verify_request_sig demo_crypto False 1001 6 (demo_request ''1300'')
     [(''n-1'', 5 + NONCE_RETENTION)]) = Inl e" by simp
  have "rq_headers (demo_request ''1300'') ''X-Kraph-Auth-Ts'' = Some ''1300'' \<and>
      parse_i64 ''1300'' = Some ((1000 :: i64) + 300) \<and> in_i64 (sint (1000 :: i64) + 600)"
    using parse_1300 by (simp add: demo_request_def in_i64_def)
  from conjunct2 [OF window, rule_format, OF this]
  show "fst (verify_request_sig demo_crypto False 1600 (5 + NONCE_RETENTION) (demo_request ''1300'')
     [(''n-1'', 5 + NONCE_RETENTION)]) = Inr SigVerified" by simp
qed

lemma show_int_clean: "CHR '':'' \<notin> set (show_int z)"
proof -
  have "CHR '':'' \<notin> set (dec_digits n)" for n
    using dec_digits_digits [of n] by (auto simp: list_all_iff is_ascii_digit_def)
  then show ?thesis by (auto simp: show_int_def)
qed

lemma show_int_inj: "show_int a = show_int b \<Longrightarrow> a = b"
proof -
  have h: "hd (dec_digits n) \<noteq> CHR ''-''" for n
    using dec_digits_digits [of n] by (cases "dec_digits n") (auto simp: is_ascii_digit_def)
  assume eq: "show_int a = show_int b"
  show ?thesis
  proof (cases "a < 0 \<longleftrightarrow> b < 0")
    case True
    then have "dec_digits (nat \<bar>a\<bar>) = dec_digits (nat \<bar>b\<bar>)"
      using eq by (auto simp: show_int_def split: if_splits)
    with True show ?thesis by (auto dest!: dec_digits_inj)
  next
    case False
    then show ?thesis using eq h [of "nat a"] h [of "nat b"]
      by (auto simp: show_int_def split: if_splits) (metis list.sel(1))+
  qed
qed

lemma canonical_join:
  "canonical_message me pa ha no ts = ''kraph-auth:v1:'' @ join '':'' [me, pa, ha, no, show_int (sint ts)]"
  by (simp add: canonical_message_def)

text \<open>For parts without a colon, the signed message determines what it authorises.\<close>

lemma canonical_messages_injective:
  assumes "canonical_message me pa ha no ts = canonical_message me' pa' ha' no' ts'"
    and "\<forall>x \<in> {me, pa, ha, no, me', pa', ha', no'}. CHR '':'' \<notin> set x"
  shows "me = me' \<and> pa = pa' \<and> ha = ha' \<and> no = no' \<and> ts = ts'"
proof -
  have eq: "join '':'' [me, pa, ha, no, show_int (sint ts)] = join '':'' [me', pa', ha', no', show_int (sint ts')]"
    using assms(1) unfolding canonical_join by simp
  have s1: "split_on (CHR '':'') (join '':'' [me, pa, ha, no, show_int (sint ts)]) =
      [me, pa, ha, no, show_int (sint ts)]"
    by (rule split_on_join) (use assms(2) show_int_clean in auto)
  have s2: "split_on (CHR '':'') (join '':'' [me', pa', ha', no', show_int (sint ts')]) =
      [me', pa', ha', no', show_int (sint ts')]"
    by (rule split_on_join) (use assms(2) show_int_clean in auto)
  have "[me, pa, ha, no, show_int (sint ts)] = [me', pa', ha', no', show_int (sint ts')]"
    using arg_cong [OF eq, of "split_on (CHR '':'')"] unfolding s1 s2 .
  then show ?thesis by (auto dest!: show_int_inj intro: word_eq_iff_signed [THEN iffD2])
qed

end
