(* ===== verification/Database.thy ===== *)
theory Database
  imports Kraph_Text
begin

text \<open>
  The node's SQLite database (\<open>db/mod.rs\<close>, \<open>db/schema.rs\<close>): the rows of its tables and the
  operations on instances and port blocks. A table is the list of its rows in the order of
  insertion, a time is its number of seconds; an operation that SQLite refuses (a primary key,
  a unique column, a foreign key; the node turns foreign keys on) returns the error. The mutex
  around the connection makes every operation one step.
\<close>

section \<open>Rows\<close>

text \<open>The nine ports and the six secrets of the struct \<open>Instance\<close> are records of their own.\<close>

record instance_ports =
  kong_port :: u16
  postgres_port :: u16
  gotrue_port :: u16
  realtime_port :: u16
  storage_port :: u16
  studio_port :: u16
  analytics_port :: u16
  meta_port :: u16
  functions_port :: u16

record instance_secrets =
  anon_key :: string
  service_role_key :: string
  jwt_secret :: string
  postgres_password :: string
  dashboard_password :: string
  wal_encryption_key :: string

record instance_row =
  in_id :: string
  in_wallet :: string
  in_name :: "string option"
  in_status :: string
  in_ports :: instance_ports
  in_secrets :: instance_secrets
  in_url :: string
  in_studio_url :: string
  in_project :: string
  in_dir :: string
  in_cpuset :: "string option"
  in_created_at :: int
  in_expires_at :: "int option"
  in_destroyed_at :: "int option"
  in_lifecycle :: string
  in_last_seen :: "int option"
  in_pinned_until :: "int option"
  in_nextjs_port :: "u16 option"
  in_nextjs_status :: "string option"
  in_nextjs_deployed_at :: "int option"

record port_row =
  pa_instance :: "string option"
  pa_base :: u16

record wal_segment =
  ws_instance :: string
  ws_name :: string
  ws_hash :: string
  ws_previous_hash :: string
  ws_path :: string
  ws_size :: int
  ws_chain_index :: int

record instance_replica =
  ir_instance :: string
  ir_endpoint :: string
  ir_added_at :: int

record replica_shipment =
  rs_id :: int
  rs_instance :: string
  rs_endpoint :: string
  rs_name :: string
  rs_status :: string
  rs_attempts :: int
  rs_last_attempt :: "int option"
  rs_confirmed_at :: "int option"

record env_row =
  ev_instance :: string
  ev_key :: string
  ev_value :: string
  ev_protected :: bool
  ev_updated_at :: int

text \<open>Replica segments have the shape of WAL segments; shipments number themselves.\<close>

record db =
  instances :: "instance_row list"
  port_allocations :: "port_row list"
  wal_segments :: "wal_segment list"
  instance_replicas :: "instance_replica list"
  replica_shipments :: "replica_shipment list"
  shipment_seq :: int
  replica_segments :: "wal_segment list"
  instance_env :: "env_row list"

datatype db_error = Unique_violation | Foreign_key_violation | No_row | No_free_port | Not_found
  | No_dek | Bad_dek | Reserved_key | Encryption_failed | Decryption_failed | Bad_envelope | Not_utf8

definition instance_ids :: "db \<Rightarrow> string set" where
  "instance_ids d = in_id ` set (instances d)"

definition empty_db :: db where
  "empty_db = \<lparr>instances = [], port_allocations = [], wal_segments = [], instance_replicas = [],
     replica_shipments = [], shipment_seq = 0, replica_segments = [], instance_env = []\<rparr>"

section \<open>Instances\<close>

text \<open>Columns the statement does not list get their defaults.\<close>

definition inserted_instance :: "instance_row \<Rightarrow> instance_row" where
  "inserted_instance i = i\<lparr>in_destroyed_at := None, in_lifecycle := ''running'', in_last_seen := None,
     in_pinned_until := None, in_nextjs_port := None, in_nextjs_status := None,
     in_nextjs_deployed_at := None\<rparr>"

definition insert_instance :: "instance_row \<Rightarrow> db \<Rightarrow> db_error + db" where
  "insert_instance i d = guard (in_id i \<notin> instance_ids d) Unique_violation
     (Inr (d\<lparr>instances := instances d @ [inserted_instance i]\<rparr>))"

definition live :: "instance_row \<Rightarrow> bool" where
  "live i \<longleftrightarrow> in_destroyed_at i = None"

definition newest_first :: "instance_row list \<Rightarrow> instance_row list" where
  "newest_first = sort_key (\<lambda>i. - in_created_at i)"

definition get_instance :: "string \<Rightarrow> string \<Rightarrow> db \<Rightarrow> instance_row option" where
  "get_instance inst wallet d =
     find (\<lambda>i. in_id i = inst \<and> in_wallet i = wallet \<and> live i) (instances d)"

definition get_instance_by_id :: "string \<Rightarrow> db \<Rightarrow> instance_row option" where
  "get_instance_by_id inst d = find (\<lambda>i. in_id i = inst \<and> live i) (instances d)"

definition list_instances :: "string \<Rightarrow> string option \<Rightarrow> db \<Rightarrow> instance_row list" where
  "list_instances wallet status d = newest_first (case status of
     Some s \<Rightarrow> filter (\<lambda>i. in_wallet i = wallet \<and> in_status i = s \<and> live i) (instances d)
   | None \<Rightarrow> filter (\<lambda>i. in_wallet i = wallet \<and> live i) (instances d))"

definition list_running_instances :: "db \<Rightarrow> instance_row list" where
  "list_running_instances d =
     newest_first (filter (\<lambda>i. in_status i = ''running'' \<and> live i) (instances d))"

definition list_all_instances :: "db \<Rightarrow> instance_row list" where
  "list_all_instances d = newest_first (filter live (instances d))"

definition running_instance_count :: "db \<Rightarrow> nat" where
  "running_instance_count d =
     length (filter (\<lambda>i. in_status i \<in> {''running'', ''provisioning''} \<and> live i) (instances d))"

definition update_instance :: "string \<Rightarrow> (instance_row \<Rightarrow> instance_row) \<Rightarrow> db \<Rightarrow> db" where
  "update_instance inst f d =
     d\<lparr>instances := map (\<lambda>i. if in_id i = inst then f i else i) (instances d)\<rparr>"

definition update_instance_status_db :: "string \<Rightarrow> string \<Rightarrow> db \<Rightarrow> db" where
  "update_instance_status_db inst status = update_instance inst (\<lambda>i. i\<lparr>in_status := status\<rparr>)"

definition touch_instance :: "int \<Rightarrow> string \<Rightarrow> db \<Rightarrow> db" where
  "touch_instance now inst = update_instance inst (\<lambda>i. i\<lparr>in_last_seen := Some now\<rparr>)"

definition set_lifecycle_state :: "string \<Rightarrow> string \<Rightarrow> db \<Rightarrow> db" where
  "set_lifecycle_state inst state = update_instance inst (\<lambda>i. i\<lparr>in_lifecycle := state\<rparr>)"

definition coalesce :: "'a option \<Rightarrow> 'a \<Rightarrow> 'a" where
  "coalesce x y = (case x of Some v \<Rightarrow> v | None \<Rightarrow> y)"

definition set_pinned_until :: "string \<Rightarrow> int \<Rightarrow> db \<Rightarrow> db_error + int \<times> db" where
  "set_pinned_until inst until_ts d =
     (let d' = update_instance inst
            (\<lambda>i. i\<lparr>in_pinned_until := Some (max (coalesce (in_pinned_until i) 0) until_ts)\<rparr>) d
      in case find (\<lambda>i. in_id i = inst) (instances d') of
        None \<Rightarrow> Inl No_row
      | Some i \<Rightarrow> (case in_pinned_until i of None \<Rightarrow> Inl No_row | Some t \<Rightarrow> Inr (t, d')))"

definition list_idle_running_instances :: "int \<Rightarrow> int \<Rightarrow> db \<Rightarrow> instance_row list" where
  "list_idle_running_instances now idle_secs d =
     filter (\<lambda>i. live i \<and> in_status i = ''active'' \<and> in_lifecycle i = ''running'' \<and>
         (in_pinned_until i = None \<or> coalesce (in_pinned_until i) 0 < now) \<and>
         coalesce (in_last_seen i) (in_created_at i) < now - idle_secs) (instances d)"

definition destroy_instance_db :: "int \<Rightarrow> string \<Rightarrow> db \<Rightarrow> db" where
  "destroy_instance_db now inst =
     update_instance inst (\<lambda>i. i\<lparr>in_status := ''destroyed'', in_destroyed_at := Some now\<rparr>)"

definition set_nextjs_service :: "int \<Rightarrow> string \<Rightarrow> u16 option \<Rightarrow> string \<Rightarrow> db \<Rightarrow> db" where
  "set_nextjs_service now inst port status =
     update_instance inst (\<lambda>i. i\<lparr>in_nextjs_port := port,
       in_nextjs_status := (if port \<noteq> None then Some status else None),
       in_nextjs_deployed_at := (if port \<noteq> None then Some now else None)\<rparr>)"

definition expired_instance_ids :: "int \<Rightarrow> db \<Rightarrow> (string \<times> string) list" where
  "expired_instance_ids now d = map (\<lambda>i. (in_id i, in_wallet i))
     (filter (\<lambda>i. in_expires_at i \<noteq> None \<and> coalesce (in_expires_at i) 0 < now \<and>
        in_status i = ''running'') (instances d))"

text \<open>
  \<open>later\<close> is SQLite's \<open>datetime(t, '+' || n || ' seconds')\<close>, whose result is NULL when it is out
  of range or the modifier is malformed.
\<close>

definition extend_instance ::
  "(int \<Rightarrow> int \<Rightarrow> int option) \<Rightarrow> int \<Rightarrow> string \<Rightarrow> string \<Rightarrow> int \<Rightarrow> db \<Rightarrow> db_error + db" where
  "extend_instance later now inst wallet secs d =
     (let hit = (\<lambda>i. in_id i = inst \<and> in_wallet i = wallet \<and> live i) in
      guard (list_ex hit (instances d)) Not_found
        (Inr (d\<lparr>instances := map (\<lambda>i. if hit i
           then i\<lparr>in_expires_at := later (coalesce (in_expires_at i) now) secs\<rparr> else i) (instances d)\<rparr>)))"

section \<open>Port blocks\<close>

definition PORTS_PER_INSTANCE :: u16 where "PORTS_PER_INSTANCE = 10"

definition allocated_bases :: "db \<Rightarrow> u16 list" where
  "allocated_bases d = map pa_base (port_allocations d)"

text \<open>The walk over the sorted bases; \<open>u16\<close> addition wraps in the release build.\<close>

fun port_gap :: "u16 \<Rightarrow> u16 list \<Rightarrow> u16 \<Rightarrow> u16" where
  "port_gap block [] candidate = candidate"
| "port_gap block (used # rest) candidate =
     (if candidate + block \<le> used then candidate
      else port_gap block rest (if used + block > candidate then used + block else candidate))"

definition allocate_port_block :: "u16 \<Rightarrow> u16 \<Rightarrow> db \<Rightarrow> db_error + u16 \<times> db" where
  "allocate_port_block range_start range_end d =
     (let candidate = port_gap PORTS_PER_INSTANCE (sort (allocated_bases d)) range_start in
      guard (\<not> candidate + PORTS_PER_INSTANCE > range_end) No_free_port (
      guard (candidate \<notin> set (allocated_bases d)) Unique_violation (
      Inr (candidate, d\<lparr>port_allocations := port_allocations d @
         [\<lparr>pa_instance = None, pa_base = candidate\<rparr>]\<rparr>))))"

definition allocate_port_block_at :: "u16 \<Rightarrow> db \<Rightarrow> db" where
  "allocate_port_block_at base d =
     (if base \<in> set (allocated_bases d) then d
      else d\<lparr>port_allocations := port_allocations d @ [\<lparr>pa_instance = None, pa_base = base\<rparr>]\<rparr>)"

definition free_port_block :: "string \<Rightarrow> db \<Rightarrow> db" where
  "free_port_block inst d =
     d\<lparr>port_allocations := filter (\<lambda>p. pa_instance p \<noteq> Some inst) (port_allocations d)\<rparr>"

text \<open>Binding a block writes the foreign key: it must name an instance.\<close>

definition bind_port_to_instance :: "u16 \<Rightarrow> string \<Rightarrow> db \<Rightarrow> db_error + db" where
  "bind_port_to_instance base inst d =
     guard (base \<in> set (allocated_bases d) \<longrightarrow> inst \<in> instance_ids d) Foreign_key_violation
       (Inr (d\<lparr>port_allocations := map (\<lambda>p. if pa_base p = base then p\<lparr>pa_instance := Some inst\<rparr> else p)
          (port_allocations d)\<rparr>))"

definition allocated_port_count :: "db \<Rightarrow> nat" where
  "allocated_port_count d = length (port_allocations d)"

text \<open>The environment rows of an instance, removed when it is destroyed.\<close>

definition delete_all_env :: "string \<Rightarrow> db \<Rightarrow> nat \<times> db" where
  "delete_all_env inst d =
     (length (filter (\<lambda>e. ev_instance e = inst) (instance_env d)),
      d\<lparr>instance_env := filter (\<lambda>e. ev_instance e \<noteq> inst) (instance_env d)\<rparr>)"

section \<open>The walk finds the least free block\<close>

fun nat_gap :: "nat list \<Rightarrow> nat \<Rightarrow> nat" where
  "nat_gap [] c = c"
| "nat_gap (u # us) c = (if c + 10 \<le> u then c else nat_gap us (if u + 10 > c then u + 10 else c))"

definition clear_of :: "nat \<Rightarrow> nat set \<Rightarrow> bool" where
  "clear_of c U \<longleftrightarrow> (\<forall>u \<in> U. c + 10 \<le> u \<or> u + 10 \<le> c)"

lemma nat_gap_ge: "c \<le> nat_gap us c"
proof (induction us c rule: nat_gap.induct)
  case (2 u us c)
  then show ?case by (cases "c + 10 \<le> u"; cases "c < u + 10") auto
qed simp

lemma nat_gap_clear: "sorted us \<Longrightarrow> clear_of (nat_gap us c) (set us)"
proof (induction us c rule: nat_gap.induct)
  case (2 u us c)
  show ?case
  proof (cases "c + 10 \<le> u")
    case True
    with 2(2) show ?thesis by (auto simp: clear_of_def)
  next
    case False
    have "u + 10 \<le> nat_gap us (if u + 10 > c then u + 10 else c)"
      using nat_gap_ge [of "if u + 10 > c then u + 10 else c" us] by (simp split: if_splits)
    with 2(1) [OF False] 2(2) False show ?thesis by (auto simp: clear_of_def)
  qed
qed (simp add: clear_of_def)

lemma nat_gap_least: "c \<le> x \<Longrightarrow> clear_of x (set us) \<Longrightarrow> nat_gap us c \<le> x"
proof (induction us c rule: nat_gap.induct)
  case (2 u us c)
  show ?case
  proof (cases "c + 10 \<le> u")
    case False
    with 2(2,3) have "(if u + 10 > c then u + 10 else c) \<le> x" "clear_of x (set us)"
      by (auto simp: clear_of_def)
    with 2(1) [OF False] False show ?thesis by simp
  qed (use 2(2) in simp)
qed simp

definition below :: "nat \<Rightarrow> u16 list \<Rightarrow> bool" where
  "below n us \<longleftrightarrow> (\<forall>u \<in> set us. unat u < n)"

lemma port_gap_unat:
  "below 65516 us \<Longrightarrow> unat c < 65526 \<Longrightarrow>
     unat (port_gap 10 us c) = nat_gap (map unat us) (unat c) \<and> unat (port_gap 10 us c) < 65526"
proof (induction "10 :: u16" us c rule: port_gap.induct)
  case (2 u us c)
  have add: "unat (x + 10) = unat x + 10" if "unat x < 65526" for x :: u16
    using that by (simp add: unat_word_ariths)
  have u: "unat u < 65516" and us: "below 65516 us" using 2(2) by (auto simp: below_def)
  then show ?case
    using 2 add [of u] add [of c] by (auto simp: word_le_nat_alt word_less_nat_alt not_le)
qed simp

lemma sort_unat: "map unat (sort (us :: u16 list)) = sort (map unat us)"
proof (induction us)
  case (Cons u us)
  have "map unat (insort u xs) = insort (unat u) (map unat xs)" for xs :: "u16 list"
    by (induction xs) (auto simp: word_le_nat_alt)
  with Cons show ?case by simp
qed simp

definition free_block :: "u16 \<Rightarrow> u16 \<Rightarrow> db \<Rightarrow> nat \<Rightarrow> bool" where
  "free_block range_start range_end d c \<longleftrightarrow>
     unat range_start \<le> c \<and> c + 10 \<le> unat range_end \<and> clear_of c (unat ` set (allocated_bases d))"

lemma allocate_unfold:
  assumes "below 65516 (allocated_bases d)" and "unat range_start < 65526"
  defines "c \<equiv> port_gap 10 (sort (allocated_bases d)) range_start"
  shows "unat c = nat_gap (sort (map unat (allocated_bases d))) (unat range_start)"
    "unat (c + 10) = unat c + 10" "clear_of (unat c) (unat ` set (allocated_bases d))"
proof -
  have "below 65516 (sort (allocated_bases d))" using assms(1) by (simp add: below_def)
  from port_gap_unat [OF this assms(2)]
  show *: "unat c = nat_gap (sort (map unat (allocated_bases d))) (unat range_start)"
    and "unat (c + 10) = unat c + 10"
    by (simp_all add: c_def sort_unat unat_word_ariths)
  show "clear_of (unat c) (unat ` set (allocated_bases d))"
    unfolding * using nat_gap_clear [of "sort (map unat (allocated_bases d))"] by simp
qed

lemma clear_not_member: "clear_of (unat c) (unat ` set us) \<Longrightarrow> c \<notin> set us"
  by (auto simp: clear_of_def)

text \<open>
  The allocation of a port block is first fit and complete: below the top of the port space it
  succeeds exactly when the range holds a block of ten ports that overlaps no allocated block, it
  returns the lowest such block, and the new row, owned by nobody, is all that changes.
\<close>

lemma allocation_first_fit:
  assumes "below 65516 (allocated_bases d)" and "unat range_start < 65526"
  shows "(is_ok (allocate_port_block range_start range_end d) \<longleftrightarrow>
      (\<exists>c. free_block range_start range_end d c)) \<and>
    (\<forall>base d'. allocate_port_block range_start range_end d = Inr (base, d') \<longrightarrow>
      free_block range_start range_end d (unat base) \<and>
      (\<forall>c. free_block range_start range_end d c \<longrightarrow> unat base \<le> c) \<and>
      d' = d\<lparr>port_allocations := port_allocations d @ [\<lparr>pa_instance = None, pa_base = base\<rparr>]\<rparr>)"
proof -
  define c where "c = port_gap 10 (sort (allocated_bases d)) range_start"
  note c = allocate_unfold [OF assms, folded c_def]
  have lo: "unat range_start \<le> unat c" using nat_gap_ge c(1) by simp
  have least: "unat c \<le> x" if "free_block range_start range_end d x" for x
    unfolding c(1) by (rule nat_gap_least) (use that in \<open>auto simp: free_block_def\<close>)
  have free: "free_block range_start range_end d (unat c) \<longleftrightarrow> \<not> c + 10 > range_end"
    using lo c(2,3) by (auto simp: free_block_def word_less_nat_alt)
  have "allocate_port_block range_start range_end d =
      (if c + 10 > range_end then Inl No_free_port
       else Inr (c, d\<lparr>port_allocations := port_allocations d @ [\<lparr>pa_instance = None, pa_base = c\<rparr>]\<rparr>))"
    using clear_not_member [OF c(3)]
    by (simp add: allocate_port_block_def PORTS_PER_INSTANCE_def c_def Let_def)
  moreover have "(\<exists>x. free_block range_start range_end d x) \<longleftrightarrow> \<not> c + 10 > range_end"
  proof
    assume "\<exists>x. free_block range_start range_end d x"
    then obtain x where x: "free_block range_start range_end d x" ..
    with least [OF x] have "unat c + 10 \<le> unat range_end" by (simp add: free_block_def)
    then show "\<not> c + 10 > range_end" by (simp add: word_less_nat_alt c(2))
  qed (use free in blast)
  ultimately show ?thesis using free least by auto
qed

lemma allocation_first_fit_witness:
  "is_ok (allocate_port_block 8000 8030 (empty_db\<lparr>port_allocations :=
     [\<lparr>pa_instance = None, pa_base = 8020\<rparr>, \<lparr>pa_instance = None, pa_base = 8000\<rparr>]\<rparr>))"
proof -
  let ?d = "empty_db\<lparr>port_allocations :=
     [\<lparr>pa_instance = None, pa_base = 8020\<rparr>, \<lparr>pa_instance = None, pa_base = 8000\<rparr>]\<rparr>"
  have b: "below 65516 (allocated_bases ?d)" by (simp add: below_def allocated_bases_def)
  have "free_block 8000 8030 ?d 8010"
    by (simp add: free_block_def clear_of_def allocated_bases_def)
  then show ?thesis using allocation_first_fit [OF b, of 8000 8030] by auto
qed

end
