(* ===== verification/Env_Files.thy ===== *)
theory Env_Files
  imports Database
begin

text \<open>
  The files an instance is configured by (\<open>instance_manager.rs\<close>): the \<open>.env\<close> file rendered at
  provision time, the redirect allow-list in it and its later edits, and the environment file
  of the functions container. Trimming, splitting at white space and lower case are those of
  ASCII text.
\<close>

record node_config =
  nc_data_dir :: string
  nc_hostname :: string
  nc_public_host :: string
  nc_port_range_start :: u16
  nc_port_range_end :: u16
  nc_max_instances :: nat
  nc_warm_pool_size :: nat
  nc_available_cpu_cores :: nat
  nc_smtp_host :: string
  nc_smtp_port :: u16
  nc_smtp_user :: string
  nc_smtp_pass :: string
  nc_smtp_admin_email :: string
  nc_smtp_sender_name :: string

section \<open>Public addresses and the redirect allow-list\<close>

definition trim_dots_slashes :: "string \<Rightarrow> string" where
  "trim_dots_slashes s =
     (let p = (\<lambda>c. c = CHR ''.'' \<or> c = CHR ''/'') in rev (dropWhile p (rev (dropWhile p s))))"

definition public_base :: "node_config \<Rightarrow> string" where
  "public_base cfg = trim_dots_slashes (trim (nc_public_host cfg))"

definition show_u16 :: "u16 \<Rightarrow> string" where
  "show_u16 w = dec_digits (unat w)"

definition public_urls_for :: "node_config \<Rightarrow> string \<Rightarrow> u16 \<Rightarrow> string \<times> string" where
  "public_urls_for cfg inst port =
     (if public_base cfg \<noteq> '''' then
        let base = ''https://'' @ inst @ ''.'' @ public_base cfg @ ''/api'' in (base, base)
      else
        let base = ''http://'' @ nc_hostname cfg @ '':'' @ show_u16 port in (base, base))"

fun split_whitespace_from :: "string \<Rightarrow> string \<Rightarrow> string list" where
  "split_whitespace_from w [] = (if w = [] then [] else [w])"
| "split_whitespace_from w (c # s) =
     (if is_space c then (if w = [] then split_whitespace_from [] s else w # split_whitespace_from [] s)
      else split_whitespace_from (w @ [c]) s)"

definition split_whitespace :: "string \<Rightarrow> string list" where
  "split_whitespace = split_whitespace_from []"

definition http_scheme :: "string \<Rightarrow> bool" where
  "http_scheme u \<longleftrightarrow> starts_with ''http://'' (to_lower u) \<or> starts_with ''https://'' (to_lower u)"

text \<open>The checks on one URL, and its addition unless it is there already.\<close>

definition url_rejected :: "string \<Rightarrow> bool" where
  "url_rejected trimmed \<longleftrightarrow> trimmed = '''' \<or> CHR '','' \<in> set trimmed \<or>
     1 < length (split_whitespace trimmed) \<or> \<not> http_scheme trimmed"

definition add_url :: "string list \<Rightarrow> string \<Rightarrow> string list" where
  "add_url entries u =
     (let trimmed = trim u in
      if url_rejected trimmed \<or> trimmed \<in> set entries then entries else entries @ [trimmed])"

definition default_redirects :: "node_config \<Rightarrow> string \<Rightarrow> string list" where
  "default_redirects cfg inst =
     (if public_base cfg \<noteq> '''' then [''https://'' @ inst @ ''.'' @ public_base cfg @ ''/**''] else []) @
     [''https://ipfs.kraph.com/**'', ''http://localhost:**'', ''http://127.0.0.1:**'']"

definition compose_redirect_allow_list :: "node_config \<Rightarrow> string \<Rightarrow> string list option \<Rightarrow> string" where
  "compose_redirect_allow_list cfg inst extras = join '',''
     (foldl add_url (default_redirects cfg inst) (case extras of Some us \<Rightarrow> us | None \<Rightarrow> []))"

section \<open>The \<open>.env\<close> file\<close>

record env_params =
  ep_instance_id :: string
  ep_ports :: instance_ports
  ep_secrets :: instance_secrets
  ep_cpuset :: "string option"
  ep_autoconfirm :: bool
  ep_site_url :: string
  ep_api_external_url :: string
  ep_redirects :: string

definition allow_mark :: string where
  "allow_mark = ''GOTRUE_URI_ALLOW_LIST=''"

definition env_lines :: "node_config \<Rightarrow> env_params \<Rightarrow> string list" where
  "env_lines cfg p =
    (let ports = ep_ports p; sec = ep_secrets p; inst = ep_instance_id p in
     [''# Supaba instance '' @ inst @ '' '' @ [CHR 0xE2, CHR 0x80, CHR 0x94] @ '' auto-generated'',
      '''',
      ''# Ports'',
      ''KONG_HTTP_PORT='' @ show_u16 (kong_port ports),
      ''KONG_HTTPS_PORT='' @ show_u16 (kong_port ports + 100),
      ''POSTGRES_PORT=5432'',
      ''POSTGRES_EXTERNAL_PORT='' @ show_u16 (postgres_port ports + 100),
      ''PGRST_PORT='' @ show_u16 (kong_port ports + 200),
      ''GOTRUE_PORT='' @ show_u16 (gotrue_port ports),
      ''REALTIME_PORT='' @ show_u16 (realtime_port ports),
      ''STORAGE_PORT='' @ show_u16 (storage_port ports),
      ''STUDIO_PORT='' @ show_u16 (studio_port ports),
      ''ANALYTICS_PORT='' @ show_u16 (analytics_port ports),
      ''META_PORT='' @ show_u16 (meta_port ports),
      ''FUNCTIONS_PORT='' @ show_u16 (functions_port ports),
      '''',
      ''# Database'',
      ''POSTGRES_DB=postgres'',
      ''POSTGRES_HOST=db'',
      ''POSTGRES_PASSWORD='' @ postgres_password sec,
      '''',
      ''# Auth'',
      ''JWT_SECRET='' @ jwt_secret sec,
      ''ANON_KEY='' @ anon_key sec,
      ''SERVICE_ROLE_KEY='' @ service_role_key sec,
      ''GOTRUE_JWT_SECRET='' @ jwt_secret sec,
      ''GOTRUE_JWT_EXP=3600'',
      ''GOTRUE_JWT_DEFAULT_GROUP_NAME=authenticated'',
      ''GOTRUE_DISABLE_SIGNUP=false'',
      ''GOTRUE_MAILER_AUTOCONFIRM='' @ (if ep_autoconfirm p then ''true'' else ''false''),
      ''GOTRUE_SITE_URL='' @ ep_site_url p,
      ''GOTRUE_EXTERNAL_URL='' @ ep_api_external_url p @ ''/auth/v1'',
      ''# GOTRUE_URI_ALLOW_LIST controls where signInWithOtp / OAuth callbacks may'',
      ''# redirect to. Defaults cover the instance subdomain, ipfs.<public_host>,'',
      ''# and localhost; extras come from ProvisionRequest::redirect_urls.'',
      allow_mark @ ep_redirects p,
      '''',
      ''# Auth '' @ [CHR 0xC2, CHR 0xB7] @ '' SMTP relay (operator-shared; empty = autoconfirm-only fallback)'',
      ''GOTRUE_SMTP_HOST='' @ nc_smtp_host cfg,
      ''GOTRUE_SMTP_PORT='' @ show_u16 (nc_smtp_port cfg),
      ''GOTRUE_SMTP_USER='' @ nc_smtp_user cfg,
      ''GOTRUE_SMTP_PASS='' @ nc_smtp_pass cfg,
      ''GOTRUE_SMTP_ADMIN_EMAIL='' @ nc_smtp_admin_email cfg,
      ''GOTRUE_SMTP_SENDER_NAME='' @ nc_smtp_sender_name cfg,
      '''',
      ''# Dashboard'',
      ''DASHBOARD_USERNAME=supabase'',
      ''DASHBOARD_PASSWORD='' @ dashboard_password sec,
      '''',
      ''# Networking '' @ [CHR 0xE2, CHR 0x80, CHR 0x94] @ '' public URL is the gateway-proxied subdomain when configured;'',
      ''# legacy direct-to-node when SUPABA_PUBLIC_HOST is unset.'',
      ''SITE_URL='' @ ep_site_url p,
      ''API_EXTERNAL_URL='' @ ep_api_external_url p,
      ''SUPABASE_PUBLIC_URL='' @ ep_site_url p,
      ''SUPABASE_URL=http://kong:8000'',
      '''',
      ''# Realtime'',
      ''REALTIME_DB=postgresql://supabase_admin:'' @ postgres_password sec @ ''@db:5432/postgres'',
      '''',
      ''# Storage'',
      ''STORAGE_BACKEND=file'',
      ''FILE_SIZE_LIMIT=52428800'',
      '''',
      ''# Analytics'',
      ''LOGFLARE_API_KEY=supaba-logflare-'' @ inst,
      ''LOGFLARE_URL=http://analytics:4000'',
      '''',
      ''# Studio'',
      ''STUDIO_DEFAULT_ORGANIZATION=supaba'',
      ''STUDIO_DEFAULT_PROJECT=default'',
      '''',
      ''# Performance'',
      ''SHM_SIZE=256m'',
      ''COMPOSE_PROJECT_NAME=supaba-'' @ inst,
      '''',
      ''# CPU pinning'',
      ''CPUSET_CPUS='' @ (case ep_cpuset p of Some s \<Rightarrow> s | None \<Rightarrow> '''')])"

definition render_env_file :: "node_config \<Rightarrow> env_params \<Rightarrow> string" where
  "render_env_file cfg p = concat (map (\<lambda>l. l @ [CHR 0x0A]) (env_lines cfg p))"

section \<open>Appending redirect URLs\<close>

datatype redirect_error = Not_owned | Bad_scheme | Bad_site_url | No_env_file

definition validate_site_url :: "string option \<Rightarrow> redirect_error + string option" where
  "validate_site_url override = (case override of
     None \<Rightarrow> Inr None
   | Some u \<Rightarrow>
       let trimmed = trim u in
       if trimmed = '''' then Inr None
       else guard (http_scheme trimmed) Bad_scheme (
            guard (\<not> (CHR '','' \<in> set trimmed \<or> 1 < length (split_whitespace trimmed))) Bad_site_url (
            Inr (Some trimmed))))"

definition csv_entries :: "string \<Rightarrow> string list" where
  "csv_entries rest = filter (\<lambda>s. s \<noteq> '''') (map trim (split_on (CHR '','') rest))"

text \<open>The entries of the last allow-list line of the file.\<close>

definition existing_entries :: "string list \<Rightarrow> string list option" where
  "existing_entries ls = foldl (\<lambda>acc l. case strip_prefix allow_mark l of
     Some rest \<Rightarrow> Some (csv_entries rest) | None \<Rightarrow> acc) None ls"

fun set_key :: "string \<Rightarrow> string \<Rightarrow> string list \<Rightarrow> string list" where
  "set_key key v [] = [key @ ''='' @ v]"
| "set_key key v (l # ls) =
     (if starts_with (key @ ''='') l then (key @ ''='' @ v) # ls else l # set_key key v ls)"

definition site_keys :: "string list" where
  "site_keys = [''GOTRUE_SITE_URL'', ''GOTRUE_API_EXTERNAL_URL'', ''API_EXTERNAL_URL'', ''SITE_URL'',
     ''SUPABASE_PUBLIC_URL'']"

definition rebuild_env :: "string list \<Rightarrow> string list \<Rightarrow> string list \<times> string list" where
  "rebuild_env ls extras =
     (let found = (existing_entries ls \<noteq> None);
          lines_out = map (\<lambda>l. if strip_prefix allow_mark l \<noteq> None then '''' else l) ls;
          entries = foldl add_url (case existing_entries ls of Some es \<Rightarrow> es | None \<Rightarrow> []) extras;
          new_value = allow_mark @ join '','' entries;
          rebuilt = map (\<lambda>l. if l = '''' \<and> found then new_value else l) lines_out
      in (entries, if found then rebuilt else rebuilt @ [new_value]))"

text \<open>The new list and the new file, from the file of an instance the caller owns.\<close>

definition append_redirect_urls ::
  "string option \<Rightarrow> string list \<Rightarrow> string option \<Rightarrow> redirect_error + string \<times> string" where
  "append_redirect_urls body extras site_url =
     rbind (validate_site_url site_url) (\<lambda>site.
     rbind (ok_or No_env_file body) (\<lambda>b.
     let (entries, rebuilt) = rebuild_env (text_lines b) extras;
         final = (case site of None \<Rightarrow> rebuilt
           | Some s \<Rightarrow> foldl (\<lambda>ls key. set_key key s ls) rebuilt site_keys)
     in Inr (join '','' entries, join [CHR 0x0A] final)))"

section \<open>The environment of the functions container\<close>

definition escape_char :: "char \<Rightarrow> string" where
  "escape_char c =
     (if c = CHR 0x5C then [CHR 0x5C, CHR 0x5C]
      else if c = CHR 0x22 then [CHR 0x5C, CHR 0x22]
      else if c = CHR ''$'' then [CHR 0x5C, CHR ''$'']
      else if c = CHR 0x0A then [CHR 0x5C, CHR ''n'']
      else if c = CHR 0x0D then [CHR 0x5C, CHR ''r''] else [c])"

definition functions_env_line :: "string \<times> string \<Rightarrow> string" where
  "functions_env_line kv = fst kv @ ''='' @ [CHR 0x22] @ concat (map escape_char (snd kv)) @ [CHR 0x22]"

definition functions_env_file :: "(string \<times> string) list \<Rightarrow> string" where
  "functions_env_file entries = concat (map (\<lambda>l. l @ [CHR 0x0A])
     ([''# Supaba edge-function env '' @ [CHR 0xE2, CHR 0x80, CHR 0x94] @ '' auto-generated, do not edit by hand.'',
       ''# Managed by the node from the instance_env table.''] @ map functions_env_line entries))"

section \<open>The allow-list stays a list of acceptable URLs\<close>

lemma add_url_cases:
  "add_url es u = es \<or> (add_url es u = es @ [trim u] \<and> \<not> url_rejected (trim u) \<and> trim u \<notin> set es)"
  by (simp add: add_url_def Let_def)

lemma add_url_keeps: "set es \<subseteq> set (add_url es u)"
  by (auto simp: add_url_def Let_def)

lemma foldl_add_url_keeps: "set es \<subseteq> set (foldl add_url es us)"
  by (induction us arbitrary: es) (auto dest: subsetD [OF add_url_keeps])

lemma foldl_add_url:
  "\<exists>new. foldl add_url es us = es @ new \<and> distinct new \<and> set new \<inter> set es = {} \<and>
     (\<forall>e \<in> set new. \<not> url_rejected e)"
proof (induction us arbitrary: es)
  case (Cons u us)
  consider "add_url es u = es" | "add_url es u = es @ [trim u]" "\<not> url_rejected (trim u)" "trim u \<notin> set es"
    using add_url_cases by blast
  then show ?case
  proof cases
    case 1
    then show ?thesis using Cons.IH [of es] by simp
  next
    case 2
    obtain new where "foldl add_url (es @ [trim u]) us = (es @ [trim u]) @ new" "distinct new"
      "set new \<inter> set (es @ [trim u]) = {}" "\<forall>e \<in> set new. \<not> url_rejected e"
      using Cons.IH [of "es @ [trim u]"] by blast
    with 2 show ?thesis by (intro exI [of _ "trim u # new"]) auto
  qed
qed simp

lemma foldl_add_url_adds:
  "u \<in> set us \<Longrightarrow> \<not> url_rejected (trim u) \<Longrightarrow> trim u \<in> set (foldl add_url es us)"
proof (induction us arbitrary: es)
  case (Cons v us)
  show ?case
  proof (cases "u = v")
    case True
    then have "trim u \<in> set (add_url es v)" using Cons.prems by (auto simp: add_url_def Let_def)
    then show ?thesis using foldl_add_url_keeps by fastforce
  qed (use Cons in simp)
qed simp

text \<open>
  The redirect allow-list of a new instance, read back at its commas, is the defaults followed
  by new entries without repetition; every new entry is an http or https URL without commas, and
  every acceptable URL of the request is in it. Adding URLs later keeps the entries the file has
  and adds entries under the same rules.
\<close>

lemma redirect_lists_stay_safe:
  assumes "CHR '','' \<notin> set inst" and "CHR '','' \<notin> set (public_base cfg)"
  shows "(\<exists>new. split_on (CHR '','') (compose_redirect_allow_list cfg inst (Some extras)) =
        default_redirects cfg inst @ new \<and> distinct new \<and>
        (\<forall>e \<in> set new. http_scheme e \<and> CHR '','' \<notin> set e \<and> length (split_whitespace e) \<le> 1) \<and>
        (\<forall>u \<in> set extras. \<not> url_rejected (trim u) \<longrightarrow> trim u \<in> set (default_redirects cfg inst @ new))) \<and>
    (\<exists>new. fst (rebuild_env ls extras) = (case existing_entries ls of Some es \<Rightarrow> es | None \<Rightarrow> []) @ new \<and>
        distinct new \<and> (\<forall>e \<in> set new. http_scheme e \<and> CHR '','' \<notin> set e \<and> length (split_whitespace e) \<le> 1))"
proof -
  have ok: "\<not> url_rejected e \<Longrightarrow> http_scheme e \<and> CHR '','' \<notin> set e \<and> length (split_whitespace e) \<le> 1" for e
    by (auto simp: url_rejected_def)
  obtain new where new: "foldl add_url (default_redirects cfg inst) extras = default_redirects cfg inst @ new"
    "distinct new" "\<forall>e \<in> set new. \<not> url_rejected e"
    using foldl_add_url by blast
  have "\<forall>e \<in> set (default_redirects cfg inst @ new). CHR '','' \<notin> set e"
    using assms ok new(3) by (auto simp: default_redirects_def)
  moreover have "default_redirects cfg inst @ new \<noteq> []" by (simp add: default_redirects_def)
  ultimately have "split_on (CHR '','') (join '','' (default_redirects cfg inst @ new)) =
      default_redirects cfg inst @ new"
    by (intro split_on_join)
  then have split: "split_on (CHR '','') (compose_redirect_allow_list cfg inst (Some extras)) =
      default_redirects cfg inst @ new"
    by (simp add: compose_redirect_allow_list_def new(1))
  have all: "\<forall>u \<in> set extras. \<not> url_rejected (trim u) \<longrightarrow> trim u \<in> set (default_redirects cfg inst @ new)"
    using foldl_add_url_adds new(1) by metis
  obtain more where "foldl add_url (case existing_entries ls of Some es \<Rightarrow> es | None \<Rightarrow> []) extras =
      (case existing_entries ls of Some es \<Rightarrow> es | None \<Rightarrow> []) @ more" "distinct more"
    "\<forall>e \<in> set more. \<not> url_rejected e"
    using foldl_add_url by blast
  then have "\<exists>new. fst (rebuild_env ls extras) = (case existing_entries ls of Some es \<Rightarrow> es | None \<Rightarrow> []) @ new \<and>
      distinct new \<and> (\<forall>e \<in> set new. http_scheme e \<and> CHR '','' \<notin> set e \<and> length (split_whitespace e) \<le> 1)"
    using ok by (intro exI [of _ more]) (simp add: rebuild_env_def Let_def)
  with split new(2,3) all ok show ?thesis by blast
qed

definition demo_config :: node_config where
  "demo_config = \<lparr>nc_data_dir = ''/data'', nc_hostname = ''node'', nc_public_host = '' kraph.com/ '', nc_port_range_start = 8000,
     nc_port_range_end = 8030, nc_max_instances = 2, nc_warm_pool_size = 1, nc_available_cpu_cores = 4,
     nc_smtp_host = '''', nc_smtp_port = 587, nc_smtp_user = '''', nc_smtp_pass = '''',
     nc_smtp_admin_email = '''', nc_smtp_sender_name = ''Kraph''\<rparr>"

lemma demo_public_base: "public_base demo_config = ''kraph.com''"
  by (simp add: public_base_def demo_config_def trim_dots_slashes_def trim_def is_space_def)

lemma redirect_lists_stay_safe_witness:
  "''https://app.example'' \<in> set (split_on (CHR '','')
      (compose_redirect_allow_list demo_config ''i'' (Some [''javascript:x'', '' https://app.example''])))"
proof -
  have "trim '' https://app.example'' = ''https://app.example''"
    by (simp add: trim_def is_space_def)
  moreover have "\<not> url_rejected ''https://app.example''" by code_simp
  ultimately show ?thesis
    using redirect_lists_stay_safe [of "''i''" demo_config "[''javascript:x'', '' https://app.example'']" "[]"]
    by (auto simp: demo_public_base)
qed

section \<open>An edit of the file multiplies the allow-list line\<close>

definition is_allow_line :: "string \<Rightarrow> bool" where
  "is_allow_line l \<longleftrightarrow> strip_prefix allow_mark l \<noteq> None"

lemma existing_entries_found: "existing_entries ls \<noteq> None \<longleftrightarrow> list_ex is_allow_line ls"
proof -
  have "foldl (\<lambda>acc l. case strip_prefix allow_mark l of
     Some rest \<Rightarrow> Some (csv_entries rest) | None \<Rightarrow> acc) a ls \<noteq> None \<longleftrightarrow> a \<noteq> None \<or> list_ex is_allow_line ls" for a
    by (induction ls arbitrary: a) (auto simp: is_allow_line_def split: option.splits)
  then show ?thesis by (simp add: existing_entries_def)
qed

lemma is_allow_value: "is_allow_line (allow_mark @ v)"
  by (simp add: is_allow_line_def strip_prefix_iff [THEN iffD2])

lemma not_allow_blank: "\<not> is_allow_line ''''"
  by (simp add: is_allow_line_def allow_mark_def)

lemma rebuild_lines:
  assumes "list_ex is_allow_line ls"
    and v_def: "v = allow_mark @ join '','' (fst (rebuild_env ls extras))"
  shows "snd (rebuild_env ls extras) = map (\<lambda>l. if is_allow_line l \<or> l = '''' then v else l) ls"
  using assms(1) existing_entries_found [of ls]
  by (auto simp: rebuild_env_def Let_def v_def is_allow_line_def)

lemma count_allow_lines:
  assumes "list_ex is_allow_line ls"
  shows "length (filter is_allow_line (snd (rebuild_env ls extras))) =
    length (filter (\<lambda>l. is_allow_line l \<or> l = '''') ls)"
proof -
  have "length (filter is_allow_line (map (\<lambda>l. if is_allow_line l \<or> l = '''' then v else l) ls)) =
      length (filter (\<lambda>l. is_allow_line l \<or> l = '''') ls)" if "is_allow_line v" for v ls
    using that by (induction ls) auto
  then show ?thesis unfolding rebuild_lines [OF assms refl] using is_allow_value by blast
qed

lemma split_on_lines:
  "\<forall>l \<in> set ls. d \<notin> set l \<Longrightarrow> split_on d (concat (map (\<lambda>l. l @ [d]) ls)) = ls @ [[]]"
  by (induction ls) (auto simp: split_on_append)

lemma text_lines_concat:
  assumes "\<forall>l \<in> set ls. CHR 0x0A \<notin> set l" and "\<forall>l \<in> set ls. CHR 0x0D \<notin> set l"
  shows "text_lines (concat (map (\<lambda>l. l @ [CHR 0x0A]) ls)) = ls"
proof -
  have "strip_cr l = l" if "l \<in> set ls" for l
    using that assms(2) by (auto simp: strip_cr_def strip_suffix_iff split: option.splits)
  then have "map strip_cr ls = ls" by (simp add: map_idI)
  then show ?thesis by (simp add: text_lines_def Let_def split_on_lines [OF assms(1)])
qed

definition one_line :: "string \<Rightarrow> bool" where
  "one_line s \<longleftrightarrow> CHR 0x0A \<notin> set s \<and> CHR 0x0D \<notin> set s"

definition env_clean :: "node_config \<Rightarrow> env_params \<Rightarrow> bool" where
  "env_clean cfg p \<longleftrightarrow> list_all one_line
     [ep_instance_id p, postgres_password (ep_secrets p), jwt_secret (ep_secrets p),
      anon_key (ep_secrets p), service_role_key (ep_secrets p), dashboard_password (ep_secrets p),
      ep_site_url p, ep_api_external_url p, ep_redirects p,
      (case ep_cpuset p of Some s \<Rightarrow> s | None \<Rightarrow> ''''),
      nc_smtp_host cfg, nc_smtp_user cfg, nc_smtp_pass cfg, nc_smtp_admin_email cfg, nc_smtp_sender_name cfg]"

lemma one_line_simps:
  "one_line []" "one_line (c # s) \<longleftrightarrow> c \<noteq> CHR 0x0A \<and> c \<noteq> CHR 0x0D \<and> one_line s"
  "one_line (s @ t) \<longleftrightarrow> one_line s \<and> one_line t"
  by (auto simp: one_line_def)

lemma one_line_u16: "one_line (show_u16 w)"
  using dec_digits_digits [of "unat w"]
  by (auto simp: one_line_def show_u16_def list_all_iff is_ascii_digit_def)

lemma env_lines_one_line: "env_clean cfg p \<Longrightarrow> \<forall>l \<in> set (env_lines cfg p). one_line l"
  by (simp add: env_clean_def env_lines_def Let_def one_line_simps one_line_u16 allow_mark_def
      split: option.splits)

lemma text_lines_rendered:
  "env_clean cfg p \<Longrightarrow> text_lines (render_env_file cfg p) = env_lines cfg p"
  unfolding render_env_file_def
  by (rule text_lines_concat) (auto dest!: env_lines_one_line simp: one_line_def)

lemma env_lines_counts:
  "length (filter is_allow_line (env_lines cfg p)) = 1"
  "length (filter (\<lambda>l. is_allow_line l \<or> l = '''') (env_lines cfg p)) = 13"
  by (simp_all add: env_lines_def Let_def is_allow_line_def allow_mark_def)

text \<open>
  The file rendered at provision time has one allow-list line; after redirect URLs are appended
  (no site address given) it has thirteen: every blank line of the file has become a copy.
  All other lines are kept.
\<close>

lemma append_multiplies_allow_line:
  assumes "env_clean cfg p"
  shows "length (filter is_allow_line (text_lines (render_env_file cfg p))) = 1 \<and>
    (\<exists>entries ls. append_redirect_urls (Some (render_env_file cfg p)) extras None =
        Inr (join '','' entries, join [CHR 0x0A] ls) \<and>
      length (filter is_allow_line ls) = 13 \<and>
      filter (\<lambda>l. \<not> is_allow_line l) ls =
        filter (\<lambda>l. \<not> is_allow_line l \<and> l \<noteq> '''') (env_lines cfg p))"
proof -
  let ?ls = "env_lines cfg p"
  have found: "list_ex is_allow_line ?ls"
    using env_lines_counts(1) [of cfg p] by (metis filter_False length_0_conv list_ex_iff zero_neq_one)
  define v where "v = allow_mark @ join '','' (fst (rebuild_env ?ls extras))"
  have v: "is_allow_line v" by (simp add: v_def is_allow_value)
  have "filter (\<lambda>l. \<not> is_allow_line l) (map (\<lambda>l. if is_allow_line l \<or> l = '''' then v else l) ls) =
      filter (\<lambda>l. \<not> is_allow_line l \<and> l \<noteq> '''') ls" for ls
    using v by (induction ls) auto
  then have "filter (\<lambda>l. \<not> is_allow_line l) (snd (rebuild_env ?ls extras)) =
      filter (\<lambda>l. \<not> is_allow_line l \<and> l \<noteq> '''') ?ls"
    unfolding rebuild_lines [OF found v_def] .
  moreover have "append_redirect_urls (Some (render_env_file cfg p)) extras None =
      Inr (join '','' (fst (rebuild_env ?ls extras)), join [CHR 0x0A] (snd (rebuild_env ?ls extras)))"
    by (simp add: append_redirect_urls_def validate_site_url_def text_lines_rendered [OF assms]
        case_prod_beta)
  ultimately show ?thesis
    using count_allow_lines [OF found, of extras] env_lines_counts [of cfg p]
    unfolding text_lines_rendered [OF assms] by auto
qed

definition demo_ports :: instance_ports where
  "demo_ports = \<lparr>kong_port = 8000, postgres_port = 8001, gotrue_port = 8002, realtime_port = 8003,
     storage_port = 8004, studio_port = 8005, analytics_port = 8006, meta_port = 8007,
     functions_port = 8008\<rparr>"

definition demo_secrets :: instance_secrets where
  "demo_secrets = \<lparr>anon_key = ''a'', service_role_key = ''s'', jwt_secret = ''j'', postgres_password = ''p'',
     dashboard_password = ''d'', wal_encryption_key = ''''\<rparr>"

definition demo_env_params :: env_params where
  "demo_env_params = \<lparr>ep_instance_id = ''i'', ep_ports = demo_ports, ep_secrets = demo_secrets,
     ep_cpuset = Some ''0,1'', ep_autoconfirm = True, ep_site_url = ''https://i.kraph.com/api'',
     ep_api_external_url = ''https://i.kraph.com/api'', ep_redirects = ''http://localhost:**''\<rparr>"

lemma append_multiplies_allow_line_witness:
  "\<exists>entries ls. append_redirect_urls (Some (render_env_file demo_config demo_env_params)) [''https://x''] None =
     Inr (join '','' entries, join [CHR 0x0A] ls) \<and> length (filter is_allow_line ls) = 13"
proof -
  have "env_clean demo_config demo_env_params"
    by (simp add: env_clean_def demo_config_def demo_env_params_def demo_secrets_def one_line_def)
  from append_multiplies_allow_line [OF this, of "[''https://x'']"] show ?thesis by auto
qed

section \<open>The functions environment cannot be broken out of\<close>

text \<open>Reading a double-quoted value back.\<close>

fun unescape :: "string \<Rightarrow> string option" where
  "unescape [] = Some []"
| "unescape [c] = (if c = CHR 0x5C \<or> c = CHR 0x22 then None else Some [c])"
| "unescape (c # d # s) =
     (if c = CHR 0x5C then map_option ((#)
          (if d = CHR ''n'' then CHR 0x0A else if d = CHR ''r'' then CHR 0x0D else d)) (unescape s)
      else if c = CHR 0x22 then None else map_option ((#) c) (unescape (d # s)))"

lemma unescape_plain:
  "c \<noteq> CHR 0x5C \<Longrightarrow> c \<noteq> CHR 0x22 \<Longrightarrow> unescape (c # s) = map_option ((#) c) (unescape s)"
  by (cases s) auto

lemma unescape_escape: "unescape (concat (map escape_char v)) = Some v"
  by (induction v) (auto simp: escape_char_def unescape_plain)

lemma escape_one_line: "one_line (concat (map escape_char v))"
  by (induction v) (auto simp: escape_char_def one_line_simps)

lemma functions_env_lines:
  assumes "\<forall>(k, v) \<in> set entries. one_line k"
  shows "drop 2 (text_lines (functions_env_file entries)) = map functions_env_line entries"
proof -
  have "one_line (functions_env_line kv)" if "kv \<in> set entries" for kv
    using assms that by (auto simp: functions_env_line_def one_line_simps escape_one_line)
  then have "text_lines (functions_env_file entries) =
      [''# Supaba edge-function env '' @ [CHR 0xE2, CHR 0x80, CHR 0x94] @ '' auto-generated, do not edit by hand.'',
       ''# Managed by the node from the instance_env table.''] @ map functions_env_line entries"
    unfolding functions_env_file_def by (intro text_lines_concat) (auto simp: one_line_def)
  then show ?thesis by simp
qed

text \<open>
  The environment file of the functions container has two comment lines and then, in order,
  exactly one line per variable, whatever the values contain; and the value on each line reads
  back as the value stored. So no value can introduce another variable.
\<close>

lemma functions_env_roundtrip:
  assumes "\<forall>(k, v) \<in> set entries. one_line k"
  shows "drop 2 (text_lines (functions_env_file entries)) = map functions_env_line entries \<and>
    (\<forall>(k, v) \<in> set entries. \<exists>q. functions_env_line (k, v) = k @ ''='' @ [CHR 0x22] @ q @ [CHR 0x22] \<and>
       unescape q = Some v)"
  using functions_env_lines [OF assms]
  by (auto simp: functions_env_line_def unescape_escape intro!: exI [where x = "concat (map escape_char _)"])

lemma functions_env_roundtrip_witness:
  "length (text_lines (functions_env_file [(''KEY'', ''a'' @ [CHR 0x0A] @ ''EVIL=1'')])) = 3"
proof -
  have "drop 2 (text_lines (functions_env_file [(''KEY'', ''a'' @ [CHR 0x0A] @ ''EVIL=1'')])) =
      map functions_env_line [(''KEY'', ''a'' @ [CHR 0x0A] @ ''EVIL=1'')]"
    using functions_env_roundtrip [of "[(''KEY'', ''a'' @ [CHR 0x0A] @ ''EVIL=1'')]"]
    by (simp add: one_line_def)
  then have "length (drop 2 (text_lines (functions_env_file [(''KEY'', ''a'' @ [CHR 0x0A] @ ''EVIL=1'')]))) = 1"
    by simp
  then show ?thesis by simp
qed

end
