(* ===== verification/Instance_Manager.thy ===== *)
theory Instance_Manager
  imports Env_Files Kraph_Crypto
begin

text \<open>
  The instance manager (\<open>instance_manager.rs\<close>) and the warm pool (\<open>warm_pool.rs\<close>): the handlers
  as functions on the state of a node, with the outcomes of Docker and of the file system as
  arguments. A handler returns its result or error together with the state it leaves, since
  an error does not undo what was done before it.
\<close>

section \<open>State\<close>

record warm_instance =
  wi_project :: string
  wi_dir :: string
  wi_base :: u16
  wi_created :: int

text \<open>The database, the cores in use, the warm pool, and the \<open>.env\<close> file per instance directory.\<close>

record node =
  ndb :: db
  allocated_cores :: "nat set"
  warm_pool :: "warm_instance list"
  env_files :: "string \<Rightarrow> string option"

datatype node_error = At_capacity nat nat | Db_failed db_error | Files_failed | Docker_failed
  | Instance_not_found | Instance_destroyed | Not_healthy

datatype exec = Spawn_error | Exit_failure | Exit_success

record provision_request =
  pr_wallet :: string
  pr_name :: "string option"
  pr_autoconfirm :: "bool option"
  pr_redirects :: "string list option"

record provision_result =
  po_id :: string
  po_url :: string
  po_studio_url :: string
  po_anon_key :: string
  po_service_role_key :: string
  po_postgres :: string
  po_status :: string
  po_created_at :: int

section \<open>Identifiers, keys and cores\<close>

definition DNS_SAFE_ID_ALPHABET :: string where
  "DNS_SAFE_ID_ALPHABET = ''abcdefghijklmnopqrstuvwxyz0123456789''"

definition dns_safe_id :: "string \<Rightarrow> bool" where
  "dns_safe_id s \<longleftrightarrow> length s = 12 \<and> set s \<subseteq> set DNS_SAFE_ID_ALPHABET"

definition PASSWORD_CHARSET :: string where
  "PASSWORD_CHARSET = ''abcdefghijklmnopqrstuvwxyzABCDEFGHIJKLMNOPQRSTUVWXYZ0123456789''"

definition generate_password :: "nat list \<Rightarrow> string" where
  "generate_password idx = map (\<lambda>i. PASSWORD_CHARSET ! (i mod length PASSWORD_CHARSET)) idx"

text \<open>\<open>jwt_json\<close> is the JSON text of the four claims.\<close>

definition mint_supabase_jwt ::
  "crypto \<Rightarrow> (string \<Rightarrow> int \<Rightarrow> int \<Rightarrow> string) \<Rightarrow> int \<Rightarrow> string \<Rightarrow> string \<Rightarrow> string" where
  "mint_supabase_jwt C jwt_json now secret role =
     (let exp = now + 10 * 365 * 24 * 3600;
          header = b64url_encode C
            ([CHR 0x7B, CHR 0x22] @ ''alg'' @ [CHR 0x22] @ '':'' @ [CHR 0x22] @ ''HS256'' @ [CHR 0x22] @ '','' @
             [CHR 0x22] @ ''typ'' @ [CHR 0x22] @ '':'' @ [CHR 0x22] @ ''JWT'' @ [CHR 0x22, CHR 0x7D]);
          payload = b64url_encode C (jwt_json role now exp);
          signing_input = header @ ''.'' @ payload
      in signing_input @ ''.'' @ b64url_encode C (hmac_sha256 C secret signing_input))"

record key_random =
  kr_secret_bytes :: string
  kr_postgres_idx :: "nat list"
  kr_dashboard_idx :: "nat list"
  kr_wal_bytes :: string

definition generate_supabase_keys ::
  "crypto \<Rightarrow> (string \<Rightarrow> int \<Rightarrow> int \<Rightarrow> string) \<Rightarrow> int \<Rightarrow> key_random \<Rightarrow> instance_secrets" where
  "generate_supabase_keys C jwt_json now rnd =
     (let secret = hex_encode C (kr_secret_bytes rnd) in
      \<lparr>anon_key = mint_supabase_jwt C jwt_json now secret ''anon'',
       service_role_key = mint_supabase_jwt C jwt_json now secret ''service_role'',
       jwt_secret = secret,
       postgres_password = generate_password (kr_postgres_idx rnd),
       dashboard_password = generate_password (kr_dashboard_idx rnd),
       wal_encryption_key = hex_encode C (kr_wal_bytes rnd)\<rparr>)"

text \<open>The first even core that is free together with its successor.\<close>

definition allocate_cpu_set :: "nat \<Rightarrow> nat set \<Rightarrow> string option \<times> nat set" where
  "allocate_cpu_set ncores cores =
     (case find (\<lambda>s. s \<notin> cores \<and> s + 1 < ncores \<and> s + 1 \<notin> cores) (filter even [0..<ncores]) of
        Some s \<Rightarrow> (Some (dec_digits s @ '','' @ dec_digits (s + 1)), insert s (insert (s + 1) cores))
      | None \<Rightarrow> (None, cores))"

definition release_cpu_set :: "string \<Rightarrow> nat set \<Rightarrow> nat set" where
  "release_cpu_set cpuset cores =
     foldl (\<lambda>cs part. case parse_nat (trim part) of Some n \<Rightarrow> cs - {n} | None \<Rightarrow> cs) cores
       (split_on (CHR '','') cpuset)"

section \<open>Provisioning, first phase\<close>

definition block_ports :: "u16 \<Rightarrow> instance_ports" where
  "block_ports base = \<lparr>kong_port = base, postgres_port = base + 1, gotrue_port = base + 2,
     realtime_port = base + 3, storage_port = base + 4, studio_port = base + 5,
     analytics_port = base + 6, meta_port = base + 7, functions_port = base + 8\<rparr>"

definition check_capacity :: "node_config \<Rightarrow> node \<Rightarrow> node_error option" where
  "check_capacity cfg n =
     (let running = running_instance_count (ndb n) in
      if nc_max_instances cfg \<le> running then Some (At_capacity running (nc_max_instances cfg)) else None)"

definition env_params_for ::
  "node_config \<Rightarrow> string \<Rightarrow> provision_request \<Rightarrow> u16 \<Rightarrow> string option \<Rightarrow> instance_secrets \<Rightarrow> env_params" where
  "env_params_for cfg inst req base cpuset sec =
     (let urls = public_urls_for cfg inst base in
      \<lparr>ep_instance_id = inst, ep_ports = block_ports base, ep_secrets = sec, ep_cpuset = cpuset,
       ep_autoconfirm = coalesce (pr_autoconfirm req) True, ep_site_url = fst urls,
       ep_api_external_url = snd urls,
       ep_redirects = compose_redirect_allow_list cfg inst (pr_redirects req)\<rparr>)"

definition instance_dir :: "node_config \<Rightarrow> string \<Rightarrow> string" where
  "instance_dir cfg inst = nc_data_dir cfg @ ''/instances/'' @ inst"

definition http_url :: "node_config \<Rightarrow> u16 \<Rightarrow> string" where
  "http_url cfg port = ''http://'' @ nc_hostname cfg @ '':'' @ show_u16 port"

definition new_instance ::
  "node_config \<Rightarrow> int \<Rightarrow> string \<Rightarrow> provision_request \<Rightarrow> u16 \<Rightarrow> string option \<Rightarrow> instance_secrets \<Rightarrow>
   string \<Rightarrow> instance_row" where
  "new_instance cfg now inst req base cpuset sec status =
     \<lparr>in_id = inst, in_wallet = pr_wallet req, in_name = pr_name req, in_status = status,
      in_ports = block_ports base, in_secrets = sec, in_url = http_url cfg base,
      in_studio_url = http_url cfg (base + 5), in_project = ''supaba-'' @ inst,
      in_dir = instance_dir cfg inst, in_cpuset = cpuset, in_created_at = now, in_expires_at = None,
      in_destroyed_at = None, in_lifecycle = ''running'', in_last_seen = None, in_pinned_until = None,
      in_nextjs_port = None, in_nextjs_status = None, in_nextjs_deployed_at = None\<rparr>"

definition result_of :: "node_config \<Rightarrow> instance_row \<Rightarrow> provision_result" where
  "result_of cfg i = \<lparr>po_id = in_id i, po_url = in_url i, po_studio_url = in_studio_url i,
     po_anon_key = anon_key (in_secrets i), po_service_role_key = service_role_key (in_secrets i),
     po_postgres = ''postgresql://postgres:'' @ postgres_password (in_secrets i) @ ''@'' @ nc_hostname cfg @
       '':'' @ show_u16 (postgres_port (in_ports i)) @ ''/postgres'',
     po_status = in_status i, po_created_at = in_created_at i\<rparr>"

text \<open>The parts of the handler between which other requests can run.\<close>

definition reserve :: "node_config \<Rightarrow> node \<Rightarrow> (node_error + u16 \<times> string option) \<times> node" where
  "reserve cfg n =
     (case allocate_port_block (nc_port_range_start cfg) (nc_port_range_end cfg) (ndb n) of
        Inl e \<Rightarrow> (Inl (Db_failed e), n)
      | Inr (base, d) \<Rightarrow>
          let (cpuset, cores) = allocate_cpu_set (nc_available_cpu_cores cfg) (allocated_cores n) in
          (Inr (base, cpuset), n\<lparr>ndb := d, allocated_cores := cores\<rparr>))"

definition write_env :: "string \<Rightarrow> string \<Rightarrow> node \<Rightarrow> node" where
  "write_env dir content n = n\<lparr>env_files := (env_files n)(dir \<mapsto> content)\<rparr>"

definition on_db :: "(db \<Rightarrow> db_error + db) \<Rightarrow> node \<Rightarrow> (node_error + unit) \<times> node" where
  "on_db f n = (case f (ndb n) of Inl e \<Rightarrow> (Inl (Db_failed e), n) | Inr d \<Rightarrow> (Inr (), n\<lparr>ndb := d\<rparr>))"

definition prepare_provision ::
  "node_config \<Rightarrow> int \<Rightarrow> string \<Rightarrow> provision_request \<Rightarrow> instance_secrets \<Rightarrow> bool \<Rightarrow> node \<Rightarrow>
   (node_error + provision_result) \<times> node" where
  "prepare_provision cfg now inst req sec files_ok n =
     (case check_capacity cfg n of Some e \<Rightarrow> (Inl e, n) | None \<Rightarrow>
      (case reserve cfg n of (Inl e, n1) \<Rightarrow> (Inl e, n1) | (Inr (base, cpuset), n1) \<Rightarrow>
        if \<not> files_ok then (Inl Files_failed, n1)
        else
          let n2 = write_env (instance_dir cfg inst)
                (render_env_file cfg (env_params_for cfg inst req base cpuset sec)) n1;
              i = new_instance cfg now inst req base cpuset sec ''provisioning''
          in case on_db (insert_instance i) n2 of (Inl e, n3) \<Rightarrow> (Inl e, n3) | (Inr _, n3) \<Rightarrow>
            (case on_db (bind_port_to_instance base inst) n3 of (Inl e, n4) \<Rightarrow> (Inl e, n4)
             | (Inr _, n4) \<Rightarrow> (Inr (result_of cfg i), n4))))"

section \<open>Provisioning, second phase\<close>

text \<open>Three attempts at \<open>compose up\<close>; only a failure to run Docker at all is an error.\<close>

fun compose_up :: "exec list \<Rightarrow> node_error option" where
  "compose_up [] = None"
| "compose_up (r # rs) = (case r of
     Spawn_error \<Rightarrow> Some Docker_failed | Exit_success \<Rightarrow> None | Exit_failure \<Rightarrow> compose_up rs)"

datatype container_state = Up | Exited | Dead | Other_state

text \<open>
  One observation per poll until the deadline: the listed containers, or \<open>None\<close> when listing
  failed; the list of observations ends at the deadline.
\<close>

fun wait_for_health :: "container_state list option list \<Rightarrow> bool" where
  "wait_for_health [] = False"
| "wait_for_health (ob # obs) = (case ob of
     Some (c # cs) \<Rightarrow>
       if list_all (\<lambda>x. x = Up) (c # cs) then True
       else if list_ex (\<lambda>x. x = Exited \<or> x = Dead) (c # cs) then False
       else wait_for_health obs
   | _ \<Rightarrow> wait_for_health obs)"

definition final_status :: "bool \<Rightarrow> string" where
  "final_status healthy = (if healthy then ''running'' else ''degraded'')"

definition finalize_provision ::
  "exec list \<Rightarrow> container_state list option list \<Rightarrow> string \<Rightarrow> node \<Rightarrow> (node_error + unit) \<times> node" where
  "finalize_provision ups obs inst n =
     (case get_instance_by_id inst (ndb n) of None \<Rightarrow> (Inl Instance_not_found, n) | Some _ \<Rightarrow>
      (case compose_up (take 3 ups) of Some e \<Rightarrow> (Inl e, n) | None \<Rightarrow>
        (Inr (), n\<lparr>ndb := update_instance_status_db inst (final_status (wait_for_health obs)) (ndb n)\<rparr>)))"

definition provision ::
  "node_config \<Rightarrow> int \<Rightarrow> string \<Rightarrow> provision_request \<Rightarrow> instance_secrets \<Rightarrow> bool \<Rightarrow> exec list \<Rightarrow>
   container_state list option list \<Rightarrow> node \<Rightarrow> (node_error + provision_result) \<times> node" where
  "provision cfg now inst req sec files_ok ups obs n =
     (case prepare_provision cfg now inst req sec files_ok n of
        (Inl e, n1) \<Rightarrow> (Inl e, n1)
      | (Inr r, n1) \<Rightarrow>
          let n2 = snd (finalize_provision ups obs (po_id r) n1) in
          (Inr (r\<lparr>po_status := (case get_instance_by_id (po_id r) (ndb n2) of
             Some i \<Rightarrow> in_status i | None \<Rightarrow> ''unknown'')\<rparr>), n2))"

section \<open>Provisioning from the warm pool\<close>

definition reassign_warm_instance :: "bool \<Rightarrow> exec \<Rightarrow> exec \<Rightarrow> node_error option" where
  "reassign_warm_instance env_written down up =
     (if \<not> env_written then Some Files_failed
      else if down = Spawn_error then Some Docker_failed
      else if up \<noteq> Exit_success then Some Docker_failed else None)"

definition remove_env :: "string \<Rightarrow> node \<Rightarrow> node" where
  "remove_env dir n = n\<lparr>env_files := (env_files n)(dir := None)\<rparr>"

definition provision_from_warm ::
  "node_config \<Rightarrow> int \<Rightarrow> string \<Rightarrow> provision_request \<Rightarrow> instance_secrets \<Rightarrow> bool \<Rightarrow> exec \<Rightarrow> exec \<Rightarrow>
   container_state list option list \<Rightarrow> bool \<Rightarrow> warm_instance \<Rightarrow> node \<Rightarrow>
   (node_error + provision_result) \<times> node" where
  "provision_from_warm cfg now inst req sec env_written down up obs moved warm n =
     (case check_capacity cfg n of Some e \<Rightarrow> (Inl e, n) | None \<Rightarrow>
      let base = wi_base warm;
          n1 = n\<lparr>ndb := allocate_port_block_at base (free_port_block (wi_project warm) (ndb n))\<rparr>
      in case on_db (bind_port_to_instance base inst) n1 of (Inl e, n2) \<Rightarrow> (Inl e, n2) | (Inr _, n2) \<Rightarrow>
        let (cpuset, cores) = allocate_cpu_set (nc_available_cpu_cores cfg) (allocated_cores n2);
            n3 = n2\<lparr>allocated_cores := cores\<rparr>;
            content = render_env_file cfg (env_params_for cfg inst req base cpuset sec);
            n4 = (if env_written then write_env (wi_dir warm) content n3 else n3)
        in case reassign_warm_instance env_written down up of Some e \<Rightarrow> (Inl e, n4) | None \<Rightarrow>
          if \<not> moved then (Inl Files_failed, n4)
          else
            let n5 = write_env (instance_dir cfg inst) content (remove_env (wi_dir warm) n4);
                i = new_instance cfg now inst req base cpuset sec (final_status (wait_for_health obs))
            in case on_db (insert_instance i) n5 of
                 (Inl e, n6) \<Rightarrow> (Inl e, n6) | (Inr _, n6) \<Rightarrow> (Inr (result_of cfg i), n6))"

section \<open>The warm pool\<close>

record warm_random =
  wr_id :: string
  wr_secret :: string
  wr_password :: string

definition warm_env_lines :: "node_config \<Rightarrow> warm_random \<Rightarrow> u16 \<Rightarrow> string list" where
  "warm_env_lines cfg w base =
    (let ports = block_ports base; self = ''http://'' @ nc_hostname cfg @ '':'' @ show_u16 base in
     [''# Supaba warm instance '' @ wr_id w @ '' '' @ [CHR 0xE2, CHR 0x80, CHR 0x94] @ '' placeholder'',
      ''INSTANCE_ID='' @ wr_id w,
      '''',
      ''# Ports'',
      ''KONG_HTTP_PORT='' @ show_u16 (kong_port ports),
      ''POSTGRES_PORT='' @ show_u16 (postgres_port ports),
      ''GOTRUE_PORT='' @ show_u16 (gotrue_port ports),
      ''REALTIME_PORT='' @ show_u16 (realtime_port ports),
      ''STORAGE_PORT='' @ show_u16 (storage_port ports),
      ''STUDIO_PORT='' @ show_u16 (studio_port ports),
      ''ANALYTICS_PORT='' @ show_u16 (analytics_port ports),
      ''META_PORT='' @ show_u16 (meta_port ports),
      ''FUNCTIONS_PORT='' @ show_u16 (functions_port ports),
      '''',
      ''# Auth (placeholder '' @ [CHR 0xE2, CHR 0x80, CHR 0x94] @ '' replaced on assignment)'',
      ''JWT_SECRET='' @ wr_secret w,
      ''ANON_KEY=placeholder-anon-key'',
      ''SERVICE_ROLE_KEY=placeholder-service-role-key'',
      '''',
      ''# Postgres'',
      ''POSTGRES_PASSWORD='' @ wr_password w,
      '''',
      ''# Dashboard'',
      ''DASHBOARD_USERNAME=supabase'',
      ''DASHBOARD_PASSWORD='' @ wr_password w,
      '''',
      ''# Networking'',
      ''SITE_URL='' @ self,
      ''API_EXTERNAL_URL='' @ self,
      ''SUPABASE_PUBLIC_URL='' @ self,
      ''STUDIO_DEFAULT_ORGANIZATION=supaba'',
      ''STUDIO_DEFAULT_PROJECT=default'',
      '''',
      ''# CPU pinning'',
      ''CPUSET_CPUS=''])"

definition warm_env_file :: "node_config \<Rightarrow> warm_random \<Rightarrow> u16 \<Rightarrow> string" where
  "warm_env_file cfg w base = concat (map (\<lambda>l. l @ [CHR 0x0A]) (warm_env_lines cfg w base))"

definition provision_warm_instance ::
  "node_config \<Rightarrow> int \<Rightarrow> warm_random \<Rightarrow> bool \<Rightarrow> exec \<Rightarrow> node \<Rightarrow> (node_error + warm_instance) \<times> node" where
  "provision_warm_instance cfg now w files_ok up n =
     (case allocate_port_block (nc_port_range_start cfg) (nc_port_range_end cfg) (ndb n) of
        Inl e \<Rightarrow> (Inl (Db_failed e), n)
      | Inr (base, d) \<Rightarrow>
          let project = ''supaba-warm-'' @ wr_id w;
              dir = nc_data_dir cfg @ ''/warm/'' @ wr_id w
          in case on_db (bind_port_to_instance base project) (n\<lparr>ndb := d\<rparr>) of
               (Inl e, n1) \<Rightarrow> (Inl e, n1)
             | (Inr _, n1) \<Rightarrow>
                 if \<not> files_ok then (Inl Files_failed, n1)
                 else
                   let n2 = write_env dir (warm_env_file cfg w base) n1 in
                   (case up of
                     Spawn_error \<Rightarrow> (Inl Docker_failed, n2)
                   | Exit_failure \<Rightarrow> (Inl Docker_failed, remove_env dir (n2\<lparr>ndb := free_port_block project (ndb n2)\<rparr>))
                   | Exit_success \<Rightarrow>
                       (Inr \<lparr>wi_project = project, wi_dir = dir, wi_base = base, wi_created = now\<rparr>, n2)))"

fun replenish_loop ::
  "node_config \<Rightarrow> int \<Rightarrow> (warm_random \<times> bool \<times> exec) list \<Rightarrow> node \<Rightarrow> node" where
  "replenish_loop cfg now [] n = n"
| "replenish_loop cfg now ((w, f, u) # rs) n =
     (case provision_warm_instance cfg now w f u n of
        (Inr wi, n1) \<Rightarrow> replenish_loop cfg now rs (n1\<lparr>warm_pool := warm_pool n1 @ [wi]\<rparr>)
      | (Inl _, n1) \<Rightarrow> n1)"

text \<open>A stale stack: \<open>gone w\<close> says whether its directory could be removed.\<close>

definition drop_stale :: "(warm_instance \<Rightarrow> bool) \<Rightarrow> node \<Rightarrow> warm_instance \<Rightarrow> node" where
  "drop_stale gone n w =
     (let n1 = (if gone w then remove_env (wi_dir w) n else n) in
      n1\<lparr>ndb := free_port_block (wi_project w) (ndb n1)\<rparr>)"

text \<open>Stale instances go first; then attempts until the target size or a failure.\<close>

definition maintain ::
  "node_config \<Rightarrow> int \<Rightarrow> (warm_instance \<Rightarrow> bool) \<Rightarrow> (warm_random \<times> bool \<times> exec) list \<Rightarrow> node \<Rightarrow> node" where
  "maintain cfg now gone attempts n =
     (if nc_warm_pool_size cfg = 0 then n
      else
        let stale = (\<lambda>w. wi_created w < now - 3600);
            n1 = (foldl (drop_stale gone) n (filter stale (warm_pool n)))\<lparr>
                   warm_pool := filter (\<lambda>w. \<not> stale w) (warm_pool n)\<rparr>
        in replenish_loop cfg now (take (nc_warm_pool_size cfg - length (warm_pool n1)) attempts) n1)"

definition take_warm :: "node \<Rightarrow> warm_instance option \<times> node" where
  "take_warm n = (case rev (warm_pool n) of
     [] \<Rightarrow> (None, n) | w # ws \<Rightarrow> (Some w, n\<lparr>warm_pool := rev ws\<rparr>))"

definition replenish ::
  "node_config \<Rightarrow> int \<Rightarrow> warm_random \<Rightarrow> bool \<Rightarrow> exec \<Rightarrow> node \<Rightarrow> (node_error + unit) \<times> node" where
  "replenish cfg now w files_ok up n =
     (case provision_warm_instance cfg now w files_ok up n of
        (Inl e, n1) \<Rightarrow> (Inl e, n1)
      | (Inr wi, n1) \<Rightarrow> (Inr (), n1\<lparr>warm_pool := warm_pool n1 @ [wi]\<rparr>))"

section \<open>Destroy, suspend, resume, look-ups\<close>

text \<open>The two halves of \<open>destroy\<close> around its database calls.\<close>

definition release_resources :: "instance_row \<Rightarrow> node \<Rightarrow> node" where
  "release_resources i n =
     n\<lparr>env_files := (env_files n)(in_dir i := None),
       allocated_cores := (case in_cpuset i of
         Some s \<Rightarrow> release_cpu_set s (allocated_cores n) | None \<Rightarrow> allocated_cores n),
       ndb := free_port_block (in_id i) (ndb n)\<rparr>"

definition mark_destroyed :: "int \<Rightarrow> string \<Rightarrow> node \<Rightarrow> node" where
  "mark_destroyed now inst n = n\<lparr>ndb := destroy_instance_db now inst (snd (delete_all_env inst (ndb n)))\<rparr>"

definition destroy :: "int \<Rightarrow> exec \<Rightarrow> string \<Rightarrow> string \<Rightarrow> node \<Rightarrow> (node_error + unit) \<times> node" where
  "destroy now down inst wallet n =
     (case get_instance inst wallet (ndb n) of
        None \<Rightarrow> (Inl Instance_not_found, n)
      | Some i \<Rightarrow> if down = Spawn_error then (Inl Docker_failed, n)
          else (Inr (), mark_destroyed now inst (release_resources i n)))"

definition suspend :: "exec \<Rightarrow> string \<Rightarrow> node \<Rightarrow> (node_error + unit) \<times> node" where
  "suspend stop inst n =
     (case get_instance_by_id inst (ndb n) of
        None \<Rightarrow> (Inl Instance_not_found, n)
      | Some i \<Rightarrow>
          if in_destroyed_at i \<noteq> None then (Inl Instance_destroyed, n)
          else if stop \<noteq> Exit_success then (Inl Docker_failed, n)
          else (Inr (), n\<lparr>ndb := set_lifecycle_state inst ''suspended'' (ndb n)\<rparr>))"

text \<open>\<open>connects\<close> are the connection attempts made before the deadline.\<close>

definition resume :: "int \<Rightarrow> exec \<Rightarrow> bool list \<Rightarrow> string \<Rightarrow> node \<Rightarrow> (node_error + unit) \<times> node" where
  "resume now start connects inst n =
     (case get_instance_by_id inst (ndb n) of
        None \<Rightarrow> (Inl Instance_not_found, n)
      | Some i \<Rightarrow>
          if in_destroyed_at i \<noteq> None then (Inl Instance_destroyed, n)
          else if in_lifecycle i = ''running'' then (Inr (), n)
          else
            let d1 = set_lifecycle_state inst ''starting'' (ndb n) in
            (case start of
               Spawn_error \<Rightarrow> (Inl Docker_failed, n\<lparr>ndb := d1\<rparr>)
             | Exit_failure \<Rightarrow> (Inl Docker_failed, n\<lparr>ndb := set_lifecycle_state inst ''suspended'' d1\<rparr>)
             | Exit_success \<Rightarrow>
                 if list_ex (\<lambda>ok. ok) connects
                 then (Inr (), n\<lparr>ndb := touch_instance now inst (set_lifecycle_state inst ''running'' d1)\<rparr>)
                 else (Inl Not_healthy, n\<lparr>ndb := d1\<rparr>)))"

definition manager_get_instance :: "string \<Rightarrow> string \<Rightarrow> node \<Rightarrow> instance_row option" where
  "manager_get_instance inst wallet n =
     (if wallet = '''' then get_instance_by_id inst (ndb n)
      else find (\<lambda>i. in_id i = inst) (list_instances wallet None (ndb n)))"

fun cleanup_loop :: "int \<Rightarrow> (string \<times> string) list \<Rightarrow> exec list \<Rightarrow> node \<Rightarrow> string list \<times> node" where
  "cleanup_loop now [] downs n = ([], n)"
| "cleanup_loop now ((inst, wallet) # rest) downs n =
     (let (r, n1) = destroy now (case downs of [] \<Rightarrow> Exit_success | x # _ \<Rightarrow> x) inst wallet n;
          (cleaned, n2) = cleanup_loop now rest (tl downs) n1
      in (if is_ok r then inst # cleaned else cleaned, n2))"

definition cleanup_expired :: "int \<Rightarrow> exec list \<Rightarrow> node \<Rightarrow> string list \<times> node" where
  "cleanup_expired now downs n = cleanup_loop now (expired_instance_ids now (ndb n)) downs n"

record node_stats =
  st_total :: nat
  st_running :: nat
  st_available :: nat
  st_ports :: nat

definition get_stats :: "node_config \<Rightarrow> node \<Rightarrow> node_stats" where
  "get_stats cfg n =
     (let running = running_instance_count (ndb n) in
      \<lparr>st_total = running, st_running = running, st_available = nc_max_instances cfg - running,
       st_ports = allocated_port_count (ndb n)\<rparr>)"

section \<open>Lemmas\<close>

lemma digits_clean: "c \<in> set (dec_digits n) \<Longrightarrow> 48 \<le> byte c \<and> byte c \<le> 57"
  using dec_digits_digits [of n] by (auto simp: list_all_iff is_ascii_digit_def)

lemma trim_digits: "trim (dec_digits n) = dec_digits n"
  by (rule trim_clean) (auto simp: is_space_def dest!: digits_clean)

lemma release_pair:
  "release_cpu_set (dec_digits a @ '','' @ dec_digits b) cores = cores - {a} - {b}"
proof -
  have "CHR '','' \<notin> set (dec_digits m)" for m using digits_clean [of "CHR '',''" m] by auto
  then have "split_on (CHR '','') (dec_digits a @ '','' @ dec_digits b) = [dec_digits a, dec_digits b]"
    by (simp add: split_on_append split_on_clean)
  then show ?thesis by (simp add: release_cpu_set_def trim_digits parse_show_nat)
qed

text \<open>A pair of cores that is handed out was free, lies in the machine, and is given back exactly.\<close>

lemma cpu_set_roundtrip:
  assumes "allocate_cpu_set ncores cores = (Some s, cores')"
  obtains a where "a + 1 < ncores" "even a" "a \<notin> cores" "a + 1 \<notin> cores"
    "cores' = insert a (insert (a + 1) cores)" "release_cpu_set s cores' = cores"
proof -
  from assms obtain a where a: "find (\<lambda>s. s \<notin> cores \<and> s + 1 < ncores \<and> s + 1 \<notin> cores)
      (filter even [0..<ncores]) = Some a" and s: "s = dec_digits a @ '','' @ dec_digits (a + 1)"
    and c: "cores' = insert a (insert (a + 1) cores)"
    by (auto simp: allocate_cpu_set_def split: option.splits)
  from a have p: "a \<notin> cores" "a + 1 < ncores" "a + 1 \<notin> cores" "even a"
    by (auto dest!: find_SomeD)
  moreover have "release_cpu_set s cores' = cores"
    unfolding s release_pair using p c by auto
  ultimately show thesis using that c by blast
qed

end
