(* ===== verification/Env_Vault.thy ===== *)
theory Env_Vault
  imports Database Kraph_Crypto "HOL-Library.Char_ord" "HOL-Library.List_Lexorder"
begin

text \<open>
  The environment variables of an instance in the database (\<open>db/mod.rs\<close>): every value is stored
  encrypted under the key of the instance, bound to its row by the associated data; older rows
  without the binding or in plain text are still read. A variable set by the user is protected
  against updates by the agent.
\<close>

definition ENV_NONCE_LEN :: nat where "ENV_NONCE_LEN = 12"

definition ENV_FORMAT_PREFIX_V1 :: string where "ENV_FORMAT_PREFIX_V1 = ''enc-v1:''"

definition ENV_FORMAT_PREFIX_V2 :: string where "ENV_FORMAT_PREFIX_V2 = ''enc-v2:''"

definition load_instance_dek :: "crypto \<Rightarrow> string \<Rightarrow> db \<Rightarrow> db_error + string option" where
  "load_instance_dek C inst d = (case find (\<lambda>i. in_id i = inst) (instances d) of
     None \<Rightarrow> Inr None
   | Some i \<Rightarrow>
       let key_hex = wal_encryption_key (in_secrets i) in
       if key_hex = [] then Inr None
       else rbind (ok_or Bad_dek (hex_decode C key_hex)) (\<lambda>key_bytes.
            guard (length key_bytes = 32) Bad_dek (Inr (Some key_bytes))))"

definition env_aad :: "string \<Rightarrow> string \<Rightarrow> string" where
  "env_aad inst key = inst @ ''|'' @ key"

definition encrypt_env_value ::
  "crypto \<Rightarrow> string \<Rightarrow> string \<Rightarrow> string \<Rightarrow> string \<Rightarrow> string \<Rightarrow> db_error + string" where
  "encrypt_env_value C nonce dek inst key plaintext =
     rbind (ok_or Encryption_failed (aead_encrypt C dek nonce (env_aad inst key) plaintext)) (\<lambda>ciphertext.
     Inr (ENV_FORMAT_PREFIX_V2 @ b64_encode C (nonce @ ciphertext)))"

text \<open>An envelope opened with the given associated data.\<close>

definition open_envelope :: "crypto \<Rightarrow> string option \<Rightarrow> string \<Rightarrow> string \<Rightarrow> db_error + string" where
  "open_envelope C dek aad payload =
     rbind (ok_or No_dek dek) (\<lambda>k.
     rbind (ok_or Bad_envelope (b64_decode C payload)) (\<lambda>envelope.
     guard (\<not> length envelope < ENV_NONCE_LEN + 16) Bad_envelope (
     rbind (ok_or Decryption_failed
       (aead_decrypt C k (take ENV_NONCE_LEN envelope) aad (drop ENV_NONCE_LEN envelope))) (\<lambda>plaintext.
     guard (utf8 plaintext) Not_utf8 (Inr plaintext)))))"

definition decrypt_env_value :: "crypto \<Rightarrow> string option \<Rightarrow> string \<Rightarrow> string \<Rightarrow> string \<Rightarrow> db_error + string" where
  "decrypt_env_value C dek inst key stored =
     (case strip_prefix ENV_FORMAT_PREFIX_V2 stored of
        Some payload \<Rightarrow> open_envelope C dek (env_aad inst key) payload
      | None \<Rightarrow>
          (case strip_prefix ENV_FORMAT_PREFIX_V1 stored of
             Some payload \<Rightarrow> open_envelope C dek [] payload
           | None \<Rightarrow> Inr stored))"

section \<open>Writing\<close>

definition env_slot :: "string \<Rightarrow> string \<Rightarrow> env_row \<Rightarrow> bool" where
  "env_slot inst key e \<longleftrightarrow> ev_instance e = inst \<and> ev_key e = key"

text \<open>\<open>ON CONFLICT DO UPDATE\<close> rewrites the row in place.\<close>

definition put_env :: "env_row \<Rightarrow> env_row list \<Rightarrow> env_row list" where
  "put_env r es =
     (let hit = env_slot (ev_instance r) (ev_key r) in
      if list_ex hit es then map (\<lambda>e. if hit e then r else e) es else es @ [r])"

definition upsert_env_with_protection ::
  "crypto \<Rightarrow> string \<Rightarrow> int \<Rightarrow> string \<Rightarrow> string \<Rightarrow> string \<Rightarrow> bool \<Rightarrow> db \<Rightarrow> db_error + db" where
  "upsert_env_with_protection C nonce now inst key val protected d =
     rbind (load_instance_dek C inst d) (\<lambda>dek.
     rbind (ok_or No_dek dek) (\<lambda>k.
     guard (case find (env_slot inst key) (instance_env d) of
        Some e \<Rightarrow> \<not> (ev_protected e \<and> \<not> protected) | None \<Rightarrow> True) Reserved_key (
     rbind (encrypt_env_value C nonce k inst key val) (\<lambda>stored.
     Inr (d\<lparr>instance_env := put_env \<lparr>ev_instance = inst, ev_key = key, ev_value = stored,
        ev_protected = protected, ev_updated_at = now\<rparr> (instance_env d)\<rparr>)))))"

definition upsert_env :: "crypto \<Rightarrow> string \<Rightarrow> int \<Rightarrow> string \<Rightarrow> string \<Rightarrow> string \<Rightarrow> db \<Rightarrow> db_error + db" where
  "upsert_env C nonce now inst key val = upsert_env_with_protection C nonce now inst key val False"

definition delete_env :: "string \<Rightarrow> string \<Rightarrow> db \<Rightarrow> bool \<times> db" where
  "delete_env inst key d =
     (list_ex (env_slot inst key) (instance_env d),
      d\<lparr>instance_env := filter (\<lambda>e. \<not> env_slot inst key e) (instance_env d)\<rparr>)"

section \<open>Reading\<close>

fun collect_ok :: "('a \<Rightarrow> 'e + 'b) \<Rightarrow> 'a list \<Rightarrow> 'e + 'b list" where
  "collect_ok f [] = Inr []"
| "collect_ok f (x # xs) = rbind (f x) (\<lambda>y. rbind (collect_ok f xs) (\<lambda>ys. Inr (y # ys)))"

definition env_rows :: "string \<Rightarrow> db \<Rightarrow> env_row list" where
  "env_rows inst d = sort_key ev_key (filter (\<lambda>e. ev_instance e = inst) (instance_env d))"

definition list_env :: "crypto \<Rightarrow> string \<Rightarrow> db \<Rightarrow> db_error + (string \<times> string) list" where
  "list_env C inst d = rbind (load_instance_dek C inst d) (\<lambda>dek.
     collect_ok (\<lambda>e. rbind (decrypt_env_value C dek inst (ev_key e) (ev_value e)) (\<lambda>v. Inr (ev_key e, v)))
       (env_rows inst d))"

definition list_env_full :: "crypto \<Rightarrow> string \<Rightarrow> db \<Rightarrow> db_error + (string \<times> string \<times> int) list" where
  "list_env_full C inst d = rbind (load_instance_dek C inst d) (\<lambda>dek.
     collect_ok (\<lambda>e. rbind (decrypt_env_value C dek inst (ev_key e) (ev_value e)) (\<lambda>v.
       Inr (ev_key e, v, ev_updated_at e))) (env_rows inst d))"

definition list_env_full_with_protection ::
  "crypto \<Rightarrow> string \<Rightarrow> db \<Rightarrow> db_error + (string \<times> string \<times> bool \<times> int) list" where
  "list_env_full_with_protection C inst d = rbind (load_instance_dek C inst d) (\<lambda>dek.
     collect_ok (\<lambda>e. rbind (decrypt_env_value C dek inst (ev_key e) (ev_value e)) (\<lambda>v.
       Inr (ev_key e, v, ev_protected e, ev_updated_at e))) (env_rows inst d))"

definition get_env_keys :: "string \<Rightarrow> db \<Rightarrow> string list" where
  "get_env_keys inst d = map ev_key (env_rows inst d)"

section \<open>Sealing\<close>

definition vault_laws :: "crypto \<Rightarrow> bool" where
  "vault_laws C \<longleftrightarrow> b64_law C \<and> aead_law C \<and> aead_binds C \<and>
     (\<forall>k n a p c. length k = 32 \<longrightarrow> aead_encrypt C k n a p = Some c \<longrightarrow> 16 \<le> length c)"

lemma sealed_opens:
  assumes "vault_laws C" and "length k = 32" and "length nonce = ENV_NONCE_LEN" and "utf8 v"
    and "encrypt_env_value C nonce k inst key v = Inr s"
  shows "decrypt_env_value C (Some k) inst key s = Inr v"
    "(inst', key') \<noteq> (inst, key) \<Longrightarrow> CHR ''|'' \<notin> set inst \<Longrightarrow> CHR ''|'' \<notin> set inst' \<Longrightarrow>
       decrypt_env_value C (Some k) inst' key' s = Inl Decryption_failed"
    "starts_with ENV_FORMAT_PREFIX_V2 s"
proof -
  from assms(5) obtain c where c: "aead_encrypt C k nonce (env_aad inst key) v = Some c"
    and s: "s = ENV_FORMAT_PREFIX_V2 @ b64_encode C (nonce @ c)"
    by (auto simp: encrypt_env_value_def ok_simps)
  have b64: "b64_decode C (b64_encode C x) = Some x" for x using assms(1) by (simp add: vault_laws_def b64_law_def)
  have size: "16 \<le> length c" and dec: "aead_decrypt C k nonce (env_aad inst key) c = Some v"
    using assms(1,2) c unfolding vault_laws_def aead_law_def by blast+
  have strip: "strip_prefix ENV_FORMAT_PREFIX_V2 s = Some (b64_encode C (nonce @ c))"
    by (simp add: s strip_prefix_iff)
  show "decrypt_env_value C (Some k) inst key s = Inr v"
    using assms(3,4) size dec by (simp add: decrypt_env_value_def strip open_envelope_def b64)
  show "starts_with ENV_FORMAT_PREFIX_V2 s" by (simp add: s)
  show "(inst', key') \<noteq> (inst, key) \<Longrightarrow> CHR ''|'' \<notin> set inst \<Longrightarrow> CHR ''|'' \<notin> set inst' \<Longrightarrow>
       decrypt_env_value C (Some k) inst' key' s = Inl Decryption_failed"
  proof -
    assume ne: "(inst', key') \<noteq> (inst, key)" and bar: "CHR ''|'' \<notin> set inst" "CHR ''|'' \<notin> set inst'"
    have "env_aad inst' key' \<noteq> env_aad inst key"
    proof
      assume "env_aad inst' key' = env_aad inst key"
      then have eq: "inst' @ CHR ''|'' # key' = inst @ CHR ''|'' # key" by (simp add: env_aad_def)
      have "takeWhile (\<lambda>c. c \<noteq> CHR ''|'') (x @ CHR ''|'' # y) = x" if "CHR ''|'' \<notin> set x" for x y
        using that by (subst takeWhile_append2) auto
      from this [OF bar(1)] this [OF bar(2)] eq have "inst' = inst" by metis
      with eq ne show False by simp
    qed
    then have "aead_decrypt C k nonce (env_aad inst' key') c = None"
      using assms(1) c unfolding vault_laws_def aead_binds_def by blast
    then show ?thesis
      using assms(3) size by (simp add: decrypt_env_value_def strip open_envelope_def b64)
  qed
qed


section \<open>What the store guarantees\<close>

text \<open>The primary key of the table: one row for an instance and a key.\<close>

definition env_keyed :: "db \<Rightarrow> bool" where
  "env_keyed d \<longleftrightarrow> distinct (map (\<lambda>e. (ev_instance e, ev_key e)) (instance_env d))"

lemma collect_ok_iff:
  "collect_ok f xs = Inr ys \<longleftrightarrow> list_all2 (\<lambda>x y. f x = Inr y) xs ys"
proof (induction xs arbitrary: ys)
  case (Cons x xs)
  show ?case by (cases ys) (auto simp: ok_simps Cons.IH)
qed auto

lemma list_all2_map_of:
  assumes "list_all2 (\<lambda>x (k, v). g x = k \<and> f x = Inr v) xs kvs" and "distinct (map g xs)"
  shows "map fst kvs = map g xs \<and> (map_of kvs k = Some v \<longleftrightarrow> (\<exists>x\<in>set xs. g x = k \<and> f x = Inr v))"
proof -
  have keys: "map fst kvs = map g xs"
    using assms(1) by (induction rule: list_all2_induct) auto
  have members: "(k, v) \<in> set kvs \<longleftrightarrow> (\<exists>x\<in>set xs. g x = k \<and> f x = Inr v)"
    using assms(1) by (induction rule: list_all2_induct) auto
  show ?thesis
    using keys members assms(2) by (metis map_of_eq_Some_iff)
qed

lemma list_all2_ok: "list_all2 (\<lambda>x (k, v). g x = k \<and> f x = Inr v) xs kvs \<Longrightarrow> x \<in> set xs \<Longrightarrow> is_ok (f x)"
  by (induction rule: list_all2_induct) auto

lemma set_env_rows: "set (env_rows inst d) = {e \<in> set (instance_env d). ev_instance e = inst}"
  by (simp add: env_rows_def)

lemma env_keyed_rows: "env_keyed d \<Longrightarrow> distinct (map ev_key (env_rows inst d))"
  unfolding env_keyed_def env_rows_def distinct_map
  by (auto simp: inj_on_def dest: distinct_filter)

lemma put_env_keys:
  "distinct (map (\<lambda>e. (ev_instance e, ev_key e)) es) \<Longrightarrow>
     distinct (map (\<lambda>e. (ev_instance e, ev_key e)) (put_env r es))"
proof -
  assume d: "distinct (map (\<lambda>e. (ev_instance e, ev_key e)) es)"
  have same: "map (\<lambda>e. (ev_instance e, ev_key e))
      (map (\<lambda>e. if env_slot (ev_instance r) (ev_key r) e then r else e) es) =
    map (\<lambda>e. (ev_instance e, ev_key e)) es"
    by (auto simp: env_slot_def)
  show ?thesis
  proof (cases "list_ex (env_slot (ev_instance r) (ev_key r)) es")
    case True
    then show ?thesis using d by (simp add: put_env_def same del: map_map)
  next
    case False
    then have "(ev_instance r, ev_key r) \<notin> (\<lambda>e. (ev_instance e, ev_key e)) ` set es"
      by (auto simp: list_ex_iff env_slot_def)
    then show ?thesis using False d by (simp add: put_env_def)
  qed
qed

lemma set_put_env:
  "set (put_env r es) = insert r {e \<in> set es. \<not> env_slot (ev_instance r) (ev_key r) e}"
  by (auto simp: put_env_def list_ex_iff Let_def env_slot_def)

lemma filter_put_env:
  "filter (\<lambda>e. \<not> env_slot (ev_instance r) (ev_key r) e) (put_env r es) =
     filter (\<lambda>e. \<not> env_slot (ev_instance r) (ev_key r) e) es"
proof -
  let ?hit = "env_slot (ev_instance r) (ev_key r)"
  have "?hit r" by (simp add: env_slot_def)
  then have "filter (\<lambda>e. \<not> ?hit e) (map (\<lambda>e. if ?hit e then r else e) es) = filter (\<lambda>e. \<not> ?hit e) es"
    by (induction es) auto
  with \<open>?hit r\<close> show ?thesis by (simp add: put_env_def Let_def)
qed

lemma list_env_iff:
  "list_env C inst d = Inr kvs \<longleftrightarrow>
     (\<exists>dek. load_instance_dek C inst d = Inr dek \<and>
        list_all2 (\<lambda>e (k, v). ev_key e = k \<and> decrypt_env_value C dek inst (ev_key e) (ev_value e) = Inr v)
          (env_rows inst d) kvs)"
proof -
  have step: "(\<lambda>e y. rbind (D e) (\<lambda>v. Inr (ev_key e, v)) = Inr y) = (\<lambda>e (k, v). ev_key e = k \<and> D e = Inr v)"
    for D :: "env_row \<Rightarrow> db_error + string"
    by (auto simp: ok_simps fun_eq_iff)
  show ?thesis
    by (simp only: list_env_def rbind_ok [of "load_instance_dek C inst d"] collect_ok_iff step)
qed

lemma collect_ok_total: "(\<And>x. x \<in> set xs \<Longrightarrow> is_ok (f x)) \<Longrightarrow> is_ok (collect_ok f xs)"
  by (induction xs) (auto simp: is_ok_iff ok_simps)

lemma list_env_total:
  assumes "load_instance_dek C inst d = Inr dek"
    and "\<And>e. e \<in> set (env_rows inst d) \<Longrightarrow> is_ok (decrypt_env_value C dek inst (ev_key e) (ev_value e))"
  shows "is_ok (list_env C inst d)"
proof -
  let ?f = "\<lambda>e. rbind (decrypt_env_value C dek inst (ev_key e) (ev_value e)) (\<lambda>v. Inr (ev_key e, v))"
  have "is_ok (?f e)" if "e \<in> set (env_rows inst d)" for e
    using assms(2) [OF that] by (auto simp: is_ok_iff)
  then have "is_ok (collect_ok ?f (env_rows inst d))" by (rule collect_ok_total)
  then show ?thesis using assms(1) by (simp add: list_env_def)
qed


lemma upsert_env_effect:
  assumes "upsert_env_with_protection C nonce now inst key val prot d = Inr d'"
  obtains k stored where "load_instance_dek C inst d = Inr (Some k)" and "length k = 32"
    and "encrypt_env_value C nonce k inst key val = Inr stored"
    and "d' = d\<lparr>instance_env := put_env \<lparr>ev_instance = inst, ev_key = key, ev_value = stored,
        ev_protected = prot, ev_updated_at = now\<rparr> (instance_env d)\<rparr>"
proof -
  have "length k = 32" if "load_instance_dek C inst d = Inr (Some k)" for k
    using that by (auto simp: load_instance_dek_def ok_simps Let_def split: option.splits if_splits)
  then show thesis
    using assms that by (auto simp: upsert_env_with_protection_def ok_simps)
qed

lemma load_instance_dek_env [simp]:
  "load_instance_dek C inst (d\<lparr>instance_env := es\<rparr>) = load_instance_dek C inst d"
  by (simp add: load_instance_dek_def)

lemma find_keyed:
  assumes "env_keyed d" and "e \<in> set (instance_env d)" and "env_slot inst key e"
  shows "find (env_slot inst key) (instance_env d) = Some e"
proof -
  obtain e' where f: "find (env_slot inst key) (instance_env d) = Some e'"
    using assms(2,3) by (cases "find (env_slot inst key) (instance_env d)") (auto simp: find_None_iff)
  then have "e' \<in> set (instance_env d)" "env_slot inst key e'" by (auto simp: find_Some_iff)
  with assms have "e' = e"
    by (auto simp: env_keyed_def env_slot_def distinct_map inj_on_def)
  with f show ?thesis by simp
qed

lemma env_write_read:
  assumes laws: "vault_laws C" "length nonce = ENV_NONCE_LEN" "utf8 val" and keyed: "env_keyed d"
    and up: "upsert_env_with_protection C nonce now inst key val prot d = Inr d'"
    and old: "list_env C inst d = Inr kvs"
  shows "\<exists>kvs'. list_env C inst d' = Inr kvs' \<and> map_of kvs' = (map_of kvs)(key \<mapsto> val)"
proof -
  from up obtain k stored where k: "load_instance_dek C inst d = Inr (Some k)" "length k = 32"
    and enc: "encrypt_env_value C nonce k inst key val = Inr stored"
    and d': "d' = d\<lparr>instance_env := put_env \<lparr>ev_instance = inst, ev_key = key, ev_value = stored,
        ev_protected = prot, ev_updated_at = now\<rparr> (instance_env d)\<rparr>"
    by (rule upsert_env_effect)
  let ?D = "\<lambda>e. decrypt_env_value C (Some k) inst (ev_key e) (ev_value e)"
  let ?r = "\<lparr>ev_instance = inst, ev_key = key, ev_value = stored, ev_protected = prot, ev_updated_at = now\<rparr>"
  have new: "?D ?r = Inr val" using sealed_opens(1) [OF laws(1) k(2) laws(2,3) enc] by simp
  have rows: "set (env_rows inst d') = insert ?r {e \<in> set (env_rows inst d). ev_key e \<noteq> key}"
    by (auto simp: set_env_rows d' set_put_env env_slot_def)
  have dist: "distinct (map ev_key (env_rows inst d))" "distinct (map ev_key (env_rows inst d'))"
    using keyed put_env_keys by (auto intro!: env_keyed_rows simp: d' env_keyed_def)
  have l2: "list_all2 (\<lambda>e (k, v). ev_key e = k \<and> ?D e = Inr v) (env_rows inst d) kvs"
    using old k(1) by (simp add: list_env_iff)
  note before = list_all2_map_of [OF this dist(1)]
  have "is_ok (?D e)" if "e \<in> set (env_rows inst d)" for e
    using l2 that by (rule list_all2_ok)
  then have "is_ok (?D e)" if "e \<in> set (env_rows inst d')" for e
    using that new by (auto simp: rows)
  then have "is_ok (list_env C inst d')" by (intro list_env_total [where dek = "Some k"]) (simp_all add: k d')
  then obtain kvs' where new_list: "list_env C inst d' = Inr kvs'" by (auto simp: is_ok_iff)
  then have "list_all2 (\<lambda>e (k, v). ev_key e = k \<and> ?D e = Inr v) (env_rows inst d') kvs'"
    using k(1) by (simp add: list_env_iff d')
  note after = list_all2_map_of [OF this dist(2)]
  have "map_of kvs' x = Some y \<longleftrightarrow> ((map_of kvs)(key \<mapsto> val)) x = Some y" for x y
    using after [of x y] before [of x y] new by (auto simp: rows)
  then have "map_of kvs' x = ((map_of kvs)(key \<mapsto> val)) x" for x
    by (metis not_None_eq)
  then have "map_of kvs' = (map_of kvs)(key \<mapsto> val)" by (rule ext)
  with new_list show ?thesis by blast
qed


lemma env_reserved:
  assumes "env_keyed d" and "upsert_env_with_protection C nonce now inst key val True d = Inr d'"
  shows "upsert_env C nonce' now' inst key val' d' = Inl Reserved_key"
proof -
  from assms(2) obtain k stored where k: "load_instance_dek C inst d = Inr (Some k)"
    and d': "d' = d\<lparr>instance_env := put_env \<lparr>ev_instance = inst, ev_key = key, ev_value = stored,
        ev_protected = True, ev_updated_at = now\<rparr> (instance_env d)\<rparr>" (is "_ = d\<lparr>instance_env := put_env ?r _\<rparr>")
    by (rule upsert_env_effect)
  have "env_keyed d'" using assms(1) by (simp add: d' env_keyed_def put_env_keys)
  moreover have "?r \<in> set (instance_env d')" "env_slot inst key ?r"
    by (simp_all add: d' set_put_env env_slot_def)
  ultimately have "find (env_slot inst key) (instance_env d') = Some ?r" by (rule find_keyed)
  then show ?thesis
    using k by (simp add: upsert_env_def upsert_env_with_protection_def d')
qed

lemma env_moved_row:
  assumes "vault_laws C" and "length nonce = ENV_NONCE_LEN" and "utf8 val"
    and "upsert_env_with_protection C nonce now inst key val prot d = Inr d'"
    and "e \<in> set (instance_env d')" and "env_slot inst key e"
    and "(inst', key') \<noteq> (inst, key)" and "CHR ''|'' \<notin> set inst" and "CHR ''|'' \<notin> set inst'"
  shows "starts_with ENV_FORMAT_PREFIX_V2 (ev_value e) \<and>
    (\<exists>dek. load_instance_dek C inst d = Inr dek \<and>
       decrypt_env_value C dek inst' key' (ev_value e) = Inl Decryption_failed)"
proof -
  from assms(4) obtain k stored where k: "load_instance_dek C inst d = Inr (Some k)" "length k = 32"
    and enc: "encrypt_env_value C nonce k inst key val = Inr stored"
    and d': "d' = d\<lparr>instance_env := put_env \<lparr>ev_instance = inst, ev_key = key, ev_value = stored,
        ev_protected = prot, ev_updated_at = now\<rparr> (instance_env d)\<rparr>"
    by (rule upsert_env_effect)
  have "ev_value e = stored"
    using assms(5,6) by (auto simp: d' set_put_env env_slot_def)
  then show ?thesis
    using sealed_opens(2,3) [OF assms(1) k(2) assms(2,3) enc] assms(7-9) k(1) by simp
qed

section \<open>The property\<close>

text \<open>
  C19: a successful write of a variable is read back. Afterwards the listing of the instance is the
  old one with the key bound to the written value; the rows of every other instance and key are
  what they were; the value is stored as an envelope of the second format, which does not decrypt
  when it is copied to a row of another instance or key; and if the user protected the variable, a
  write by the agent is refused.
\<close>
theorem env_vault_works:
  assumes "vault_laws C" and "length nonce = ENV_NONCE_LEN" and "utf8 val" and "env_keyed d"
    and "upsert_env_with_protection C nonce now inst key val prot d = Inr d'"
    and "list_env C inst d = Inr kvs" and "CHR ''|'' \<notin> set inst" and "CHR ''|'' \<notin> set inst'"
    and "(inst', key') \<noteq> (inst, key)"
  shows "(\<exists>kvs'. list_env C inst d' = Inr kvs' \<and> map_of kvs' = (map_of kvs)(key \<mapsto> val)) \<and>
    filter (\<lambda>e. \<not> env_slot inst key e) (instance_env d') =
      filter (\<lambda>e. \<not> env_slot inst key e) (instance_env d) \<and>
    (\<forall>e\<in>set (instance_env d'). env_slot inst key e \<longrightarrow>
       starts_with ENV_FORMAT_PREFIX_V2 (ev_value e) \<and>
       (\<exists>dek. load_instance_dek C inst d = Inr dek \<and>
          decrypt_env_value C dek inst' key' (ev_value e) = Inl Decryption_failed)) \<and>
    (prot \<longrightarrow> upsert_env C nonce' now' inst key val' d' = Inl Reserved_key) \<and> env_keyed d'"
proof (intro conjI ballI impI)
  show "\<exists>kvs'. list_env C inst d' = Inr kvs' \<and> map_of kvs' = (map_of kvs)(key \<mapsto> val)"
    by (rule env_write_read [OF assms(1-6)])
  from assms(5) obtain k stored where
    d': "d' = d\<lparr>instance_env := put_env \<lparr>ev_instance = inst, ev_key = key, ev_value = stored,
        ev_protected = prot, ev_updated_at = now\<rparr> (instance_env d)\<rparr>"
    by (rule upsert_env_effect)
  show "filter (\<lambda>e. \<not> env_slot inst key e) (instance_env d') =
      filter (\<lambda>e. \<not> env_slot inst key e) (instance_env d)"
    using filter_put_env [of "\<lparr>ev_instance = inst, ev_key = key, ev_value = stored,
        ev_protected = prot, ev_updated_at = now\<rparr>" "instance_env d"] by (simp add: d')
  show "env_keyed d'" using assms(4) by (simp add: d' env_keyed_def put_env_keys)
next
  fix e assume "e \<in> set (instance_env d')" "env_slot inst key e"
  from env_moved_row [OF assms(1,2,3,5) this assms(9,7,8)]
  show "starts_with ENV_FORMAT_PREFIX_V2 (ev_value e)" and
    "\<exists>dek. load_instance_dek C inst d = Inr dek \<and>
       decrypt_env_value C dek inst' key' (ev_value e) = Inl Decryption_failed" by blast+
next
  assume prot
  then show "upsert_env C nonce' now' inst key val' d' = Inl Reserved_key"
    using env_reserved [OF assms(4)] assms(5) by simp
qed


text \<open>One instance with a key, one older variable in plain text.\<close>

definition demo_vault_row :: instance_row where
  "demo_vault_row = \<lparr>in_id = ''i'', in_wallet = ''w'', in_name = None, in_status = ''running'',
     in_ports = \<lparr>kong_port = 1, postgres_port = 2, gotrue_port = 3, realtime_port = 4, storage_port = 5,
       studio_port = 6, analytics_port = 7, meta_port = 8, functions_port = 9\<rparr>,
     in_secrets = \<lparr>anon_key = [], service_role_key = [], jwt_secret = [], postgres_password = [],
       dashboard_password = [], wal_encryption_key = hexes (replicate 32 CHR ''k'')\<rparr>,
     in_url = [], in_studio_url = [], in_project = [], in_dir = [], in_cpuset = None, in_created_at = 0,
     in_expires_at = None, in_destroyed_at = None, in_lifecycle = ''active'', in_last_seen = None,
     in_pinned_until = None, in_nextjs_port = None, in_nextjs_status = None, in_nextjs_deployed_at = None\<rparr>"

definition demo_vault :: db where
  "demo_vault = empty_db\<lparr>instances := [demo_vault_row],
     instance_env := [\<lparr>ev_instance = ''i'', ev_key = ''B'', ev_value = ''old'', ev_protected = False, ev_updated_at = 0\<rparr>]\<rparr>"

lemma demo_vault_laws: "vault_laws demo_crypto"
proof -
  have "length (hexes x) = 2 * length x" for x by (induction x rule: hexes.induct) auto
  then show ?thesis
    using demo_b64 demo_aead demo_aead_binds by (auto simp: vault_laws_def demo_crypto_def)
qed

lemma demo_vault_key: "load_instance_dek demo_crypto ''i'' demo_vault = Inr (Some (replicate 32 CHR ''k''))"
proof -
  have "hexes s \<noteq> [] \<longleftrightarrow> s \<noteq> []" for s by (cases s) auto
  then have "hexes (replicate 32 CHR ''k'') \<noteq> []" by (metis length_0_conv length_replicate zero_neq_numeral)
  moreover have "hex_decode demo_crypto (hexes s) = Some s" for s by (simp add: demo_crypto_def unhexes_hexes)
  moreover have "find (\<lambda>i. in_id i = ''i'') (instances demo_vault) = Some demo_vault_row"
    "wal_encryption_key (in_secrets demo_vault_row) = hexes (replicate 32 CHR ''k'')"
    by (simp_all add: demo_vault_def empty_db_def demo_vault_row_def)
  ultimately show ?thesis
    unfolding load_instance_dek_def Let_def by (simp only: option.case ok_or_simps rbind_simps length_replicate if_True if_False simp_thms)
qed

lemma demo_vault_list: "list_env demo_crypto ''i'' demo_vault = Inr [(''B'', ''old'')]"
  unfolding list_env_def demo_vault_key
  by (simp add: env_rows_def demo_vault_def empty_db_def decrypt_env_value_def
      ENV_FORMAT_PREFIX_V1_def ENV_FORMAT_PREFIX_V2_def)

lemma demo_seals: "\<exists>s. encrypt_env_value demo_crypto n k inst key v = Inr s"
  by (simp add: encrypt_env_value_def demo_crypto_def)

lemma demo_vault_write:
  "\<exists>d. upsert_env_with_protection demo_crypto (replicate 12 CHR ''n'') 5 ''i'' ''A'' ''v'' True demo_vault = Inr d"
proof -
  have "find (env_slot ''i'' ''A'') (instance_env demo_vault) = None"
    by (simp add: env_slot_def demo_vault_def empty_db_def)
  then show ?thesis
    using demo_seals [of "replicate 12 CHR ''n''" "replicate 32 CHR ''k''" "''i''" "''A''" "''v''"]
    unfolding upsert_env_with_protection_def demo_vault_key by auto
qed

theorem env_vault_works_witness:
  "\<exists>d kvs. upsert_env_with_protection demo_crypto (replicate 12 CHR ''n'') 5 ''i'' ''A'' ''v'' True demo_vault = Inr d \<and>
     list_env demo_crypto ''i'' d = Inr kvs \<and> map_of kvs = [''B'' \<mapsto> ''old'', ''A'' \<mapsto> ''v''] \<and>
     upsert_env demo_crypto (replicate 12 CHR ''m'') 6 ''i'' ''A'' ''w'' d = Inl Reserved_key"
proof -
  obtain d where up: "upsert_env_with_protection demo_crypto (replicate 12 CHR ''n'') 5 ''i'' ''A'' ''v'' True demo_vault = Inr d"
    using demo_vault_write by blast
  have "length (replicate 12 CHR ''n'') = ENV_NONCE_LEN" "utf8 ''v''" "env_keyed demo_vault"
    by (simp_all add: ENV_NONCE_LEN_def env_keyed_def demo_vault_def empty_db_def)
  from env_vault_works [OF demo_vault_laws this up demo_vault_list, of "''j''" "''A''" "replicate 12 CHR ''m''" 6 "''w''"] up
  show ?thesis by auto
qed

end
