(* ===== verification/Wal_Store.thy ===== *)
theory Wal_Store
  imports Database "HOL-Library.Multiset"
begin

text \<open>
  The tables of WAL replication (\<open>db/mod.rs\<close>): the segments a primary has archived, its replicas,
  the shipments to them, and the segments held for other primaries. All four are filled by
  \<open>INSERT OR IGNORE\<close> under a unique key, which is the contract \<open>keyed_table\<close>.
\<close>

section \<open>The segments of a primary\<close>

definition segment_key :: "wal_segment \<Rightarrow> string \<times> string" where
  "segment_key s = (ws_instance s, ws_name s)"

definition insert_wal_segment :: "wal_segment \<Rightarrow> db \<Rightarrow> db_error + db" where
  "insert_wal_segment s d =
     (if segment_key s \<in> segment_key ` set (wal_segments d) then Inr d
      else guard (ws_instance s \<in> instance_ids d) Foreign_key_violation
        (Inr (d\<lparr>wal_segments := wal_segments d @ [s]\<rparr>)))"

text \<open>\<open>ORDER BY chain_index DESC LIMIT 1\<close>: the first of the rows with the greatest index.\<close>

definition latest_row :: "wal_segment list \<Rightarrow> wal_segment option" where
  "latest_row rs = (case sort_key (\<lambda>s. - ws_chain_index s) rs of [] \<Rightarrow> None | s # _ \<Rightarrow> Some s)"

definition wal_rows :: "string \<Rightarrow> db \<Rightarrow> wal_segment list" where
  "wal_rows i d = filter (\<lambda>s. ws_instance s = i) (wal_segments d)"

definition get_latest_wal_hash :: "string \<Rightarrow> db \<Rightarrow> string option" where
  "get_latest_wal_hash i d = map_option ws_hash (latest_row (wal_rows i d))"

definition get_latest_wal_chain_index :: "string \<Rightarrow> db \<Rightarrow> int option" where
  "get_latest_wal_chain_index i d = map_option ws_chain_index (latest_row (wal_rows i d))"

definition get_processed_wal_segments :: "string \<Rightarrow> db \<Rightarrow> string list" where
  "get_processed_wal_segments i d = map ws_name (wal_rows i d)"

definition get_wal_segment :: "string \<Rightarrow> string \<Rightarrow> db \<Rightarrow> wal_segment option" where
  "get_wal_segment i n d = find (\<lambda>s. ws_instance s = i \<and> ws_name s = n) (wal_segments d)"

definition list_wal_segments :: "string \<Rightarrow> db \<Rightarrow> wal_segment list" where
  "list_wal_segments i d = sort_key ws_chain_index (wal_rows i d)"

section \<open>Replicas and shipments\<close>

definition replica_key :: "instance_replica \<Rightarrow> string \<times> string" where
  "replica_key r = (ir_instance r, ir_endpoint r)"

definition add_instance_replica :: "int \<Rightarrow> string \<Rightarrow> string \<Rightarrow> db \<Rightarrow> db_error + bool \<times> db" where
  "add_instance_replica now i e d =
     (if (i, e) \<in> replica_key ` set (instance_replicas d) then Inr (False, d)
      else guard (i \<in> instance_ids d) Foreign_key_violation
        (Inr (True, d\<lparr>instance_replicas := instance_replicas d @
           [\<lparr>ir_instance = i, ir_endpoint = e, ir_added_at = now\<rparr>]\<rparr>)))"

definition list_instance_replicas :: "string \<Rightarrow> db \<Rightarrow> string list" where
  "list_instance_replicas i d =
     map ir_endpoint (sort_key ir_added_at (filter (\<lambda>r. ir_instance r = i) (instance_replicas d)))"

definition remove_instance_replica :: "string \<Rightarrow> string \<Rightarrow> db \<Rightarrow> db" where
  "remove_instance_replica i e d =
     d\<lparr>instance_replicas := filter (\<lambda>r. replica_key r \<noteq> (i, e)) (instance_replicas d)\<rparr>"

definition shipment_key :: "replica_shipment \<Rightarrow> string \<times> string \<times> string" where
  "shipment_key s = (rs_instance s, rs_endpoint s, rs_name s)"

definition enqueue_replica_shipment :: "string \<Rightarrow> string \<Rightarrow> string \<Rightarrow> db \<Rightarrow> db_error + bool \<times> db" where
  "enqueue_replica_shipment i e n d =
     (if (i, e, n) \<in> shipment_key ` set (replica_shipments d) then Inr (False, d)
      else guard (i \<in> instance_ids d) Foreign_key_violation
        (Inr (True, d\<lparr>replica_shipments := replica_shipments d @
             [\<lparr>rs_id = shipment_seq d + 1, rs_instance = i, rs_endpoint = e, rs_name = n,
               rs_status = ''pending'', rs_attempts = 0, rs_last_attempt = None, rs_confirmed_at = None\<rparr>],
           shipment_seq := shipment_seq d + 1\<rparr>)))"

definition get_pending_shipments :: "db \<Rightarrow> replica_shipment list" where
  "get_pending_shipments d =
     sort_key rs_id (filter (\<lambda>s. rs_status s = ''pending'') (replica_shipments d))"

definition update_shipment :: "int \<Rightarrow> (replica_shipment \<Rightarrow> replica_shipment) \<Rightarrow> db \<Rightarrow> db" where
  "update_shipment n f d =
     d\<lparr>replica_shipments := map (\<lambda>s. if rs_id s = n then f s else s) (replica_shipments d)\<rparr>"

definition mark_shipment_failed :: "int \<Rightarrow> db \<Rightarrow> db" where
  "mark_shipment_failed n = update_shipment n (\<lambda>s. s\<lparr>rs_status := ''failed''\<rparr>)"

definition mark_shipment_shipped :: "int \<Rightarrow> int \<Rightarrow> db \<Rightarrow> db" where
  "mark_shipment_shipped now n =
     update_shipment n (\<lambda>s. s\<lparr>rs_status := ''shipped'', rs_confirmed_at := Some now\<rparr>)"

definition increment_shipment_attempts :: "int \<Rightarrow> int \<Rightarrow> db \<Rightarrow> db" where
  "increment_shipment_attempts now n =
     update_shipment n (\<lambda>s. s\<lparr>rs_attempts := rs_attempts s + 1, rs_last_attempt := Some now\<rparr>)"

section \<open>The segments held for other primaries\<close>

definition insert_replica_segment :: "wal_segment \<Rightarrow> db \<Rightarrow> db_error + db" where
  "insert_replica_segment s d =
     (if segment_key s \<in> segment_key ` set (replica_segments d) then Inr d
      else Inr (d\<lparr>replica_segments := replica_segments d @ [s]\<rparr>))"

definition replica_rows :: "string \<Rightarrow> db \<Rightarrow> wal_segment list" where
  "replica_rows i d = filter (\<lambda>s. ws_instance s = i) (replica_segments d)"

definition list_replica_segments_db :: "string \<Rightarrow> db \<Rightarrow> wal_segment list" where
  "list_replica_segments_db i d = sort_key ws_chain_index (replica_rows i d)"

definition latest_replica_hash :: "string \<Rightarrow> db \<Rightarrow> (string \<times> int) option" where
  "latest_replica_hash i d =
     map_option (\<lambda>s. (ws_hash s, ws_chain_index s)) (latest_row (replica_rows i d))"

text \<open>When the indexes ascend in the order of insertion, the row with the greatest one is the last.\<close>

lemma sort_key_ascending:
  assumes "sorted_wrt (<) (map f xs)"
  shows "sort_key (\<lambda>x. - f x :: int) xs = rev xs" "sort_key f xs = xs"
proof -
  have "inj_on f (set xs)"
    using assms by (simp add: strict_sorted_iff distinct_map)
  then have "inj_on (\<lambda>x. - f x) (set xs)" by (auto simp: inj_on_def)
  moreover have "sorted (map (\<lambda>x. - f x) (rev xs))"
    using assms by (auto simp: rev_map sorted_wrt_rev sorted_wrt_map elim!: sorted_wrt_mono_rel [rotated])
  ultimately show "sort_key (\<lambda>x. - f x) xs = rev xs" by (intro sort_key_inj_key_eq) simp_all
  show "sort_key f xs = xs"
    using assms by (intro sort_key_id_if_sorted) (simp add: strict_sorted_iff)
qed

lemma latest_ascending:
  "sorted_wrt (<) (map ws_chain_index rs) \<Longrightarrow> latest_row rs = (if rs = [] then None else Some (last rs))"
  by (cases rs rule: rev_cases) (simp_all add: latest_row_def sort_key_ascending(1))

section \<open>Tables with a unique key\<close>

lemma find_append_Some: "find P xs = Some x \<Longrightarrow> find P (xs @ ys) = Some x"
  by (induction xs) auto

text \<open>
  What \<open>INSERT OR IGNORE\<close> promises: a key that is there leaves the table as it is, a new key is
  appended. So keys stay unique, the first row of a key is never replaced, and a repeated
  insertion changes nothing.
\<close>

locale keyed_table =
  fixes table :: "'d \<Rightarrow> 'r list"
    and key :: "'r \<Rightarrow> 'k"
    and arg_key :: "'a \<Rightarrow> 'k"
    and ins :: "'a \<Rightarrow> 'd \<Rightarrow> 'e + 'd"
  assumes ins_old: "ins a d = Inr d' \<Longrightarrow> arg_key a \<in> key ` set (table d) \<Longrightarrow> d' = d"
    and ins_new: "ins a d = Inr d' \<Longrightarrow> arg_key a \<notin> key ` set (table d) \<Longrightarrow>
      \<exists>r. key r = arg_key a \<and> table d' = table d @ [r]"
begin

lemma ins_cases:
  assumes "ins a d = Inr d'"
  obtains (old) "arg_key a \<in> key ` set (table d)" "d' = d"
    | (new) r where "arg_key a \<notin> key ` set (table d)" "key r = arg_key a" "table d' = table d @ [r]"
  using ins_old [OF assms] ins_new [OF assms] by blast

lemma keys_stay_distinct:
  "ins a d = Inr d' \<Longrightarrow> distinct (map key (table d)) \<Longrightarrow> distinct (map key (table d'))"
  by (erule ins_cases) auto

lemma key_present: "ins a d = Inr d' \<Longrightarrow> arg_key a \<in> key ` set (table d')"
  by (erule ins_cases) auto

lemma first_row_stays:
  "ins a d = Inr d' \<Longrightarrow> find (\<lambda>r. key r = k) (table d) = Some r \<Longrightarrow> find (\<lambda>r. key r = k) (table d') = Some r"
proof (erule ins_cases)
  fix r' assume "find (\<lambda>r. key r = k) (table d) = Some r" "table d' = table d @ [r']"
  then show "find (\<lambda>r. key r = k) (table d') = Some r"
    by (simp add: find_append_Some)
qed simp

lemma ins_again: "ins a d = Inr d' \<Longrightarrow> ins a d' = Inr d'' \<Longrightarrow> d'' = d'"
  using key_present ins_old by blast

end

interpretation wal_table: keyed_table wal_segments segment_key segment_key insert_wal_segment
  by unfold_locales (auto simp: insert_wal_segment_def split: if_splits)

interpretation held_table: keyed_table replica_segments segment_key segment_key insert_replica_segment
  by unfold_locales (auto simp: insert_replica_segment_def split: if_splits)

interpretation replica_table: keyed_table instance_replicas replica_key "\<lambda>(i, e, now). (i, e)"
    "\<lambda>(i, e, now) d. map_sum id snd (add_instance_replica now i e d)"
  by unfold_locales
    (auto simp: add_instance_replica_def replica_key_def split: if_splits)

interpretation shipment_table: keyed_table replica_shipments shipment_key "\<lambda>k. k"
    "\<lambda>(i, e, n) d. map_sum id snd (enqueue_replica_shipment i e n d)"
  by unfold_locales
    (auto simp: enqueue_replica_shipment_def shipment_key_def split: if_splits)

end
