(* ===== verification/Replication.thy ===== *)
theory Replication
  imports Wal_Store Path_Safety Kraph_Crypto "HOL-Library.Char_ord" "HOL-Library.List_Lexorder"
begin

text \<open>
  WAL replication (\<open>replication.rs\<close>, the receiving endpoint in \<open>main.rs\<close>). The primary encrypts
  each archived segment, links its hash to the one before and queues a shipment per replica; the
  replica checks the link and stores the cipher text. A node's store is its database and its
  files; what Docker, the file system and the network answer are arguments.
\<close>

record store =
  sdb :: db
  blobs :: "string \<Rightarrow> string option"

datatype repl_error = Sig_required | Sig_not_hex | Sig_length | Sig_mismatch | Repl_panic
  | Bad_path path_error | Body_too_small | Prev_not_hex | Hash_mismatch | Chain_break | Index_gap
  | Io_failed | Repl_db db_error | Docker_error | Bad_wal_key | Wal_key_length | Wal_encrypt_failed
  | Missing_header string | Bad_chain_index

section \<open>The signature of the headers\<close>

text \<open>The two environment variables that govern it.\<close>

record repl_env =
  re_secret :: "string option"
  re_allow_missing :: "string option"

definition replication_hmac_secret :: "repl_env \<Rightarrow> string option" where
  "replication_hmac_secret E = (case re_secret E of
     Some s \<Rightarrow> if s = [] then None else Some s | None \<Rightarrow> None)"

definition replication_require_hmac :: "repl_env \<Rightarrow> bool" where
  "replication_require_hmac E \<longleftrightarrow> re_allow_missing E \<notin> {Some ''true'', Some ''1'', Some ''yes''}"

definition sig_message :: "string \<Rightarrow> string \<Rightarrow> string \<Rightarrow> string \<Rightarrow> int \<Rightarrow> string" where
  "sig_message inst name hash prev idx =
     inst @ [CHR 0x0A] @ name @ [CHR 0x0A] @ hash @ [CHR 0x0A] @ prev @ [CHR 0x0A] @ show_int idx"

definition build_replication_sig ::
  "crypto \<Rightarrow> string \<Rightarrow> string \<Rightarrow> string \<Rightarrow> string \<Rightarrow> string \<Rightarrow> int \<Rightarrow> string" where
  "build_replication_sig C secret inst name hash prev idx =
     hex_encode C (hmac_sha256 C secret (sig_message inst name hash prev idx))"

definition verify_replication_sig ::
  "crypto \<Rightarrow> repl_env \<Rightarrow> string option \<Rightarrow> string \<Rightarrow> string \<Rightarrow> string \<Rightarrow> string \<Rightarrow> int \<Rightarrow> repl_error + unit" where
  "verify_replication_sig C E sig inst name hash prev idx =
     (case (sig, replication_hmac_secret E) of
        (None, _) \<Rightarrow> guard (\<not> replication_require_hmac E) Sig_required (Inr ())
      | (Some _, None) \<Rightarrow> Inr ()
      | (Some s, Some secret) \<Rightarrow>
          let expected = build_replication_sig C secret inst name hash prev idx in
          rbind (ok_or Sig_not_hex (hex_decode C (trim s))) (\<lambda>provided_bytes.
          rbind (ok_or Repl_panic (hex_decode C expected)) (\<lambda>expected_bytes.
          guard (length provided_bytes = length expected_bytes) Sig_length (
          guard (provided_bytes = hmac_sha256 C secret (sig_message inst name hash prev idx)) Sig_mismatch (
          Inr ())))))"

section \<open>The primary: archiving\<close>

definition NONCE_LEN :: nat where "NONCE_LEN = 12"

definition MAX_SHIPMENT_ATTEMPTS :: int where "MAX_SHIPMENT_ATTEMPTS = 5"

definition encrypted_dir :: "string \<Rightarrow> string \<Rightarrow> path" where
  "encrypted_dir data_dir inst = [data_dir, ''wal-encrypted'', inst]"

definition replica_dir :: "string \<Rightarrow> string \<Rightarrow> path" where
  "replica_dir data_dir inst = [data_dir, ''replicas'', inst]"

definition path_text :: "path \<Rightarrow> string" where
  "path_text p = join ''/'' p"

text \<open>\<open>i64\<close> addition wraps in the release build.\<close>

definition i64_succ :: "int \<Rightarrow> int" where
  "i64_succ k = sint (word_of_int (k + 1) :: i64)"

definition segment_aad :: "string \<Rightarrow> string \<Rightarrow> int \<Rightarrow> string" where
  "segment_aad inst file idx = inst @ ''|'' @ file @ ''|'' @ show_int idx"

definition chain_hash :: "crypto \<Rightarrow> string option \<Rightarrow> string \<Rightarrow> string" where
  "chain_hash C prev on_disk = sha256 C ((case prev of Some p \<Rightarrow> p | None \<Rightarrow> []) @ on_disk)"

text \<open>What the copy out of the container gives: the plain text, with the nonce drawn for it.\<close>

datatype pull = Spawn_failed | Copy_failed | Read_failed | Pulled string string

fun enqueue_all :: "string \<Rightarrow> string \<Rightarrow> string list \<Rightarrow> db \<Rightarrow> (repl_error + unit) \<times> db" where
  "enqueue_all inst file [] d = (Inr (), d)"
| "enqueue_all inst file (e # es) d = (case enqueue_replica_shipment inst e file d of
     Inl err \<Rightarrow> (Inl (Repl_db err), d) | Inr (_, d') \<Rightarrow> enqueue_all inst file es d')"

definition wal_segment_of ::
  "crypto \<Rightarrow> string \<Rightarrow> string \<Rightarrow> string \<Rightarrow> string option \<Rightarrow> int \<Rightarrow> string \<Rightarrow> wal_segment" where
  "wal_segment_of C data_dir inst file prev idx on_disk =
     \<lparr>ws_instance = inst, ws_name = file, ws_hash = hex_encode C (chain_hash C prev on_disk),
      ws_previous_hash = (case prev of Some p \<Rightarrow> hex_encode C p | None \<Rightarrow> []),
      ws_path = path_text (encrypted_dir data_dir inst @ [file @ ''.enc'']),
      ws_size = int (length on_disk), ws_chain_index = idx\<rparr>"

text \<open>The loop over the segment files, with the hash and the index the next one links to.\<close>

fun process_files ::
  "crypto \<Rightarrow> string \<Rightarrow> string \<Rightarrow> string \<Rightarrow> string list \<Rightarrow> string list \<Rightarrow> (string \<Rightarrow> pull) \<Rightarrow> (string \<Rightarrow> bool) \<Rightarrow>
   string list \<Rightarrow> string option \<Rightarrow> int \<Rightarrow> store \<Rightarrow> (repl_error + unit) \<times> store" where
  "process_files C dd inst key replicas processed pulled written [] prev idx st = (Inr (), st)"
| "process_files C dd inst key replicas processed pulled written (f # fs) prev idx st =
     (if f \<in> set processed then process_files C dd inst key replicas processed pulled written fs prev idx st
      else case pulled f of
        Spawn_failed \<Rightarrow> (Inl Docker_error, st)
      | Read_failed \<Rightarrow> (Inl Io_failed, st)
      | Copy_failed \<Rightarrow> process_files C dd inst key replicas processed pulled written fs prev idx st
      | Pulled plain nonce \<Rightarrow>
          (case aead_encrypt C key nonce (segment_aad inst f idx) plain of
             None \<Rightarrow> (Inl Wal_encrypt_failed, st)
           | Some ciphertext \<Rightarrow>
               let on_disk = nonce @ ciphertext; s = wal_segment_of C dd inst f prev idx on_disk in
               if \<not> written f then (Inl Io_failed, st)
               else
                 let st1 = st\<lparr>blobs := (blobs st)(ws_path s \<mapsto> on_disk)\<rparr> in
                 case insert_wal_segment s (sdb st1) of
                   Inl e \<Rightarrow> (Inl (Repl_db e), st1)
                 | Inr d \<Rightarrow>
                     (case enqueue_all inst f replicas d of
                        (Inl e, d') \<Rightarrow> (Inl e, st1\<lparr>sdb := d'\<rparr>)
                      | (Inr _, d') \<Rightarrow>
                          process_files C dd inst key replicas processed pulled written fs
                            (Some (chain_hash C prev on_disk)) (i64_succ idx) (st1\<lparr>sdb := d'\<rparr>))))"

definition listed_files :: "string \<Rightarrow> string list" where
  "listed_files out = sort (filter (\<lambda>s. s \<noteq> [] \<and> \<not> ends_with ''.tmp'' s) (map trim (text_lines out)))"

text \<open>\<open>listing\<close> is the output of \<open>ls\<close> in the container, when it succeeds.\<close>

definition process_instance_wal ::
  "crypto \<Rightarrow> string \<Rightarrow> instance_row \<Rightarrow> string option \<Rightarrow> (string \<Rightarrow> pull) \<Rightarrow> (string \<Rightarrow> bool) \<Rightarrow> store \<Rightarrow>
   (repl_error + unit) \<times> store" where
  "process_instance_wal C dd r listing pulled written st =
     (case listing of None \<Rightarrow> (Inr (), st) | Some out \<Rightarrow>
      let wal_files = listed_files out; inst = in_id r in
      if wal_files = [] then (Inr (), st)
      else if list_ex (\<lambda>f. is_valid_wal_name f = None) wal_files then (Inl Repl_panic, st)
      else
        let valid = filter (\<lambda>f. is_valid_wal_name f = Some True) wal_files;
            processed = get_processed_wal_segments inst (sdb st);
            prev = Option.bind (get_latest_wal_hash inst (sdb st)) (hex_decode C);
            idx = (case get_latest_wal_chain_index inst (sdb st) of Some k \<Rightarrow> i64_succ k | None \<Rightarrow> 0);
            replicas = list_instance_replicas inst (sdb st)
        in case hex_decode C (wal_encryption_key (in_secrets r)) of
             None \<Rightarrow> (Inl Bad_wal_key, st)
           | Some key \<Rightarrow>
               if length key \<noteq> 32 then (Inl Wal_key_length, st)
               else process_files C dd inst key replicas processed pulled written valid prev idx st)"

text \<open>One pass over the running instances; an error of one instance is only logged.\<close>

definition process_new_segments ::
  "crypto \<Rightarrow> string \<Rightarrow> (string \<Rightarrow> string option) \<Rightarrow> (string \<Rightarrow> string \<Rightarrow> pull) \<Rightarrow> (string \<Rightarrow> string \<Rightarrow> bool) \<Rightarrow>
   store \<Rightarrow> store" where
  "process_new_segments C dd listing pulled written st =
     foldl (\<lambda>st r. if wal_encryption_key (in_secrets r) = [] then st
       else snd (process_instance_wal C dd r (listing (in_id r)) (pulled (in_id r)) (written (in_id r)) st))
       st (list_running_instances (sdb st))"

section \<open>The primary: shipping\<close>

text \<open>A request to a replica, and what comes back.\<close>

record wire_segment =
  sg_instance :: string
  sg_name :: string
  sg_hash :: string
  sg_prev :: string
  sg_index :: int
  sg_sig :: "string option"
  sg_body :: string

datatype reply = Accepted | Rejected | Unreachable

definition trim_end_slashes :: "string \<Rightarrow> string" where
  "trim_end_slashes s = rev (dropWhile (\<lambda>c. c = CHR ''/'') (rev s))"

definition receive_url :: "string \<Rightarrow> string" where
  "receive_url endpoint = trim_end_slashes endpoint @ ''/replication/receive''"

definition wire_for :: "crypto \<Rightarrow> repl_env \<Rightarrow> replica_shipment \<Rightarrow> wal_segment \<Rightarrow> string \<Rightarrow> wire_segment" where
  "wire_for C E sh s body =
     \<lparr>sg_instance = rs_instance sh, sg_name = rs_name sh, sg_hash = ws_hash s,
      sg_prev = ws_previous_hash s, sg_index = ws_chain_index s,
      sg_sig = map_option (\<lambda>secret. build_replication_sig C secret (rs_instance sh) (rs_name sh)
        (ws_hash s) (ws_previous_hash s) (ws_chain_index s)) (replication_hmac_secret E),
      sg_body = body\<rparr>"

text \<open>The network is a state \<open>w\<close> with \<open>post\<close>.\<close>

definition ship_one ::
  "crypto \<Rightarrow> repl_env \<Rightarrow> int \<Rightarrow> ('w \<Rightarrow> string \<Rightarrow> wire_segment \<Rightarrow> 'w \<times> reply) \<Rightarrow> 'w \<times> store \<Rightarrow> replica_shipment \<Rightarrow>
   'w \<times> store" where
  "ship_one C E now post = (\<lambda>(w, st) sh.
     (let upd = (\<lambda>f. st\<lparr>sdb := f (rs_id sh) (sdb st)\<rparr>) in
      if MAX_SHIPMENT_ATTEMPTS \<le> rs_attempts sh then (w, upd mark_shipment_failed)
      else case get_wal_segment (rs_instance sh) (rs_name sh) (sdb st) of
        None \<Rightarrow> (w, upd mark_shipment_failed)
      | Some s \<Rightarrow>
          (case blobs st (ws_path s) of
             None \<Rightarrow> (w, upd (increment_shipment_attempts now))
           | Some body \<Rightarrow>
               let (w', rep) = post w (receive_url (rs_endpoint sh)) (wire_for C E sh s body) in
               (w', upd (if rep = Accepted then mark_shipment_shipped now
                         else increment_shipment_attempts now)))))"

definition ship_pending_segments ::
  "crypto \<Rightarrow> repl_env \<Rightarrow> int \<Rightarrow> ('w \<Rightarrow> string \<Rightarrow> wire_segment \<Rightarrow> 'w \<times> reply) \<Rightarrow> 'w \<times> store \<Rightarrow> 'w \<times> store" where
  "ship_pending_segments C E now post ws =
     foldl (ship_one C E now post) ws (get_pending_shipments (sdb (snd ws)))"

section \<open>The replica\<close>

definition link_hash :: "crypto \<Rightarrow> string \<Rightarrow> string \<Rightarrow> repl_error + string" where
  "link_hash C prev body =
     (if prev = [] then Inr (hex_encode C (sha256 C body))
      else rbind (ok_or Prev_not_hex (hex_decode C prev)) (\<lambda>p. Inr (hex_encode C (sha256 C (p @ body)))))"

definition check_link :: "string \<Rightarrow> int \<Rightarrow> (string \<times> int) option \<Rightarrow> repl_error + unit" where
  "check_link prev idx latest = (case latest of
     Some (latest_hash, latest_idx) \<Rightarrow>
       guard (prev = latest_hash) Chain_break (guard (idx = i64_succ latest_idx) Index_gap (Inr ()))
   | None \<Rightarrow> Inr ())"

definition stored_segment :: "string \<Rightarrow> wire_segment \<Rightarrow> wal_segment" where
  "stored_segment stored_path g =
     \<lparr>ws_instance = sg_instance g, ws_name = sg_name g, ws_hash = sg_hash g, ws_previous_hash = sg_prev g,
      ws_path = stored_path, ws_size = int (length (sg_body g)), ws_chain_index = sg_index g\<rparr>"

text \<open>The checks in their order, then the write, which comes before the row.\<close>

definition admit_segment ::
  "crypto \<Rightarrow> repl_env \<Rightarrow> (path \<Rightarrow> bool) \<Rightarrow> (path \<Rightarrow> path option) \<Rightarrow> string \<Rightarrow> wire_segment \<Rightarrow> store \<Rightarrow>
   repl_error + path" where
  "admit_segment C E ex canon dd g st =
     rbind (map_sum Bad_path id (validate_instance_id_component (sg_instance g))) (\<lambda>_.
     rbind (map_sum Bad_path id (validate_segment_name (sg_name g))) (\<lambda>_.
     rbind (verify_replication_sig C E (sg_sig g) (sg_instance g) (sg_name g) (sg_hash g) (sg_prev g) (sg_index g)) (\<lambda>_.
     guard (\<not> length (sg_body g) < NONCE_LEN + 16) Body_too_small (
     rbind (link_hash C (sg_prev g) (sg_body g)) (\<lambda>h.
     guard (h = sg_hash g) Hash_mismatch (
     rbind (check_link (sg_prev g) (sg_index g) (latest_replica_hash (sg_instance g) (sdb st))) (\<lambda>_.
     map_sum Bad_path id (safe_join_under ex canon (replica_dir dd (sg_instance g)) [sg_name g @ ''.enc'']))))))))"

definition receive_segment ::
  "crypto \<Rightarrow> repl_env \<Rightarrow> (path \<Rightarrow> bool) \<Rightarrow> (path \<Rightarrow> path option) \<Rightarrow> string \<Rightarrow> bool \<Rightarrow> wire_segment \<Rightarrow> store \<Rightarrow>
   (repl_error + wal_segment) \<times> store" where
  "receive_segment C E ex canon dd written g st =
     (case admit_segment C E ex canon dd g st of Inl e \<Rightarrow> (Inl e, st) | Inr p \<Rightarrow>
      if \<not> written then (Inl Io_failed, st)
      else
        let row = stored_segment (path_text p) g;
            st1 = st\<lparr>blobs := (blobs st)(path_text p \<mapsto> sg_body g)\<rparr>
        in case insert_replica_segment row (sdb st1) of
             Inl e \<Rightarrow> (Inl (Repl_db e), st1)
           | Inr d \<Rightarrow> (Inr row, st1\<lparr>sdb := d\<rparr>))"

definition get_replica_segment_bytes ::
  "(path \<Rightarrow> bool) \<Rightarrow> (path \<Rightarrow> path option) \<Rightarrow> string \<Rightarrow> string \<Rightarrow> string \<Rightarrow> store \<Rightarrow> repl_error + string option" where
  "get_replica_segment_bytes ex canon dd inst name st =
     rbind (map_sum Bad_path id (validate_instance_id_component inst)) (\<lambda>_.
     rbind (map_sum Bad_path id (validate_segment_name name)) (\<lambda>_.
     rbind (map_sum Bad_path id (safe_join_under ex canon (replica_dir dd inst) [name @ ''.enc''])) (\<lambda>p.
     Inr (blobs st (path_text p)))))"

text \<open>The endpoint: headers by name, those that are text.\<close>

definition receive_replication_handler ::
  "crypto \<Rightarrow> repl_env \<Rightarrow> (path \<Rightarrow> bool) \<Rightarrow> (path \<Rightarrow> path option) \<Rightarrow> string \<Rightarrow> bool \<Rightarrow>
   (string \<Rightarrow> string option) \<Rightarrow> string \<Rightarrow> store \<Rightarrow> (repl_error + wal_segment) \<times> store" where
  "receive_replication_handler C E ex canon dd written headers body st =
     (case rbind (ok_or (Missing_header ''X-Instance-Id'') (headers ''X-Instance-Id'')) (\<lambda>inst.
           rbind (ok_or (Missing_header ''X-Segment-Name'') (headers ''X-Segment-Name'')) (\<lambda>name.
           rbind (ok_or (Missing_header ''X-Segment-Hash'') (headers ''X-Segment-Hash'')) (\<lambda>hash.
           rbind (ok_or (Missing_header ''X-Chain-Index'') (headers ''X-Chain-Index'')) (\<lambda>index.
           rbind (ok_or Bad_chain_index (parse_i64 index)) (\<lambda>k.
           Inr \<lparr>sg_instance = inst, sg_name = name, sg_hash = hash,
             sg_prev = (case headers ''X-Previous-Hash'' of Some p \<Rightarrow> p | None \<Rightarrow> []),
             sg_index = sint k, sg_sig = headers ''X-Replication-Sig'', sg_body = body\<rparr>))))) of
        Inl e \<Rightarrow> (Inl e, st)
      | Inr g \<Rightarrow> receive_segment C E ex canon dd written g st)"

end
