(* ===== verification/Env_Api.thy ===== *)
theory Env_Api
  imports Instance_Manager Env_Vault Replication Sigauth
begin

text \<open>
  The HTTP interface of a node (\<open>main.rs\<close>), first part: the two gates a request passes and the
  handlers of the environment variables of an instance. A handler maps a call and the state of the
  server to a status code with a payload and the state it leaves. What \<open>serde_json\<close> reads from a
  body is a field of the configuration; the clocks, the randomness and the outcomes of Docker and
  of the file system come with the call.
\<close>

section \<open>Configuration, calls, state and responses\<close>

record readers =
  js_set_env :: "string \<Rightarrow> (string \<times> string \<times> bool) option"
  js_extend :: "string \<Rightarrow> (string \<times> int) option"
  js_operator :: "string \<Rightarrow> string option"
  js_pin :: "string \<Rightarrow> (string \<times> int) option"
  js_provision :: "string \<Rightarrow> (provision_request \<times> string list option) option"
  js_redirects :: "string \<Rightarrow> (string \<times> string list \<times> string option) option"
  js_endpoint :: "string \<Rightarrow> string option"

record api_config =
  ac_crypto :: crypto
  ac_node :: node_config
  ac_operator :: "string option"
  ac_allow_missing :: "string option"
  ac_json :: readers

record call =
  ca_headers :: "string \<Rightarrow> string option"
  ca_body :: string
  ca_wall :: i64
  ca_instant :: nat
  ca_time :: int

text \<open>Work a handler leaves to a spawned task.\<close>

datatype task = Recreate_functions string | Replenish | Finalize string | Configure_archiving string

text \<open>\<open>fn_files\<close>: the \<open>.env\<close> file under \<open>volumes/functions\<close>, by instance directory.\<close>

record server =
  sv_node :: node
  sv_nonces :: nonce_map
  fn_files :: "string \<Rightarrow> string option"
  tasks :: "task list"

datatype payload =
    Message string
  | Sig_refused sig_error
  | Key_refused path_error
  | Reserved
  | Apply_error node_error
  | Env_set bool string bool
  | Env_rows "(string \<times> string option \<times> bool \<times> int) list"
  | Env_keys "string list"
  | Env_deleted string bool
  | Env_applied
  | Internal
  | Stats node_stats
  | Provisioned provision_result
  | Instances "instance_row list"
  | Instance instance_row
  | Credentials string string instance_ports instance_secrets
  | Destroyed string
  | Extended string
  | Touched string
  | Resumed string bool
  | Pinned string int
  | Redirects string
  | Replica_added string string bool
  | Replicas "string list"
  | Rotated string
  | Segments "wal_segment list"

type_synonym response = "nat \<times> payload"

abbreviation sdb_of :: "server \<Rightarrow> db" where
  "sdb_of s \<equiv> ndb (sv_node s)"

definition set_db :: "db \<Rightarrow> server \<Rightarrow> server" where
  "set_db d s = s\<lparr>sv_node := (sv_node s)\<lparr>ndb := d\<rparr>\<rparr>"

section \<open>Gates\<close>

definition extract_wallet_header :: "(string \<Rightarrow> string option) \<Rightarrow> response + string" where
  "extract_wallet_header headers =
     (case headers ''X-Wallet-Pubkey'' of
        Some v \<Rightarrow> let w = trim v in
          guard (w \<noteq> []) (401, Message ''missing or invalid X-Wallet-Pubkey header'') (Inr w)
      | None \<Rightarrow> Inl (401, Message ''missing or invalid X-Wallet-Pubkey header''))"

definition require_owned_instance :: "string \<Rightarrow> string \<Rightarrow> db \<Rightarrow> response + instance_row" where
  "require_owned_instance inst wallet d =
     (case get_instance_by_id inst d of
        None \<Rightarrow> Inl (404, Message ''instance not found'')
      | Some i \<Rightarrow> guard (in_wallet i = wallet) (403, Message ''wallet does not own this instance'') (Inr i))"

text \<open>A handler goes on behind a signature check, with the nonces it has recorded.\<close>

definition call_request :: "call \<Rightarrow> string \<Rightarrow> string \<Rightarrow> string \<Rightarrow> string \<Rightarrow> request" where
  "call_request c method rpath body signer =
     \<lparr>rq_headers = ca_headers c, rq_method = method, rq_path = rpath, rq_body = body, rq_signer = signer\<rparr>"

definition signed ::
  "api_config \<Rightarrow> call \<Rightarrow> string \<Rightarrow> string \<Rightarrow> string \<Rightarrow> string \<Rightarrow>
   (server \<Rightarrow> response \<times> server) \<Rightarrow> server \<Rightarrow> response \<times> server" where
  "signed A c method rpath body signer k s =
     (case verify_request_sig (ac_crypto A) (sigauth_missing_allowed (ac_allow_missing A)) (ca_wall c)
         (ca_instant c) (call_request c method rpath body signer) (sv_nonces s) of
        (Inl e, m) \<Rightarrow> ((401, Sig_refused e), s\<lparr>sv_nonces := m\<rparr>)
      | (Inr _, m) \<Rightarrow> k (s\<lparr>sv_nonces := m\<rparr>))"

text \<open>The three checks at the head of every handler of environment variables.\<close>

definition owner_signed ::
  "api_config \<Rightarrow> call \<Rightarrow> string \<Rightarrow> string \<Rightarrow> string \<Rightarrow> string \<Rightarrow>
   (server \<Rightarrow> response \<times> server) \<Rightarrow> server \<Rightarrow> response \<times> server" where
  "owner_signed A c method rpath body inst k s =
     (case extract_wallet_header (ca_headers c) of Inl r \<Rightarrow> (r, s) | Inr wallet \<Rightarrow>
      (case require_owned_instance inst wallet (sdb_of s) of Inl r \<Rightarrow> (r, s) | Inr _ \<Rightarrow>
       signed A c method rpath body wallet k s))"

section \<open>Writing the environment of the functions container\<close>

text \<open>
  \<open>File_broken\<close>: the write failed and left the given contents. Recreating the container is spawned,
  so its outcome is not part of the result.
\<close>

datatype write_outcome = Dir_failed | File_broken "string option" | File_written

definition apply_env_to_functions ::
  "crypto \<Rightarrow> write_outcome \<Rightarrow> string \<Rightarrow> server \<Rightarrow> (node_error + unit) \<times> server" where
  "apply_env_to_functions C w inst s =
     (case get_instance_by_id inst (sdb_of s) of None \<Rightarrow> (Inl Instance_not_found, s) | Some i \<Rightarrow>
      if w = Dir_failed then (Inl Files_failed, s)
      else (case list_env C inst (sdb_of s) of Inl e \<Rightarrow> (Inl (Db_failed e), s) | Inr entries \<Rightarrow>
        (case w of
           File_broken left \<Rightarrow> (Inl Files_failed, s\<lparr>fn_files := (fn_files s)(in_dir i := left)\<rparr>)
         | _ \<Rightarrow> (Inr (), s\<lparr>fn_files := (fn_files s)(in_dir i \<mapsto> functions_env_file entries),
               tasks := tasks s @ [Recreate_functions inst]\<rparr>))))"

text \<open>Up to two attempts; the error of the last one.\<close>

fun apply_attempts ::
  "crypto \<Rightarrow> write_outcome list \<Rightarrow> string \<Rightarrow> server \<Rightarrow> node_error option \<times> server" where
  "apply_attempts C [] inst s = (None, s)"
| "apply_attempts C (w # ws) inst s =
     (case apply_env_to_functions C w inst s of
        (Inr _, s1) \<Rightarrow> (None, s1)
      | (Inl e, s1) \<Rightarrow> if ws = [] then (Some e, s1) else apply_attempts C ws inst s1)"

section \<open>The handlers\<close>

text \<open>\<open>main.rs\<close> has its own copy of the key check.\<close>

definition check_env_key :: "string \<Rightarrow> path_error + unit" where
  "check_env_key key = (case key of
     [] \<Rightarrow> Inl IsEmpty
   | first # chars \<Rightarrow>
       guard (\<not> 128 < length key) TooLong (
       guard (is_ascii_alphabetic first \<or> first = CHR ''_'') BadStart (
       guard (list_all (\<lambda>c. is_ascii_alphanumeric c \<or> c = CHR ''_'') chars) InvalidCharacter (Inr ()))))"

definition env_path :: "string \<Rightarrow> string" where
  "env_path inst = ''/instances/'' @ inst @ ''/env''"

definition set_env_handler ::
  "api_config \<Rightarrow> call \<Rightarrow> string \<Rightarrow> write_outcome \<times> write_outcome \<Rightarrow> string \<Rightarrow> server \<Rightarrow> response \<times> server" where
  "set_env_handler A c nonce ws inst =
     owner_signed A c ''POST'' (env_path inst) (ca_body c) inst (\<lambda>s.
       case js_set_env (ac_json A) (ca_body c) of
         None \<Rightarrow> ((400, Message ''invalid JSON body''), s)
       | Some (key, val, protected) \<Rightarrow>
           (case check_env_key key of Inl e \<Rightarrow> ((400, Key_refused e), s) | Inr _ \<Rightarrow>
            if 1048576 < length val then ((400, Message ''value exceeds 1 MiB''), s)
            else (case upsert_env_with_protection (ac_crypto A) nonce (ca_time c) inst key val protected (sdb_of s) of
               Inl e \<Rightarrow> (if e = Reserved_key then (409, Reserved)
                         else (500, Message ''failed to persist env var''), s)
             | Inr d \<Rightarrow>
                 (case apply_attempts (ac_crypto A) [fst ws, snd ws] inst (set_db d s) of
                    (Some e, s1) \<Rightarrow> ((if protected then 503 else 200, Env_set (\<not> protected) key False), s1)
                  | (None, s1) \<Rightarrow> ((200, Env_set True key True), s1)))))"

text \<open>A protected row is listed without its value.\<close>

definition shown_row :: "string \<times> string \<times> bool \<times> int \<Rightarrow> string \<times> string option \<times> bool \<times> int" where
  "shown_row = (\<lambda>(k, v, prot, ts). (k, if prot then None else Some v, prot, ts))"

definition list_env_handler :: "api_config \<Rightarrow> call \<Rightarrow> string \<Rightarrow> server \<Rightarrow> response \<times> server" where
  "list_env_handler A c inst =
     owner_signed A c ''GET'' (env_path inst) [] inst (\<lambda>s.
       (case list_env_full_with_protection (ac_crypto A) inst (sdb_of s) of
          Inr rows \<Rightarrow> (200, Env_rows (map shown_row rows))
        | Inl e \<Rightarrow> (500, Message ''failed to list env''), s))"

definition list_env_keys_handler :: "api_config \<Rightarrow> call \<Rightarrow> string \<Rightarrow> server \<Rightarrow> response \<times> server" where
  "list_env_keys_handler A c inst =
     owner_signed A c ''GET'' (env_path inst @ ''/keys'') [] inst (\<lambda>s.
       ((200, Env_keys (get_env_keys inst (sdb_of s))), s))"

definition delete_env_handler ::
  "api_config \<Rightarrow> call \<Rightarrow> write_outcome \<Rightarrow> string \<Rightarrow> string \<Rightarrow> server \<Rightarrow> response \<times> server" where
  "delete_env_handler A c w inst key =
     owner_signed A c ''DELETE'' (env_path inst @ ''/'' @ key) [] inst (\<lambda>s.
       case check_env_key key of Inl e \<Rightarrow> ((400, Key_refused e), s) | Inr _ \<Rightarrow>
         (case delete_env inst key (sdb_of s) of
            (False, d) \<Rightarrow> ((404, Message ''key not found''), set_db d s)
          | (True, d) \<Rightarrow>
              (case apply_env_to_functions (ac_crypto A) w inst (set_db d s) of
                 (Inl e, s1) \<Rightarrow> ((200, Env_deleted key False), s1)
               | (Inr _, s1) \<Rightarrow> ((200, Env_deleted key True), s1))))"

definition apply_env_handler :: "api_config \<Rightarrow> call \<Rightarrow> write_outcome \<Rightarrow> string \<Rightarrow> server \<Rightarrow> response \<times> server" where
  "apply_env_handler A c w inst =
     owner_signed A c ''POST'' (env_path inst @ ''/apply'') [] inst (\<lambda>s.
       case apply_env_to_functions (ac_crypto A) w inst s of
         (Inr _, s1) \<Rightarrow> ((200, Env_applied), s1)
       | (Inl e, s1) \<Rightarrow> ((500, Apply_error e), s1))"

end
