(* ===== verification/Ipfs.thy ===== *)
theory Ipfs
  imports Env_Api "HOL-Library.Signed_Division"
begin

text \<open>
  Pinning content (\<open>main.rs\<close>): names made harmless, the daily quota of a wallet, the two forms of
  a pin request, and reading pinned content back. Kubo's answers, what \<open>serde_json\<close> reads, which MIME
  types \<open>reqwest\<close> takes and which characters beyond ASCII are alphanumeric are arguments.
\<close>

section \<open>Names\<close>

text \<open>The characters of a UTF-8 string, each as its bytes.\<close>

definition char_width :: "char \<Rightarrow> nat" where
  "char_width c = (if byte c < 128 then 1 else if byte c < 224 then 2 else if byte c < 240 then 3 else 4)"

function chars_of :: "string \<Rightarrow> string list" where
  "chars_of [] = []"
| "chars_of (a # s) = take (char_width a) (a # s) # chars_of (drop (char_width a) (a # s))"
  by pat_completeness auto
termination
  by (relation "measure length") (auto simp: char_width_def)

definition keep_chars :: "(string \<Rightarrow> bool) \<Rightarrow> string \<Rightarrow> string" where
  "keep_chars P s = concat (filter P (chars_of s))"

text \<open>\<open>char::is_alphanumeric\<close>, with \<open>wide\<close> for the characters beyond ASCII.\<close>

definition is_alphanumeric :: "(string \<Rightarrow> bool) \<Rightarrow> string \<Rightarrow> bool" where
  "is_alphanumeric wide c =
     (case c of [a] \<Rightarrow> if byte a < 128 then is_ascii_alphanumeric a else wide c | _ \<Rightarrow> wide c)"

definition sanitise_filename :: "(string \<Rightarrow> bool) \<Rightarrow> string \<Rightarrow> string" where
  "sanitise_filename wide s =
     keep_chars (\<lambda>c. is_alphanumeric wide c \<or> c = ''-'' \<or> c = ''_'' \<or> c = ''.'') s"

definition sanitise_path :: "(string \<Rightarrow> bool) \<Rightarrow> string \<Rightarrow> string" where
  "sanitise_path wide s =
     (let cleaned = keep_chars (\<lambda>c. is_alphanumeric wide c \<or> c = ''-'' \<or> c = ''_'' \<or> c = ''.'' \<or> c = ''/'') s
      in join ''/'' (filter (\<lambda>seg. seg \<noteq> [] \<and> seg \<noteq> ''.'' \<and> seg \<noteq> ''..'') (split_on (CHR ''/'') cleaned)))"

definition sanitise_cid :: "(string \<Rightarrow> bool) \<Rightarrow> string \<Rightarrow> string" where
  "sanitise_cid wide s = keep_chars (is_alphanumeric wide) s"

section \<open>The daily quota\<close>

type_synonym quota = "string \<times> int \<Rightarrow> u64 option"

text \<open>\<open>str::parse::<u64>\<close>: an optional plus sign, at least one digit, in range.\<close>

definition parse_u64 :: "string \<Rightarrow> u64 option" where
  "parse_u64 s =
     (case parse_nat (case s of c # r \<Rightarrow> if c = CHR ''+'' then r else s | [] \<Rightarrow> []) of
        Some n \<Rightarrow> if n < 2 ^ 64 then Some (of_nat n) else None | None \<Rightarrow> None)"

definition ipfs_daily_quota_bytes :: "string option \<Rightarrow> u64" where
  "ipfs_daily_quota_bytes setting =
     (case Option.bind setting parse_u64 of Some n \<Rightarrow> n | None \<Rightarrow> 100 * 1024 * 1024)"

definition utc_day :: "int \<Rightarrow> int" where
  "utc_day now = now sdiv 86400"

definition ipfs_check_and_charge ::
  "u64 \<Rightarrow> int \<Rightarrow> string \<Rightarrow> u64 \<Rightarrow> quota \<Rightarrow> (u64 + unit) \<times> quota" where
  "ipfs_check_and_charge cap now wallet add_bytes m =
     (let today = utc_day now;
          m1 = (\<lambda>(w, day). if today - 1 \<le> day then m (w, day) else None);
          entry = (case m1 (wallet, today) of Some n \<Rightarrow> n | None \<Rightarrow> 0);
          next = saturating_add entry add_bytes
      in if cap < next then (Inl (saturating_sub cap entry), m1((wallet, today) \<mapsto> entry))
         else (Inr (), m1((wallet, today) \<mapsto> next)))"

section \<open>Requests and state\<close>

record pin_file =
  pf_path :: string
  pf_content :: string
  pf_content_type :: string
  pf_encoding :: string

record pin_request =
  pin_content :: "string option"
  pin_files :: "pin_file list option"
  pin_filename :: string
  pin_content_type :: string
  pin_wallet :: string

text \<open>The sidecar file of a CID; \<open>Unreadable_meta\<close> is one whose JSON does not parse.\<close>

datatype ipfs_meta =
    Directory_meta string "(string \<times> string) list" string nat
  | File_meta string string string string nat
  | Unreadable_meta

datatype meta_outcome = Meta_dir_failed | Meta_broken "ipfs_meta option" | Meta_written

datatype kubo_answer = Kubo_unreachable | Kubo_answered nat "string option"

text \<open>A call of \<open>/api/v0/add\<close>: the URL and its parts, each with file name, MIME type and bytes.\<close>

datatype kubo_call = Kubo_add string "(string \<times> string \<times> string) list"

record ipfs_env =
  ie_crypto :: crypto
  ie_allow_missing :: "string option"
  ie_quota :: "string option"
  ie_api_url :: string
  ie_gateway_url :: string
  ie_hostname :: string
  ie_api_port :: u16
  ie_wide :: "string \<Rightarrow> bool"
  ie_mime :: "string \<Rightarrow> bool"
  js_ipfs_pin :: "string \<Rightarrow> pin_request option"
  js_kubo_add :: "string \<Rightarrow> (string \<times> string) option"

record ipfs_state =
  is_nonces :: nonce_map
  is_quota :: quota
  is_meta :: "string \<Rightarrow> ipfs_meta option"

datatype ipfs_payload =
    I_internal
  | I_message string
  | I_sig_refused sig_error
  | I_quota_exceeded u64 u64
  | I_bad_path string
  | I_bad_base64 string
  | I_bad_encoding string string
  | I_kubo_unreachable
  | I_kubo_failed nat string
  | I_kubo_silent string
  | I_pinned string string string nat "nat option"

type_synonym ipfs_outcome = "(nat \<times> ipfs_payload) \<times> kubo_call option \<times> ipfs_state"

section \<open>Pinning\<close>

definition mime_or_default :: "string \<Rightarrow> string" where
  "mime_or_default t = (if t = [] then ''application/octet-stream'' else t)"

text \<open>One file of a bundle: its part and its line of the manifest.\<close>

definition pin_part ::
  "ipfs_env \<Rightarrow> pin_file \<Rightarrow> (nat \<times> ipfs_payload) + (string \<times> string \<times> string) \<times> (string \<times> string)" where
  "pin_part E f =
     (let safe_path = sanitise_path (ie_wide E) (pf_path f) in
      guard (safe_path \<noteq> []) (400, I_bad_path (pf_path f)) (
      rbind (if pf_encoding f \<in> {'''', ''utf8'', ''utf-8''} then Inr (pf_content f)
             else if pf_encoding f = ''base64'' then
               ok_or (400, I_bad_base64 safe_path) (b64_decode (ie_crypto E) (trim (pf_content f)))
             else Inl (400, I_bad_encoding (pf_encoding f) safe_path)) (\<lambda>content.
      guard (ie_mime E (mime_or_default (pf_content_type f))) (500, I_internal)
        (Inr ((safe_path, mime_or_default (pf_content_type f), content), (safe_path, pf_content_type f))))))"

fun pin_parts ::
  "ipfs_env \<Rightarrow> pin_file list \<Rightarrow>
   (nat \<times> ipfs_payload) + (string \<times> string \<times> string) list \<times> (string \<times> string) list" where
  "pin_parts E [] = Inr ([], [])"
| "pin_parts E (f # fs) =
     rbind (pin_part E f) (\<lambda>(part, line). rbind (pin_parts E fs) (\<lambda>(ps, ls). Inr (part # ps, line # ls)))"

definition write_meta :: "meta_outcome \<Rightarrow> string \<Rightarrow> ipfs_meta \<Rightarrow> ipfs_state \<Rightarrow> bool \<times> ipfs_state" where
  "write_meta w cid meta s = (case w of
     Meta_dir_failed \<Rightarrow> (False, s)
   | Meta_broken left \<Rightarrow> (False, s\<lparr>is_meta := (is_meta s)(cid @ ''.json'' := left)\<rparr>)
   | Meta_written \<Rightarrow> (True, s\<lparr>is_meta := (is_meta s)(cid @ ''.json'' \<mapsto> meta)\<rparr>))"

definition gateway_url :: "ipfs_env \<Rightarrow> string \<Rightarrow> string" where
  "gateway_url E cid =
     ''http://'' @ ie_hostname E @ '':'' @ show_u16 (ie_api_port E) @ ''/ipfs/'' @ cid"

text \<open>The root of the bundle: the entry without a name, else the last.\<close>

definition root_entry :: "(string \<times> string) list \<Rightarrow> string" where
  "root_entry entries =
     (case find (\<lambda>(hash, name). trim name = []) entries of
        Some (hash, _) \<Rightarrow> hash | None \<Rightarrow> fst (last entries))"

definition pin_bundle ::
  "ipfs_env \<Rightarrow> kubo_answer \<Rightarrow> meta_outcome \<Rightarrow> string \<Rightarrow> pin_file list \<Rightarrow> ipfs_state \<Rightarrow> ipfs_outcome" where
  "pin_bundle E kubo w wallet files s =
     (case pin_parts E files of Inl r \<Rightarrow> (r, None, s) | Inr (parts, manifest) \<Rightarrow>
      let sent = Some (Kubo_add (trim_end_slashes (ie_api_url E) @
                   ''/api/v0/add?cid-version=1&pin=true&wrap-with-directory=true&progress=false'') parts);
          total_size = sum_list (map (\<lambda>(_, _, content). length content) parts)
      in case kubo of
           Kubo_unreachable \<Rightarrow> ((502, I_kubo_unreachable), sent, s)
         | Kubo_answered status body \<Rightarrow>
             if \<not> (200 \<le> status \<and> status < 300) then
               ((502, I_kubo_failed status (case body of Some b \<Rightarrow> b | None \<Rightarrow> [])), sent, s)
             else (case body of None \<Rightarrow> ((500, I_internal), sent, s) | Some text \<Rightarrow>
               let entries = List.map_filter (js_kubo_add E) (filter (\<lambda>l. trim l \<noteq> []) (text_lines text)) in
               if entries = [] then ((502, I_kubo_silent text), sent, s)
               else let cid = root_entry entries in
                 (case write_meta w cid (Directory_meta cid manifest wallet total_size) s of
                    (False, s1) \<Rightarrow> ((500, I_internal), sent, s1)
                  | (True, s1) \<Rightarrow>
                      ((201, I_pinned cid (gateway_url E cid @ ''/'') (''https://ipfs.io/ipfs/'' @ cid @ ''/'')
                          total_size (Some (length files))), sent, s1))))"

definition pin_single ::
  "ipfs_env \<Rightarrow> kubo_answer \<Rightarrow> meta_outcome \<Rightarrow> pin_request \<Rightarrow> ipfs_state \<Rightarrow> ipfs_outcome" where
  "pin_single E kubo w rq s =
     (let content = (case pin_content rq of Some t \<Rightarrow> t | None \<Rightarrow> []);
          raw_filename = (if pin_filename rq = [] then ''index.html'' else pin_filename rq);
          safe_filename = sanitise_filename (ie_wide E) raw_filename;
          mime = mime_or_default (pin_content_type rq)
      in if safe_filename = [] then ((400, I_message ''filename contains only invalid characters''), None, s)
         else if \<not> ie_mime E mime then ((500, I_internal), None, s)
         else
           let sent = Some (Kubo_add (trim_end_slashes (ie_api_url E) @
                        ''/api/v0/add?cid-version=1&pin=true&progress=false'') [(safe_filename, mime, content)])
           in case kubo of
                Kubo_unreachable \<Rightarrow> ((502, I_kubo_unreachable), sent, s)
              | Kubo_answered status body \<Rightarrow>
                  if \<not> (200 \<le> status \<and> status < 300) then
                    ((502, I_kubo_failed status (case body of Some b \<Rightarrow> b | None \<Rightarrow> [])), sent, s)
                  else (case body of None \<Rightarrow> ((500, I_internal), sent, s) | Some text \<Rightarrow>
                    let last_line = (case find (\<lambda>l. trim l \<noteq> []) (rev (text_lines text)) of
                                       Some l \<Rightarrow> l | None \<Rightarrow> [])
                    in case js_kubo_add E last_line of None \<Rightarrow> ((500, I_internal), sent, s) | Some (cid, _) \<Rightarrow>
                      (case write_meta w cid
                          (File_meta cid safe_filename (pin_content_type rq) (pin_wallet rq) (length content)) s of
                         (False, s1) \<Rightarrow> ((500, I_internal), sent, s1)
                       | (True, s1) \<Rightarrow>
                           ((201, I_pinned cid (gateway_url E cid) (''https://ipfs.io/ipfs/'' @ cid)
                               (length content) None), sent, s1))))"

definition multi_mode :: "pin_request \<Rightarrow> bool" where
  "multi_mode rq = (case pin_files rq of Some fs \<Rightarrow> fs \<noteq> [] | None \<Rightarrow> False)"

definition ipfs_pin_handler ::
  "ipfs_env \<Rightarrow> call \<Rightarrow> kubo_answer \<Rightarrow> meta_outcome \<Rightarrow> ipfs_state \<Rightarrow> ipfs_outcome" where
  "ipfs_pin_handler E c kubo w s =
     (case js_ipfs_pin E (ca_body c) of None \<Rightarrow> ((500, I_internal), None, s) | Some rq \<Rightarrow>
      if pin_wallet rq = [] then ((400, I_message ''walletPubkey is required''), None, s)
      else (case verify_request_sig (ie_crypto E) (sigauth_missing_allowed (ie_allow_missing E)) (ca_wall c)
          (ca_instant c) (call_request c ''POST'' ''/ipfs/pin'' (ca_body c) (pin_wallet rq)) (is_nonces s) of
        (Inl e, m) \<Rightarrow> ((401, I_sig_refused e), None, s\<lparr>is_nonces := m\<rparr>)
      | (Inr _, m) \<Rightarrow>
          let s1 = s\<lparr>is_nonces := m\<rparr> in
          if \<not> multi_mode rq \<and> (pin_content rq = None \<or> pin_content rq = Some []) then
            ((400, I_message ''either `content` (single-file) or `files` (multi-file SPA) is required''), None, s1)
          else
            let cap = ipfs_daily_quota_bytes (ie_quota E) in
            case ipfs_check_and_charge cap (ca_time c) (pin_wallet rq) (of_nat (length (ca_body c))) (is_quota s1) of
              (Inl remaining, q) \<Rightarrow> ((429, I_quota_exceeded remaining cap), None, s1\<lparr>is_quota := q\<rparr>)
            | (Inr _, q) \<Rightarrow>
                let s2 = s1\<lparr>is_quota := q\<rparr> in
                if multi_mode rq then pin_bundle E kubo w (pin_wallet rq) (the (pin_files rq)) s2
                else pin_single E kubo w rq s2))"

section \<open>Reading pinned content\<close>

text \<open>The gateway's answer: status, content type, body (\<open>None\<close> when it cannot be read).\<close>

datatype gateway_answer = Gateway_unreachable | Gateway_answered nat "string option" "string option"

datatype ipfs_content =
    C_invalid
  | C_unreachable string
  | C_unavailable string
  | C_internal
  | C_content string string

definition meta_content_type :: "ipfs_meta option \<Rightarrow> string option" where
  "meta_content_type meta =
     (case meta of Some (File_meta _ _ t _ _) \<Rightarrow> if t = [] then None else Some t | _ \<Rightarrow> None)"

definition ipfs_get_handler ::
  "ipfs_env \<Rightarrow> (string \<Rightarrow> gateway_answer) \<Rightarrow> string \<Rightarrow> ipfs_state \<Rightarrow> nat \<times> ipfs_content" where
  "ipfs_get_handler E gateway cid s =
     (let safe_cid = sanitise_cid (ie_wide E) cid in
      if safe_cid = [] then (400, C_invalid)
      else
        let content_type = meta_content_type (is_meta s (safe_cid @ ''.json''));
            public = ''https://ipfs.io/ipfs/'' @ safe_cid
        in case gateway (trim_end_slashes (ie_gateway_url E) @ ''/ipfs/'' @ safe_cid) of
             Gateway_unreachable \<Rightarrow> (502, C_unreachable public)
           | Gateway_answered status upstream_ct body \<Rightarrow>
               (case body of None \<Rightarrow> (500, C_internal) | Some content \<Rightarrow>
                 if \<not> (200 \<le> status \<and> status < 300) then (status, C_unavailable public)
                 else (200, C_content
                   (case content_type of Some t \<Rightarrow> t | None \<Rightarrow>
                      (case upstream_ct of Some t \<Rightarrow> t | None \<Rightarrow> ''application/octet-stream'')) content)))"

section \<open>What a call charges and what it sends\<close>

definition used :: "quota \<Rightarrow> string \<Rightarrow> int \<Rightarrow> nat" where
  "used m w d = (case m (w, d) of Some n \<Rightarrow> unat n | None \<Rightarrow> 0)"

lemma charge_accepts:
  assumes "ipfs_check_and_charge cap now w n m = (Inr u, m')" "cap \<noteq> - 1"
  shows "used m' w (utc_day now) = used m w (utc_day now) + unat n"
    "used m' w (utc_day now) \<le> unat cap"
proof -
  define entry where "entry = (case m (w, utc_day now) of Some k \<Rightarrow> k | None \<Rightarrow> 0)"
  have m': "m' (w, utc_day now) = Some (saturating_add entry n)" and le: "saturating_add entry n \<le> cap"
    using assms(1) by (auto simp: ipfs_check_and_charge_def Let_def entry_def split: if_splits option.splits)
  have entry: "unat entry = used m w (utc_day now)"
    by (simp add: entry_def used_def split: option.split)
  have "saturating_add entry n \<noteq> - 1"
    using le assms(2) word_order.extremum_uniqueI [of cap] by metis
  then have "unat (saturating_add entry n) = unat entry + unat n"
    by (auto simp: saturating_add_def unat_word_ariths split: if_splits)
  then show "used m' w (utc_day now) = used m w (utc_day now) + unat n"
    "used m' w (utc_day now) \<le> unat cap"
    using m' le entry by (simp_all add: used_def word_le_nat_alt)
qed

lemma charge_keeps:
  assumes "ipfs_check_and_charge cap now w n m = (r, m')" "utc_day now - 1 \<le> d"
    "(w', d) \<noteq> (w, utc_day now) \<or> r \<noteq> Inr ()"
  shows "used m' w' d = used m w' d"
  using assms
  by (auto simp: ipfs_check_and_charge_def used_def Let_def split: if_splits option.splits)

lemma pin_quota [simp]:
  "is_quota (snd (snd (pin_bundle E kubo w wallet files s))) = is_quota s"
  "is_quota (snd (snd (pin_single E kubo w rq s))) = is_quota s"
  by (auto simp: pin_bundle_def pin_single_def write_meta_def Let_def
      split: sum.split prod.split kubo_answer.split option.split meta_outcome.split bool.split)

text \<open>What a bundle or a single file sends, when it sends anything.\<close>

lemma pin_bundle_sent:
  "fst (snd (pin_bundle E kubo w wallet files s)) = Some q \<Longrightarrow>
     \<exists>url parts manifest. q = Kubo_add url parts \<and> pin_parts E files = Inr (parts, manifest)"
  by (auto simp: pin_bundle_def Let_def
      split: sum.splits prod.splits kubo_answer.splits option.splits if_splits bool.splits)

lemma pin_single_sent:
  "fst (snd (pin_single E kubo w rq s)) = Some q \<Longrightarrow>
     \<exists>url mime safe. q = Kubo_add url [(safe, mime, case pin_content rq of Some t \<Rightarrow> t | None \<Rightarrow> [])] \<and>
       safe = sanitise_filename (ie_wide E) (if pin_filename rq = [] then ''index.html'' else pin_filename rq) \<and>
       safe \<noteq> []"
  by (auto simp: pin_single_def Let_def
      split: prod.splits kubo_answer.splits option.splits if_splits bool.splits)

definition accepted_pin :: "ipfs_env \<Rightarrow> call \<Rightarrow> pin_request \<Rightarrow> nonce_map \<Rightarrow> bool" where
  "accepted_pin E c rq m \<longleftrightarrow> js_ipfs_pin E (ca_body c) = Some rq \<and>
     is_ok (fst (verify_request_sig (ie_crypto E) (sigauth_missing_allowed (ie_allow_missing E)) (ca_wall c)
       (ca_instant c) (call_request c ''POST'' ''/ipfs/pin'' (ca_body c) (pin_wallet rq)) m))"

lemma handler_sends:
  assumes "ipfs_pin_handler E c kubo w s = (r, Some q, s')"
  shows "\<exists>rq. accepted_pin E c rq (is_nonces s) \<and>
    ipfs_check_and_charge (ipfs_daily_quota_bytes (ie_quota E)) (ca_time c) (pin_wallet rq)
      (of_nat (length (ca_body c))) (is_quota s) = (Inr (), is_quota s') \<and>
    (\<exists>s2. fst (snd (if multi_mode rq then pin_bundle E kubo w (pin_wallet rq) (the (pin_files rq)) s2
            else pin_single E kubo w rq s2)) = Some q)"
proof -
  obtain rq where rq: "js_ipfs_pin E (ca_body c) = Some rq" "pin_wallet rq \<noteq> []"
    using assms by (auto simp: ipfs_pin_handler_def split: option.splits if_splits)
  obtain v m where v: "verify_request_sig (ie_crypto E) (sigauth_missing_allowed (ie_allow_missing E)) (ca_wall c)
      (ca_instant c) (call_request c ''POST'' ''/ipfs/pin'' (ca_body c) (pin_wallet rq)) (is_nonces s) = (Inr v, m)"
    using assms rq by (auto simp: ipfs_pin_handler_def split: sum.splits prod.splits)
  define s1 where "s1 = s\<lparr>is_nonces := m\<rparr>"
  have content: "multi_mode rq \<or> \<not> (pin_content rq = None \<or> pin_content rq = Some [])"
    using assms rq v by (auto simp: ipfs_pin_handler_def Let_def split: if_splits)
  obtain u q' where charge: "ipfs_check_and_charge (ipfs_daily_quota_bytes (ie_quota E)) (ca_time c) (pin_wallet rq)
      (of_nat (length (ca_body c))) (is_quota s) = (Inr u, q')"
    using assms rq v content by (auto simp: ipfs_pin_handler_def Let_def split: sum.splits prod.splits if_splits)
  define s2 where "s2 = s1\<lparr>is_quota := q'\<rparr>"
  have sent: "(if multi_mode rq then pin_bundle E kubo w (pin_wallet rq) (the (pin_files rq)) s2
      else pin_single E kubo w rq s2) = (r, Some q, s')"
    using assms rq v content charge by (auto simp: ipfs_pin_handler_def Let_def s1_def s2_def)
  then have "is_quota s' = is_quota s2"
    by (metis pin_quota snd_conv)
  then have "is_quota s' = q'" by (simp add: s2_def)
  have fst_sent: "fst (snd (if multi_mode rq then pin_bundle E kubo w (pin_wallet rq) (the (pin_files rq)) s2
      else pin_single E kubo w rq s2)) = Some q"
    unfolding sent by simp
  have "accepted_pin E c rq (is_nonces s)" using rq(1) v by (simp add: accepted_pin_def)
  then show ?thesis
    using fst_sent charge \<open>is_quota s' = q'\<close> by (intro exI [of _ rq] conjI exI [of _ s2]) simp_all
qed

text \<open>A call charges its wallet for its day or nobody.\<close>

lemma handler_quota:
  assumes "ipfs_pin_handler E c kubo w s = (r, sent, s')"
  shows "is_quota s' = is_quota s \<or> (\<exists>wallet n r. ipfs_check_and_charge
    (ipfs_daily_quota_bytes (ie_quota E)) (ca_time c) wallet n (is_quota s) = (r, is_quota s'))"
proof -
  have "is_quota (snd (snd (ipfs_pin_handler E c kubo w s))) = is_quota s \<or> (\<exists>wallet n r. ipfs_check_and_charge
    (ipfs_daily_quota_bytes (ie_quota E)) (ca_time c) wallet n (is_quota s) =
      (r, is_quota (snd (snd (ipfs_pin_handler E c kubo w s)))))"
    unfolding ipfs_pin_handler_def Let_def
    by (simp split: option.split sum.split prod.split; fastforce)
  then show ?thesis by (simp add: assms)
qed

lemma charge_monotone:
  assumes "ipfs_check_and_charge cap now w n m = (r, m')" "utc_day now - 1 \<le> d" "cap \<noteq> - 1"
  shows "used m w' d \<le> used m' w' d"
proof (cases "(w', d) = (w, utc_day now) \<and> r = Inr ()")
  case True
  then show ?thesis using charge_accepts(1) [of cap now w n m "()" m'] assms by simp
next
  case False
  then show ?thesis using charge_keeps [OF assms(1,2)] by simp
qed

section \<open>Names and contents\<close>

definition clean_segments :: "string \<Rightarrow> bool" where
  "clean_segments p \<longleftrightarrow>
     (\<forall>seg \<in> set (split_on (CHR ''/'') p). seg \<noteq> [] \<and> seg \<noteq> ''.'' \<and> seg \<noteq> ''..'')"

lemma split_on_no_sep: "seg \<in> set (split_on d s) \<Longrightarrow> d \<notin> set seg"
  by (induction s arbitrary: seg) (auto split: list.splits if_splits)

lemma sanitise_path_clean: "sanitise_path wide p \<noteq> [] \<Longrightarrow> clean_segments (sanitise_path wide p)"
proof -
  assume ne: "sanitise_path wide p \<noteq> []"
  define segs where "segs = filter (\<lambda>seg. seg \<noteq> [] \<and> seg \<noteq> ''.'' \<and> seg \<noteq> ''..'') (split_on (CHR ''/'')
    (keep_chars (\<lambda>c. is_alphanumeric wide c \<or> c = ''-'' \<or> c = ''_'' \<or> c = ''.'' \<or> c = ''/'') p))"
  have p: "sanitise_path wide p = join ''/'' segs"
    by (simp add: sanitise_path_def segs_def)
  then have "segs \<noteq> []" using ne by auto
  moreover have "\<forall>s \<in> set segs. CHR ''/'' \<notin> set s"
    by (auto simp: segs_def dest: split_on_no_sep)
  ultimately have "split_on (CHR ''/'') (join ''/'' segs) = segs" by (rule split_on_join)
  then show ?thesis by (auto simp: clean_segments_def p segs_def)
qed

definition content_bytes :: "kubo_call \<Rightarrow> nat" where
  "content_bytes q = (case q of Kubo_add _ parts \<Rightarrow> sum_list (map (\<lambda>(_, _, content). length content) parts))"

definition part_names :: "kubo_call \<Rightarrow> string list" where
  "part_names q = (case q of Kubo_add _ parts \<Rightarrow> map fst parts)"

text \<open>
  What a JSON text carries is no longer than the text (an escaped character takes at least as many
  bytes as the character), and decoding base64 shrinks.
\<close>

definition request_bytes :: "pin_request \<Rightarrow> nat" where
  "request_bytes rq =
     (case pin_content rq of Some t \<Rightarrow> length t | None \<Rightarrow> 0) +
     (case pin_files rq of Some fs \<Rightarrow> sum_list (map (length \<circ> pf_content) fs) | None \<Rightarrow> 0)"

definition pin_reader_law :: "ipfs_env \<Rightarrow> bool" where
  "pin_reader_law E \<longleftrightarrow> (\<forall>b rq. js_ipfs_pin E b = Some rq \<longrightarrow> request_bytes rq \<le> length b)"

definition b64_shrinks :: "crypto \<Rightarrow> bool" where
  "b64_shrinks C \<longleftrightarrow> (\<forall>s b. b64_decode C s = Some b \<longrightarrow> length b \<le> length s)"

lemma length_trim: "length (trim s) \<le> length s"
  by (simp add: trim_def) (metis length_dropWhile_le length_rev order_trans)

lemma pin_part_ok:
  assumes "pin_part E f = Inr ((name, mime, content), line)" "b64_shrinks (ie_crypto E)"
  shows "clean_segments name \<and> length content \<le> length (pf_content f)"
  using assms length_trim [of "pf_content f"]
  by (auto simp: pin_part_def Let_def ok_simps b64_shrinks_def sanitise_path_clean split: if_splits
      intro: order_trans)

lemma pin_parts_ok:
  assumes "pin_parts E fs = Inr (parts, manifest)" "b64_shrinks (ie_crypto E)"
  shows "(\<forall>(name, _) \<in> set parts. clean_segments name) \<and>
    (\<Sum>(_, _, content)\<leftarrow>parts. length content) \<le> sum_list (map (length \<circ> pf_content) fs)"
  using assms(1)
proof (induction fs arbitrary: parts manifest)
  case (Cons f fs)
  then obtain name mime content line ps ls where
    f: "pin_part E f = Inr ((name, mime, content), line)" and ps: "pin_parts E fs = Inr (ps, ls)"
    and parts: "parts = (name, mime, content) # ps"
    by (auto simp: ok_simps split: prod.splits)
  show ?case using Cons.IH [OF ps] pin_part_ok [OF f assms(2)] by (auto simp: parts)
qed simp

lemma handler_content:
  assumes h: "ipfs_pin_handler E c kubo w s = (r, Some q, s')"
    and laws: "pin_reader_law E" "b64_shrinks (ie_crypto E)"
  shows "content_bytes q \<le> length (ca_body c)"
    and "accepted_pin E c rq (is_nonces s) \<Longrightarrow> multi_mode rq \<Longrightarrow> list_all clean_segments (part_names q)"
proof -
  obtain rq' where a: "accepted_pin E c rq' (is_nonces s)" and
    sent: "\<exists>s2. fst (snd (if multi_mode rq' then pin_bundle E kubo w (pin_wallet rq') (the (pin_files rq')) s2
            else pin_single E kubo w rq' s2)) = Some q"
    using handler_sends [OF h] by blast
  have small: "request_bytes rq' \<le> length (ca_body c)"
    using a laws(1) by (auto simp: accepted_pin_def pin_reader_law_def)
  have both: "content_bytes q \<le> request_bytes rq' \<and> (multi_mode rq' \<longrightarrow> list_all clean_segments (part_names q))"
  proof (cases "multi_mode rq'")
    case True
    then obtain fs where fs: "pin_files rq' = Some fs" by (auto simp: multi_mode_def split: option.splits)
    obtain s2 where "fst (snd (pin_bundle E kubo w (pin_wallet rq') fs s2)) = Some q"
      using sent True fs by auto
    then obtain url parts manifest where q: "q = Kubo_add url parts" and
      parts: "pin_parts E fs = Inr (parts, manifest)"
      using pin_bundle_sent by blast
    from pin_parts_ok [OF parts laws(2)] show ?thesis
      by (simp add: q fs content_bytes_def request_bytes_def part_names_def list_all_iff split_def)
  next
    case False
    then obtain s2 where "fst (snd (pin_single E kubo w rq' s2)) = Some q" using sent by auto
    then obtain url mime safe where
      "q = Kubo_add url [(safe, mime, case pin_content rq' of Some t \<Rightarrow> t | None \<Rightarrow> [])]"
      using pin_single_sent by blast
    then show ?thesis using False
      by (auto simp: content_bytes_def request_bytes_def split: option.splits)
  qed
  then show "content_bytes q \<le> length (ca_body c)" using small by linarith
  show "accepted_pin E c rq (is_nonces s) \<Longrightarrow> multi_mode rq \<Longrightarrow> list_all clean_segments (part_names q)"
    using both a by (auto simp: accepted_pin_def)
qed

section \<open>Runs of pin requests\<close>

type_synonym pin_event = "call \<times> kubo_answer \<times> meta_outcome"

text \<open>What a run sends to Kubo: the calls whose handler reached it, with the state they met.\<close>

fun pin_log :: "ipfs_env \<Rightarrow> pin_event list \<Rightarrow> ipfs_state \<Rightarrow> (call \<times> nonce_map \<times> kubo_call) list" where
  "pin_log E [] s = []"
| "pin_log E ((c, kubo, w) # es) s =
     (case ipfs_pin_handler E c kubo w s of
        (_, Some q, s1) \<Rightarrow> (c, is_nonces s, q) # pin_log E es s1
      | (_, None, s1) \<Rightarrow> pin_log E es s1)"

definition pin_signer :: "ipfs_env \<Rightarrow> call \<Rightarrow> string option" where
  "pin_signer E c = map_option pin_wallet (js_ipfs_pin E (ca_body c))"

definition bytes_of :: "ipfs_env \<Rightarrow> string \<Rightarrow> int \<Rightarrow> call \<times> nonce_map \<times> kubo_call \<Rightarrow> nat" where
  "bytes_of E wallet day = (\<lambda>(c, _, _).
     if pin_signer E c = Some wallet \<and> utc_day (ca_time c) = day then length (ca_body c) else 0)"

definition pinned_bytes :: "ipfs_env \<Rightarrow> string \<Rightarrow> int \<Rightarrow> (call \<times> nonce_map \<times> kubo_call) list \<Rightarrow> nat" where
  "pinned_bytes E wallet day log = sum_list (map (bytes_of E wallet day) log)"

text \<open>The clock may step back, but not by more than a day behind the latest day seen.\<close>

fun clock_steady :: "int \<Rightarrow> pin_event list \<Rightarrow> bool" where
  "clock_steady latest [] = True"
| "clock_steady latest ((c, _, _) # es) \<longleftrightarrow>
     latest - 1 \<le> utc_day (ca_time c) \<and> clock_steady (max latest (utc_day (ca_time c))) es"

definition within_quota :: "u64 \<Rightarrow> int \<Rightarrow> (string \<Rightarrow> int \<Rightarrow> nat) \<Rightarrow> quota \<Rightarrow> bool" where
  "within_quota cap latest past m \<longleftrightarrow>
     (\<forall>w d. past w d \<le> unat cap \<and> (latest - 1 \<le> d \<longrightarrow> past w d \<le> used m w d))"

lemma within_quota_silent:
  assumes "ipfs_pin_handler E c kubo w s = (r, sent, s')" "ipfs_daily_quota_bytes (ie_quota E) \<noteq> - 1"
    "within_quota (ipfs_daily_quota_bytes (ie_quota E)) latest past (is_quota s)"
  shows "within_quota (ipfs_daily_quota_bytes (ie_quota E)) (max latest (utc_day (ca_time c))) past (is_quota s')"
proof -
  have "used (is_quota s) w' d \<le> used (is_quota s') w' d" if "utc_day (ca_time c) - 1 \<le> d" for w' d
    using handler_quota [OF assms(1)] charge_monotone [OF _ that assms(2)] by fastforce
  then have "past w d \<le> used (is_quota s') w d"
    if "max latest (utc_day (ca_time c)) - 1 \<le> d" for w d
    using assms(3) that unfolding within_quota_def by (smt (verit) le_trans)
  then show ?thesis using assms(3) by (simp add: within_quota_def)
qed

lemma within_quota_sent:
  assumes h: "ipfs_pin_handler E c kubo w s = (r, Some q, s')" and cap: "ipfs_daily_quota_bytes (ie_quota E) \<noteq> - 1"
    and inv: "within_quota (ipfs_daily_quota_bytes (ie_quota E)) latest past (is_quota s)"
    and steady: "latest - 1 \<le> utc_day (ca_time c)" and small: "length (ca_body c) < 2 ^ 64"
  shows "within_quota (ipfs_daily_quota_bytes (ie_quota E)) (max latest (utc_day (ca_time c)))
    (\<lambda>w d. past w d + bytes_of E w d (c, m, q)) (is_quota s')"
proof -
  let ?cap = "ipfs_daily_quota_bytes (ie_quota E)" and ?day = "utc_day (ca_time c)"
  obtain rq where rq: "accepted_pin E c rq (is_nonces s)" and
    charge: "ipfs_check_and_charge ?cap (ca_time c) (pin_wallet rq) (of_nat (length (ca_body c))) (is_quota s) =
      (Inr (), is_quota s')"
    using handler_sends [OF h] by blast
  have signer: "pin_signer E c = Some (pin_wallet rq)"
    using rq by (simp add: accepted_pin_def pin_signer_def)
  have n: "unat (of_nat (length (ca_body c)) :: u64) = length (ca_body c)"
    using small by (simp add: unat_of_nat take_bit_nat_eq_self)
  note paid = charge_accepts [OF charge cap, unfolded n]
  have others: "within_quota ?cap (max latest ?day) past (is_quota s')"
    by (rule within_quota_silent [OF h cap inv])
  have "past (pin_wallet rq) ?day \<le> used (is_quota s) (pin_wallet rq) ?day"
    using inv steady by (simp add: within_quota_def)
  then show ?thesis
    using others paid by (auto simp: within_quota_def bytes_of_def signer)
qed

lemma run_within_quota:
  assumes "within_quota (ipfs_daily_quota_bytes (ie_quota E)) latest past (is_quota s)"
    "ipfs_daily_quota_bytes (ie_quota E) \<noteq> - 1" "clock_steady latest es"
    "\<forall>(c, _, _) \<in> set es. length (ca_body c) < 2 ^ 64"
  shows "past w d + pinned_bytes E w d (pin_log E es s) \<le> unat (ipfs_daily_quota_bytes (ie_quota E))"
  using assms(1,3,4)
proof (induction es arbitrary: latest past s)
  case Nil
  then show ?case by (simp add: pinned_bytes_def within_quota_def)
next
  case (Cons e es)
  obtain c kubo luck where e: "e = (c, kubo, luck)" by (cases e)
  obtain r sent s1 where h: "ipfs_pin_handler E c kubo luck s = (r, sent, s1)" by (cases "ipfs_pin_handler E c kubo luck s")
  let ?latest = "max latest (utc_day (ca_time c))"
  have steady: "latest - 1 \<le> utc_day (ca_time c)" "clock_steady ?latest es" and
    small: "length (ca_body c) < 2 ^ 64" "\<forall>(c, _, _) \<in> set es. length (ca_body c) < 2 ^ 64"
    using Cons.prems by (auto simp: e)
  show ?case
  proof (cases sent)
    case None
    then show ?thesis
      using Cons.IH [OF within_quota_silent [OF h assms(2) Cons.prems(1)] steady(2) small(2)] h by (simp add: e)
  next
    case (Some q)
    note h' = h [unfolded Some]
    show ?thesis
      using Cons.IH [OF within_quota_sent [OF h' assms(2) Cons.prems(1) steady(1) small(1), of "is_nonces s"]
          steady(2) small(2)] h'
      by (simp add: e pinned_bytes_def add.assoc)
  qed
qed

lemma pin_log_sent:
  assumes "pin_reader_law E" "b64_shrinks (ie_crypto E)" "(c, m, q) \<in> set (pin_log E es s)"
  shows "\<exists>rq. accepted_pin E c rq m \<and> content_bytes q \<le> length (ca_body c) \<and>
    (multi_mode rq \<longrightarrow> list_all clean_segments (part_names q))"
  using assms(3)
proof (induction es arbitrary: s)
  case (Cons e es)
  obtain c' kubo luck where e: "e = (c', kubo, luck)" by (cases e)
  obtain r sent s1 where h: "ipfs_pin_handler E c' kubo luck s = (r, sent, s1)" by (cases "ipfs_pin_handler E c' kubo luck s")
  show ?case
  proof (cases "(c, m, q) \<in> set (pin_log E es s1)")
    case True
    then show ?thesis by (rule Cons.IH)
  next
    case False
    then have now: "sent = Some q" "c' = c" "m = is_nonces s"
      using Cons.prems h by (auto simp: e split: option.splits)
    note h' = h [unfolded now]
    show ?thesis using handler_sends [OF h'] handler_content [OF h' assms(1,2)] now by blast
  qed
qed simp

text \<open>
  C23: The daily quota of a wallet holds. Start with an empty table and serve any sequence of pin
  requests while the clock never falls more than a day behind: for every wallet and every UTC day
  the bodies of the requests that reach Kubo add up to at most the quota, and what a request sends
  of content is at most its body. Whatever reaches Kubo comes from a request that passed the
  signature check for its wallet, and no path of a bundle has an empty segment, \<open>.\<close> or \<open>..\<close>.
  The quota must not be the largest \<open>u64\<close>, where the addition saturates.
\<close>

theorem daily_quota_holds:
  assumes "ipfs_daily_quota_bytes (ie_quota E) \<noteq> - 1" "is_quota s = (\<lambda>_. None)" "clock_steady latest es"
    "\<forall>(c, _, _) \<in> set es. length (ca_body c) < 2 ^ 64" "pin_reader_law E" "b64_shrinks (ie_crypto E)"
  shows "(\<forall>wallet day. pinned_bytes E wallet day (pin_log E es s) \<le> unat (ipfs_daily_quota_bytes (ie_quota E))) \<and>
    (\<forall>(c, m, q) \<in> set (pin_log E es s). \<exists>rq. accepted_pin E c rq m \<and> content_bytes q \<le> length (ca_body c) \<and>
      (multi_mode rq \<longrightarrow> list_all clean_segments (part_names q)))"
proof -
  have "within_quota (ipfs_daily_quota_bytes (ie_quota E)) latest (\<lambda>_ _. 0) (is_quota s)"
    by (simp add: within_quota_def)
  from run_within_quota [OF this assms(1,3,4)] show ?thesis
    using pin_log_sent [OF assms(5,6)] by auto
qed

definition demo_bundle :: pin_request where
  "demo_bundle = \<lparr>pin_content = None,
     pin_files = Some [\<lparr>pf_path = ''/../a//b.js'', pf_content = ''hi'', pf_content_type = '''', pf_encoding = ''''\<rparr>],
     pin_filename = '''', pin_content_type = '''', pin_wallet = ''w''\<rparr>"

definition demo_ipfs :: ipfs_env where
  "demo_ipfs = \<lparr>ie_crypto = demo_crypto\<lparr>b64_decode := (\<lambda>_. None)\<rparr>, ie_allow_missing = Some ''1'',
     ie_quota = Some ''10'', ie_api_url = ''http://kubo/'', ie_gateway_url = ''http://gw'', ie_hostname = ''n'',
     ie_api_port = 80, ie_wide = (\<lambda>_. False), ie_mime = (\<lambda>_. True),
     js_ipfs_pin = (\<lambda>b. if b = ''bundle'' then Some demo_bundle else None),
     js_kubo_add = (\<lambda>l. Some (l, ''''))\<rparr>"

definition demo_pin_call :: call where
  "demo_pin_call = \<lparr>ca_headers = (\<lambda>_. None), ca_body = ''bundle'', ca_wall = 0, ca_instant = 0, ca_time = 86400\<rparr>"

definition demo_pins :: "pin_event list" where
  "demo_pins = [(demo_pin_call, Kubo_answered 200 (Some ''cid''), Meta_written),
     (demo_pin_call, Kubo_unreachable, Meta_written)]"

definition demo_pin_state :: ipfs_state where
  "demo_pin_state = \<lparr>is_nonces = [], is_quota = (\<lambda>_. None), is_meta = (\<lambda>_. None)\<rparr>"

lemma demo_ipfs_cap: "ipfs_daily_quota_bytes (ie_quota demo_ipfs) = 10"
  by (simp add: demo_ipfs_def ipfs_daily_quota_bytes_def parse_u64_def parse_nat_def is_ascii_digit_def)

lemma demo_parts:
  "pin_parts demo_ipfs (the (pin_files demo_bundle)) =
     Inr ([(''a/b.js'', ''application/octet-stream'', ''hi'')], [(''a/b.js'', [])])"
  by code_simp

lemma demo_missing: "sigauth_missing_allowed (Some ''1'')"
  by code_simp

lemma demo_bundle_simps:
  "js_ipfs_pin demo_ipfs (ca_body demo_pin_call) = Some demo_bundle" "pin_wallet demo_bundle = ''w''"
  "multi_mode demo_bundle" "length (ca_body demo_pin_call) = 6" "utc_day (ca_time demo_pin_call) = 1"
  by (simp_all add: demo_ipfs_def demo_pin_call_def demo_bundle_def multi_mode_def utc_day_def)

lemma demo_unsigned:
  "verify_request_sig C (sigauth_missing_allowed (ie_allow_missing demo_ipfs)) (ca_wall demo_pin_call)
     (ca_instant demo_pin_call) (call_request demo_pin_call verb rpath body signer) m = (Inr SigMissing, m)"
  by (simp add: demo_ipfs_def demo_missing verify_request_sig_def call_request_def demo_pin_call_def)

lemma demo_charges:
  "is_quota s (''w'', 1) = None \<Longrightarrow>
     \<exists>q. ipfs_check_and_charge 10 (ca_time demo_pin_call) ''w'' 6 (is_quota s) = (Inr (), q) \<and> q (''w'', 1) = Some 6"
  "is_quota s (''w'', 1) = Some 6 \<Longrightarrow>
     \<exists>r q. ipfs_check_and_charge 10 (ca_time demo_pin_call) ''w'' 6 (is_quota s) = (Inl r, q)"
  by (auto simp: ipfs_check_and_charge_def demo_bundle_simps saturating_add_def Let_def split: if_splits)

lemma demo_sends:
  "\<exists>r q s'. pin_bundle demo_ipfs (Kubo_answered 200 (Some ''cid'')) w wallet (the (pin_files demo_bundle)) s =
     (r, Some q, s') \<and> part_names q = [''a/b.js''] \<and> is_quota s' = is_quota s"
proof -
  obtain r sent s' where h: "pin_bundle demo_ipfs (Kubo_answered 200 (Some ''cid'')) w wallet
      (the (pin_files demo_bundle)) s = (r, sent, s')"
    by (metis prod.exhaust)
  have "sent \<noteq> None"
    using h by (auto simp: pin_bundle_def demo_parts Let_def split: prod.splits if_splits bool.splits)
  then obtain q where q: "sent = Some q" by blast
  moreover have "part_names q = [''a/b.js'']"
    using pin_bundle_sent [of demo_ipfs "Kubo_answered 200 (Some ''cid'')" w wallet "the (pin_files demo_bundle)" s q] h
    by (auto simp: q demo_parts part_names_def)
  moreover have "is_quota s' = is_quota s" using h by (metis pin_quota(1) snd_conv)
  ultimately show ?thesis using h by blast
qed

lemma demo_first:
  assumes "is_quota s (''w'', 1) = None"
  shows "\<exists>r q s'. ipfs_pin_handler demo_ipfs demo_pin_call (Kubo_answered 200 (Some ''cid'')) w s = (r, Some q, s') \<and>
     part_names q = [''a/b.js''] \<and> is_quota s' (''w'', 1) = Some 6"
proof -
  obtain q where charge: "ipfs_check_and_charge 10 (ca_time demo_pin_call) ''w'' 6 (is_quota s) = (Inr (), q)"
    "q (''w'', 1) = Some 6"
    using demo_charges(1) [OF assms] by blast
  have "ipfs_pin_handler demo_ipfs demo_pin_call (Kubo_answered 200 (Some ''cid'')) w s =
      pin_bundle demo_ipfs (Kubo_answered 200 (Some ''cid'')) w ''w'' (the (pin_files demo_bundle)) (s\<lparr>is_quota := q\<rparr>)"
    using charge(1) by (simp add: ipfs_pin_handler_def demo_bundle_simps demo_unsigned demo_ipfs_cap Let_def)
  then show ?thesis using demo_sends [of w "''w''" "s\<lparr>is_quota := q\<rparr>"] charge(2) by fastforce
qed

lemma demo_second:
  assumes "is_quota s (''w'', 1) = Some 6"
  shows "\<exists>r s'. ipfs_pin_handler demo_ipfs demo_pin_call kubo w s = (r, None, s')"
proof -
  obtain r q where "ipfs_check_and_charge 10 (ca_time demo_pin_call) ''w'' 6 (is_quota s) = (Inl r, q)"
    using demo_charges(2) [OF assms] by blast
  then show ?thesis
    by (simp add: ipfs_pin_handler_def demo_bundle_simps demo_unsigned demo_ipfs_cap Let_def)
qed

text \<open>The second request of the same size is refused; what the first sent has a clean path.\<close>

theorem daily_quota_holds_witness:
  "pinned_bytes demo_ipfs ''w'' 1 (pin_log demo_ipfs demo_pins demo_pin_state) \<le> 10 \<and>
   map (\<lambda>(_, _, q). part_names q) (pin_log demo_ipfs demo_pins demo_pin_state) = [[''a/b.js'']]"
proof -
  have laws: "pin_reader_law demo_ipfs" "b64_shrinks (ie_crypto demo_ipfs)"
    "clock_steady 0 demo_pins" "\<forall>(c, _, _) \<in> set demo_pins. length (ca_body c) < 2 ^ 64"
    by (auto simp: pin_reader_law_def b64_shrinks_def demo_ipfs_def demo_pins_def demo_pin_call_def
        request_bytes_def demo_bundle_def utc_day_def split: if_splits)
  have "pinned_bytes demo_ipfs ''w'' 1 (pin_log demo_ipfs demo_pins demo_pin_state) \<le> 10"
    using daily_quota_holds [of demo_ipfs demo_pin_state 0 demo_pins] laws
    by (simp add: demo_ipfs_cap demo_pin_state_def)
  moreover obtain r q s1 where first: "ipfs_pin_handler demo_ipfs demo_pin_call
      (Kubo_answered 200 (Some ''cid'')) Meta_written demo_pin_state = (r, Some q, s1)"
    "part_names q = [''a/b.js'']" "is_quota s1 (''w'', 1) = Some 6"
    using demo_first [of demo_pin_state Meta_written] by (auto simp: demo_pin_state_def)
  moreover obtain r' s2 where "ipfs_pin_handler demo_ipfs demo_pin_call Kubo_unreachable Meta_written s1 = (r', None, s2)"
    using demo_second [OF first(3)] by blast
  ultimately show ?thesis by (simp add: demo_pins_def)
qed

end
