(* ===== verification/Job_Admission.thy ===== *)
theory Job_Admission
  imports Kraph_Text
begin

text \<open>
  Admission of expensive jobs (\<open>job_admission.rs\<close>): two sets of keys, acquisition and the drop
  of a guard. The machine pairs the table with the guards that are alive; the mutex makes each
  acquisition and each drop one step.
\<close>

datatype job_kind = Build | Migration

fun kind_str :: "job_kind \<Rightarrow> string" where
  "kind_str Build = ''build''"
| "kind_str Migration = ''migration''"

record admission =
  by_wallet :: "string set"
  by_instance :: "string set"

record admission_guard =
  g_kind :: job_kind
  g_wallet_key :: string
  g_instance_key :: string

datatype admission_error = WalletBusy string | InstanceBusy string

definition job_key :: "job_kind \<Rightarrow> string \<Rightarrow> string" where
  "job_key kind x = kind_str kind @ ''|'' @ x"

definition try_acquire ::
  "job_kind \<Rightarrow> string \<Rightarrow> string \<Rightarrow> admission \<Rightarrow> admission_error + admission_guard \<times> admission" where
  "try_acquire kind wallet inst s =
     (let wallet_key = job_key kind wallet; instance_key = job_key kind inst in
      guard (\<not> (kind = Build \<and> wallet_key \<in> by_wallet s)) (WalletBusy (kind_str kind)) (
      guard (instance_key \<notin> by_instance s) (InstanceBusy (kind_str kind)) (
      Inr (\<lparr>g_kind = kind, g_wallet_key = wallet_key, g_instance_key = instance_key\<rparr>,
           \<lparr>by_wallet = insert wallet_key (by_wallet s),
            by_instance = insert instance_key (by_instance s)\<rparr>))))"

definition drop_guard :: "admission_guard \<Rightarrow> admission \<Rightarrow> admission" where
  "drop_guard g s =
     \<lparr>by_wallet = by_wallet s - {g_wallet_key g}, by_instance = by_instance s - {g_instance_key g}\<rparr>"

text \<open>A guard that is given back leaves no trace.\<close>

lemma acquire_release:
  "try_acquire Build wallet inst a = Inr (g, b) \<Longrightarrow> drop_guard g b = a"
  by (cases a) (auto simp: try_acquire_def drop_guard_def Let_def split: if_splits)

section \<open>The machine\<close>

record gate =
  table :: admission
  guards :: "admission_guard list"

inductive gate_step :: "gate \<Rightarrow> gate \<Rightarrow> bool" where
  acquire: "try_acquire kind wallet inst (table m) = Inr (g, s) \<Longrightarrow>
     gate_step m \<lparr>table = s, guards = g # guards m\<rparr>"
| release: "guards m = xs @ g # ys \<Longrightarrow>
     gate_step m \<lparr>table = drop_guard g (table m), guards = xs @ ys\<rparr>"

inductive_cases gate_stepE: "gate_step m m'"

definition gate_init :: "gate \<Rightarrow> bool" where
  "gate_init m \<longleftrightarrow> m = \<lparr>table = \<lparr>by_wallet = {}, by_instance = {}\<rparr>, guards = []\<rparr>"

text \<open>
  The table is the shadow of the live guards: the instance keys exactly, of the wallet keys
  exactly those of builds; no two live guards share an instance key, no two builds a wallet key.
\<close>

definition guard_ok :: "admission_guard \<Rightarrow> bool" where
  "guard_ok g \<longleftrightarrow> (\<exists>w i. g_wallet_key g = job_key (g_kind g) w \<and> g_instance_key g = job_key (g_kind g) i)"

definition builds :: "admission_guard list \<Rightarrow> admission_guard list" where
  "builds gs = filter (\<lambda>g. g_kind g = Build) gs"

definition build_keys :: "string set" where
  "build_keys = range (job_key Build)"

definition gate_inv :: "gate \<Rightarrow> bool" where
  "gate_inv m \<longleftrightarrow>
     list_all guard_ok (guards m) \<and>
     by_instance (table m) = set (map g_instance_key (guards m)) \<and>
     distinct (map g_instance_key (guards m)) \<and>
     by_wallet (table m) \<inter> build_keys = set (map g_wallet_key (builds (guards m))) \<and>
     distinct (map g_wallet_key (builds (guards m)))"

lemma job_key_inj: "job_key k x = job_key k' x' \<longleftrightarrow> k = k' \<and> x = x'"
  by (cases k; cases k') (auto simp: job_key_def)

lemma job_key_build: "job_key k x \<in> build_keys \<longleftrightarrow> k = Build"
  by (auto simp: build_keys_def job_key_inj)

lemma builds_simps [simp]:
  "builds [] = []"
  "builds (g # gs) = (if g_kind g = Build then g # builds gs else builds gs)"
  "builds (xs @ ys) = builds xs @ builds ys"
  by (simp_all add: builds_def)

lemma guard_wallet_build: "guard_ok g \<Longrightarrow> g_wallet_key g \<in> build_keys \<longleftrightarrow> g_kind g = Build"
  by (auto simp: guard_ok_def job_key_build)

lemma guard_kind_of_key:
  "guard_ok g \<Longrightarrow> g_instance_key g = job_key k i \<Longrightarrow> g_kind g = k"
  "guard_ok g \<Longrightarrow> g_wallet_key g = job_key k w \<Longrightarrow> g_kind g = k"
  by (auto simp: guard_ok_def job_key_inj)

lemma acquire_inv:
  assumes inv: "gate_inv m" and ac: "try_acquire kind wallet inst (table m) = Inr (g, s)"
  shows "gate_inv \<lparr>table = s, guards = g # guards m\<rparr>"
proof -
  from ac have g: "g = \<lparr>g_kind = kind, g_wallet_key = job_key kind wallet,
      g_instance_key = job_key kind inst\<rparr>"
    and s: "s = \<lparr>by_wallet = insert (job_key kind wallet) (by_wallet (table m)),
      by_instance = insert (job_key kind inst) (by_instance (table m))\<rparr>"
    and free: "job_key kind inst \<notin> by_instance (table m)"
      "kind = Build \<Longrightarrow> job_key kind wallet \<notin> by_wallet (table m)"
    by (auto simp: try_acquire_def Let_def split: if_splits)
  have w: "insert (job_key kind wallet) (by_wallet (table m)) \<inter> build_keys =
      (if kind = Build then insert (job_key kind wallet) (by_wallet (table m) \<inter> build_keys)
       else by_wallet (table m) \<inter> build_keys)"
    using job_key_build [of kind wallet] by auto
  have new: "kind = Build \<Longrightarrow> job_key kind wallet \<notin> by_wallet (table m) \<inter> build_keys"
    using free(2) by blast
  have ok: "guard_ok g" by (auto simp: g guard_ok_def)
  show ?thesis
    using inv free(1) new ok unfolding gate_inv_def by (simp add: g s w)
qed

lemma release_inv:
  assumes inv: "gate_inv m" and g: "guards m = xs @ g # ys"
  shows "gate_inv \<lparr>table = drop_guard g (table m), guards = xs @ ys\<rparr>"
proof -
  have ok: "guard_ok g" using inv g by (simp add: gate_inv_def)
  have com: "(by_wallet (table m) - {k}) \<inter> build_keys = by_wallet (table m) \<inter> build_keys - {k}" for k
    by blast
  have w: "by_wallet (table m) \<inter> build_keys - {g_wallet_key g} = set (map g_wallet_key (builds (xs @ ys)))"
  proof (cases "g_kind g = Build")
    case True
    then show ?thesis using inv g by (simp add: gate_inv_def Diff_insert_absorb)
  next
    case False
    then have "g_wallet_key g \<notin> build_keys" using guard_wallet_build [OF ok] by simp
    then have "by_wallet (table m) \<inter> build_keys - {g_wallet_key g} = by_wallet (table m) \<inter> build_keys"
      by blast
    then show ?thesis using inv g False by (simp add: gate_inv_def)
  qed
  have w': "(by_wallet (table m) - {g_wallet_key g}) \<inter> build_keys =
      set (map g_wallet_key (builds (xs @ ys)))"
    unfolding com by (rule w)
  show ?thesis
    using inv g w' unfolding gate_inv_def drop_guard_def by (simp split: if_splits)
qed

lemma gate_step_inv: "gate_inv m \<Longrightarrow> gate_step m m' \<Longrightarrow> gate_inv m'"
  by (erule gate_stepE) (simp_all add: acquire_inv release_inv)

interpretation gate: inductive_invariant gate_init gate_step gate_inv
  by unfold_locales (simp add: gate_init_def gate_inv_def, rule gate_step_inv)

text \<open>
  C24: In every reachable state of the admission table a request is refused exactly when a live
  job conflicts with it: a job of its kind on the same instance, or, for a build, a build of the
  same wallet. Two live jobs never conflict, so builds are exclusive per wallet and per instance
  and migrations per instance.
\<close>

theorem admission_is_exclusive:
  assumes "reachable gate_init gate_step m"
  shows "(is_ok (try_acquire kind wallet inst (table m)) \<longleftrightarrow>
      \<not> (\<exists>g \<in> set (guards m). g_kind g = kind \<and> (g_instance_key g = job_key kind inst \<or>
            kind = Build \<and> g_wallet_key g = job_key kind wallet))) \<and>
    distinct (map g_instance_key (guards m)) \<and> distinct (map g_wallet_key (builds (guards m)))"
proof -
  have inv: "gate_inv m" by (rule gate.inv_reachable [OF assms])
  have inst: "job_key kind inst \<in> by_instance (table m) \<longleftrightarrow>
      (\<exists>g \<in> set (guards m). g_kind g = kind \<and> g_instance_key g = job_key kind inst)"
  proof -
    have "job_key kind inst \<in> by_instance (table m) \<longleftrightarrow>
        (\<exists>g \<in> set (guards m). g_instance_key g = job_key kind inst)"
      using inv by (auto simp: gate_inv_def intro: rev_image_eqI)
    moreover have "\<forall>g \<in> set (guards m). guard_ok g" using inv by (simp add: gate_inv_def list_all_iff)
    ultimately show ?thesis by (metis guard_kind_of_key(1))
  qed
  have wal: "job_key kind wallet \<in> by_wallet (table m) \<longleftrightarrow>
      (\<exists>g \<in> set (guards m). g_kind g = kind \<and> g_wallet_key g = job_key kind wallet)" if "kind = Build"
  proof -
    note k = that
    then have "job_key kind wallet \<in> by_wallet (table m) \<longleftrightarrow>
        job_key kind wallet \<in> by_wallet (table m) \<inter> build_keys"
      using job_key_build [of Build wallet] by simp
    also have "\<dots> \<longleftrightarrow> job_key kind wallet \<in> set (map g_wallet_key (builds (guards m)))"
      using inv by (simp add: gate_inv_def)
    also have "\<dots> \<longleftrightarrow> (\<exists>g \<in> set (builds (guards m)). g_wallet_key g = job_key kind wallet)"
      by (auto intro: rev_image_eqI)
    finally show ?thesis using k by (auto simp: builds_def)
  qed
  have "is_ok (try_acquire kind wallet inst (table m)) \<longleftrightarrow>
      \<not> (kind = Build \<and> job_key kind wallet \<in> by_wallet (table m)) \<and>
      job_key kind inst \<notin> by_instance (table m)"
    by (simp add: try_acquire_def Let_def)
  then show ?thesis using inst wal inv by (auto simp: gate_inv_def)
qed

definition demo_gate :: gate where
  "demo_gate = \<lparr>table = \<lparr>by_wallet = {''build|w''}, by_instance = {''build|i''}\<rparr>,
     guards = [\<lparr>g_kind = Build, g_wallet_key = ''build|w'', g_instance_key = ''build|i''\<rparr>]\<rparr>"

theorem admission_is_exclusive_witness:
  "\<not> is_ok (try_acquire Build ''w'' ''j'' (table demo_gate)) \<and>
   is_ok (try_acquire Migration ''w'' ''i'' (table demo_gate))"
proof -
  have i: "reachable gate_init gate_step \<lparr>table = \<lparr>by_wallet = {}, by_instance = {}\<rparr>, guards = []\<rparr>"
    by (rule reach_init) (simp add: gate_init_def)
  have "gate_step \<lparr>table = \<lparr>by_wallet = {}, by_instance = {}\<rparr>, guards = []\<rparr> demo_gate"
    using acquire [where m = "\<lparr>table = \<lparr>by_wallet = {}, by_instance = {}\<rparr>, guards = []\<rparr>"
        and kind = Build and wallet = "''w''" and inst = "''i''"]
    by (auto simp: demo_gate_def try_acquire_def job_key_def Let_def)
  from admission_is_exclusive [OF reach_step [OF i this]]
  show ?thesis by (simp add: demo_gate_def job_key_def)
qed

end
