(* ===== verification/Build_Store.thy ===== *)
theory Build_Store
  imports Kraph_Text "HOL-Library.AList"
begin

text \<open>
  Tracking of in-flight builds (\<open>build_store.rs\<close>): the map from build identifiers to states
  with its write operations. Times are the seconds of \<open>timestamp()\<close>. An operation that slices a
  string inside a character panics: \<open>append_log\<close> has written nothing by then and yields \<open>None\<close>,
  \<open>complete_failure\<close> has already marked the build failed and says so beside the map it leaves (the
  lock is not poisoned by a panic).
\<close>

definition KEEP_FINISHED_FOR_SECS :: int where "KEEP_FINISHED_FOR_SECS = 3600"
definition MAX_LOG_BYTES :: nat where "MAX_LOG_BYTES = 256 * 1024"

datatype build_status = Running | Succeeded | Failed

fun build_status_str :: "build_status \<Rightarrow> string" where
  "build_status_str Running = ''running''"
| "build_status_str Succeeded = ''succeeded''"
| "build_status_str Failed = ''failed''"

record build_state =
  bs_build_id :: string
  bs_instance_id :: string
  bs_wallet_pubkey :: string
  bs_status :: build_status
  bs_started_at :: int
  bs_finished_at :: "int option"
  bs_target :: "string option"
  bs_exit_code :: "int option"
  bs_log_tail :: string
  bs_duration_ms :: "nat option"
  bs_cid :: "string option"
  bs_size_bytes :: "nat option"
  bs_file_count :: "nat option"
  bs_host_port :: "nat option"
  bs_container_id :: "string option"
  bs_url :: "string option"
  bs_error :: "string option"

type_synonym build_map = "(string \<times> build_state) list"

definition build_fresh :: "int \<Rightarrow> build_state \<Rightarrow> bool" where
  "build_fresh now b = (case bs_finished_at b of
     None \<Rightarrow> True | Some t \<Rightarrow> now - t \<le> KEEP_FINISHED_FOR_SECS)"

definition start :: "int \<Rightarrow> string \<Rightarrow> string \<Rightarrow> string \<Rightarrow> string option \<Rightarrow> build_map \<Rightarrow> build_map" where
  "start now build_id instance_id wallet target m =
     filter (\<lambda>(_, b). build_fresh now b)
       (AList.update build_id
         \<lparr>bs_build_id = build_id, bs_instance_id = instance_id, bs_wallet_pubkey = wallet,
          bs_status = Running, bs_started_at = now, bs_finished_at = None, bs_target = target,
          bs_exit_code = None, bs_log_tail = '''', bs_duration_ms = None, bs_cid = None,
          bs_size_bytes = None, bs_file_count = None, bs_host_port = None,
          bs_container_id = None, bs_url = None, bs_error = None\<rparr> m)"

definition complete_success ::
  "int \<Rightarrow> string \<Rightarrow> (build_state \<Rightarrow> build_state) \<Rightarrow> build_map \<Rightarrow> build_map" where
  "complete_success now build_id patch m = (case map_of m build_id of
     None \<Rightarrow> m
   | Some b \<Rightarrow> AList.update build_id
       (patch (b\<lparr>bs_status := Succeeded, bs_finished_at := Some now\<rparr>)) m)"

definition cap_log :: "string \<Rightarrow> string option" where
  "cap_log log_tail =
     (if MAX_LOG_BYTES < length log_tail then slice_from log_tail (length log_tail - MAX_LOG_BYTES)
      else Some log_tail)"

text \<open>The flag says whether the cut of the log panicked; status, time and error are set before it.\<close>

definition complete_failure ::
  "int \<Rightarrow> string \<Rightarrow> string \<Rightarrow> string \<Rightarrow> int option \<Rightarrow> build_map \<Rightarrow> bool \<times> build_map" where
  "complete_failure now build_id error log_tail exit_code m = (case map_of m build_id of
     None \<Rightarrow> (False, m)
   | Some b \<Rightarrow>
       let b = b\<lparr>bs_status := Failed, bs_finished_at := Some now, bs_error := Some error\<rparr> in
       (case cap_log log_tail of
          None \<Rightarrow> (True, AList.update build_id b m)
        | Some capped \<Rightarrow>
            (False, AList.update build_id (b\<lparr>bs_log_tail := capped, bs_exit_code := exit_code\<rparr>) m)))"

definition get_build :: "string \<Rightarrow> build_map \<Rightarrow> build_state option" where
  "get_build build_id m = map_of m build_id"

definition append_text :: "string \<Rightarrow> string \<Rightarrow> string option" where
  "append_text log chunk =
     (if MAX_LOG_BYTES \<le> length log then Some log
      else
        let remaining = MAX_LOG_BYTES - length log in
        if length chunk \<le> remaining then Some (log @ chunk)
        else map_option (\<lambda>c. log @ c) (slice_to chunk remaining))"

definition append_log :: "string \<Rightarrow> string \<Rightarrow> build_map \<Rightarrow> build_map option" where
  "append_log build_id chunk m = (case map_of m build_id of
     None \<Rightarrow> Some m
   | Some b \<Rightarrow> map_option (\<lambda>t. AList.update build_id (b\<lparr>bs_log_tail := t\<rparr>) m)
       (append_text (bs_log_tail b) chunk))"

definition build_count :: "build_map \<Rightarrow> nat" where
  "build_count m = length m"

section \<open>Properties\<close>

lemma append_text_take:
  "length log \<le> MAX_LOG_BYTES \<Longrightarrow> append_text log chunk = Some t \<Longrightarrow> t = take MAX_LOG_BYTES (log @ chunk)"
  by (auto simp: append_text_def slice_to_def Let_def split: if_splits)

lemma append_text_panics:
  "append_text log chunk = None \<longleftrightarrow>
     length log < MAX_LOG_BYTES \<and> MAX_LOG_BYTES < length log + length chunk \<and>
     is_continuation (chunk ! (MAX_LOG_BYTES - length log))"
  by (auto simp: append_text_def slice_to_def is_char_boundary_def Let_def)

lemma cap_log_drop:
  "cap_log s = Some t \<Longrightarrow> t = drop (length s - MAX_LOG_BYTES) s \<and> length t \<le> MAX_LOG_BYTES"
  by (auto simp: cap_log_def slice_from_def split: if_splits)

text \<open>
  The kept log of a build is the first 256 KiB of everything appended, and after a failure
  the last 256 KiB of the final log; every other build is untouched. Appending fails (the node
  panics) exactly when the limit falls inside a multi-byte character of the chunk. A failed build is
  marked as failed even if the cut of its final log panics; its log and exit code are then the old ones.
\<close>

lemma build_logs_are_capped:
  assumes b: "get_build k m = Some b" and le: "length (bs_log_tail b) \<le> MAX_LOG_BYTES"
  shows "(\<forall>m'. append_log k chunk m = Some m' \<longrightarrow>
      get_build k m' = Some (b\<lparr>bs_log_tail := take MAX_LOG_BYTES (bs_log_tail b @ chunk)\<rparr>) \<and>
      (\<forall>j. j \<noteq> k \<longrightarrow> get_build j m' = get_build j m)) \<and>
    (append_log k chunk m = None \<longleftrightarrow>
      length (bs_log_tail b) < MAX_LOG_BYTES \<and>
      MAX_LOG_BYTES < length (bs_log_tail b) + length chunk \<and>
      is_continuation (chunk ! (MAX_LOG_BYTES - length (bs_log_tail b)))) \<and>
    (\<forall>p m'. complete_failure now k err tail code m = (p, m') \<longrightarrow>
      (\<exists>b'. get_build k m' = Some b' \<and> bs_status b' = Failed \<and> bs_finished_at b' = Some now \<and>
         bs_log_tail b' = (if p then bs_log_tail b else drop (length tail - MAX_LOG_BYTES) tail) \<and>
         bs_exit_code b' = (if p then bs_exit_code b else code)))"
proof -
  have upd: "append_text (bs_log_tail b) chunk = Some t \<Longrightarrow>
      b\<lparr>bs_log_tail := t\<rparr> = b\<lparr>bs_log_tail := take MAX_LOG_BYTES (bs_log_tail b @ chunk)\<rparr>" for t
    by (drule append_text_take [OF le]) simp
  have app: "append_log k chunk m = map_option (\<lambda>t. AList.update k (b\<lparr>bs_log_tail := t\<rparr>) m)
      (append_text (bs_log_tail b) chunk)"
    using b by (simp add: append_log_def get_build_def)
  have "\<exists>b'. get_build k m' = Some b' \<and> bs_status b' = Failed \<and> bs_finished_at b' = Some now \<and>
      bs_log_tail b' = (if p then bs_log_tail b else drop (length tail - MAX_LOG_BYTES) tail) \<and>
      bs_exit_code b' = (if p then bs_exit_code b else code)"
    if "complete_failure now k err tail code m = (p, m')" for p m'
    using that b by (auto simp: complete_failure_def get_build_def update_conv' Let_def
        split: option.splits dest!: cap_log_drop)
  then show ?thesis
    unfolding app using append_text_panics [of "bs_log_tail b" chunk] upd
    by (auto simp: get_build_def update_conv' simp del: take_append)
qed

lemma build_logs_are_capped_witness:
  "\<exists>m'. append_log ''b'' ''world'' (start 0 ''b'' ''i'' ''w'' None []) = Some m' \<and>
     map_option bs_log_tail (get_build ''b'' m') = Some ''world''"
proof -
  obtain b where b: "get_build ''b'' (start 0 ''b'' ''i'' ''w'' None []) = Some b" "bs_log_tail b = ''''"
    by (simp add: get_build_def start_def build_fresh_def)
  have le: "length (bs_log_tail b) \<le> MAX_LOG_BYTES" by (simp add: b(2))
  have "append_log ''b'' ''world'' (start 0 ''b'' ''i'' ''w'' None []) \<noteq> None"
    using build_logs_are_capped [OF b(1) le, of "''world''"] b(2)
    by (simp add: MAX_LOG_BYTES_def del: not_None_eq)
  then obtain m' where m': "append_log ''b'' ''world'' (start 0 ''b'' ''i'' ''w'' None []) = Some m'"
    by blast
  then have "get_build ''b'' m' = Some (b\<lparr>bs_log_tail := ''world''\<rparr>)"
    using build_logs_are_capped [OF b(1) le, of "''world''"] b(2) by (simp add: MAX_LOG_BYTES_def)
  then show ?thesis using m' by simp
qed

text \<open>Starting a build forgets only builds that finished more than an hour before.\<close>

lemma cleanup_keeps_recent_builds:
  assumes "distinct (map fst m)"
  shows "(\<exists>b. get_build k (start now k i w t m) = Some b \<and> bs_status b = Running \<and> bs_log_tail b = '''') \<and>
    (\<forall>j b. j \<noteq> k \<longrightarrow>
      (get_build j (start now k i w t m) = Some b \<longleftrightarrow>
         get_build j m = Some b \<and> (\<forall>f. bs_finished_at b = Some f \<longrightarrow> now - f \<le> 3600)))"
proof -
  have d: "distinct (map fst (AList.update k v m))" for v
    using assms by (rule distinct_update)
  have flt: "map_of (filter (\<lambda>(_, b). q b) xs) j = (case map_of xs j of
      Some b \<Rightarrow> if q b then Some b else None | None \<Rightarrow> None)"
    if "distinct (map fst xs)" for q :: "build_state \<Rightarrow> bool" and xs j
    using that by (induction xs) (auto split: option.splits simp: map_of_eq_None_iff image_iff
        simp del: map_of_eq_Some_iff)
  show ?thesis
    unfolding get_build_def start_def flt [OF d]
    by (auto simp: update_conv' build_fresh_def KEEP_FINISHED_FOR_SECS_def split: option.splits)
qed

end
