(* ===== verification/Merkle.thy ===== *)
theory Merkle
  imports Database Kraph_Crypto "HOL-Library.While_Combinator"
begin

text \<open>
  Merkle roots and proofs over a database (\<open>integrity.rs\<close>). The outer loop is a
  \<open>while_option\<close>, so that its end is something to prove; what \<open>docker exec\<close> prints is an argument.
\<close>

record proof_node =
  pn_hash :: string
  pn_position :: string

section \<open>The WAL hash chain\<close>

definition compute_wal_hash :: "crypto \<Rightarrow> string \<Rightarrow> string option \<Rightarrow> string" where
  "compute_wal_hash C segment_data previous_hash =
     sha256 C ((case previous_hash of Some prev \<Rightarrow> prev | None \<Rightarrow> []) @ segment_data)"

fun verify_wal_chain_from :: "crypto \<Rightarrow> string option \<Rightarrow> (string \<times> string) list \<Rightarrow> bool" where
  "verify_wal_chain_from C prev [] = True"
| "verify_wal_chain_from C prev ((bytes, expected) # rest) =
     (if compute_wal_hash C bytes prev \<noteq> expected then False
      else verify_wal_chain_from C (Some expected) rest)"

definition verify_wal_chain :: "crypto \<Rightarrow> (string \<times> string) list \<Rightarrow> bool" where
  "verify_wal_chain C segments = verify_wal_chain_from C None segments"

section \<open>Building and verifying a proof\<close>

text \<open>The node recorded for the target when the pair at \<open>i\<close> is hashed; \<open>other\<close> is the right one.\<close>

definition record_sibling :: "crypto \<Rightarrow> nat \<Rightarrow> nat \<Rightarrow> string \<Rightarrow> string option \<Rightarrow> proof_node list" where
  "record_sibling C current i left other =
     (if i = current \<or> i + 1 = current then
        if current mod 2 = 0 then
          (case other of Some right \<Rightarrow> [\<lparr>pn_hash = hex_encode C right, pn_position = ''right''\<rparr>] | None \<Rightarrow> [])
        else [\<lparr>pn_hash = hex_encode C left, pn_position = ''left''\<rparr>]
      else [])"

fun hash_pairs :: "crypto \<Rightarrow> nat \<Rightarrow> nat \<Rightarrow> string list \<Rightarrow> string list \<times> proof_node list" where
  "hash_pairs C current i [] = ([], [])"
| "hash_pairs C current i [left] =
     ([sha256 C (left @ left)], record_sibling C current i left None)"
| "hash_pairs C current i (left # right # rest) =
     (let (level, nodes) = hash_pairs C current (i + 2) rest in
      (sha256 C (left @ right) # level, record_sibling C current i left (Some right) @ nodes))"

definition next_level ::
  "crypto \<Rightarrow> string list \<times> nat \<times> proof_node list \<Rightarrow> string list \<times> nat \<times> proof_node list" where
  "next_level C st = (case st of (level, current, path) \<Rightarrow>
     (let (level', nodes) = hash_pairs C current 0 level in (level', current div 2, path @ nodes)))"

definition build_merkle_proof :: "crypto \<Rightarrow> string list \<Rightarrow> nat \<Rightarrow> (string \<times> proof_node list) option" where
  "build_merkle_proof C leaves target =
     (if leaves = [] then Some (sha256 C [], [])
      else if length leaves = 1 then Some (leaves ! 0, [])
      else map_option (\<lambda>(level, _, path). (level ! 0, path))
        (while_option (\<lambda>(level, _, _). 1 < length level) (next_level C) (leaves, target, [])))"

fun follow_proof :: "crypto \<Rightarrow> string \<Rightarrow> proof_node list \<Rightarrow> string option" where
  "follow_proof C current [] = Some current"
| "follow_proof C current (node # rest) =
     (case hex_decode C (pn_hash node) of
        Some sibling \<Rightarrow>
          if length sibling \<noteq> 32 then None
          else if pn_position node = ''left'' then follow_proof C (sha256 C (sibling @ current)) rest
          else if pn_position node = ''right'' then follow_proof C (sha256 C (current @ sibling)) rest
          else None
      | None \<Rightarrow> None)"

definition verify_merkle_proof :: "crypto \<Rightarrow> string \<Rightarrow> proof_node list \<Rightarrow> string \<Rightarrow> bool" where
  "verify_merkle_proof C leaf path expected_root \<longleftrightarrow> follow_proof C leaf path = Some expected_root"

section \<open>Roots and proofs of an instance\<close>

text \<open>
  \<open>aggregate\<close> is what \<open>psql\<close> in the named container prints for the query that joins the hashes of all
  rows, \<open>run\<close> what it prints for a given query; \<open>None\<close> if it cannot start.
\<close>

datatype integrity_error = Instance_not_found | Instance_not_running | Query_failed | Row_not_found
  | Target_not_found | Proof_diverges

definition compute_merkle_root ::
  "crypto \<Rightarrow> (string \<Rightarrow> string option) \<Rightarrow> string \<Rightarrow> db \<Rightarrow> integrity_error + string" where
  "compute_merkle_root C aggregate inst d =
     rbind (ok_or Instance_not_found (get_instance_by_id inst d)) (\<lambda>row.
     guard (in_status row = ''running'') Instance_not_running (
     rbind (ok_or Query_failed (aggregate (in_project row @ ''-db-1''))) (\<lambda>printed.
     let combined = trim printed in
     if combined = [] then Inr (hex_encode C (sha256 C [])) else Inr (hex_encode C (sha256 C combined)))))"

fun position :: "string \<Rightarrow> string list \<Rightarrow> nat option" where
  "position x [] = None"
| "position x (y # ys) = (if y = x then Some 0 else map_option Suc (position x ys))"

definition generate_proof ::
  "crypto \<Rightarrow> (string \<Rightarrow> string \<Rightarrow> string option) \<Rightarrow> string \<Rightarrow> string \<Rightarrow> string \<Rightarrow> db \<Rightarrow>
    integrity_error + string \<times> string \<times> proof_node list" where
  "generate_proof C run inst table_name row_condition d =
     rbind (ok_or Instance_not_found (get_instance_by_id inst d)) (\<lambda>row.
     guard (in_status row = ''running'') Instance_not_running (
     let container = in_project row @ ''-db-1'' in
     rbind (ok_or Query_failed (run container
       (''SELECT md5(t::text) FROM public.'' @ table_name @ '' t ORDER BY t::text''))) (\<lambda>all_output.
     rbind (ok_or Query_failed (run container
       (''SELECT md5(t::text) FROM public.'' @ table_name @ '' t WHERE '' @ row_condition @ '' LIMIT 1'')))
       (\<lambda>target_output.
     let all_hashes = filter (\<lambda>l. l \<noteq> []) (text_lines (trim all_output));
       target_hash = trim target_output in
     guard (target_hash \<noteq> []) Row_not_found (
     rbind (ok_or Target_not_found (position target_hash all_hashes)) (\<lambda>target_index.
     rbind (ok_or Proof_diverges (build_merkle_proof C (map (sha256 C) all_hashes) target_index))
       (\<lambda>(root, path). Inr (target_hash, hex_encode C root, path))))))))"

section \<open>The tree the loop builds\<close>

text \<open>
  Node \<open>j\<close> of level \<open>k\<close>, over the leaves from \<open>j * 2 ^ k\<close> on: a node whose right half is past the
  last leaf hashes its left half twice.
\<close>

fun tree_hash :: "crypto \<Rightarrow> string list \<Rightarrow> nat \<Rightarrow> nat \<Rightarrow> string" where
  "tree_hash C leaves 0 j = leaves ! j"
| "tree_hash C leaves (Suc k) j = sha256 C (tree_hash C leaves k (2 * j) @
     tree_hash C leaves k (if (2 * j + 1) * 2 ^ k < length leaves then 2 * j + 1 else 2 * j))"

definition half :: "nat \<Rightarrow> nat" where "half n = (n + 1) div 2"

fun rounds :: "nat \<Rightarrow> nat" where
  "rounds n = (if n \<le> 1 then 0 else Suc (rounds ((n + 1) div 2)))"

declare rounds.simps [simp del]

text \<open>No node on the path of leaf \<open>t\<close> is hashed with itself.\<close>

definition paired :: "nat \<Rightarrow> nat \<Rightarrow> bool" where
  "paired n t \<longleftrightarrow> list_all (\<lambda>k. t div 2 ^ k mod 2 = 1 \<or> (t div 2 ^ k + 1) * 2 ^ k < n) [0..<rounds n]"

lemma less_half: "x < half n \<longleftrightarrow> 2 * x < n"
  unfolding half_def by linarith

lemma less_halves: "x < (half ^^ k) n \<longleftrightarrow> x * 2 ^ k < n"
  by (induction k arbitrary: x) (simp_all add: less_half algebra_simps)

lemma rounds_halves: "(half ^^ rounds n) n \<le> 1 \<and> (\<forall>k < rounds n. 1 < (half ^^ k) n)"
proof (induction n rule: rounds.induct)
  case (1 n)
  show ?case
  proof (cases "n \<le> 1")
    case False
    then have r: "rounds n = Suc (rounds (half n))" by (simp add: rounds.simps [of n] half_def)
    note IH = 1 [OF False, folded half_def]
    have "1 < (half ^^ k) n" if "k < Suc (rounds (half n))" for k
      using IH that False by (cases k) (auto simp: funpow_Suc_right simp del: funpow.simps(2))
    moreover have "(half ^^ Suc (rounds (half n))) n \<le> 1"
      using IH by (simp add: funpow_Suc_right del: funpow.simps)
    ultimately show ?thesis unfolding r by blast
  qed (simp add: rounds.simps)
qed

lemma rounds_bounds: "n \<le> 2 ^ rounds n" "1 < n \<Longrightarrow> 2 ^ (rounds n - 1) < n"
proof -
  show "n \<le> 2 ^ rounds n" using rounds_halves [of n] less_halves [of 1 "rounds n" n] by simp
  assume "1 < n"
  then have "0 < rounds n" by (simp add: rounds.simps [of n])
  then show "2 ^ (rounds n - 1) < n"
    using rounds_halves [of n] less_halves [of 1 "rounds n - 1" n] by simp
qed

lemma halves_pos: "0 < n \<Longrightarrow> 0 < (half ^^ k) n"
  by (simp add: less_halves)

lemma while_funpow:
  "\<lbrakk>\<forall>j < k. b ((c ^^ j) s); \<not> b ((c ^^ k) s)\<rbrakk> \<Longrightarrow> while_option b c s = Some ((c ^^ k) s)"
proof (induction k arbitrary: s)
  case 0
  then show ?case by (simp add: while_option_unfold)
next
  case (Suc k)
  from Suc.prems(1) have "b s" by (metis funpow_0 zero_less_Suc)
  moreover have "while_option b c (c s) = Some ((c ^^ k) (c s))"
    using Suc.IH [of "c s"] Suc.prems by (simp add: funpow_swap1) (metis Suc_less_eq funpow.simps(2) funpow_swap1 o_apply)
  ultimately show ?case by (simp add: while_option_unfold [of b c s] funpow_swap1)
qed

section \<open>The loop builds the tree\<close>

lemma pairs_length: "length (fst (hash_pairs C current i level)) = half (length level)"
  by (induction C current i level rule: hash_pairs.induct) (auto simp: half_def split: prod.splits)

lemma pairs_nth:
  "j < half (length level) \<Longrightarrow> fst (hash_pairs C current i level) ! j =
     sha256 C (level ! (2 * j) @ level ! (if 2 * j + 1 < length level then 2 * j + 1 else 2 * j))"
proof (induction C current i level arbitrary: j rule: hash_pairs.induct)
  case (3 C current i left right rest)
  then show ?case by (cases j) (auto simp: half_def split: prod.splits)
qed (auto simp: half_def)

lemma pairs_before: "current < i \<Longrightarrow> snd (hash_pairs C current i level) = []"
  by (induction C current i level rule: hash_pairs.induct)
    (auto simp: record_sibling_def split: prod.splits)

lemma pairs_nodes:
  "\<lbrakk>even i; i \<le> current; current < i + length level\<rbrakk> \<Longrightarrow> snd (hash_pairs C current i level) =
    (if odd current then [\<lparr>pn_hash = hex_encode C (level ! (current - i - 1)), pn_position = ''left''\<rparr>]
     else if current - i + 1 < length level then
       [\<lparr>pn_hash = hex_encode C (level ! (current - i + 1)), pn_position = ''right''\<rparr>]
     else [])"
proof (induction C current i level rule: hash_pairs.induct)
  case (2 C current i left)
  then have "current = i" by simp
  with 2 show ?case by (simp add: record_sibling_def)
next
  case (3 C current i left right rest)
  consider "current = i" | "current = i + 1" | "i + 2 \<le> current" using "3.prems" by linarith
  then show ?case
  proof cases
    case 3
    obtain m where m: "current = i + 2 + m" using 3 le_Suc_ex by blast
    have "odd m \<Longrightarrow> 0 < m" by (cases m) auto
    then show ?thesis
      using "3.IH" "3.prems" m by (auto simp: record_sibling_def nth_Cons' split: prod.splits)
  qed (use "3.prems" pairs_before [of current "i + 2" C rest] in
      \<open>auto simp: record_sibling_def split: prod.splits\<close>)
qed simp

definition path_node :: "crypto \<Rightarrow> string list \<Rightarrow> nat \<Rightarrow> nat \<Rightarrow> proof_node list" where
  "path_node C leaves t k = (let c = t div 2 ^ k in
     if odd c then [\<lparr>pn_hash = hex_encode C (tree_hash C leaves k (c - 1)), pn_position = ''left''\<rparr>]
     else if (c + 1) * 2 ^ k < length leaves then
       [\<lparr>pn_hash = hex_encode C (tree_hash C leaves k (c + 1)), pn_position = ''right''\<rparr>]
     else [])"

lemma after_rounds:
  assumes t: "t < length leaves"
  shows "(next_level C ^^ k) (leaves, t, []) =
    (map (tree_hash C leaves k) [0..<(half ^^ k) (length leaves)], t div 2 ^ k,
     concat (map (path_node C leaves t) [0..<k]))"
proof (induction k)
  case 0
  have "map ((!) leaves) [0..<length leaves] = leaves" by (rule map_nth)
  then show ?case by (simp cong: map_cong)
next
  case (Suc k)
  let ?w = "(half ^^ k) (length leaves)" and ?c = "t div 2 ^ k"
  let ?level = "map (tree_hash C leaves k) [0..<?w]"
  have c: "?c < ?w" using le_less_trans [OF div_times_less_eq_dividend t] by (simp add: less_halves)
  have "fst (hash_pairs C ?c 0 ?level) = map (tree_hash C leaves (Suc k)) [0..<half ?w]"
    by (rule nth_equalityI) (auto simp: pairs_length pairs_nth less_half less_halves algebra_simps)
  moreover have "snd (hash_pairs C ?c 0 ?level) = path_node C leaves t k"
    using c less_imp_diff_less [OF c, of 1] less_halves [of "Suc ?c" k "length leaves"]
    by (subst pairs_nodes) (auto simp: path_node_def Let_def)
  moreover have "?c div 2 = t div 2 ^ Suc k" by (metis div_mult2_eq power_Suc2)
  moreover have "next_level C (?level, ?c, p) =
      (fst (hash_pairs C ?c 0 ?level), ?c div 2, p @ snd (hash_pairs C ?c 0 ?level))" for p
    by (simp add: next_level_def split: prod.splits)
  ultimately show ?case using Suc by simp
qed

lemma build_exact:
  assumes t: "t < length leaves"
  shows "build_merkle_proof C leaves t =
    Some (tree_hash C leaves (rounds (length leaves)) 0, concat (map (path_node C leaves t) [0..<rounds (length leaves)]))"
proof (cases "length leaves = 1")
  case True
  then show ?thesis by (auto simp: build_merkle_proof_def rounds.simps)
next
  case False
  let ?n = "length leaves"
  have r: "(half ^^ rounds ?n) ?n \<le> 1" "\<forall>k < rounds ?n. 1 < (half ^^ k) ?n"
    using rounds_halves by blast+
  have "0 < (half ^^ rounds ?n) ?n" using t by (intro halves_pos) auto
  then have one: "(half ^^ rounds ?n) ?n = 1" using r by simp
  have "while_option (\<lambda>(level, _, _). 1 < length level) (next_level C) (leaves, t, []) =
      Some ((next_level C ^^ rounds ?n) (leaves, t, []))"
    by (rule while_funpow) (use r in \<open>simp_all add: after_rounds [OF t]\<close>)
  then show ?thesis
    using False t by (auto simp: build_merkle_proof_def after_rounds [OF t] one)
qed

section \<open>Proofs\<close>

lemma follow_append: "follow_proof C x (p @ q) = Option.bind (follow_proof C x p) (\<lambda>y. follow_proof C y q)"
  by (induction C x p rule: follow_proof.induct) (auto split: option.splits)

lemma tree_hash_length:
  "\<lbrakk>digest_law C; \<forall>l \<in> set leaves. length l = 32; j * 2 ^ k < length leaves\<rbrakk>
    \<Longrightarrow> length (tree_hash C leaves k j) = 32"
  by (cases k) (auto simp: digest_law_def)

lemma follow_step:
  assumes laws: "digest_law C" "hex_law C" and leaves: "\<forall>l \<in> set leaves. length l = 32"
    and t: "t < length leaves" and p: "t div 2 ^ k mod 2 = 1 \<or> (t div 2 ^ k + 1) * 2 ^ k < length leaves"
  shows "follow_proof C (tree_hash C leaves k (t div 2 ^ k)) (path_node C leaves t k) =
    Some (tree_hash C leaves (Suc k) (t div 2 ^ Suc k))"
proof -
  define c where "c = t div 2 ^ k"
  have up: "t div 2 ^ Suc k = c div 2" unfolding c_def by (metis div_mult2_eq power_Suc2)
  have below: "c * 2 ^ k < length leaves" using le_less_trans [OF div_times_less_eq_dividend t] by (simp add: c_def)
  have hex: "hex_decode C (hex_encode C x) = Some x" for x using laws by (simp add: hex_law_def)
  note len = tree_hash_length [OF laws(1) leaves]
  show ?thesis
  proof (cases "odd c")
    case True
    then obtain d where d: "c = 2 * d + 1" using oddE by blast
    have "2 * d * 2 ^ k < length leaves" using below d by (simp add: algebra_simps)
    moreover have "t div 2 ^ Suc k = d" using up d by simp
    ultimately show ?thesis using True d below
      by (simp add: path_node_def c_def [symmetric] up hex len
          del: power_Suc)
  next
    case False
    then obtain d where d: "c = 2 * d" by blast
    have "(c + 1) * 2 ^ k < length leaves" using p False by (auto simp: c_def odd_iff_mod_2_eq_one)
    moreover have "t div 2 ^ Suc k = d" using up d by simp
    ultimately show ?thesis using False d
      by (simp add: path_node_def c_def [symmetric] up hex len
          del: power_Suc)
  qed
qed

lemma paired_follows:
  assumes laws: "digest_law C" "hex_law C" and leaves: "\<forall>l \<in> set leaves. length l = 32"
    and t: "t < length leaves" and p: "paired (length leaves) t" and k: "k \<le> rounds (length leaves)"
  shows "follow_proof C (leaves ! t) (concat (map (path_node C leaves t) [0..<k])) =
    Some (tree_hash C leaves k (t div 2 ^ k))"
  using k
proof (induction k)
  case (Suc k)
  then show ?case
    using p follow_step [OF laws leaves t, of k]
    by (simp add: follow_append paired_def list_all_iff)
qed simp

lemma path_length: "length (concat (map (path_node C leaves t) [0..<k])) \<le> k"
  by (induction k) (auto simp: path_node_def Let_def)

text \<open>
  C22: the Merkle loop ends and is right about the tree. For a leaf of the list the outer loop
  returns after \<open>rounds n\<close> turns, the least number whose power of two reaches the number of
  leaves; the root is the hash of the tree in which an unpaired node is hashed with itself, and
  the proof has at most one node per level. It verifies against the root when no node on the path
  of the leaf is unpaired. For an unpaired node no proof node is recorded: with three leaves the
  proof of the last one verifies only if two different inputs have the same hash.
\<close>
theorem merkle_loop_builds_the_tree:
  assumes t: "t < length leaves"
  shows "\<exists>path root. build_merkle_proof C leaves t = Some (root, path) \<and>
    root = tree_hash C leaves (rounds (length leaves)) 0 \<and>
    length leaves \<le> 2 ^ rounds (length leaves) \<and>
    (1 < length leaves \<longrightarrow> 2 ^ (rounds (length leaves) - 1) < length leaves) \<and>
    length path \<le> rounds (length leaves) \<and>
    (digest_law C \<and> hex_law C \<and> (\<forall>l \<in> set leaves. length l = 32) \<longrightarrow>
      (paired (length leaves) t \<longrightarrow> verify_merkle_proof C (leaves ! t) path root) \<and>
      (length leaves = 3 \<and> t = 2 \<longrightarrow>
        (let pair = sha256 C (leaves ! 0 @ leaves ! 1) in verify_merkle_proof C (leaves ! 2) path root \<longleftrightarrow>
          sha256 C (pair @ leaves ! 2) = sha256 C (pair @ sha256 C (leaves ! 2 @ leaves ! 2)))))"
proof (intro exI conjI impI, rule build_exact [OF t], rule refl, rule rounds_bounds(1), erule rounds_bounds(2),
    rule path_length)
  assume laws: "digest_law C \<and> hex_law C \<and> (\<forall>l \<in> set leaves. length l = 32)"
  let ?path = "concat (map (path_node C leaves t) [0..<rounds (length leaves)])"
  {
    assume "paired (length leaves) t"
    moreover have "t div 2 ^ rounds (length leaves) = 0" using t rounds_bounds(1) [of "length leaves"] by simp
    ultimately show "verify_merkle_proof C (leaves ! t) ?path (tree_hash C leaves (rounds (length leaves)) 0)"
      unfolding verify_merkle_proof_def using paired_follows [OF _ _ _ t] laws by simp
  next
    assume three: "length leaves = 3 \<and> t = 2"
    have "rounds 3 = 2" by (simp add: rounds.simps)
    then show "let pair = sha256 C (leaves ! 0 @ leaves ! 1) in verify_merkle_proof C (leaves ! 2) ?path
        (tree_hash C leaves (rounds (length leaves)) 0) \<longleftrightarrow>
      sha256 C (pair @ leaves ! 2) = sha256 C (pair @ sha256 C (leaves ! 2 @ leaves ! 2))"
      using three laws by (simp add: verify_merkle_proof_def path_node_def numeral_2_eq_2 hex_law_def digest_law_def)
  }
qed

definition demo_leaves :: "string list" where
  "demo_leaves = map (replicate 32) [CHR ''a'', CHR ''b'', CHR ''c'']"

theorem merkle_loop_builds_the_tree_witness:
  "\<exists>path root. build_merkle_proof demo_crypto demo_leaves 1 = Some (root, path) \<and> length path \<le> 2 \<and>
    verify_merkle_proof demo_crypto (demo_leaves ! 1) path root"
proof -
  have r: "rounds 3 = 2" by (simp add: rounds.simps)
  have n: "length demo_leaves = 3" by (simp add: demo_leaves_def)
  then have "1 < length demo_leaves" by simp
  from merkle_loop_builds_the_tree [OF this, of demo_crypto] obtain path root
    where b: "build_merkle_proof demo_crypto demo_leaves 1 = Some (root, path)" "length path \<le> 2"
      and v: "digest_law demo_crypto \<and> hex_law demo_crypto \<and> (\<forall>l \<in> set demo_leaves. length l = 32) \<longrightarrow>
        paired 3 1 \<longrightarrow> verify_merkle_proof demo_crypto (demo_leaves ! 1) path root"
    unfolding n r by blast
  have "paired 3 1" by (simp add: paired_def r numeral_2_eq_2)
  moreover have "\<forall>l \<in> set demo_leaves. length l = 32" by (simp add: demo_leaves_def)
  ultimately show ?thesis using b v demo_digest demo_hex by blast
qed

end
