(* ===== verification/Attestation.thy ===== *)
theory Attestation
  imports Kraph_Crypto
begin

text \<open>
  The binary parsers of \<open>tee/attestation.rs\<close> for SEV-SNP reports and TDX quotes, over a list of
  bytes. Indexing a slice out of range panics in Rust; here it is the error \<open>Slice_panic\<close>, so
  that the absence of panics is a theorem. The offsets keep the names of the source.
\<close>

datatype parse_error = Too_short | Bad_version | Bad_tee_type | Truncated | Slice_panic

definition bytes_at :: "string \<Rightarrow> nat \<Rightarrow> nat \<Rightarrow> parse_error + string" where
  "bytes_at data off n =
     (if off + n \<le> length data then Inr (take n (drop off data)) else Inl Slice_panic)"

fun le_nat :: "string \<Rightarrow> nat" where
  "le_nat [] = 0"
| "le_nat (c # s) = byte c + 256 * le_nat s"

fun le_bytes :: "nat \<Rightarrow> nat \<Rightarrow> string" where
  "le_bytes 0 n = []"
| "le_bytes (Suc k) n = char_of (n mod 256) # le_bytes k (n div 256)"

definition read_le :: "nat \<Rightarrow> string \<Rightarrow> nat \<Rightarrow> parse_error + 'a::len word" where
  "read_le n data off = rbind (bytes_at data off n) (\<lambda>bs. Inr (word_of_nat (le_nat bs)))"

definition read_u16 :: "string \<Rightarrow> nat \<Rightarrow> parse_error + u16" where "read_u16 = read_le 2"
definition read_u32 :: "string \<Rightarrow> nat \<Rightarrow> parse_error + u32" where "read_u32 = read_le 4"
definition read_u64 :: "string \<Rightarrow> nat \<Rightarrow> parse_error + u64" where "read_u64 = read_le 8"

definition hex_at :: "crypto \<Rightarrow> string \<Rightarrow> nat \<Rightarrow> nat \<Rightarrow> parse_error + string" where
  "hex_at C data off n = rbind (bytes_at data off n) (\<lambda>bs. Inr (hex_encode C bs))"

section \<open>SEV-SNP reports\<close>

definition SNP_REPORT_MIN_SIZE :: nat where "SNP_REPORT_MIN_SIZE = 1184"

definition SNP_OFFSET_VERSION :: nat where "SNP_OFFSET_VERSION = 0x0"
definition SNP_OFFSET_GUEST_SVN :: nat where "SNP_OFFSET_GUEST_SVN = 0x4"
definition SNP_OFFSET_POLICY :: nat where "SNP_OFFSET_POLICY = 0x8"
definition SNP_OFFSET_FAMILY_ID :: nat where "SNP_OFFSET_FAMILY_ID = 0x10"
definition SNP_OFFSET_IMAGE_ID :: nat where "SNP_OFFSET_IMAGE_ID = 0x20"
definition SNP_OFFSET_VMPL :: nat where "SNP_OFFSET_VMPL = 0x30"
definition SNP_OFFSET_SIG_ALGO :: nat where "SNP_OFFSET_SIG_ALGO = 0x34"
definition SNP_OFFSET_PLATFORM_VERSION :: nat where "SNP_OFFSET_PLATFORM_VERSION = 0x38"
definition SNP_OFFSET_REPORT_DATA :: nat where "SNP_OFFSET_REPORT_DATA = 0x50"
definition SNP_OFFSET_MEASUREMENT :: nat where "SNP_OFFSET_MEASUREMENT = 0x90"
definition SNP_OFFSET_HOST_DATA :: nat where "SNP_OFFSET_HOST_DATA = 0xc0"
definition SNP_OFFSET_ID_KEY_DIGEST :: nat where "SNP_OFFSET_ID_KEY_DIGEST = 0xe0"
definition SNP_OFFSET_AUTHOR_KEY_DIGEST :: nat where "SNP_OFFSET_AUTHOR_KEY_DIGEST = 0x110"
definition SNP_OFFSET_REPORT_ID :: nat where "SNP_OFFSET_REPORT_ID = 0x140"
definition SNP_OFFSET_REPORT_ID_MA :: nat where "SNP_OFFSET_REPORT_ID_MA = 0x160"
definition SNP_OFFSET_REPORTED_TCB :: nat where "SNP_OFFSET_REPORTED_TCB = 0x180"
definition SNP_OFFSET_CHIP_ID :: nat where "SNP_OFFSET_CHIP_ID = 0x1a0"
definition SNP_OFFSET_COMMITTED_TCB :: nat where "SNP_OFFSET_COMMITTED_TCB = 0x1e0"
definition SNP_OFFSET_LAUNCH_TCB :: nat where "SNP_OFFSET_LAUNCH_TCB = 0x1f0"
definition SNP_OFFSET_SIGNATURE :: nat where "SNP_OFFSET_SIGNATURE = 0x2a0"
definition SNP_SIGNATURE_LEN :: nat where "SNP_SIGNATURE_LEN = 512"

lemmas snp_offsets = SNP_REPORT_MIN_SIZE_def SNP_SIGNATURE_LEN_def
  SNP_OFFSET_VERSION_def
  SNP_OFFSET_GUEST_SVN_def
  SNP_OFFSET_POLICY_def
  SNP_OFFSET_FAMILY_ID_def
  SNP_OFFSET_IMAGE_ID_def
  SNP_OFFSET_VMPL_def
  SNP_OFFSET_SIG_ALGO_def
  SNP_OFFSET_PLATFORM_VERSION_def
  SNP_OFFSET_REPORT_DATA_def
  SNP_OFFSET_MEASUREMENT_def
  SNP_OFFSET_HOST_DATA_def
  SNP_OFFSET_ID_KEY_DIGEST_def
  SNP_OFFSET_AUTHOR_KEY_DIGEST_def
  SNP_OFFSET_REPORT_ID_def
  SNP_OFFSET_REPORT_ID_MA_def
  SNP_OFFSET_REPORTED_TCB_def
  SNP_OFFSET_CHIP_ID_def
  SNP_OFFSET_COMMITTED_TCB_def
  SNP_OFFSET_LAUNCH_TCB_def
  SNP_OFFSET_SIGNATURE_def

record snp_report_fields =
  snp_version :: u32
  snp_guest_svn :: u32
  snp_policy :: u64
  snp_family_id :: string
  snp_image_id :: string
  snp_vmpl :: u32
  snp_signature_algo :: u32
  snp_platform_version :: u64
  snp_report_data :: string
  snp_measurement :: string
  snp_host_data :: string
  snp_id_key_digest :: string
  snp_author_key_digest :: string
  snp_report_id :: string
  snp_report_id_ma :: string
  snp_reported_tcb :: u64
  snp_chip_id :: string
  snp_committed_tcb :: u64
  snp_launch_tcb :: u64
  snp_signature :: string

definition parse_snp_report :: "crypto \<Rightarrow> string \<Rightarrow> parse_error + snp_report_fields" where
  "parse_snp_report C data =
     guard (SNP_REPORT_MIN_SIZE \<le> length data) Too_short (
     rbind (read_u32 data SNP_OFFSET_VERSION) (\<lambda>version.
     guard (\<not> version < 2) Bad_version (
     guard (SNP_OFFSET_SIGNATURE + SNP_SIGNATURE_LEN \<le> length data) Truncated (
     rbind (read_u32 data SNP_OFFSET_GUEST_SVN) (\<lambda>guest_svn.
     rbind (read_u64 data SNP_OFFSET_POLICY) (\<lambda>policy.
     rbind (hex_at C data SNP_OFFSET_FAMILY_ID 16) (\<lambda>family_id.
     rbind (hex_at C data SNP_OFFSET_IMAGE_ID 16) (\<lambda>image_id.
     rbind (read_u32 data SNP_OFFSET_VMPL) (\<lambda>vmpl.
     rbind (read_u32 data SNP_OFFSET_SIG_ALGO) (\<lambda>signature_algo.
     rbind (read_u64 data SNP_OFFSET_PLATFORM_VERSION) (\<lambda>platform_version.
     rbind (hex_at C data SNP_OFFSET_REPORT_DATA 64) (\<lambda>report_data.
     rbind (hex_at C data SNP_OFFSET_MEASUREMENT 48) (\<lambda>measurement.
     rbind (hex_at C data SNP_OFFSET_HOST_DATA 32) (\<lambda>host_data.
     rbind (hex_at C data SNP_OFFSET_ID_KEY_DIGEST 48) (\<lambda>id_key_digest.
     rbind (hex_at C data SNP_OFFSET_AUTHOR_KEY_DIGEST 48) (\<lambda>author_key_digest.
     rbind (hex_at C data SNP_OFFSET_REPORT_ID 32) (\<lambda>report_id.
     rbind (hex_at C data SNP_OFFSET_REPORT_ID_MA 32) (\<lambda>report_id_ma.
     rbind (read_u64 data SNP_OFFSET_REPORTED_TCB) (\<lambda>reported_tcb.
     rbind (hex_at C data SNP_OFFSET_CHIP_ID 64) (\<lambda>chip_id.
     rbind (read_u64 data SNP_OFFSET_COMMITTED_TCB) (\<lambda>committed_tcb.
     rbind (read_u64 data SNP_OFFSET_LAUNCH_TCB) (\<lambda>launch_tcb.
     rbind (hex_at C data SNP_OFFSET_SIGNATURE SNP_SIGNATURE_LEN) (\<lambda>signature.
     Inr \<lparr>snp_version = version, snp_guest_svn = guest_svn, snp_policy = policy,
         snp_family_id = family_id, snp_image_id = image_id, snp_vmpl = vmpl,
         snp_signature_algo = signature_algo, snp_platform_version = platform_version, snp_report_data = report_data,
         snp_measurement = measurement, snp_host_data = host_data, snp_id_key_digest = id_key_digest,
         snp_author_key_digest = author_key_digest, snp_report_id = report_id, snp_report_id_ma = report_id_ma,
         snp_reported_tcb = reported_tcb, snp_chip_id = chip_id, snp_committed_tcb = committed_tcb,
         snp_launch_tcb = launch_tcb, snp_signature = signature\<rparr>)))))))))))))))))))))))"

section \<open>TDX quotes\<close>

definition TDX_QUOTE_MIN_SIZE :: nat where "TDX_QUOTE_MIN_SIZE = 632"
definition TDX_BODY_BASE :: nat where "TDX_BODY_BASE = 0x30"
definition TDX_OFFSET_HEADER_VERSION :: nat where "TDX_OFFSET_HEADER_VERSION = 0"
definition TDX_OFFSET_HEADER_ATT_KEY_TYPE :: nat where "TDX_OFFSET_HEADER_ATT_KEY_TYPE = 2"
definition TDX_OFFSET_HEADER_TEE_TYPE :: nat where "TDX_OFFSET_HEADER_TEE_TYPE = 4"
definition TDX_OFFSET_HEADER_QE_SVN :: nat where "TDX_OFFSET_HEADER_QE_SVN = 8"
definition TDX_OFFSET_HEADER_PCE_SVN :: nat where "TDX_OFFSET_HEADER_PCE_SVN = 0xa"
definition TDX_OFFSET_HEADER_QE_VENDOR_ID :: nat where "TDX_OFFSET_HEADER_QE_VENDOR_ID = 0xc"
definition TDX_OFFSET_HEADER_USER_DATA :: nat where "TDX_OFFSET_HEADER_USER_DATA = 0x1c"
definition TDX_OFFSET_TEE_TCB_SVN :: nat where "TDX_OFFSET_TEE_TCB_SVN = TDX_BODY_BASE"
definition TDX_OFFSET_MR_SEAM :: nat where "TDX_OFFSET_MR_SEAM = TDX_BODY_BASE + 0x10"
definition TDX_OFFSET_MR_SIGNER_SEAM :: nat where "TDX_OFFSET_MR_SIGNER_SEAM = TDX_BODY_BASE + 0x40"
definition TDX_OFFSET_SEAM_ATTRIBUTES :: nat where "TDX_OFFSET_SEAM_ATTRIBUTES = TDX_BODY_BASE + 0x70"
definition TDX_OFFSET_TD_ATTRIBUTES :: nat where "TDX_OFFSET_TD_ATTRIBUTES = TDX_BODY_BASE + 0x78"
definition TDX_OFFSET_XFAM :: nat where "TDX_OFFSET_XFAM = TDX_BODY_BASE + 0x80"
definition TDX_OFFSET_MR_TD :: nat where "TDX_OFFSET_MR_TD = TDX_BODY_BASE + 0x88"
definition TDX_OFFSET_MR_CONFIG_ID :: nat where "TDX_OFFSET_MR_CONFIG_ID = TDX_BODY_BASE + 0xb8"
definition TDX_OFFSET_MR_OWNER :: nat where "TDX_OFFSET_MR_OWNER = TDX_BODY_BASE + 0xe8"
definition TDX_OFFSET_MR_OWNER_CONFIG :: nat where "TDX_OFFSET_MR_OWNER_CONFIG = TDX_BODY_BASE + 0x118"
definition TDX_OFFSET_RT_MR0 :: nat where "TDX_OFFSET_RT_MR0 = TDX_BODY_BASE + 0x148"
definition TDX_OFFSET_RT_MR1 :: nat where "TDX_OFFSET_RT_MR1 = TDX_BODY_BASE + 0x178"
definition TDX_OFFSET_RT_MR2 :: nat where "TDX_OFFSET_RT_MR2 = TDX_BODY_BASE + 0x1a8"
definition TDX_OFFSET_RT_MR3 :: nat where "TDX_OFFSET_RT_MR3 = TDX_BODY_BASE + 0x1d8"
definition TDX_OFFSET_REPORT_DATA :: nat where "TDX_OFFSET_REPORT_DATA = TDX_BODY_BASE + 0x208"

lemmas tdx_offsets = TDX_QUOTE_MIN_SIZE_def TDX_BODY_BASE_def
  TDX_OFFSET_HEADER_VERSION_def
  TDX_OFFSET_HEADER_ATT_KEY_TYPE_def
  TDX_OFFSET_HEADER_TEE_TYPE_def
  TDX_OFFSET_HEADER_QE_SVN_def
  TDX_OFFSET_HEADER_PCE_SVN_def
  TDX_OFFSET_HEADER_QE_VENDOR_ID_def
  TDX_OFFSET_HEADER_USER_DATA_def
  TDX_OFFSET_TEE_TCB_SVN_def
  TDX_OFFSET_MR_SEAM_def
  TDX_OFFSET_MR_SIGNER_SEAM_def
  TDX_OFFSET_SEAM_ATTRIBUTES_def
  TDX_OFFSET_TD_ATTRIBUTES_def
  TDX_OFFSET_XFAM_def
  TDX_OFFSET_MR_TD_def
  TDX_OFFSET_MR_CONFIG_ID_def
  TDX_OFFSET_MR_OWNER_def
  TDX_OFFSET_MR_OWNER_CONFIG_def
  TDX_OFFSET_RT_MR0_def
  TDX_OFFSET_RT_MR1_def
  TDX_OFFSET_RT_MR2_def
  TDX_OFFSET_RT_MR3_def
  TDX_OFFSET_REPORT_DATA_def

record tdx_quote_fields =
  tdx_version :: u16
  tdx_att_key_type :: u16
  tdx_tee_type :: u32
  tdx_qe_svn :: u16
  tdx_pce_svn :: u16
  tdx_qe_vendor_id :: string
  tdx_user_data :: string
  tdx_tee_tcb_svn :: string
  tdx_mr_seam :: string
  tdx_mr_signer_seam :: string
  tdx_seam_attributes :: string
  tdx_td_attributes :: string
  tdx_xfam :: string
  tdx_mr_td :: string
  tdx_mr_config_id :: string
  tdx_mr_owner :: string
  tdx_mr_owner_config :: string
  tdx_rt_mr0 :: string
  tdx_rt_mr1 :: string
  tdx_rt_mr2 :: string
  tdx_rt_mr3 :: string
  tdx_report_data :: string

text \<open>\<open>slice_hex\<close> checks the range itself: out of range is an error, not a panic.\<close>

definition slice_hex :: "crypto \<Rightarrow> string \<Rightarrow> nat \<Rightarrow> nat \<Rightarrow> parse_error + string" where
  "slice_hex C data off n = guard (off + n \<le> length data) Truncated (hex_at C data off n)"

definition parse_tdx_quote :: "crypto \<Rightarrow> string \<Rightarrow> parse_error + tdx_quote_fields" where
  "parse_tdx_quote C data =
     guard (TDX_QUOTE_MIN_SIZE \<le> length data) Too_short (
     rbind (read_u16 data TDX_OFFSET_HEADER_VERSION) (\<lambda>version.
     guard (\<not> version \<noteq> 4) Bad_version (
     rbind (read_u32 data TDX_OFFSET_HEADER_TEE_TYPE) (\<lambda>tee_type.
     guard (\<not> tee_type \<noteq> 0x81) Bad_tee_type (
     guard (TDX_OFFSET_REPORT_DATA + 64 \<le> length data) Truncated (
     rbind (read_u16 data TDX_OFFSET_HEADER_ATT_KEY_TYPE) (\<lambda>att_key_type.
     rbind (read_u16 data TDX_OFFSET_HEADER_QE_SVN) (\<lambda>qe_svn.
     rbind (read_u16 data TDX_OFFSET_HEADER_PCE_SVN) (\<lambda>pce_svn.
     rbind (slice_hex C data TDX_OFFSET_HEADER_QE_VENDOR_ID 16) (\<lambda>qe_vendor_id.
     rbind (slice_hex C data TDX_OFFSET_HEADER_USER_DATA 20) (\<lambda>user_data.
     rbind (slice_hex C data TDX_OFFSET_TEE_TCB_SVN 16) (\<lambda>tee_tcb_svn.
     rbind (slice_hex C data TDX_OFFSET_MR_SEAM 48) (\<lambda>mr_seam.
     rbind (slice_hex C data TDX_OFFSET_MR_SIGNER_SEAM 48) (\<lambda>mr_signer_seam.
     rbind (slice_hex C data TDX_OFFSET_SEAM_ATTRIBUTES 8) (\<lambda>seam_attributes.
     rbind (slice_hex C data TDX_OFFSET_TD_ATTRIBUTES 8) (\<lambda>td_attributes.
     rbind (slice_hex C data TDX_OFFSET_XFAM 8) (\<lambda>xfam.
     rbind (slice_hex C data TDX_OFFSET_MR_TD 48) (\<lambda>mr_td.
     rbind (slice_hex C data TDX_OFFSET_MR_CONFIG_ID 48) (\<lambda>mr_config_id.
     rbind (slice_hex C data TDX_OFFSET_MR_OWNER 48) (\<lambda>mr_owner.
     rbind (slice_hex C data TDX_OFFSET_MR_OWNER_CONFIG 48) (\<lambda>mr_owner_config.
     rbind (slice_hex C data TDX_OFFSET_RT_MR0 48) (\<lambda>rt_mr0.
     rbind (slice_hex C data TDX_OFFSET_RT_MR1 48) (\<lambda>rt_mr1.
     rbind (slice_hex C data TDX_OFFSET_RT_MR2 48) (\<lambda>rt_mr2.
     rbind (slice_hex C data TDX_OFFSET_RT_MR3 48) (\<lambda>rt_mr3.
     rbind (slice_hex C data TDX_OFFSET_REPORT_DATA 64) (\<lambda>report_data.
     Inr \<lparr>tdx_version = version, tdx_att_key_type = att_key_type, tdx_tee_type = tee_type,
         tdx_qe_svn = qe_svn, tdx_pce_svn = pce_svn, tdx_qe_vendor_id = qe_vendor_id,
         tdx_user_data = user_data, tdx_tee_tcb_svn = tee_tcb_svn, tdx_mr_seam = mr_seam,
         tdx_mr_signer_seam = mr_signer_seam, tdx_seam_attributes = seam_attributes, tdx_td_attributes = td_attributes,
         tdx_xfam = xfam, tdx_mr_td = mr_td, tdx_mr_config_id = mr_config_id,
         tdx_mr_owner = mr_owner, tdx_mr_owner_config = mr_owner_config, tdx_rt_mr0 = rt_mr0,
         tdx_rt_mr1 = rt_mr1, tdx_rt_mr2 = rt_mr2, tdx_rt_mr3 = rt_mr3,
         tdx_report_data = report_data\<rparr>))))))))))))))))))))))))))"

section \<open>The layout the SEV-SNP parser reads\<close>

text \<open>
  A report written field by field, from a record that holds the raw bytes; the reserved areas
  are zero. \<open>snp_hexed\<close> is what the parser is to make of it.
\<close>

definition zeros :: "nat \<Rightarrow> string" where
  "zeros n = replicate n (CHR 0x00)"

definition snp_bytes :: "snp_report_fields \<Rightarrow> string" where
  "snp_bytes f =
     le_bytes 4 (unat (snp_version f)) @ le_bytes 4 (unat (snp_guest_svn f)) @
     le_bytes 8 (unat (snp_policy f)) @ snp_family_id f @ snp_image_id f @
     le_bytes 4 (unat (snp_vmpl f)) @ le_bytes 4 (unat (snp_signature_algo f)) @
     le_bytes 8 (unat (snp_platform_version f)) @ zeros 16 @ snp_report_data f @
     snp_measurement f @ snp_host_data f @ snp_id_key_digest f @ snp_author_key_digest f @
     snp_report_id f @ snp_report_id_ma f @ le_bytes 8 (unat (snp_reported_tcb f)) @ zeros 24 @
     snp_chip_id f @ le_bytes 8 (unat (snp_committed_tcb f)) @ zeros 8 @
     le_bytes 8 (unat (snp_launch_tcb f)) @ zeros 168 @ snp_signature f"

definition snp_sized :: "snp_report_fields \<Rightarrow> bool" where
  "snp_sized f \<longleftrightarrow> length (snp_family_id f) = 16 \<and> length (snp_image_id f) = 16 \<and>
     length (snp_report_data f) = 64 \<and> length (snp_measurement f) = 48 \<and>
     length (snp_host_data f) = 32 \<and> length (snp_id_key_digest f) = 48 \<and>
     length (snp_author_key_digest f) = 48 \<and> length (snp_report_id f) = 32 \<and>
     length (snp_report_id_ma f) = 32 \<and> length (snp_chip_id f) = 64 \<and>
     length (snp_signature f) = 512"

definition snp_hexed :: "crypto \<Rightarrow> snp_report_fields \<Rightarrow> snp_report_fields" where
  "snp_hexed C f = f\<lparr>snp_family_id := hex_encode C (snp_family_id f),
     snp_image_id := hex_encode C (snp_image_id f),
     snp_report_data := hex_encode C (snp_report_data f),
     snp_measurement := hex_encode C (snp_measurement f),
     snp_host_data := hex_encode C (snp_host_data f),
     snp_id_key_digest := hex_encode C (snp_id_key_digest f),
     snp_author_key_digest := hex_encode C (snp_author_key_digest f),
     snp_report_id := hex_encode C (snp_report_id f),
     snp_report_id_ma := hex_encode C (snp_report_id_ma f),
     snp_chip_id := hex_encode C (snp_chip_id f),
     snp_signature := hex_encode C (snp_signature f)\<rparr>"

section \<open>Lemmas\<close>

lemma bytes_at_inside: "off + n \<le> length data \<Longrightarrow> bytes_at data off n = Inr (take n (drop off data))"
  by (simp add: bytes_at_def)

lemma hex_at_inside:
  "off + n \<le> length data \<Longrightarrow> hex_at C data off n = Inr (hex_encode C (take n (drop off data)))"
  by (simp add: hex_at_def bytes_at_inside)

lemma slice_hex_inside:
  "off + n \<le> length data \<Longrightarrow> slice_hex C data off n = Inr (hex_encode C (take n (drop off data)))"
  by (simp add: slice_hex_def hex_at_inside)

lemma read_inside:
  "off + 2 \<le> length data \<Longrightarrow> read_u16 data off = Inr (word_of_nat (le_nat (take 2 (drop off data))))"
  "off + 4 \<le> length data \<Longrightarrow> read_u32 data off = Inr (word_of_nat (le_nat (take 4 (drop off data))))"
  "off + 8 \<le> length data \<Longrightarrow> read_u64 data off = Inr (word_of_nat (le_nat (take 8 (drop off data))))"
  by (simp_all add: read_u16_def read_u32_def read_u64_def read_le_def bytes_at_inside)

text \<open>Reading behind, and at, the head of a concatenation.\<close>

lemma bytes_at_skip: "length a \<le> off \<Longrightarrow> bytes_at (a @ b) off n = bytes_at b (off - length a) n"
  by (auto simp: bytes_at_def)

lemma bytes_at_head: "length a = n \<Longrightarrow> bytes_at (a @ b) 0 n = Inr a"
  "length a = n \<Longrightarrow> bytes_at a 0 n = Inr a"
  by (auto simp: bytes_at_def)

lemma length_le_bytes [simp]: "length (le_bytes k n) = k"
  by (induction k arbitrary: n) auto

lemma length_zeros [simp]: "length (zeros n) = n"
  by (simp add: zeros_def)

lemma le_nat_le_bytes: "le_nat (le_bytes k n) = n mod 256 ^ k"
proof (induction k arbitrary: n)
  case (Suc k)
  then show ?case by (simp add: of_char_of mod_mult2_eq)
qed simp

lemma read_written:
  "word_of_nat (le_nat (le_bytes 4 (unat x))) = (x :: u32)"
  "word_of_nat (le_nat (le_bytes 8 (unat y))) = (y :: u64)"
proof -
  have "unat x < 256 ^ 4" "unat y < 256 ^ 8"
    using unsigned_less [of x] unsigned_less [of y] by simp_all
  then show "word_of_nat (le_nat (le_bytes 4 (unat x))) = (x :: u32)"
    "word_of_nat (le_nat (le_bytes 8 (unat y))) = (y :: u64)"
    by (simp_all add: le_nat_le_bytes)
qed

lemma length_snp_bytes: "snp_sized f \<Longrightarrow> length (snp_bytes f) = 1184"
  by (simp add: snp_sized_def snp_bytes_def)

lemma parse_snp_bytes:
  assumes "snp_sized f" and "2 \<le> snp_version f"
  shows "parse_snp_report C (snp_bytes f) = Inr (snp_hexed C f)"
proof -
  note sz = assms(1) [unfolded snp_sized_def]
  have v: "\<not> snp_version f < 2" using assms(2) by simp
  show ?thesis
    unfolding parse_snp_report_def length_snp_bytes [OF assms(1)]
    unfolding snp_bytes_def read_u32_def read_u64_def read_le_def hex_at_def snp_offsets
    using sz v by (simp add: bytes_at_skip bytes_at_head read_written snp_hexed_def)
qed

lemma parse_snp_ok:
  "is_ok (parse_snp_report C data) \<longleftrightarrow>
     1184 \<le> length data \<and> 2 \<le> (word_of_nat (le_nat (take 4 data)) :: u32)"
  "parse_snp_report C data \<noteq> Inl Slice_panic"
  by (auto simp: parse_snp_report_def snp_offsets read_inside hex_at_inside)

lemma parse_tdx_ok:
  "is_ok (parse_tdx_quote C data) \<longleftrightarrow>
     632 \<le> length data \<and> (word_of_nat (le_nat (take 2 data)) :: u16) = 4 \<and>
     (word_of_nat (le_nat (take 4 (drop 4 data))) :: u32) = 0x81"
  "parse_tdx_quote C data \<noteq> Inl Slice_panic"
  by (auto simp: parse_tdx_quote_def tdx_offsets read_inside slice_hex_inside)

lemma parse_tdx_fields:
  "parse_tdx_quote C data = Inr q \<Longrightarrow> tdx_mr_td q = hex_encode C (take 48 (drop 184 data)) \<and>
     tdx_report_data q = hex_encode C (take 64 (drop 568 data))"
  by (auto simp: parse_tdx_quote_def tdx_offsets read_inside slice_hex_inside split: if_splits)

lemma parse_snp_fields:
  "parse_snp_report C data = Inr q \<Longrightarrow>
     snp_report_data q = hex_encode C (take 64 (drop 80 data)) \<and>
     snp_measurement q = hex_encode C (take 48 (drop 144 data)) \<and>
     snp_signature q = hex_encode C (take 512 (drop 672 data))"
  by (auto simp: parse_snp_report_def snp_offsets read_inside hex_at_inside split: if_splits)

section \<open>Property\<close>

text \<open>
  C35: Neither parser ever panics, whatever the input. An SNP report is accepted exactly when it
  has 1184 bytes and version 2 or later, a TDX quote exactly when it has 632 bytes, version 4 and
  the TDX type; and a report written in the SEV-SNP layout is read back field by field.
\<close>

theorem parsers_total_and_exact:
  assumes "snp_sized f" and "2 \<le> snp_version f"
  shows "parse_snp_report C (snp_bytes f) = Inr (snp_hexed C f) \<and>
    parse_snp_report C data \<noteq> Inl Slice_panic \<and> parse_tdx_quote C data \<noteq> Inl Slice_panic \<and>
    (is_ok (parse_snp_report C data) \<longleftrightarrow>
       1184 \<le> length data \<and> 2 \<le> (word_of_nat (le_nat (take 4 data)) :: u32)) \<and>
    (is_ok (parse_tdx_quote C data) \<longleftrightarrow>
       632 \<le> length data \<and> (word_of_nat (le_nat (take 2 data)) :: u16) = 4 \<and>
       (word_of_nat (le_nat (take 4 (drop 4 data))) :: u32) = 0x81)"
  using parse_snp_bytes [OF assms] parse_snp_ok parse_tdx_ok by blast

definition demo_snp :: snp_report_fields where
  "demo_snp = \<lparr>snp_version = 2, snp_guest_svn = 1, snp_policy = 0x30000,
     snp_family_id = zeros 16, snp_image_id = zeros 16, snp_vmpl = 0, snp_signature_algo = 1,
     snp_platform_version = 7, snp_report_data = replicate 64 (CHR ''r''),
     snp_measurement = replicate 48 (CHR ''m''), snp_host_data = zeros 32,
     snp_id_key_digest = zeros 48, snp_author_key_digest = zeros 48, snp_report_id = zeros 32,
     snp_report_id_ma = zeros 32, snp_reported_tcb = 9, snp_chip_id = zeros 64,
     snp_committed_tcb = 8, snp_launch_tcb = 6, snp_signature = zeros 512\<rparr>"

theorem parsers_total_and_exact_witness:
  "\<exists>q. parse_snp_report demo_crypto (snp_bytes demo_snp) = Inr q \<and> snp_launch_tcb q = 6"
proof -
  have "snp_sized demo_snp" "2 \<le> snp_version demo_snp" by (simp_all add: snp_sized_def demo_snp_def)
  from parsers_total_and_exact [OF this] show ?thesis
    by (simp add: snp_hexed_def) (simp add: demo_snp_def)
qed

end
