(* ===== verification/Tee.thy ===== *)
theory Tee
  imports Attestation
begin

text \<open>
  The attestation manager of a node (\<open>tee/mod.rs\<close>), its mock backend (\<open>tee/mock.rs\<close>) and the
  attestation endpoint of \<open>main.rs\<close>. The external tools (\<open>snpguest\<close>, \<open>tdx_attest\<close>,
  \<open>tdx_quote_verify\<close>, the certificate files) and the key broker are parameters; random bytes
  are arguments.
\<close>

section \<open>The mock backend\<close>

definition MOCK_MEASUREMENT :: string where
  "MOCK_MEASUREMENT = ''mock_measurement_not_real_do_not_trust_in_production''"

definition copy_into :: "nat \<Rightarrow> string \<Rightarrow> string \<Rightarrow> string" where
  "copy_into off bs buf = take off buf @ bs @ drop (off + length bs) buf"

record mock_random =
  rnd_report_id :: string
  rnd_chip_id :: string
  rnd_signature :: string

definition mock_rd_input :: "string \<Rightarrow> string option \<Rightarrow> string" where
  "mock_rd_input nonce rd = (case rd of Some r \<Rightarrow> nonce @ '':'' @ r | None \<Rightarrow> nonce)"

definition generate_mock_snp_report ::
  "crypto \<Rightarrow> mock_random \<Rightarrow> string \<Rightarrow> string option \<Rightarrow> string" where
  "generate_mock_snp_report C rnd nonce rd =
     copy_into 0x1A0 (rnd_signature rnd) (
     copy_into 0x170 (rnd_chip_id rnd) (
     copy_into 0x140 (rnd_report_id rnd) (
     copy_into 0x090 (sha384 C MOCK_MEASUREMENT) (
     copy_into 0x020 (sha256 C (mock_rd_input nonce rd)) (
     copy_into 8 (le_bytes 8 0x30000) (
     copy_into 4 (le_bytes 4 0) (
     copy_into 0 (le_bytes 4 2) (zeros 1184))))))))"

definition generate_mock_tdx_quote :: "crypto \<Rightarrow> string \<Rightarrow> string option \<Rightarrow> string" where
  "generate_mock_tdx_quote C nonce rd =
     copy_into (48 + 0x088) (sha384 C MOCK_MEASUREMENT) (
     copy_into 48 (sha256 C (mock_rd_input nonce rd)) (
     copy_into 4 (le_bytes 4 0x81) (
     copy_into 2 (le_bytes 2 2) (
     copy_into 0 (le_bytes 2 4) (zeros 700)))))"

record mock_verification =
  mv_valid :: bool
  mv_platform :: string
  mv_measurement :: string
  mv_measurement_match :: bool
  mv_certificate_chain_valid :: bool
  mv_nonce_match :: bool
  mv_error :: "string option"

definition verify_mock_report ::
  "crypto \<Rightarrow> string \<Rightarrow> string \<Rightarrow> string option \<Rightarrow> mock_verification" where
  "verify_mock_report C report expected_nonce expected_measurement =
     (let nonce_match = (if 0x040 \<le> length report
            then take 32 (drop 0x020 report) = sha256 C expected_nonce else False);
          measurement_hex = (if 0x0C0 \<le> length report
            then hex_encode C (take 48 (drop 0x090 report)) else '''');
          measurement_match = (case expected_measurement of
            Some expected \<Rightarrow> measurement_hex = expected | None \<Rightarrow> True);
          certificate_chain_valid = True
      in \<lparr>mv_valid = nonce_match \<and> measurement_match \<and> certificate_chain_valid,
          mv_platform = ''mock'', mv_measurement = measurement_hex,
          mv_measurement_match = measurement_match,
          mv_certificate_chain_valid = certificate_chain_valid, mv_nonce_match = nonce_match,
          mv_error = (if \<not> nonce_match then Some ''nonce mismatch''
            else if \<not> measurement_match then Some ''measurement mismatch'' else None)\<rparr>)"

definition mock_measurement_hex :: "crypto \<Rightarrow> string" where
  "mock_measurement_hex C = hex_encode C (sha384 C MOCK_MEASUREMENT)"

definition mock_pem :: "string \<Rightarrow> string" where
  "mock_pem name = ''-----BEGIN CERTIFICATE-----'' @ [CHR 0x0A] @ ''MOCK-'' @ name @
     ''-NOT-REAL-DO-NOT-TRUST'' @ [CHR 0x0A] @ ''-----END CERTIFICATE-----''"

definition mock_certificate_chain :: "string list" where
  "mock_certificate_chain = [mock_pem ''VCEK'', mock_pem ''ASK'', mock_pem ''ARK'']"

section \<open>The manager\<close>

datatype tee_backend = SevSnp | Tdx | Mock | NoTee

fun tee_backend_str :: "tee_backend \<Rightarrow> string" where
  "tee_backend_str SevSnp = ''sev-snp''"
| "tee_backend_str Tdx = ''tdx''"
| "tee_backend_str Mock = ''mock''"
| "tee_backend_str NoTee = ''none''"

record tee_capabilities =
  cap_sev_snp :: bool
  cap_tdx :: bool
  cap_detected :: tee_backend

record attestation_report =
  ar_raw_report :: string
  ar_platform :: tee_backend
  ar_measurement :: string
  ar_nonce :: string
  ar_report_data :: string
  ar_certificate_chain :: "string list"
  ar_timestamp :: int

record attestation_verification =
  av_valid :: bool
  av_platform :: tee_backend
  av_measurement :: string
  av_measurement_match :: bool
  av_certificate_chain_valid :: bool
  av_nonce_match :: bool
  av_error :: "string option"

record tee_manager =
  tm_backend :: tee_backend
  tm_kbs_url :: string
  tm_expected_measurement :: "string option"
  tm_require_attestation :: bool

datatype tee_error = Tool_failed | Parse_failed parse_error | Attestation_required
  | Kbs_unconfigured | Kbs_unreachable | Kbs_failed string | Kbs_bad_json | Kbs_rejected string
  | Kbs_no_dek | Kbs_bad_dek

text \<open>
  The tools: a request for a report or quote over the 64 bytes of report data (\<open>None\<close> when any
  step of it fails), the certificates found, the verdicts of the verifiers, the PCK file before
  and after the retrieval tool has run (\<open>None\<close> when absent or unreadable).
\<close>

record tee_tools =
  snpguest_report :: "string \<Rightarrow> string option"
  snpguest_certs :: "string list"
  snpguest_verify :: "string list \<Rightarrow> string \<Rightarrow> bool"
  tdx_attest :: "string \<Rightarrow> string option"
  tdx_quote_verify :: "string \<Rightarrow> bool"
  pck_file :: "string option"
  pck_tool_ok :: bool
  pck_file_after :: "string option"

definition tee_manager_new :: "string \<Rightarrow> string \<Rightarrow> bool \<Rightarrow> string \<Rightarrow> string option \<Rightarrow> tee_manager" where
  "tee_manager_new backend kbs require measurement_path file =
     \<lparr>tm_backend =
        (if backend = ''sev-snp'' then SevSnp else if backend = ''tdx'' then Tdx
         else if backend = ''mock'' then Mock else NoTee),
      tm_kbs_url = kbs,
      tm_expected_measurement =
        (if measurement_path = '''' then None
         else case file of
             Some content \<Rightarrow> (let t = to_lower (trim content) in if t = '''' then None else Some t)
           | None \<Rightarrow> None),
      tm_require_attestation = require\<rparr>"

definition detect_capabilities :: "(string \<Rightarrow> bool) \<Rightarrow> tee_capabilities" where
  "detect_capabilities exists =
     (let snp = exists ''/dev/sev-guest''; tdx = exists ''/dev/tdx-guest'' in
      \<lparr>cap_sev_snp = snp, cap_tdx = tdx,
       cap_detected = (if snp then SevSnp else if tdx then Tdx else NoTee)\<rparr>)"

definition generate_snp_report ::
  "crypto \<Rightarrow> tee_tools \<Rightarrow> string \<Rightarrow> string \<Rightarrow> string \<Rightarrow> int \<Rightarrow> tee_error + attestation_report" where
  "generate_snp_report C T report_data nonce report_data_hex now =
     rbind (ok_or Tool_failed (snpguest_report T report_data)) (\<lambda>raw.
     case parse_snp_report C raw of
       Inl e \<Rightarrow> Inl (Parse_failed e)
     | Inr fs \<Rightarrow> Inr \<lparr>ar_raw_report = raw, ar_platform = SevSnp,
         ar_measurement = snp_measurement fs, ar_nonce = nonce,
         ar_report_data = report_data_hex, ar_certificate_chain = snpguest_certs T,
         ar_timestamp = now\<rparr>)"

definition begin_certificate :: string where "begin_certificate = ''-----BEGIN CERTIFICATE-----''"
definition end_certificate :: string where "end_certificate = ''-----END CERTIFICATE-----''"

definition pem_certificates :: "string \<Rightarrow> string list" where
  "pem_certificates content = List.map_filter
     (\<lambda>chunk. let trimmed = trim chunk in
        if contains begin_certificate trimmed
        then Some (trimmed @ [CHR 0x0A] @ end_certificate @ [CHR 0x0A]) else None)
     (split_str end_certificate content)"

definition fetch_tdx_cert_chain :: "tee_tools \<Rightarrow> string list" where
  "fetch_tdx_cert_chain T = (case pck_file T of
     Some content \<Rightarrow> pem_certificates content
   | None \<Rightarrow>
       if pck_tool_ok T then
         (case pck_file_after T of Some content \<Rightarrow> pem_certificates content | None \<Rightarrow> [])
       else [])"

definition generate_tdx_report ::
  "crypto \<Rightarrow> tee_tools \<Rightarrow> string \<Rightarrow> string \<Rightarrow> string \<Rightarrow> int \<Rightarrow> tee_error + attestation_report" where
  "generate_tdx_report C T report_data nonce report_data_hex now =
     rbind (ok_or Tool_failed (tdx_attest T report_data)) (\<lambda>raw.
     case parse_tdx_quote C raw of
       Inl e \<Rightarrow> Inl (Parse_failed e)
     | Inr fs \<Rightarrow> Inr \<lparr>ar_raw_report = raw, ar_platform = Tdx,
         ar_measurement = tdx_mr_td fs, ar_nonce = nonce,
         ar_report_data = report_data_hex, ar_certificate_chain = fetch_tdx_cert_chain T,
         ar_timestamp = now\<rparr>)"

definition generate_report ::
  "crypto \<Rightarrow> tee_tools \<Rightarrow> mock_random \<Rightarrow> int \<Rightarrow> tee_manager \<Rightarrow> string \<Rightarrow> string option \<Rightarrow>
   tee_error + attestation_report" where
  "generate_report C T rnd now m nonce report_data =
     (let digest = sha256 C (nonce @ (case report_data of Some extra \<Rightarrow> extra | None \<Rightarrow> ''''));
          rd = copy_into 0 digest (zeros 64);
          rd_hex = hex_encode C rd
      in case tm_backend m of
        SevSnp \<Rightarrow> generate_snp_report C T rd nonce rd_hex now
      | Tdx \<Rightarrow> generate_tdx_report C T rd nonce rd_hex now
      | Mock \<Rightarrow> Inr \<lparr>ar_raw_report = generate_mock_snp_report C rnd nonce report_data,
          ar_platform = Mock, ar_measurement = mock_measurement_hex C, ar_nonce = nonce,
          ar_report_data = rd_hex, ar_certificate_chain = mock_certificate_chain,
          ar_timestamp = now\<rparr>
      | NoTee \<Rightarrow> guard (\<not> tm_require_attestation m) Attestation_required (
          Inr \<lparr>ar_raw_report = '''', ar_platform = NoTee, ar_measurement = '''', ar_nonce = nonce,
            ar_report_data = rd_hex, ar_certificate_chain = [], ar_timestamp = now\<rparr>))"

definition verify_snp_certs :: "tee_tools \<Rightarrow> attestation_report \<Rightarrow> bool" where
  "verify_snp_certs T r =
     (if ar_raw_report r = '''' \<or> ar_certificate_chain r = [] then False
      else snpguest_verify T (ar_certificate_chain r) (ar_raw_report r))"

definition verify_tdx_certs :: "tee_tools \<Rightarrow> attestation_report \<Rightarrow> bool" where
  "verify_tdx_certs T r =
     (if ar_raw_report r = '''' \<or> ar_certificate_chain r = [] then False
      else tdx_quote_verify T (ar_raw_report r))"

definition measurement_ok :: "string option \<Rightarrow> tee_manager \<Rightarrow> attestation_report \<Rightarrow> bool" where
  "measurement_ok opt_out m r = (case tm_expected_measurement m of
     Some expected \<Rightarrow> to_lower (ar_measurement r) = expected
   | None \<Rightarrow>
       if ar_platform r = Mock \<or> ar_platform r = NoTee then True
       else opt_out \<in> {Some ''true'', Some ''1'', Some ''yes''})"

definition verify_report ::
  "tee_tools \<Rightarrow> string option \<Rightarrow> tee_manager \<Rightarrow> attestation_report \<Rightarrow> string \<Rightarrow> attestation_verification" where
  "verify_report T opt_out m r expected_nonce =
     (let nonce_match = (ar_nonce r = expected_nonce);
          measurement_match = measurement_ok opt_out m r;
          certificate_chain_valid = (case ar_platform r of
            SevSnp \<Rightarrow> verify_snp_certs T r | Tdx \<Rightarrow> verify_tdx_certs T r
          | Mock \<Rightarrow> True | NoTee \<Rightarrow> True);
          valid = (nonce_match \<and> measurement_match \<and> certificate_chain_valid);
          reasons =
            (if nonce_match then [] else [''nonce mismatch'']) @
            (if measurement_match then [] else [''measurement mismatch: got '' @ ar_measurement r @
               '', expected '' @ (case tm_expected_measurement m of Some e \<Rightarrow> e | None \<Rightarrow> ''(none)'')]) @
            (if certificate_chain_valid then [] else [''certificate chain validation failed''])
      in \<lparr>av_valid = valid, av_platform = ar_platform r, av_measurement = ar_measurement r,
          av_measurement_match = measurement_match,
          av_certificate_chain_valid = certificate_chain_valid, av_nonce_match = nonce_match,
          av_error = (if valid then None else Some (join ''; '' reasons))\<rparr>)"

text \<open>The endpoint: a report over the caller's nonce, bound to the instance by default.\<close>

definition attest_handler ::
  "crypto \<Rightarrow> tee_tools \<Rightarrow> mock_random \<Rightarrow> int \<Rightarrow> string option \<Rightarrow> tee_manager \<Rightarrow> string \<Rightarrow> string \<Rightarrow>
   string option \<Rightarrow> tee_error + attestation_verification" where
  "attest_handler C T rnd now opt_out m inst nonce report_data =
     rbind (generate_report C T rnd now m nonce
              (case report_data of Some r \<Rightarrow> Some r | None \<Rightarrow> Some inst)) (\<lambda>report.
     Inr (verify_report T opt_out m report nonce))"

section \<open>Key release\<close>

record kbs_request =
  kr_instance_id :: string
  kr_nonce :: string
  kr_encrypted_dek :: string
  kr_attestation_report :: string
  kr_platform :: tee_backend
  kr_measurement :: string
  kr_certificate_chain :: "string list"

text \<open>The answer of the broker: the JSON fields the code reads, when they have the right type.\<close>

record kbs_body =
  kb_accepted :: "bool option"
  kb_message :: "string option"
  kb_dek :: "string option"

datatype kbs_answer = Curl_error | Curl_exit string | Not_json | Answer kbs_body

record key_release_result =
  kr_dek :: string
  kr_accepted :: bool
  kr_message :: string

definition trim_end_matches :: "char \<Rightarrow> string \<Rightarrow> string" where
  "trim_end_matches c s = rev (dropWhile (\<lambda>x. x = c) (rev s))"

definition request_key_release ::
  "crypto \<Rightarrow> tee_tools \<Rightarrow> mock_random \<Rightarrow> int \<Rightarrow> (string \<Rightarrow> kbs_request \<Rightarrow> kbs_answer) \<Rightarrow> tee_manager \<Rightarrow>
   string \<Rightarrow> string \<Rightarrow> string \<Rightarrow> tee_error + key_release_result" where
  "request_key_release C T rnd now kbs m instance_id encrypted_dek nonce =
     guard (tm_kbs_url m \<noteq> '''') Kbs_unconfigured (
     rbind (generate_report C T rnd now m nonce (Some instance_id)) (\<lambda>report.
     case kbs (trim_end_matches (CHR ''/'') (tm_kbs_url m) @ ''/v1/keys/release'')
         \<lparr>kr_instance_id = instance_id, kr_nonce = nonce,
          kr_encrypted_dek = b64_encode C encrypted_dek,
          kr_attestation_report = b64_encode C (ar_raw_report report),
          kr_platform = ar_platform report, kr_measurement = ar_measurement report,
          kr_certificate_chain = ar_certificate_chain report\<rparr> of
       Curl_error \<Rightarrow> Inl Kbs_unreachable
     | Curl_exit stderr \<Rightarrow> Inl (Kbs_failed stderr)
     | Not_json \<Rightarrow> Inl Kbs_bad_json
     | Answer body \<Rightarrow>
         guard (kb_accepted body = Some True)
           (Kbs_rejected (case kb_message body of Some s \<Rightarrow> s | None \<Rightarrow> ''attestation rejected by KBS'')) (
         rbind (ok_or Kbs_no_dek (kb_dek body)) (\<lambda>d.
         rbind (ok_or Kbs_bad_dek (b64_decode C d)) (\<lambda>dek.
         Inr \<lparr>kr_dek = dek, kr_accepted = True,
              kr_message = (case kb_message body of Some s \<Rightarrow> s | None \<Rightarrow> ''key released'')\<rparr>)))))"

section \<open>Lemmas\<close>

lemma length_copy_into:
  "off + length bs \<le> length buf \<Longrightarrow> length (copy_into off bs buf) = length buf"
  by (simp add: copy_into_def)

text \<open>A field that lies before or behind what is written is unchanged; the field written is it.\<close>

lemma copy_into_other:
  assumes "off + length bs \<le> length buf" and "o' + n \<le> off \<or> off + length bs \<le> o'"
  shows "take n (drop o' (copy_into off bs buf)) = take n (drop o' buf)"
proof (rule nth_equalityI)
  show "length (take n (drop o' (copy_into off bs buf))) = length (take n (drop o' buf))"
    using assms(1) by (simp add: length_copy_into)
next
  fix i
  assume "i < length (take n (drop o' (copy_into off bs buf)))"
  then show "take n (drop o' (copy_into off bs buf)) ! i = take n (drop o' buf) ! i"
    using assms by (auto simp: copy_into_def nth_append)
qed

lemma copy_into_same:
  "off + length bs \<le> length buf \<Longrightarrow> n = length bs \<Longrightarrow>
     take n (drop off (copy_into off bs buf)) = bs"
  by (simp add: copy_into_def)

lemma field_of_zeros: "off + n \<le> k \<Longrightarrow> take n (drop off (zeros k)) = zeros n"
  by (simp add: zeros_def)

definition random_sized :: "mock_random \<Rightarrow> bool" where
  "random_sized rnd \<longleftrightarrow> length (rnd_report_id rnd) = 32 \<and> length (rnd_chip_id rnd) = 64 \<and>
     length (rnd_signature rnd) = 512"

lemma copy_into_front:
  "n \<le> off \<Longrightarrow> off \<le> length buf \<Longrightarrow> take n (copy_into off bs buf) = take n buf"
  "n = length bs \<Longrightarrow> take n (copy_into 0 bs buf) = bs"
  by (simp_all add: copy_into_def min_def)

lemmas copy_into_simps = copy_into_front copy_into_other copy_into_same length_copy_into field_of_zeros

lemma mock_snp_shape:
  assumes "digest_law C" and "random_sized rnd"
    and r_def: "r = generate_mock_snp_report C rnd nonce rd"
  shows "length r = 1184" "take 4 r = le_bytes 4 2"
    "take 32 (drop 32 r) = sha256 C (mock_rd_input nonce rd)"
    "take 64 (drop 80 r) = zeros 64" "take 48 (drop 144 r) = sha384 C MOCK_MEASUREMENT"
proof -
  have l: "length (sha256 C x) = 32" "length (sha384 C x) = 48" for x
    using assms(1) by (simp_all add: digest_law_def)
  note sz = assms(2) [unfolded random_sized_def]
  show "length r = 1184" "take 32 (drop 32 r) = sha256 C (mock_rd_input nonce rd)"
    "take 64 (drop 80 r) = zeros 64" "take 48 (drop 144 r) = sha384 C MOCK_MEASUREMENT"
    using sz by (simp_all add: r_def generate_mock_snp_report_def copy_into_simps l)
  show "take 4 r = le_bytes 4 2"
    using sz by (simp add: r_def generate_mock_snp_report_def copy_into_simps l)
qed

lemma mock_tdx_shape:
  assumes "digest_law C"
    and r_def: "r = generate_mock_tdx_quote C nonce rd"
  shows "length r = 700" "take 2 r = le_bytes 2 4" "take 4 (drop 4 r) = le_bytes 4 0x81"
    "take 64 (drop 568 r) = zeros 64" "take 48 (drop 184 r) = sha384 C MOCK_MEASUREMENT"
proof -
  have l: "length (sha256 C x) = 32" "length (sha384 C x) = 48" for x
    using assms(1) by (simp_all add: digest_law_def)
  show "length r = 700" "take 4 (drop 4 r) = le_bytes 4 0x81"
    "take 64 (drop 568 r) = zeros 64" "take 48 (drop 184 r) = sha384 C MOCK_MEASUREMENT"
    by (simp_all add: r_def generate_mock_tdx_quote_def copy_into_simps l)
  show "take 2 r = le_bytes 2 4"
    by (simp add: r_def generate_mock_tdx_quote_def copy_into_simps l)
qed

lemma le_tags [simp]:
  "le_nat (le_bytes 4 2) = 2" "le_nat (le_bytes 2 4) = 4" "le_nat (le_bytes 4 0x81) = 0x81"
  by (simp_all add: le_nat_le_bytes)

lemma mock_snp_parses:
  assumes "digest_law C" and "random_sized rnd"
  shows "\<exists>q. parse_snp_report C (generate_mock_snp_report C rnd nonce rd) = Inr q \<and>
    snp_measurement q = mock_measurement_hex C \<and> snp_report_data q = hex_encode C (zeros 64)"
proof -
  let ?r = "generate_mock_snp_report C rnd nonce rd"
  note shape = mock_snp_shape [OF assms refl, of nonce rd]
  have "is_ok (parse_snp_report C ?r)" by (simp add: parse_snp_ok shape)
  then obtain q where q: "parse_snp_report C ?r = Inr q" by (auto simp: is_ok_iff)
  from parse_snp_fields [OF this] have "snp_measurement q = mock_measurement_hex C"
    "snp_report_data q = hex_encode C (zeros 64)"
    by (simp_all add: shape mock_measurement_hex_def)
  with q show ?thesis by blast
qed

lemma mock_tdx_parses:
  assumes "digest_law C"
  shows "\<exists>q. parse_tdx_quote C (generate_mock_tdx_quote C nonce rd) = Inr q \<and>
    tdx_mr_td q = mock_measurement_hex C \<and> tdx_report_data q = hex_encode C (zeros 64)"
proof -
  let ?r = "generate_mock_tdx_quote C nonce rd"
  note shape = mock_tdx_shape [OF assms refl, of nonce rd]
  have "is_ok (parse_tdx_quote C ?r)" by (simp add: parse_tdx_ok shape)
  then obtain q where q: "parse_tdx_quote C ?r = Inr q" by (auto simp: is_ok_iff)
  from parse_tdx_fields [OF this] have "tdx_mr_td q = mock_measurement_hex C"
    "tdx_report_data q = hex_encode C (zeros 64)"
    by (simp_all add: shape mock_measurement_hex_def)
  with q show ?thesis by blast
qed

lemma verify_report_simps:
  "av_valid (verify_report T opt_out m r n) \<longleftrightarrow> ar_nonce r = n \<and> measurement_ok opt_out m r \<and>
     (case ar_platform r of SevSnp \<Rightarrow> verify_snp_certs T r | Tdx \<Rightarrow> verify_tdx_certs T r | _ \<Rightarrow> True)"
  "av_measurement (verify_report T opt_out m r n) = ar_measurement r"
  by (simp_all add: verify_report_def Let_def split: tee_backend.splits)

lemma measurement_ok_real:
  "ar_platform r \<in> {SevSnp, Tdx} \<Longrightarrow> measurement_ok opt_out m r \<longleftrightarrow>
     tm_expected_measurement m = Some (to_lower (ar_measurement r)) \<or>
     tm_expected_measurement m = None \<and> opt_out \<in> {Some ''true'', Some ''1'', Some ''yes''}"
  by (auto simp: measurement_ok_def split: option.splits)

lemma measurement_ok_mock:
  "ar_platform r \<in> {Mock, NoTee} \<Longrightarrow> measurement_ok opt_out m r \<longleftrightarrow>
     tm_expected_measurement m \<in> {None, Some (to_lower (ar_measurement r))}"
  by (auto simp: measurement_ok_def split: option.splits)

lemma generated_snp:
  assumes "generate_report C T rnd now m nonce rd = Inr r" and "tm_backend m = SevSnp"
  obtains raw f where "parse_snp_report C raw = Inr f" "ar_raw_report r = raw" "ar_platform r = SevSnp"
    "ar_measurement r = snp_measurement f" "ar_certificate_chain r = snpguest_certs T"
proof -
  from assms obtain d h where "generate_snp_report C T d nonce h now = Inr r"
    by (auto simp: generate_report_def Let_def)
  then obtain raw where "(case parse_snp_report C raw of Inl e \<Rightarrow> Inl (Parse_failed e)
     | Inr fs \<Rightarrow> Inr \<lparr>ar_raw_report = raw, ar_platform = SevSnp,
         ar_measurement = snp_measurement fs, ar_nonce = nonce,
         ar_report_data = h, ar_certificate_chain = snpguest_certs T, ar_timestamp = now\<rparr>) = Inr r"
    by (auto simp: generate_snp_report_def rbind_ok ok_or_ok)
  then show thesis by (cases "parse_snp_report C raw") (auto intro: that)
qed

lemma generated_tdx:
  assumes "generate_report C T rnd now m nonce rd = Inr r" and "tm_backend m = Tdx"
  obtains raw f where "parse_tdx_quote C raw = Inr f" "ar_raw_report r = raw" "ar_platform r = Tdx"
    "ar_measurement r = tdx_mr_td f" "ar_certificate_chain r = fetch_tdx_cert_chain T"
proof -
  from assms obtain d h where "generate_tdx_report C T d nonce h now = Inr r"
    by (auto simp: generate_report_def Let_def)
  then obtain raw where "(case parse_tdx_quote C raw of Inl e \<Rightarrow> Inl (Parse_failed e)
     | Inr fs \<Rightarrow> Inr \<lparr>ar_raw_report = raw, ar_platform = Tdx,
         ar_measurement = tdx_mr_td fs, ar_nonce = nonce,
         ar_report_data = h, ar_certificate_chain = fetch_tdx_cert_chain T, ar_timestamp = now\<rparr>) = Inr r"
    by (auto simp: generate_tdx_report_def rbind_ok ok_or_ok)
  then show thesis by (cases "parse_tdx_quote C raw") (auto intro: that)
qed

lemma generated_plain:
  "generate_report C T rnd now m nonce rd = Inr r \<Longrightarrow> tm_backend m = Mock \<Longrightarrow>
     ar_platform r = Mock \<and> ar_measurement r = mock_measurement_hex C \<and> ar_nonce r = nonce"
  "generate_report C T rnd now m nonce rd = Inr r \<Longrightarrow> tm_backend m = NoTee \<Longrightarrow>
     ar_platform r = NoTee \<and> ar_measurement r = '''' \<and> ar_nonce r = nonce"
  by (auto simp: generate_report_def Let_def split: if_splits)

section \<open>Properties\<close>

text \<open>
  Mock reports against the parsers and against their own verifier: both mock formats parse,
  with the mock measurement where the parsers look for it; but the report data the parsers read
  are 64 zero bytes whatever the nonce, since the generators write them at other offsets. The
  mock verifier accepts a report made without report data exactly on the right measurement, and
  one made with report data only if the two inputs collide under SHA-256.
\<close>

lemma mock_reports_and_parsers:
  assumes "digest_law C" and "random_sized rnd"
  shows "(\<exists>q. parse_snp_report C (generate_mock_snp_report C rnd nonce rd) = Inr q \<and>
      snp_measurement q = mock_measurement_hex C \<and> snp_report_data q = hex_encode C (zeros 64)) \<and>
    (\<exists>q. parse_tdx_quote C (generate_mock_tdx_quote C nonce rd) = Inr q \<and>
      tdx_mr_td q = mock_measurement_hex C \<and> tdx_report_data q = hex_encode C (zeros 64)) \<and>
    (mv_valid (verify_mock_report C (generate_mock_snp_report C rnd nonce None) nonce expected) \<longleftrightarrow>
      expected \<in> {None, Some (mock_measurement_hex C)}) \<and>
    (mv_valid (verify_mock_report C (generate_mock_snp_report C rnd nonce (Some extra)) nonce None) \<longleftrightarrow>
      sha256 C (nonce @ '':'' @ extra) = sha256 C nonce)"
proof -
  have "mv_valid (verify_mock_report C (generate_mock_snp_report C rnd nonce d) nonce e) \<longleftrightarrow>
      sha256 C (mock_rd_input nonce d) = sha256 C nonce \<and> e \<in> {None, Some (mock_measurement_hex C)}" for d e
    using mock_snp_shape [OF assms refl, of nonce d]
    by (auto simp: verify_mock_report_def Let_def mock_measurement_hex_def split: option.splits)
  then show ?thesis
    using mock_snp_parses [OF assms, of nonce rd] mock_tdx_parses [OF assms(1), of nonce rd]
    by (simp add: mock_rd_input_def)
qed

definition demo_random :: mock_random where
  "demo_random = \<lparr>rnd_report_id = zeros 32, rnd_chip_id = zeros 64, rnd_signature = zeros 512\<rparr>"

lemma mock_reports_and_parsers_witness:
  "\<not> mv_valid (verify_mock_report demo_crypto
      (generate_mock_snp_report demo_crypto demo_random ''n'' (Some ''x'')) ''n'' None)"
proof -
  have "random_sized demo_random" by (simp add: random_sized_def demo_random_def)
  moreover have "sha256 demo_crypto (''n'' @ '':'' @ ''x'') \<noteq> sha256 demo_crypto ''n''"
    by (simp add: demo_crypto_def numeral_eq_Suc)
  ultimately show ?thesis using mock_reports_and_parsers [OF demo_digest] by blast
qed

text \<open>
  What the attestation endpoint answers for a node configured at start-up. Without a TEE and
  with attestation required it is an error, and no key is ever requested. With real hardware an
  answer is valid only if the tool's report parsed, its certificates were present and verified,
  and the parsed measurement is the expected one (or none is expected and the operator opted
  out explicitly). The mock backend is valid exactly if nothing or its own measurement is
  expected, no backend only if nothing is. The verdict rests on the platform the report states:
  one that says it is mock passes a node with real hardware and no expected measurement on its
  nonce alone.
\<close>

lemma attestation_verdicts:
  assumes attest_def: "attest = attest_handler C T rnd now opt_out m inst nonce rd"
    and m: "m = tee_manager_new backend kbs_url require path content"
  shows "(tm_backend m = NoTee \<and> require \<longrightarrow> attest = Inl Attestation_required \<and>
      request_key_release C T rnd now kbs m inst dek nonce \<in> {Inl Attestation_required, Inl Kbs_unconfigured}) \<and>
    (\<forall>v. attest = Inr v \<and> tm_backend m = SevSnp \<and> av_valid v \<longrightarrow>
      (\<exists>raw f. parse_snp_report C raw = Inr f \<and> av_measurement v = snp_measurement f \<and>
        snpguest_certs T \<noteq> [] \<and> snpguest_verify T (snpguest_certs T) raw \<and>
        (tm_expected_measurement m = Some (to_lower (snp_measurement f)) \<or>
         tm_expected_measurement m = None \<and> opt_out \<in> {Some ''true'', Some ''1'', Some ''yes''}))) \<and>
    (\<forall>v. attest = Inr v \<and> tm_backend m = Tdx \<and> av_valid v \<longrightarrow>
      (\<exists>raw f. parse_tdx_quote C raw = Inr f \<and> av_measurement v = tdx_mr_td f \<and>
        fetch_tdx_cert_chain T \<noteq> [] \<and> tdx_quote_verify T raw \<and>
        (tm_expected_measurement m = Some (to_lower (tdx_mr_td f)) \<or>
         tm_expected_measurement m = None \<and> opt_out \<in> {Some ''true'', Some ''1'', Some ''yes''}))) \<and>
    (\<forall>v. attest = Inr v \<and> tm_backend m = Mock \<longrightarrow>
      (av_valid v \<longleftrightarrow> tm_expected_measurement m \<in> {None, Some (to_lower (mock_measurement_hex C))})) \<and>
    (\<forall>v. attest = Inr v \<and> tm_backend m = NoTee \<longrightarrow> (av_valid v \<longleftrightarrow> tm_expected_measurement m = None)) \<and>
    (tm_expected_measurement m = None \<and> ar_platform r \<in> {Mock, NoTee} \<longrightarrow>
      av_valid (verify_report T opt_out m r n) = (ar_nonce r = n))"
proof -
  have ne: "tm_expected_measurement m \<noteq> Some ''''"
    by (auto simp: m tee_manager_new_def Let_def split: option.splits if_splits)
  have req: "tm_require_attestation m = require" by (simp add: m tee_manager_new_def)
  have att: "\<exists>r. generate_report C T rnd now m nonce (Some (case rd of Some x \<Rightarrow> x | None \<Rightarrow> inst)) = Inr r \<and>
      v = verify_report T opt_out m r nonce" if "attest = Inr v" for v
    using that by (auto simp: attest_def attest_handler_def rbind_ok split: option.splits)
  have required: "attest = Inl Attestation_required"
    "request_key_release C T rnd now kbs m inst dek nonce \<in> {Inl Attestation_required, Inl Kbs_unconfigured}"
    if "tm_backend m = NoTee" and "require"
    using that by (auto simp: attest_def attest_handler_def generate_report_def Let_def request_key_release_def req)
  have snp: "\<exists>raw f. parse_snp_report C raw = Inr f \<and> av_measurement v = snp_measurement f \<and>
        snpguest_certs T \<noteq> [] \<and> snpguest_verify T (snpguest_certs T) raw \<and>
        (tm_expected_measurement m = Some (to_lower (snp_measurement f)) \<or>
         tm_expected_measurement m = None \<and> opt_out \<in> {Some ''true'', Some ''1'', Some ''yes''})"
    if a: "attest = Inr v" and b: "tm_backend m = SevSnp" and c: "av_valid v" for v
  proof -
    from att [OF a] obtain r where r: "generate_report C T rnd now m nonce
        (Some (case rd of Some x \<Rightarrow> x | None \<Rightarrow> inst)) = Inr r" and v: "v = verify_report T opt_out m r nonce"
      by blast
    from r b obtain raw f where "parse_snp_report C raw = Inr f" "ar_raw_report r = raw"
      "ar_platform r = SevSnp" "ar_measurement r = snp_measurement f"
      "ar_certificate_chain r = snpguest_certs T"
      by (rule generated_snp)
    with c v show ?thesis
      by (auto simp: verify_report_simps verify_snp_certs_def measurement_ok_real split: if_splits)
  qed
  have tdx: "\<exists>raw f. parse_tdx_quote C raw = Inr f \<and> av_measurement v = tdx_mr_td f \<and>
        fetch_tdx_cert_chain T \<noteq> [] \<and> tdx_quote_verify T raw \<and>
        (tm_expected_measurement m = Some (to_lower (tdx_mr_td f)) \<or>
         tm_expected_measurement m = None \<and> opt_out \<in> {Some ''true'', Some ''1'', Some ''yes''})"
    if a: "attest = Inr v" and b: "tm_backend m = Tdx" and c: "av_valid v" for v
  proof -
    from att [OF a] obtain r where r: "generate_report C T rnd now m nonce
        (Some (case rd of Some x \<Rightarrow> x | None \<Rightarrow> inst)) = Inr r" and v: "v = verify_report T opt_out m r nonce"
      by blast
    from r b obtain raw f where "parse_tdx_quote C raw = Inr f" "ar_raw_report r = raw"
      "ar_platform r = Tdx" "ar_measurement r = tdx_mr_td f"
      "ar_certificate_chain r = fetch_tdx_cert_chain T"
      by (rule generated_tdx)
    with c v show ?thesis
      by (auto simp: verify_report_simps verify_tdx_certs_def measurement_ok_real split: if_splits)
  qed
  have mock: "av_valid v \<longleftrightarrow> tm_expected_measurement m \<in> {None, Some (to_lower (mock_measurement_hex C))}"
    if "attest = Inr v" and "tm_backend m = Mock" for v
    using att [OF that(1)] generated_plain(1) [OF _ that(2)]
    by (auto simp: verify_report_simps measurement_ok_mock)
  have plain: "av_valid v \<longleftrightarrow> tm_expected_measurement m = None"
    if "attest = Inr v" and "tm_backend m = NoTee" for v
    using att [OF that(1)] generated_plain(2) [OF _ that(2)] ne
    by (auto simp: verify_report_simps measurement_ok_mock to_lower_def)
  have trusting: "av_valid (verify_report T opt_out m r n) = (ar_nonce r = n)"
    if "tm_expected_measurement m = None" and "ar_platform r \<in> {Mock, NoTee}"
    using that by (auto simp: verify_report_simps measurement_ok_mock)
  show ?thesis
    by (intro conjI allI impI; (elim conjE)?)
      (rule required snp tdx mock plain trusting; assumption)+
qed

definition demo_tools :: tee_tools where
  "demo_tools = \<lparr>snpguest_report = (\<lambda>rd. Some (snp_bytes (demo_snp\<lparr>snp_report_data := rd\<rparr>))),
     snpguest_certs = [''vcek''], snpguest_verify = (\<lambda>certs raw. certs \<noteq> []),
     tdx_attest = (\<lambda>rd. None), tdx_quote_verify = (\<lambda>raw. False), pck_file = None,
     pck_tool_ok = False, pck_file_after = None\<rparr>"

lemma attestation_verdicts_witness:
  "\<exists>v. attest_handler demo_crypto demo_tools demo_random 0 None
       (tee_manager_new ''mock'' '''' True '''' None) ''i'' ''n'' None = Inr v \<and> av_valid v"
proof -
  obtain v where "attest_handler demo_crypto demo_tools demo_random 0 None
      (tee_manager_new ''mock'' '''' True '''' None) ''i'' ''n'' None = Inr v"
    by (simp add: attest_handler_def generate_report_def tee_manager_new_def Let_def)
  then show ?thesis
    using attestation_verdicts [OF refl refl, where C = demo_crypto and T = demo_tools and rnd = demo_random
      and now = 0 and opt_out = None and backend = "''mock''" and kbs_url = "''''" and require = True
      and path = "''''" and content = None and inst = "''i''" and nonce = "''n''" and rd = None]
    by (simp add: tee_manager_new_def)
qed

end
