(* ===== verification/Studio_Proxy.thy ===== *)
theory Studio_Proxy
  imports Kraph_Crypto
begin

text \<open>
  The gate of the Studio dashboards: tokens, the cookie and the host name of
  \<open>studio_proxy.rs\<close>, and the two routes of \<open>main.rs\<close> that use them. The JSON form of the claims
  is a parameter; header values are \<open>None\<close> when absent or not printable (the two differ only for
  \<open>x-forwarded-host\<close>, whose field is \<open>Some None\<close> when present but not printable).
\<close>

definition COOKIE_NAME :: string where "COOKIE_NAME = ''kraph_studio''"
definition DEFAULT_TTL_SECS :: int where "DEFAULT_TTL_SECS = 15 * 60"

record studio_claims =
  cl_w :: string
  cl_i :: string
  cl_e :: i64

record claims_json =
  claims_encode :: "studio_claims \<Rightarrow> string"
  claims_decode :: "string \<Rightarrow> studio_claims option"

definition claims_law :: "claims_json \<Rightarrow> bool" where
  "claims_law J \<longleftrightarrow> (\<forall>c. claims_decode J (claims_encode J c) = Some c)"

datatype token_error = Malformed | BadSignature | Expired

definition mint_token ::
  "crypto \<Rightarrow> claims_json \<Rightarrow> i64 \<Rightarrow> string \<Rightarrow> string \<Rightarrow> string \<Rightarrow> i64 \<Rightarrow> string" where
  "mint_token C J now secret wallet instance_id ttl =
     (let payload_b64 = b64url_encode C
            (claims_encode J \<lparr>cl_w = wallet, cl_i = instance_id, cl_e = now + ttl\<rparr>)
      in payload_b64 @ ''.'' @ b64url_encode C (hmac_sha256 C secret payload_b64))"

definition verify_token ::
  "crypto \<Rightarrow> claims_json \<Rightarrow> i64 \<Rightarrow> string \<Rightarrow> string \<Rightarrow> token_error + studio_claims" where
  "verify_token C J now secret token =
     guard (secret \<noteq> '''') BadSignature (
     rbind (ok_or Malformed (break_on ''.'' token)) (\<lambda>(payload_b64, tag_b64).
     rbind (ok_or Malformed (b64url_decode C tag_b64)) (\<lambda>tag.
     guard (hmac_sha256 C secret payload_b64 = tag) BadSignature (
     rbind (ok_or Malformed (b64url_decode C payload_b64)) (\<lambda>payload.
     rbind (ok_or Malformed (claims_decode J payload)) (\<lambda>claims.
     guard (\<not> sint now > sint (cl_e claims)) Expired (Inr claims)))))))"

definition cookie_mark :: string where "cookie_mark = COOKIE_NAME @ ''=''"

fun find_cookie :: "string list \<Rightarrow> string option" where
  "find_cookie [] = None"
| "find_cookie (kv # kvs) = (case strip_prefix cookie_mark (trim kv) of
     Some rest \<Rightarrow> Some rest | None \<Rightarrow> find_cookie kvs)"

definition read_studio_cookie :: "string option \<Rightarrow> string option" where
  "read_studio_cookie cookie_header = (case cookie_header of
     None \<Rightarrow> None | Some h \<Rightarrow> find_cookie (split_on (CHR '';'') h))"

definition build_cookie :: "string \<Rightarrow> string \<Rightarrow> int \<Rightarrow> string" where
  "build_cookie token apex max_age =
     (let dot_apex = (if starts_with ''.'' apex then apex else ''.'' @ apex) in
      COOKIE_NAME @ ''='' @ token @ ''; Path=/; Domain='' @ dot_apex @
      ''; HttpOnly; SameSite=Lax; Secure; Max-Age='' @ show_int max_age)"

definition instance_id_from_host :: "string \<Rightarrow> string option" where
  "instance_id_from_host host = map_option fst (break_on ''.'' (hd (split_on (CHR '':'') host)))"

section \<open>The two routes\<close>

text \<open>
  \<open>lookup\<close> is the instance table: an error, no instance, or the Studio port of the instance.
  A response is a refusal with its status, the redirect that sets a cookie, leave to proceed,
  or leave to proceed to a port.
\<close>

type_synonym port_lookup = "string \<Rightarrow> unit + u16 option"

datatype studio_response = Status nat | Redirect string | Proceed | Proxy_to u16

record studio_config =
  studio_proxy_secret :: string
  studio_apex :: string

definition trim_start_dots :: "string \<Rightarrow> string" where
  "trim_start_dots s = dropWhile (\<lambda>c. c = CHR ''.'') s"

definition studio_exchange ::
  "crypto \<Rightarrow> claims_json \<Rightarrow> i64 \<Rightarrow> studio_config \<Rightarrow> port_lookup \<Rightarrow> string option \<Rightarrow> string \<Rightarrow> studio_response" where
  "studio_exchange C J now cfg lookup host_header token =
     (if studio_proxy_secret cfg = '''' then Status 403
      else let apex = trim_start_dots (studio_apex cfg) in
      if apex = '''' then Status 403
      else case verify_token C J now (studio_proxy_secret cfg) token of
        Inl _ \<Rightarrow> Status 403
      | Inr claims \<Rightarrow> (case lookup (cl_i claims) of
          Inl _ \<Rightarrow> Status 500
        | Inr None \<Rightarrow> Status 404
        | Inr (Some _) \<Rightarrow> (case host_header of
            None \<Rightarrow> Status 403
          | Some host \<Rightarrow> (case instance_id_from_host host of
              None \<Rightarrow> Status 403
            | Some host_id \<Rightarrow>
                if host_id \<noteq> cl_i claims then Status 403
                else Redirect (build_cookie token apex DEFAULT_TTL_SECS)))))"

record forward_headers =
  x_forwarded_uri :: "string option"
  cookie_header :: "string option"
  x_forwarded_host :: "string option option"
  host_header :: "string option"

definition forwarded_host :: "forward_headers \<Rightarrow> string" where
  "forwarded_host h = (case x_forwarded_host h of Some x \<Rightarrow> (case x of Some v \<Rightarrow> v | None \<Rightarrow> '''')
     | None \<Rightarrow> (case host_header h of Some x \<Rightarrow> x | None \<Rightarrow> ''''))"

definition studio_forward_auth ::
  "crypto \<Rightarrow> claims_json \<Rightarrow> i64 \<Rightarrow> studio_config \<Rightarrow> port_lookup \<Rightarrow> forward_headers \<Rightarrow> studio_response" where
  "studio_forward_auth C J now cfg lookup h =
     (if starts_with ''/__kraph/studio/exchange'' (case x_forwarded_uri h of Some u \<Rightarrow> u | None \<Rightarrow> '''')
      then Proceed
      else if studio_proxy_secret cfg = '''' then Status 503
      else case read_studio_cookie (cookie_header h) of
        None \<Rightarrow> Status 401
      | Some cookie \<Rightarrow> (case verify_token C J now (studio_proxy_secret cfg) cookie of
          Inl _ \<Rightarrow> Status 401
        | Inr claims \<Rightarrow>
            let host_id = (case instance_id_from_host (forwarded_host h) of Some x \<Rightarrow> x | None \<Rightarrow> '''') in
            if host_id \<noteq> cl_i claims then Status 401
            else (case lookup (cl_i claims) of
              Inl _ \<Rightarrow> Status 500 | Inr None \<Rightarrow> Status 404 | Inr (Some port) \<Rightarrow> Proxy_to port)))"

section \<open>Lemmas\<close>

lemma b64url_clean:
  assumes "b64url_law C" and "c \<in> set (b64url_encode C x)"
  shows "c \<noteq> CHR ''.''" "c \<noteq> CHR '';''" "\<not> is_space c"
proof -
  have "is_ascii_alphanumeric c \<or> c = CHR ''-'' \<or> c = CHR ''_''"
    using assms by (auto simp: b64url_law_def list_all_iff)
  then show "c \<noteq> CHR ''.''" "c \<noteq> CHR '';''" "\<not> is_space c"
    by (auto simp: ascii_defs is_space_def)
qed

lemma break_on_char: "d \<notin> set a \<Longrightarrow> break_on [d] (a @ d # b) = Some (a, b)"
  by (induction a) auto

lemma verify_minted:
  assumes "b64url_law C" and "claims_law J" and "secret \<noteq> ''''"
  shows "verify_token C J now' secret (mint_token C J now secret w i ttl) =
    (if sint now' > sint (now + ttl) then Inl Expired
     else Inr \<lparr>cl_w = w, cl_i = i, cl_e = now + ttl\<rparr>)"
proof -
  have "CHR ''.'' \<notin> set (b64url_encode C x)" for x using b64url_clean(1) [OF assms(1)] by blast
  then show ?thesis
    using assms by (simp add: verify_token_def mint_token_def Let_def break_on_char b64url_law_def claims_law_def)
qed

lemma break_on_dot: "break_on ''.'' s = Some (a, b) \<Longrightarrow> s = a @ ''.'' @ b \<and> CHR ''.'' \<notin> set a"
  by (induction s arbitrary: a) (auto split: option.splits if_splits)

text \<open>What a verified token carries.\<close>

lemma verify_token_ok:
  assumes "verify_token C J now secret token = Inr c"
  obtains p t payload where "secret \<noteq> ''''" "token = p @ ''.'' @ t" "CHR ''.'' \<notin> set p"
    "b64url_decode C t = Some (hmac_sha256 C secret p)"
    "b64url_decode C p = Some payload" "claims_decode J payload = Some c" "sint now \<le> sint (cl_e c)"
  using assms by (auto simp: verify_token_def ok_simps dest!: break_on_dot)

text \<open>
  \<open>token_of C J now secret token c\<close>: the token is a payload and a tag, split at its first dot; the tag
  is the authentication of the payload under the secret, the payload decodes to the claims \<open>c\<close>, and
  they have not expired.
\<close>

definition token_of :: "crypto \<Rightarrow> claims_json \<Rightarrow> i64 \<Rightarrow> string \<Rightarrow> string \<Rightarrow> studio_claims \<Rightarrow> bool" where
  "token_of C J now secret token c \<longleftrightarrow> secret \<noteq> '''' \<and>
     (\<exists>p t payload. token = p @ ''.'' @ t \<and> CHR ''.'' \<notin> set p \<and>
        b64url_decode C t = Some (hmac_sha256 C secret p) \<and>
        b64url_decode C p = Some payload \<and> claims_decode J payload = Some c) \<and>
     sint now \<le> sint (cl_e c)"

lemma verify_token_of: "verify_token C J now secret token = Inr c \<longleftrightarrow> token_of C J now secret token c"
proof
  assume "verify_token C J now secret token = Inr c"
  then show "token_of C J now secret token c"
    by (rule verify_token_ok) (auto simp: token_of_def)
next
  assume "token_of C J now secret token c"
  then show "verify_token C J now secret token = Inr c"
    by (auto simp: token_of_def verify_token_def break_on_char)
qed

definition token_clean :: "string \<Rightarrow> bool" where
  "token_clean t \<longleftrightarrow> t \<noteq> '''' \<and> (\<forall>c \<in> set t. c \<noteq> CHR '';'' \<and> \<not> is_space c)"

lemma minted_clean: "b64url_law C \<Longrightarrow> token_clean (mint_token C J now secret w i ttl)"
  using b64url_clean(2,3) [of C] by (auto simp: token_clean_def mint_token_def Let_def is_space_def)


lemma find_cookie_skip:
  "\<forall>kv \<in> set xs. strip_prefix cookie_mark (trim kv) = None \<Longrightarrow> find_cookie (xs @ ys) = find_cookie ys"
  by (induction xs) auto

lemma read_cookie_found:
  assumes tok: "token_clean tok" and sp: "sp \<in> {'''', '' ''}"
    and xs: "\<forall>kv \<in> set xs. CHR '';'' \<notin> set kv \<and> strip_prefix cookie_mark (trim kv) = None"
    and ys: "\<forall>kv \<in> set ys. CHR '';'' \<notin> set kv"
  shows "read_studio_cookie (Some (join '';'' (xs @ [sp @ cookie_mark @ tok] @ ys))) = Some tok"
proof -
  have mark: "\<forall>c \<in> set cookie_mark. c \<noteq> CHR '';'' \<and> \<not> is_space c"
    by (auto simp: cookie_mark_def COOKIE_NAME_def is_space_def)
  then have "trim (cookie_mark @ tok) = cookie_mark @ tok"
    using tok by (intro trim_clean) (auto simp: token_clean_def)
  then have "trim (sp @ cookie_mark @ tok) = cookie_mark @ tok"
    using sp by (auto simp: trim_def is_space_def)
  then have "strip_prefix cookie_mark (trim (sp @ cookie_mark @ tok)) = Some tok"
    by (simp add: strip_prefix_iff)
  moreover have "split_on (CHR '';'') (join '';'' (xs @ [sp @ cookie_mark @ tok] @ ys)) =
      xs @ [sp @ cookie_mark @ tok] @ ys"
    using xs ys mark tok sp by (intro split_on_join) (auto simp: token_clean_def)
  ultimately show ?thesis
    using xs by (simp add: read_studio_cookie_def find_cookie_skip)
qed

section \<open>Properties\<close>

text \<open>
  C31: The Studio gate lets a request through to a port exactly if it is not for the exchange route,
  its cookie is a token with a valid authentication tag over its payload under the node's secret, the
  claims in that payload have not expired and name the very instance of the host the browser used
  (or nothing, when the host names none), and that instance exists with that port. The exchange route
  sets a cookie exactly under these conditions, with a host that names an instance, and the cookie is
  the presented token.
\<close>

theorem studio_gate_sound:
  "(studio_forward_auth C J now cfg lookup h = Proxy_to port \<longleftrightarrow>
     \<not> starts_with ''/__kraph/studio/exchange'' (case x_forwarded_uri h of Some u \<Rightarrow> u | None \<Rightarrow> '''') \<and>
     (\<exists>token (c :: studio_claims). read_studio_cookie (cookie_header h) = Some token \<and>
        token_of C J now (studio_proxy_secret cfg) token c \<and> lookup (cl_i c) = Inr (Some port) \<and>
        (instance_id_from_host (forwarded_host h) = Some (cl_i c) \<or>
         instance_id_from_host (forwarded_host h) = None \<and> cl_i c = ''''))) \<and>
   (studio_exchange C J now cfg lookup host token = Redirect cookie \<longleftrightarrow>
     trim_start_dots (studio_apex cfg) \<noteq> '''' \<and>
     cookie = build_cookie token (trim_start_dots (studio_apex cfg)) DEFAULT_TTL_SECS \<and>
     (\<exists>(c :: studio_claims) hst port'. token_of C J now (studio_proxy_secret cfg) token c \<and>
        lookup (cl_i c) = Inr (Some port') \<and> host = Some hst \<and> instance_id_from_host hst = Some (cl_i c)))"
proof -
  have secret: "verify_token C J now s t = Inr c \<Longrightarrow> s \<noteq> ''''" for s t and c :: studio_claims
    by (auto simp: verify_token_def)
  have "studio_forward_auth C J now cfg lookup h = Proxy_to port \<longleftrightarrow>
     \<not> starts_with ''/__kraph/studio/exchange'' (case x_forwarded_uri h of Some u \<Rightarrow> u | None \<Rightarrow> '''') \<and>
     (\<exists>token (c :: studio_claims). read_studio_cookie (cookie_header h) = Some token \<and>
        verify_token C J now (studio_proxy_secret cfg) token = Inr c \<and> lookup (cl_i c) = Inr (Some port) \<and>
        (instance_id_from_host (forwarded_host h) = Some (cl_i c) \<or>
         instance_id_from_host (forwarded_host h) = None \<and> cl_i c = ''''))"
    using secret by (auto simp: studio_forward_auth_def Let_def split: if_splits option.splits sum.splits)
  moreover have "studio_exchange C J now cfg lookup host token = Redirect cookie \<longleftrightarrow>
     trim_start_dots (studio_apex cfg) \<noteq> '''' \<and>
     cookie = build_cookie token (trim_start_dots (studio_apex cfg)) DEFAULT_TTL_SECS \<and>
     (\<exists>(c :: studio_claims) hst port'. verify_token C J now (studio_proxy_secret cfg) token = Inr c \<and>
        lookup (cl_i c) = Inr (Some port') \<and> host = Some hst \<and> instance_id_from_host hst = Some (cl_i c))"
    using secret by (auto simp: studio_exchange_def Let_def split: if_splits option.splits sum.splits)
  ultimately show ?thesis unfolding verify_token_of by blast
qed

definition demo_json :: claims_json where
  "demo_json =
     \<lparr>claims_encode = (\<lambda>c. hexes (cl_w c) @ '':'' @ hexes (cl_i c) @ '':'' @ dec_digits (unat (cl_e c))),
      claims_decode = (\<lambda>s. case split_on (CHR '':'') s of
          [w, i, e] \<Rightarrow> (case (unhexes w, unhexes i, parse_nat e) of
             (Some w, Some i, Some e) \<Rightarrow> Some \<lparr>cl_w = w, cl_i = i, cl_e = word_of_nat e\<rparr> | _ \<Rightarrow> None)
        | _ \<Rightarrow> None)\<rparr>"

lemma demo_claims: "claims_law demo_json"
proof -
  have "CHR '':'' \<notin> set (dec_digits n)" for n
    using dec_digits_digits [of n] by (auto simp: list_all_iff is_ascii_digit_def)
  then show ?thesis
    by (auto simp: claims_law_def demo_json_def split_on_append split_on_clean hexes_no_mark
        unhexes_hexes parse_show_nat)
qed

definition demo_studio :: studio_config where
  "demo_studio = \<lparr>studio_proxy_secret = ''s'', studio_apex = ''studio.kraph.com''\<rparr>"

definition demo_lookup :: port_lookup where
  "demo_lookup i = (if i = ''a'' then Inr (Some 8004) else Inr None)"

text \<open>
  A Studio session works from end to end. A token minted for an instance and used in time on
  the instance's host is exchanged for a cookie; a browser that sends this cookie back, among any
  other cookies of the jar, is let through to the instance's port until the token expires and not
  after; on the host of any other instance the same cookie is refused.
\<close>

lemma studio_session_works:
  assumes laws: "b64url_law C" "claims_law J"
    and cfg: "studio_proxy_secret cfg \<noteq> ''''" "trim_start_dots (studio_apex cfg) \<noteq> ''''"
    and inst: "lookup i = Inr (Some port)" "instance_id_from_host host = Some i"
    and tok: "token = mint_token C J now (studio_proxy_secret cfg) w i ttl"
    and intime: "sint earlier \<le> sint (now + ttl)"
    and jar: "cookie_header h = Some (join '';'' (xs @ [sp @ cookie_mark @ token] @ ys))"
      "sp \<in> {'''', '' ''}" "\<forall>kv \<in> set xs. CHR '';'' \<notin> set kv \<and> strip_prefix cookie_mark (trim kv) = None"
      "\<forall>kv \<in> set ys. CHR '';'' \<notin> set kv"
    and uri: "x_forwarded_uri h = Some u" "\<not> starts_with ''/__kraph/studio/exchange'' u"
  shows "studio_exchange C J earlier cfg lookup (Some host) token =
      Redirect (build_cookie token (trim_start_dots (studio_apex cfg)) DEFAULT_TTL_SECS) \<and>
    (instance_id_from_host (forwarded_host h) = Some i \<longrightarrow>
      studio_forward_auth C J later cfg lookup h = (if sint later \<le> sint (now + ttl) then Proxy_to port else Status 401)) \<and>
    (\<forall>j. instance_id_from_host (forwarded_host h) = Some j \<and> j \<noteq> i \<longrightarrow>
      studio_forward_auth C J later cfg lookup h = Status 401)"
proof -
  have v: "verify_token C J t (studio_proxy_secret cfg) token =
      (if sint t > sint (now + ttl) then Inl Expired else Inr \<lparr>cl_w = w, cl_i = i, cl_e = now + ttl\<rparr>)" for t
    unfolding tok by (rule verify_minted [OF laws cfg(1)])
  have r: "read_studio_cookie (cookie_header h) = Some token"
    unfolding jar(1)
    by (rule read_cookie_found [OF _ jar(2,3,4)]) (simp add: tok minted_clean [OF laws(1)])
  show ?thesis
    using cfg inst intime uri r
    by (auto simp: studio_exchange_def studio_forward_auth_def v Let_def)
qed

lemma demo_host: "instance_id_from_host ''a.studio.kraph.com:8443'' = Some ''a''"
  by code_simp

theorem studio_gate_sound_witness:
  "\<exists>c :: studio_claims. token_of demo_crypto demo_json 0 ''s'' (mint_token demo_crypto demo_json 0 ''s'' ''w'' ''a'' 10) c \<and>
     instance_id_from_host ''a.studio.kraph.com:8443'' = Some (cl_i c) \<and> cl_i c = ''a''"
proof -
  have "studio_exchange demo_crypto demo_json 0 demo_studio demo_lookup (Some ''a.studio.kraph.com:8443'')
      (mint_token demo_crypto demo_json 0 ''s'' ''w'' ''a'' 10) =
      Redirect (build_cookie (mint_token demo_crypto demo_json 0 ''s'' ''w'' ''a'' 10)
        (trim_start_dots ''studio.kraph.com'') DEFAULT_TTL_SECS)"
    by (simp add: studio_exchange_def verify_minted [OF demo_b64url demo_claims] demo_studio_def
        demo_lookup_def demo_host trim_start_dots_def)
  from iffD1 [OF conjunct2 [OF studio_gate_sound] this]
  obtain hst and c :: studio_claims
    where "token_of demo_crypto demo_json 0 (studio_proxy_secret demo_studio)
        (mint_token demo_crypto demo_json 0 ''s'' ''w'' ''a'' 10) c"
      "Some ''a.studio.kraph.com:8443'' = Some hst" "instance_id_from_host hst = Some (cl_i c)"
    by (elim exE conjE) (rule that)
  then show ?thesis using demo_host by (intro exI [of _ c]) (simp add: demo_studio_def)
qed

lemma studio_session_works_witness:
  "studio_forward_auth demo_crypto demo_json 7 demo_studio demo_lookup
     \<lparr>x_forwarded_uri = Some ''/project'',
      cookie_header = Some (''theme=dark; kraph_studio='' @ mint_token demo_crypto demo_json 0 ''s'' ''w'' ''a'' 10),
      x_forwarded_host = None, host_header = Some ''a.studio.kraph.com:8443''\<rparr> = Proxy_to 8004"
proof -
  let ?tok = "mint_token demo_crypto demo_json 0 (studio_proxy_secret demo_studio) ''w'' ''a'' 10"
  let ?h = "\<lparr>x_forwarded_uri = Some ''/project'',
      cookie_header = Some (join '';'' ([''theme=dark''] @ ['' '' @ cookie_mark @ ?tok] @ [])),
      x_forwarded_host = None, host_header = Some ''a.studio.kraph.com:8443''\<rparr>"
  have s: "studio_proxy_secret demo_studio \<noteq> ''''" "trim_start_dots (studio_apex demo_studio) \<noteq> ''''"
    by (simp_all add: demo_studio_def trim_start_dots_def)
  have x: "\<forall>kv \<in> set [''theme=dark'']. CHR '';'' \<notin> set kv \<and> strip_prefix cookie_mark (trim kv) = None"
    by (simp add: cookie_mark_def COOKIE_NAME_def trim_def is_space_def)
  have u: "\<not> starts_with ''/__kraph/studio/exchange'' ''/project''"
    by (simp add: starts_with_def)
  have "studio_forward_auth demo_crypto demo_json 7 demo_studio demo_lookup ?h = Proxy_to 8004"
    using studio_session_works [OF demo_b64url demo_claims s _ demo_host refl _ _ _ x, where lookup = demo_lookup
        and port = 8004 and earlier = 3 and later = 7 and h = ?h and sp = "'' ''" and ys = "[]" and u = "''/project''"
        and now = 0 and ttl = 10 and w = "''w''"] u demo_host
    by (simp add: demo_lookup_def forwarded_host_def)
  then show ?thesis by (simp add: demo_studio_def cookie_mark_def COOKIE_NAME_def)
qed

end
