(* ===== verification/Node_Machine.thy ===== *)
theory Node_Machine
  imports Instance_Manager
begin

text \<open>
  A node as a state machine. A request is a thread whose steps are the database calls of its
  handler; the steps of different threads interleave, a thread can fail or be lost between any
  two of its calls, and the process can restart, which keeps the database and the files only.
  \<open>freed\<close> is a ghost: the instances whose ports a tear-down has given back.
\<close>

datatype thread =
  Checked string
| Reserved string u16 "string option"
| Inserted string u16
| Finalizing string
| Composing string
| Destroying instance_row
| Releasing string

record machine =
  nd :: node
  threads :: "thread list"
  freed :: "string set"

abbreviation rows :: "machine \<Rightarrow> port_row list" where
  "rows m \<equiv> port_allocations (ndb (nd m))"

abbreviation insts :: "machine \<Rightarrow> instance_row list" where
  "insts m \<equiv> instances (ndb (nd m))"

definition with_db :: "(db \<Rightarrow> db) \<Rightarrow> machine \<Rightarrow> machine" where
  "with_db f m = m\<lparr>nd := (nd m)\<lparr>ndb := f (ndb (nd m))\<rparr>\<rparr>"

inductive node_step :: "node_config \<Rightarrow> machine \<Rightarrow> machine \<Rightarrow> bool" for cfg where
  check: "dns_safe_id i \<Longrightarrow> check_capacity cfg (nd m) = None \<Longrightarrow>
     node_step cfg m (m\<lparr>threads := Checked i # threads m\<rparr>)"
| reserve_block: "threads m = xs @ Checked i # ys \<Longrightarrow> reserve cfg (nd m) = (Inr (b, c), n) \<Longrightarrow>
     node_step cfg m (m\<lparr>nd := n, threads := xs @ Reserved i b c # ys\<rparr>)"
| insert_row: "threads m = xs @ Reserved i b c # ys \<Longrightarrow>
     on_db (insert_instance (new_instance cfg now i req b c sec ''provisioning''))
       (write_env (instance_dir cfg i) content (nd m)) = (Inr (), n) \<Longrightarrow>
     node_step cfg m (m\<lparr>nd := n, threads := xs @ Inserted i b # ys\<rparr>)"
| bind_block: "threads m = xs @ Inserted i b # ys \<Longrightarrow>
     on_db (bind_port_to_instance b i) (nd m) = (Inr (), n) \<Longrightarrow>
     node_step cfg m (m\<lparr>nd := n, threads := xs @ Finalizing i # ys\<rparr>)"
| look_up: "threads m = xs @ Finalizing i # ys \<Longrightarrow> get_instance_by_id i (ndb (nd m)) = Some r \<Longrightarrow>
     node_step cfg m (m\<lparr>threads := xs @ Composing i # ys\<rparr>)"
| finish: "threads m = xs @ Composing i # ys \<Longrightarrow>
     node_step cfg m (with_db (update_instance_status_db i (final_status healthy)) (m\<lparr>threads := xs @ ys\<rparr>))"
| begin_destroy: "get_instance i w (ndb (nd m)) = Some r \<Longrightarrow>
     node_step cfg m (m\<lparr>threads := Destroying r # threads m\<rparr>)"
| release: "threads m = xs @ Destroying r # ys \<Longrightarrow>
     node_step cfg m (m\<lparr>nd := release_resources r (nd m), threads := xs @ Releasing (in_id r) # ys,
       freed := insert (in_id r) (freed m)\<rparr>)"
| mark: "threads m = xs @ Releasing i # ys \<Longrightarrow>
     node_step cfg m (m\<lparr>nd := mark_destroyed now i (nd m), threads := xs @ ys\<rparr>)"
| lose_thread: "threads m = xs @ t # ys \<Longrightarrow> node_step cfg m (m\<lparr>threads := xs @ ys\<rparr>)"
| restart: "node_step cfg m (m\<lparr>nd := (nd m)\<lparr>allocated_cores := {}, warm_pool := []\<rparr>, threads := []\<rparr>)"
| suspending: "node_step cfg m (m\<lparr>nd := snd (suspend stop i (nd m))\<rparr>)"
| resuming: "node_step cfg m (m\<lparr>nd := snd (resume now start connects i (nd m))\<rparr>)"
| touching: "node_step cfg m (with_db (touch_instance now i) m)"
| pinning: "set_pinned_until i t (ndb (nd m)) = Inr (u, d) \<Longrightarrow> node_step cfg m (with_db (\<lambda>_. d) m)"
| extending: "extend_instance later now i w secs (ndb (nd m)) = Inr d \<Longrightarrow> node_step cfg m (with_db (\<lambda>_. d) m)"
| nextjs: "node_step cfg m (with_db (set_nextjs_service now i port status) m)"
| maintaining: "node_step cfg m (m\<lparr>nd := maintain cfg now gone attempts (nd m)\<rparr>)"
| replenishing: "node_step cfg m (m\<lparr>nd := snd (replenish cfg now w files_ok up (nd m))\<rparr>)"
| from_warm: "take_warm (nd m) = (Some w, n) \<Longrightarrow> dns_safe_id i \<Longrightarrow>
     node_step cfg m (m\<lparr>nd := snd (provision_from_warm cfg now i req sec env_written down up obs moved w n)\<rparr>)"

inductive_cases node_stepE: "node_step cfg m m'"

section \<open>The invariant\<close>

definition config_ok :: "node_config \<Rightarrow> bool" where
  "config_ok cfg \<longleftrightarrow> unat (nc_port_range_start cfg) < 65526 \<and> unat (nc_port_range_end cfg) < 65526"

definition node_init :: "node_config \<Rightarrow> machine \<Rightarrow> bool" where
  "node_init cfg m \<longleftrightarrow> config_ok cfg \<and>
     m = \<lparr>nd = \<lparr>ndb = empty_db, allocated_cores = {}, warm_pool = [], env_files = Map.empty\<rparr>,
          threads = [], freed = {}\<rparr>"

definition statuses :: "string set" where
  "statuses = {''provisioning'', ''running'', ''degraded'', ''destroyed''}"

fun holds :: "thread \<Rightarrow> (string \<times> u16) list" where
  "holds (Reserved i b c) = [(i, b)]"
| "holds (Inserted i b) = [(i, b)]"
| "holds t = []"

definition held :: "thread list \<Rightarrow> (string \<times> u16) list" where
  "held ts = concat (map holds ts)"

definition apart :: "u16 \<Rightarrow> u16 \<Rightarrow> bool" where
  "apart b c \<longleftrightarrow> unat b + 10 \<le> unat c \<or> unat c + 10 \<le> unat b"

definition in_range :: "node_config \<Rightarrow> u16 \<Rightarrow> bool" where
  "in_range cfg b \<longleftrightarrow>
     unat (nc_port_range_start cfg) \<le> unat b \<and> unat b + 10 \<le> unat (nc_port_range_end cfg)"

definition active :: "string set \<Rightarrow> instance_row \<Rightarrow> bool" where
  "active fr r \<longleftrightarrow> live r \<and> in_id r \<notin> fr"

abbreviation base_of :: "instance_row \<Rightarrow> u16" where
  "base_of r \<equiv> kong_port (in_ports r)"

definition rows_ok :: "node_config \<Rightarrow> port_row list \<Rightarrow> string set \<Rightarrow> bool" where
  "rows_ok cfg ps ids \<longleftrightarrow> distinct (map pa_base ps) \<and>
     (\<forall>p \<in> set ps. \<forall>q \<in> set ps. pa_base p \<noteq> pa_base q \<longrightarrow> apart (pa_base p) (pa_base q)) \<and>
     (\<forall>p \<in> set ps. in_range cfg (pa_base p)) \<and>
     (\<forall>p \<in> set ps. \<forall>i. pa_instance p = Some i \<longrightarrow> i \<in> ids)"

definition instances_ok :: "instance_row list \<Rightarrow> bool" where
  "instances_ok is \<longleftrightarrow> distinct (map in_id is) \<and>
     (\<forall>r \<in> set is. dns_safe_id (in_id r) \<and> in_status r \<in> statuses \<and> in_ports r = block_ports (base_of r))"

definition owners_ok :: "port_row list \<Rightarrow> instance_row list \<Rightarrow> string set \<Rightarrow> bool" where
  "owners_ok ps is fr \<longleftrightarrow>
     (\<forall>r \<in> set is. active fr r \<longrightarrow>
        (\<exists>p \<in> set ps. pa_base p = base_of r \<and> pa_instance p \<in> {None, Some (in_id r)})) \<and>
     (\<forall>r \<in> set is. \<forall>s \<in> set is. active fr r \<and> active fr s \<and> base_of r = base_of s \<longrightarrow> in_id r = in_id s)"

definition threads_ok :: "port_row list \<Rightarrow> instance_row list \<Rightarrow> thread list \<Rightarrow> string set \<Rightarrow> bool" where
  "threads_ok ps is ts fr \<longleftrightarrow> distinct (map snd (held ts)) \<and>
     (\<forall>(i, b) \<in> set (held ts). \<lparr>pa_instance = None, pa_base = b\<rparr> \<in> set ps \<and>
        (\<forall>r \<in> set is. active fr r \<and> base_of r = b \<longrightarrow> in_id r = i)) \<and>
     (\<forall>i b c. Reserved i b c \<in> set ts \<or> Checked i \<in> set ts \<longrightarrow> dns_safe_id i)"

definition node_inv :: "node_config \<Rightarrow> machine \<Rightarrow> bool" where
  "node_inv cfg m \<longleftrightarrow> config_ok cfg \<and> rows_ok cfg (rows m) (in_id ` set (insts m)) \<and>
     instances_ok (insts m) \<and> owners_ok (rows m) (insts m) (freed m) \<and>
     threads_ok (rows m) (insts m) (threads m) (freed m) \<and> warm_pool (nd m) = []"

lemma owners_rowD:
  "owners_ok ps is fr \<Longrightarrow> r \<in> set is \<Longrightarrow> active fr r \<Longrightarrow>
     \<exists>p \<in> set ps. pa_base p = base_of r \<and> pa_instance p \<in> {None, Some (in_id r)}"
  unfolding owners_ok_def by (drule conjunct1) blast

lemma owners_sameD:
  "owners_ok ps is fr \<Longrightarrow> r \<in> set is \<Longrightarrow> s \<in> set is \<Longrightarrow> active fr r \<Longrightarrow> active fr s \<Longrightarrow>
     base_of r = base_of s \<Longrightarrow> in_id r = in_id s"
  unfolding owners_ok_def by (drule conjunct2) blast

lemma owners_okI:
  assumes "\<And>r. r \<in> set is \<Longrightarrow> active fr r \<Longrightarrow>
      \<exists>p \<in> set ps. pa_base p = base_of r \<and> pa_instance p \<in> {None, Some (in_id r)}"
    and "\<And>r s. r \<in> set is \<Longrightarrow> s \<in> set is \<Longrightarrow> active fr r \<Longrightarrow> active fr s \<Longrightarrow> base_of r = base_of s \<Longrightarrow>
      in_id r = in_id s"
  shows "owners_ok ps is fr"
  using assms unfolding owners_ok_def by meson

lemma threads_heldD:
  assumes "threads_ok ps is ts fr" and "(i, b) \<in> set (held ts)"
  shows "\<lparr>pa_instance = None, pa_base = b\<rparr> \<in> set ps"
    "r \<in> set is \<Longrightarrow> active fr r \<Longrightarrow> base_of r = b \<Longrightarrow> in_id r = i"
  using assms by (auto simp: threads_ok_def dest!: bspec)

lemma threads_safeD:
  "threads_ok ps is ts fr \<Longrightarrow> Reserved i b c \<in> set ts \<or> Checked i \<in> set ts \<Longrightarrow> dns_safe_id i"
  unfolding threads_ok_def by blast

lemma threads_okI:
  assumes "distinct (map snd (held ts))"
    and "\<And>i b. (i, b) \<in> set (held ts) \<Longrightarrow> \<lparr>pa_instance = None, pa_base = b\<rparr> \<in> set ps"
    and "\<And>i b r. (i, b) \<in> set (held ts) \<Longrightarrow> r \<in> set is \<Longrightarrow> active fr r \<Longrightarrow> base_of r = b \<Longrightarrow> in_id r = i"
    and "\<And>i b c. Reserved i b c \<in> set ts \<or> Checked i \<in> set ts \<Longrightarrow> dns_safe_id i"
  shows "threads_ok ps is ts fr"
  using assms unfolding threads_ok_def by fast

text \<open>Steps that leave the ports alone and change an instance at most in its other columns.\<close>

definition milder :: "(instance_row \<Rightarrow> instance_row) \<Rightarrow> bool" where
  "milder g \<longleftrightarrow> (\<forall>r. in_id (g r) = in_id r \<and> in_ports (g r) = in_ports r \<and> (live (g r) \<longrightarrow> live r) \<and>
     (in_status r \<in> statuses \<longrightarrow> in_status (g r) \<in> statuses))"

lemma mild_instances: "milder g \<Longrightarrow> instances_ok is \<Longrightarrow> instances_ok (map g is)"
  by (auto simp: milder_def instances_ok_def comp_def)

lemma mild_active: "milder g \<Longrightarrow> fr \<subseteq> fr' \<Longrightarrow> active fr' (g r) \<Longrightarrow> active fr r"
  by (auto simp: milder_def active_def)

lemma mild_owners:
  assumes "milder g" and "fr \<subseteq> fr'" and "owners_ok ps is fr"
  shows "owners_ok ps (map g is) fr'"
proof -
  have id: "in_id (g r) = in_id r" "in_ports (g r) = in_ports r" for r
    using assms(1) by (simp_all add: milder_def)
  have act: "active fr' (g r) \<Longrightarrow> active fr r" for r by (rule mild_active [OF assms(1,2)])
  show ?thesis
  proof (rule owners_okI)
    fix r assume "r \<in> set (map g is)" "active fr' r"
    then obtain s where s: "s \<in> set is" "r = g s" "active fr s" using act by auto
    from owners_rowD [OF assms(3) s(1,3)]
    show "\<exists>p \<in> set ps. pa_base p = base_of r \<and> pa_instance p \<in> {None, Some (in_id r)}"
      by (simp only: s(2) id)
  next
    fix r s assume "r \<in> set (map g is)" "s \<in> set (map g is)"
      "active fr' r" "active fr' s" and eq: "base_of r = base_of s"
    then obtain r' s' where rs: "r' \<in> set is" "s' \<in> set is" "active fr r'" "active fr s'" and
      "r = g r'" "s = g s'" using act by auto
    with owners_sameD [OF assms(3) rs] eq show "in_id r = in_id s" by (simp add: id)
  qed
qed

lemma mild_threads:
  assumes "milder g" and "fr \<subseteq> fr'" and "threads_ok ps is ts fr"
    and "distinct (map snd (held ts'))" and "set (held ts') \<subseteq> set (held ts)"
    and "\<And>i b c. Reserved i b c \<in> set ts' \<or> Checked i \<in> set ts' \<Longrightarrow> dns_safe_id i"
  shows "threads_ok ps (map g is) ts' fr'"
proof -
  have id: "in_id (g r) = in_id r" "in_ports (g r) = in_ports r" for r
    using assms(1) by (simp_all add: milder_def)
  show ?thesis
  proof (rule threads_okI)
    fix i b assume "(i, b) \<in> set (held ts')"
    then have ib: "(i, b) \<in> set (held ts)" using assms(5) by blast
    show "\<lparr>pa_instance = None, pa_base = b\<rparr> \<in> set ps" by (rule threads_heldD(1) [OF assms(3) ib])
    fix r assume "r \<in> set (map g is)" "active fr' r" "base_of r = b"
    then obtain s where "s \<in> set is" "r = g s" "active fr s" "base_of s = b"
      using mild_active [OF assms(1,2)] by (auto simp: id)
    with threads_heldD(2) [OF assms(3) ib] show "in_id r = i" by (simp add: id)
  qed (use assms(4,6) in auto)
qed

lemma held_simps [simp]:
  "held [] = []" "held (t # ts) = holds t @ held ts" "held (xs @ ys) = held xs @ held ys"
  by (simp_all add: held_def)

lemma mild_step:
  assumes inv: "node_inv cfg m" and g: "milder g"
    and m': "rows m' = rows m" "insts m' = map g (insts m)" "freed m \<subseteq> freed m'" "warm_pool (nd m') = []"
    and ts: "distinct (map snd (held (threads m')))" "set (held (threads m')) \<subseteq> set (held (threads m))"
      "\<And>i b c. Reserved i b c \<in> set (threads m') \<or> Checked i \<in> set (threads m') \<Longrightarrow> dns_safe_id i"
  shows "node_inv cfg m'"
proof -
  have "in_id ` set (map g (insts m)) = in_id ` set (insts m)"
    using g by (auto simp: milder_def image_iff)
  then show ?thesis
    using inv mild_instances [OF g] mild_owners [OF g m'(3)] mild_threads [OF g m'(3) _ ts] m'
    by (simp add: node_inv_def)
qed

section \<open>Every step keeps it\<close>

lemma allocated_block:
  assumes "allocate_port_block s e d = Inr (b, d')" and "below 65516 (allocated_bases d)"
    and "unat s < 65526"
  shows "d' = d\<lparr>port_allocations := port_allocations d @ [\<lparr>pa_instance = None, pa_base = b\<rparr>]\<rparr>"
    "unat s \<le> unat b" "unat b + 10 \<le> unat e" "clear_of (unat b) (unat ` set (allocated_bases d))"
proof -
  let ?c = "port_gap 10 (sort (allocated_bases d)) s"
  have b: "b = ?c" and "\<not> ?c + 10 > e"
    and "d' = d\<lparr>port_allocations := port_allocations d @ [\<lparr>pa_instance = None, pa_base = b\<rparr>]\<rparr>"
    using assms(1) by (auto simp: allocate_port_block_def PORTS_PER_INSTANCE_def Let_def split: if_splits)
  then show "d' = d\<lparr>port_allocations := port_allocations d @ [\<lparr>pa_instance = None, pa_base = b\<rparr>]\<rparr>"
    "unat s \<le> unat b" "unat b + 10 \<le> unat e" "clear_of (unat b) (unat ` set (allocated_bases d))"
    using allocate_unfold [OF assms(2,3)] nat_gap_ge [of "unat s" "sort (map unat (allocated_bases d))"]
    by (simp_all add: word_less_nat_alt)
qed

lemma rows_below: "config_ok cfg \<Longrightarrow> rows_ok cfg ps ids \<Longrightarrow> below 65516 (map pa_base ps)"
  by (fastforce simp: rows_ok_def below_def config_ok_def in_range_def)

lemma rows_ok_new:
  assumes "rows_ok cfg ps ids" and "in_range cfg b" and "clear_of (unat b) (unat ` set (map pa_base ps))"
  shows "rows_ok cfg (ps @ [\<lparr>pa_instance = None, pa_base = b\<rparr>]) ids"
proof -
  have ap: "apart (pa_base p) b" "apart b (pa_base p)" "pa_base p \<noteq> b" if "p \<in> set ps" for p
    using that assms(3) by (auto simp: clear_of_def apart_def)
  then show ?thesis using assms(1,2) by (auto simp: rows_ok_def)
qed

text \<open>A fresh block is not the block of any active instance, nor held by a thread.\<close>

lemma fresh_base:
  assumes "b \<notin> set (map pa_base ps)"
  shows "owners_ok ps is fr \<Longrightarrow> r \<in> set is \<Longrightarrow> active fr r \<Longrightarrow> base_of r \<noteq> b"
    "threads_ok ps is ts fr \<Longrightarrow> b \<notin> snd ` set (held ts)"
proof -
  assume o: "owners_ok ps is fr" and r: "r \<in> set is" "active fr r"
  from owners_rowD [OF o r] obtain p where "p \<in> set ps" "pa_base p = base_of r" by blast
  then have "base_of r \<in> set (map pa_base ps)" by (auto intro: rev_image_eqI)
  then show "base_of r \<noteq> b" using assms by metis
next
  assume t: "threads_ok ps is ts fr"
  show "b \<notin> snd ` set (held ts)"
  proof
    assume "b \<in> snd ` set (held ts)"
    then obtain i where "(i, b) \<in> set (held ts)" by auto
    then have "\<lparr>pa_instance = None, pa_base = b\<rparr> \<in> set ps" by (rule threads_heldD(1) [OF t])
    then show False using assms by (force intro: rev_image_eqI)
  qed
qed

lemma owners_more_rows: "owners_ok ps is fr \<Longrightarrow> owners_ok (ps @ qs) is fr"
  by (rule owners_okI) (auto dest: owners_rowD owners_sameD)

lemma threads_more_rows:
  assumes t: "threads_ok ps is ts fr"
  shows "threads_ok (ps @ qs) is ts fr"
proof (rule threads_okI)
  fix i b assume ib: "(i, b) \<in> set (held ts)"
  show "\<lparr>pa_instance = None, pa_base = b\<rparr> \<in> set (ps @ qs)" using threads_heldD(1) [OF t ib] by simp
  fix r assume "r \<in> set is" "active fr r" "base_of r = b"
  then show "in_id r = i" by (rule threads_heldD(2) [OF t ib])
qed (use t in \<open>auto simp: threads_ok_def intro: threads_safeD [OF t]\<close>)

lemma threads_ok_reserve:
  assumes t: "threads_ok ps is (xs @ Checked i # ys) fr" and o: "owners_ok ps is fr"
    and b: "b \<notin> set (map pa_base ps)"
  shows "threads_ok (ps @ [\<lparr>pa_instance = None, pa_base = b\<rparr>]) is (xs @ Reserved i b c # ys) fr"
proof -
  let ?ps = "ps @ [\<lparr>pa_instance = None, pa_base = b\<rparr>]"
  have h: "distinct (map snd (held (xs @ ys)))" "b \<notin> snd ` set (held (xs @ ys))"
    using t fresh_base(2) [OF b t] by (simp_all add: threads_ok_def)
  show ?thesis
  proof (rule threads_okI)
    show "distinct (map snd (held (xs @ Reserved i b c # ys)))" using h by auto
  next
    fix j e assume "(j, e) \<in> set (held (xs @ Reserved i b c # ys))"
    then consider "(j, e) \<in> set (held (xs @ Checked i # ys))" | "e = b" by auto
    then show "\<lparr>pa_instance = None, pa_base = e\<rparr> \<in> set ?ps"
      by cases (use threads_heldD(1) [OF t] in auto)
  next
    fix j e r assume je: "(j, e) \<in> set (held (xs @ Reserved i b c # ys))"
      and r: "r \<in> set is" "active fr r" "base_of r = e"
    then have "e \<noteq> b" using fresh_base(1) [OF b o] by blast
    then have "(j, e) \<in> set (held (xs @ Checked i # ys))" using je by auto
    from threads_heldD(2) [OF t this r] show "in_id r = j" .
  next
    fix j e f assume "Reserved j e f \<in> set (xs @ Reserved i b c # ys) \<or> Checked j \<in> set (xs @ Reserved i b c # ys)"
    then show "dns_safe_id j" using t by (auto simp: threads_ok_def)
  qed
qed

lemma reserve_keeps:
  assumes inv: "node_inv cfg m" and ts: "threads m = xs @ Checked i # ys"
    and r: "reserve cfg (nd m) = (Inr (b, c), n)"
  shows "node_inv cfg (m\<lparr>nd := n, threads := xs @ Reserved i b c # ys\<rparr>)"
proof -
  obtain d where a: "allocate_port_block (nc_port_range_start cfg) (nc_port_range_end cfg) (ndb (nd m)) = Inr (b, d)"
    and n: "ndb n = d" "warm_pool n = warm_pool (nd m)"
    using r by (auto simp: reserve_def case_prod_beta split: sum.splits)
  have cfg: "config_ok cfg" using inv by (simp add: node_inv_def)
  have "below 65516 (allocated_bases (ndb (nd m)))"
    unfolding allocated_bases_def
    by (rule rows_below [OF cfg, where ids = "in_id ` set (insts m)"]) (use inv in \<open>simp add: node_inv_def\<close>)
  from allocated_block [OF a this] cfg
  have d: "d = (ndb (nd m))\<lparr>port_allocations := rows m @ [\<lparr>pa_instance = None, pa_base = b\<rparr>]\<rparr>"
    and range: "in_range cfg b" and clear: "clear_of (unat b) (unat ` set (map pa_base (rows m)))"
    by (simp_all add: config_ok_def in_range_def allocated_bases_def)
  have b: "b \<notin> set (map pa_base (rows m))" using clear_not_member [OF clear] .
  show ?thesis
    using inv rows_ok_new [OF _ range clear] owners_more_rows threads_ok_reserve [OF _ _ b] ts
    by (simp add: node_inv_def n d)
qed

lemma insert_keeps:
  assumes inv: "node_inv cfg m" and ts: "threads m = xs @ Reserved i b c # ys"
    and r: "on_db (insert_instance (new_instance cfg now i req b c sec ''provisioning''))
       (write_env dir content (nd m)) = (Inr (), n)"
  shows "node_inv cfg (m\<lparr>nd := n, threads := xs @ Inserted i b # ys\<rparr>)"
proof -
  define new where "new = inserted_instance (new_instance cfg now i req b c sec ''provisioning'')"
  have new: "in_id new = i" "in_ports new = block_ports b" "base_of new = b" "in_status new = ''provisioning''"
    by (simp_all add: new_def inserted_instance_def new_instance_def block_ports_def)
  have id: "in_id (new_instance cfg now i req b c sec ''provisioning'') = i" by (simp add: new_instance_def)
  from r have fresh: "i \<notin> in_id ` set (insts m)" and n: "ndb n = (ndb (nd m))\<lparr>instances := insts m @ [new]\<rparr>"
    "warm_pool n = warm_pool (nd m)"
    by (auto simp: on_db_def write_env_def insert_instance_def instance_ids_def new_def id
        split: if_splits)
  note t = inv [unfolded node_inv_def, THEN conjunct2, THEN conjunct2, THEN conjunct2, THEN conjunct2, THEN conjunct1]
    and o = inv [unfolded node_inv_def, THEN conjunct2, THEN conjunct2, THEN conjunct2, THEN conjunct1]
  have ib: "(i, b) \<in> set (held (threads m))" by (simp add: ts)
  have row: "\<lparr>pa_instance = None, pa_base = b\<rparr> \<in> set (rows m)" by (rule threads_heldD(1) [OF t ib])
  have only: "in_id r = i" if "r \<in> set (insts m)" "active (freed m) r" "base_of r = b" for r
    by (rule threads_heldD(2) [OF t ib that])
  then have none: "base_of r \<noteq> b" if "r \<in> set (insts m)" "active (freed m) r" for r
    using that fresh by (metis image_eqI)
  have safe: "dns_safe_id i" using t by (auto simp: threads_ok_def ts)
  have held: "held (xs @ Inserted i b # ys) = held (threads m)" by (simp add: ts)
  have "owners_ok (rows m) (insts m @ [new]) (freed m)"
  proof (rule owners_okI)
    fix r assume r: "r \<in> set (insts m @ [new])" "active (freed m) r"
    show "\<exists>p \<in> set (rows m). pa_base p = base_of r \<and> pa_instance p \<in> {None, Some (in_id r)}"
    proof (cases "r \<in> set (insts m)")
      case True
      then show ?thesis using owners_rowD [OF o] r(2) by blast
    next
      case False
      then have "r = new" using r(1) by simp
      then show ?thesis using new(3) by (intro bexI [OF _ row]) simp
    qed
  next
    fix r s assume rs: "r \<in> set (insts m @ [new])" "s \<in> set (insts m @ [new])"
      and act: "active (freed m) r" "active (freed m) s" and eq: "base_of r = base_of s"
    have "r = new \<Longrightarrow> s \<in> set (insts m) \<Longrightarrow> False" "s = new \<Longrightarrow> r \<in> set (insts m) \<Longrightarrow> False"
      using none [of s] none [of r] act eq new(3) by simp_all
    then show "in_id r = in_id s"
      using owners_sameD [OF o _ _ act eq] rs by auto
  qed
  moreover have "threads_ok (rows m) (insts m @ [new]) (xs @ Inserted i b # ys) (freed m)"
  proof (rule threads_okI)
    show "distinct (map snd (held (xs @ Inserted i b # ys)))"
      unfolding held using t by (simp add: threads_ok_def)
  next
    fix j e assume "(j, e) \<in> set (held (xs @ Inserted i b # ys))"
    then show "\<lparr>pa_instance = None, pa_base = e\<rparr> \<in> set (rows m)"
      unfolding held by (rule threads_heldD(1) [OF t])
  next
    fix j e r assume je: "(j, e) \<in> set (held (xs @ Inserted i b # ys))"
      and r: "r \<in> set (insts m @ [new])" "active (freed m) r" "base_of r = e"
    show "in_id r = j"
    proof (cases "r \<in> set (insts m)")
      case True
      from threads_heldD(2) [OF t je [unfolded held] True r(2,3)] show ?thesis .
    next
      case False
      then have "e = b" "in_id r = i" using r new by auto
      moreover have "distinct (map snd (held (threads m)))" using t by (simp add: threads_ok_def)
      ultimately show ?thesis using je ib unfolding held by (metis eq_key_imp_eq_value distinct_map inj_on_def snd_conv fst_conv)
    qed
  next
    fix j e f assume "Reserved j e f \<in> set (xs @ Inserted i b # ys) \<or> Checked j \<in> set (xs @ Inserted i b # ys)"
    then show "dns_safe_id j" using t ts by (auto simp: threads_ok_def)
  qed
  moreover have "rows_ok cfg (rows m) (in_id ` set (insts m @ [new]))"
    using inv by (auto simp: node_inv_def rows_ok_def)
  moreover have "instances_ok (insts m @ [new])"
    using inv fresh safe new by (auto simp: node_inv_def instances_ok_def statuses_def)
  ultimately show ?thesis using inv by (simp add: node_inv_def n)
qed

lemma bind_keeps:
  assumes inv: "node_inv cfg m" and ts: "threads m = xs @ Inserted i b # ys"
    and r: "on_db (bind_port_to_instance b i) (nd m) = (Inr (), n)"
  shows "node_inv cfg (m\<lparr>nd := n, threads := xs @ Finalizing i # ys\<rparr>)"
proof -
  define own where "own = (\<lambda>p :: port_row. if pa_base p = b then p\<lparr>pa_instance := Some i\<rparr> else p)"
  have own: "pa_base (own p) = pa_base p" for p by (simp add: own_def)
  from r have n: "ndb n = (ndb (nd m))\<lparr>port_allocations := map own (rows m)\<rparr>" "warm_pool n = warm_pool (nd m)"
    and fk: "b \<in> set (map pa_base (rows m)) \<Longrightarrow> i \<in> in_id ` set (insts m)"
    by (auto simp: on_db_def bind_port_to_instance_def own_def allocated_bases_def instance_ids_def
        split: sum.splits if_splits)
  note t = inv [unfolded node_inv_def, THEN conjunct2, THEN conjunct2, THEN conjunct2, THEN conjunct2, THEN conjunct1]
    and o = inv [unfolded node_inv_def, THEN conjunct2, THEN conjunct2, THEN conjunct2, THEN conjunct1]
  have ib: "(i, b) \<in> set (held (threads m))" by (simp add: ts)
  have dist: "distinct (map snd (held (xs @ ys)))" "b \<notin> snd ` set (held (xs @ ys))"
    using t by (auto simp: threads_ok_def ts)
  have "owners_ok (map own (rows m)) (insts m) (freed m)"
  proof (rule owners_okI)
    fix r assume r: "r \<in> set (insts m)" "active (freed m) r"
    from owners_rowD [OF o r] obtain p where p: "p \<in> set (rows m)" "pa_base p = base_of r"
      "pa_instance p \<in> {None, Some (in_id r)}" by blast
    have "pa_instance (own p) \<in> {None, Some (in_id r)}"
      using p threads_heldD(2) [OF t ib r] by (auto simp: own_def)
    then show "\<exists>q \<in> set (map own (rows m)). pa_base q = base_of r \<and> pa_instance q \<in> {None, Some (in_id r)}"
      using p by (intro bexI [of _ "own p"]) (auto simp: own)
  qed (rule owners_sameD [OF o])
  moreover have "threads_ok (map own (rows m)) (insts m) (xs @ Finalizing i # ys) (freed m)"
  proof (rule threads_okI)
    fix j e assume "(j, e) \<in> set (held (xs @ Finalizing i # ys))"
    then have je: "(j, e) \<in> set (held (threads m))" "e \<noteq> b" using dist(2) by (auto simp: ts intro: rev_image_eqI)
    from threads_heldD(1) [OF t je(1)] have "own \<lparr>pa_instance = None, pa_base = e\<rparr> \<in> set (map own (rows m))"
      by simp
    then show "\<lparr>pa_instance = None, pa_base = e\<rparr> \<in> set (map own (rows m))"
      using je(2) by (simp add: own_def)
    fix r assume "r \<in> set (insts m)" "active (freed m) r" "base_of r = e"
    then show "in_id r = j" by (rule threads_heldD(2) [OF t je(1)])
  next
    fix j e f
    assume "Reserved j e f \<in> set (xs @ Finalizing i # ys) \<or> Checked j \<in> set (xs @ Finalizing i # ys)"
    then show "dns_safe_id j" using t ts by (auto simp: threads_ok_def)
  qed (use dist in auto)
  moreover have "rows_ok cfg (map own (rows m)) (in_id ` set (insts m))"
  proof -
    have "pa_base \<circ> own = pa_base" by (auto simp: own)
    moreover have "pa_instance (own p) = Some j \<Longrightarrow> p \<in> set (rows m) \<Longrightarrow> j \<in> in_id ` set (insts m)" for p j
      using fk inv by (auto simp: own_def node_inv_def rows_ok_def split: if_splits)
    ultimately show ?thesis using inv by (simp add: node_inv_def rows_ok_def own)
  qed
  ultimately show ?thesis using inv by (simp add: node_inv_def n)
qed

lemma release_keeps:
  assumes inv: "node_inv cfg m" and ts: "threads m = xs @ Destroying r # ys"
  shows "node_inv cfg (m\<lparr>nd := release_resources r (nd m), threads := xs @ Releasing (in_id r) # ys,
    freed := insert (in_id r) (freed m)\<rparr>)"
proof -
  let ?ps = "filter (\<lambda>p. pa_instance p \<noteq> Some (in_id r)) (rows m)" and ?fr = "insert (in_id r) (freed m)"
  note t = inv [unfolded node_inv_def, THEN conjunct2, THEN conjunct2, THEN conjunct2, THEN conjunct2, THEN conjunct1]
    and o = inv [unfolded node_inv_def, THEN conjunct2, THEN conjunct2, THEN conjunct2, THEN conjunct1]
  have act: "active (freed m) s \<and> in_id s \<noteq> in_id r" if "active ?fr s" for s
    using that by (auto simp: active_def)
  have "owners_ok ?ps (insts m) ?fr"
  proof (rule owners_okI)
    fix s assume s: "s \<in> set (insts m)" "active ?fr s"
    from owners_rowD [OF o s(1)] act [OF s(2)] obtain p where "p \<in> set (rows m)" "pa_base p = base_of s"
      "pa_instance p \<in> {None, Some (in_id s)}" by blast
    then show "\<exists>p \<in> set ?ps. pa_base p = base_of s \<and> pa_instance p \<in> {None, Some (in_id s)}"
      using act [OF s(2)] by (intro bexI [of _ p]) auto
  next
    fix s u assume "s \<in> set (insts m)" "u \<in> set (insts m)" "active ?fr s" "active ?fr u" "base_of s = base_of u"
    then show "in_id s = in_id u" using owners_sameD [OF o] act by blast
  qed
  moreover have "threads_ok ?ps (insts m) (xs @ Releasing (in_id r) # ys) ?fr"
  proof (rule threads_okI)
    fix j e assume "(j, e) \<in> set (held (xs @ Releasing (in_id r) # ys))"
    then have je: "(j, e) \<in> set (held (threads m))" by (simp add: ts)
    show "\<lparr>pa_instance = None, pa_base = e\<rparr> \<in> set ?ps" using threads_heldD(1) [OF t je] by simp
    fix s assume "s \<in> set (insts m)" "active ?fr s" "base_of s = e"
    then show "in_id s = j" using threads_heldD(2) [OF t je] act by blast
  next
    fix j e f
    assume "Reserved j e f \<in> set (xs @ Releasing (in_id r) # ys) \<or> Checked j \<in> set (xs @ Releasing (in_id r) # ys)"
    then show "dns_safe_id j" using t ts by (auto simp: threads_ok_def)
  qed (use t ts in \<open>simp add: threads_ok_def\<close>)
  moreover have "rows_ok cfg ?ps (in_id ` set (insts m))"
    using inv by (auto simp: node_inv_def rows_ok_def distinct_map_filter)
  ultimately show ?thesis
    using inv by (simp add: node_inv_def release_resources_def free_port_block_def)
qed

text \<open>
  A warm stack is bound to its project name, which is no instance: the foreign key refuses it,
  and the block allocated just before stays behind without an owner.
\<close>

lemma project_not_safe: "\<not> dns_safe_id (''supaba-warm-'' @ w)"
  by (auto simp: dns_safe_id_def DNS_SAFE_ID_ALPHABET_def)

lemma warm_fails:
  assumes "instances_ok (instances (ndb n))"
  shows "case allocate_port_block (nc_port_range_start cfg) (nc_port_range_end cfg) (ndb n) of
      Inl e \<Rightarrow> provision_warm_instance cfg now w files_ok up n = (Inl (Db_failed e), n)
    | Inr (b, d) \<Rightarrow> provision_warm_instance cfg now w files_ok up n =
        (Inl (Db_failed Foreign_key_violation), n\<lparr>ndb := d\<rparr>)"
proof -
  have no: "''supaba-warm-'' @ wr_id w \<notin> in_id ` set (instances (ndb n))"
    using assms project_not_safe [of "wr_id w"] by (auto simp: instances_ok_def)
  show ?thesis
  proof (cases "allocate_port_block (nc_port_range_start cfg) (nc_port_range_end cfg) (ndb n)")
    case (Inl e)
    then show ?thesis by (simp add: provision_warm_instance_def)
  next
    case (Inr bd)
    obtain b d where bd: "bd = (b, d)" by (cases bd)
    have d: "d = (ndb n)\<lparr>port_allocations := port_allocations (ndb n) @ [\<lparr>pa_instance = None, pa_base = b\<rparr>]\<rparr>"
      using Inr bd by (auto simp: allocate_port_block_def Let_def split: if_splits)
    have "b \<in> set (allocated_bases d)" "''supaba-warm-'' @ wr_id w \<notin> instance_ids d"
      using no by (simp_all add: d allocated_bases_def instance_ids_def)
    then have "bind_port_to_instance b (''supaba-warm-'' @ wr_id w) d = Inl Foreign_key_violation"
      by (simp add: bind_port_to_instance_def)
    then have "provision_warm_instance cfg now w files_ok up n =
        (Inl (Db_failed Foreign_key_violation), n\<lparr>ndb := d\<rparr>)"
      unfolding provision_warm_instance_def Inr bd by (simp add: on_db_def Let_def)
    with Inr bd show ?thesis by simp
  qed
qed

lemma warm_state:
  assumes inv: "node_inv cfg m"
  shows "fst (provision_warm_instance cfg now w files_ok up (nd m)) \<in> range Inl"
    "node_inv cfg (m\<lparr>nd := snd (provision_warm_instance cfg now w files_ok up (nd m))\<rparr>)"
proof -
  have ok: "instances_ok (instances (ndb (nd m)))" using inv by (simp add: node_inv_def)
  note wf = warm_fails [OF ok, of cfg now w files_ok up]
  have "fst (provision_warm_instance cfg now w files_ok up (nd m)) \<in> range Inl \<and>
    node_inv cfg (m\<lparr>nd := snd (provision_warm_instance cfg now w files_ok up (nd m))\<rparr>)"
  proof (cases "allocate_port_block (nc_port_range_start cfg) (nc_port_range_end cfg) (ndb (nd m))")
    case (Inl e)
    then show ?thesis using wf inv by simp
  next
    case (Inr bd)
    obtain b d where bd: "bd = (b, d)" by (cases bd)
    have cfg: "config_ok cfg" using inv by (simp add: node_inv_def)
    have "below 65516 (allocated_bases (ndb (nd m)))"
      unfolding allocated_bases_def
      by (rule rows_below [OF cfg, where ids = "in_id ` set (insts m)"]) (use inv in \<open>simp add: node_inv_def\<close>)
    from allocated_block [OF Inr [unfolded bd] this] cfg
    have d: "d = (ndb (nd m))\<lparr>port_allocations := rows m @ [\<lparr>pa_instance = None, pa_base = b\<rparr>]\<rparr>"
      and range: "in_range cfg b" and clear: "clear_of (unat b) (unat ` set (map pa_base (rows m)))"
      by (simp_all add: config_ok_def in_range_def allocated_bases_def)
    show ?thesis
      using wf inv rows_ok_new [OF _ range clear] owners_more_rows threads_more_rows
      by (simp add: Inr bd node_inv_def d)
  qed
  then show "fst (provision_warm_instance cfg now w files_ok up (nd m)) \<in> range Inl"
    "node_inv cfg (m\<lparr>nd := snd (provision_warm_instance cfg now w files_ok up (nd m))\<rparr>)" by blast+
qed

lemma warm_errs:
  "node_inv cfg m \<Longrightarrow> \<exists>e n. provision_warm_instance cfg now w f u (nd m) = (Inl e, n)"
  using warm_state(1) [of cfg m now w f u]
  by (cases "provision_warm_instance cfg now w f u (nd m)") auto

text \<open>So a maintenance run makes at most one attempt, and replenishing fails.\<close>

lemma maintain_state:
  assumes inv: "node_inv cfg m"
  shows "maintain cfg now gone attempts (nd m) =
    (case take (nc_warm_pool_size cfg) attempts of [] \<Rightarrow> nd m
     | (w, f, u) # _ \<Rightarrow> snd (provision_warm_instance cfg now w f u (nd m)))"
proof -
  have wp: "warm_pool (nd m) = []" using inv by (simp add: node_inv_def)
  have loop: "replenish_loop cfg now as (nd m) = (case as of [] \<Rightarrow> nd m
     | (w, f, u) # _ \<Rightarrow> snd (provision_warm_instance cfg now w f u (nd m)))" for as
  proof (cases as)
    case (Cons a as')
    obtain w f u where a: "a = (w, f, u)" by (cases a)
    obtain e n where "provision_warm_instance cfg now w f u (nd m) = (Inl e, n)"
      using warm_errs [OF inv] by blast
    then show ?thesis using Cons a by simp
  qed simp
  have same: "(nd m)\<lparr>warm_pool := []\<rparr> = nd m"
    using wp by (cases "nd m") simp
  show ?thesis
    by (simp add: maintain_def wp same loop Let_def)
qed

lemma maintain_keeps: "node_inv cfg m \<Longrightarrow> node_inv cfg (m\<lparr>nd := maintain cfg now gone attempts (nd m)\<rparr>)"
  unfolding maintain_state using warm_state(2) by (auto split: list.splits)

lemma replenish_keeps:
  assumes inv: "node_inv cfg m"
  shows "node_inv cfg (m\<lparr>nd := snd (replenish cfg now w f u (nd m))\<rparr>)"
proof -
  obtain e n where "provision_warm_instance cfg now w f u (nd m) = (Inl e, n)"
    using warm_errs [OF inv] by blast
  then show ?thesis using warm_state(2) [OF inv, of now w f u] by (simp add: replenish_def)
qed

section \<open>The machine keeps the invariant\<close>

lemma milderI:
  assumes "\<And>r. in_id (f r) = in_id r \<and> in_ports (f r) = in_ports r \<and> (live (f r) \<longrightarrow> live r) \<and>
     (in_status r \<in> statuses \<longrightarrow> in_status (f r) \<in> statuses)"
  shows "milder (\<lambda>r. if P r then f r else r)"
  using assms by (simp add: milder_def)

lemma milder_id: "milder (\<lambda>r. r)"
  by (simp add: milder_def)

lemma milder_simps:
  "milder (\<lambda>r. if P r then r\<lparr>in_lifecycle := s\<rparr> else r)"
  "milder (\<lambda>r. if P r then r\<lparr>in_last_seen := x\<rparr> else r)"
  "milder (\<lambda>r. if P r then r\<lparr>in_pinned_until := g r\<rparr> else r)"
  "milder (\<lambda>r. if P r then r\<lparr>in_expires_at := h r\<rparr> else r)"
  "milder (\<lambda>r. if P r then r\<lparr>in_nextjs_port := p, in_nextjs_status := a, in_nextjs_deployed_at := b\<rparr> else r)"
  "milder (\<lambda>r. if P r then r\<lparr>in_status := final_status healthy\<rparr> else r)"
  "milder (\<lambda>r. if P r then r\<lparr>in_status := ''destroyed'', in_destroyed_at := Some now\<rparr> else r)"
  by (rule milderI; simp add: live_def statuses_def final_status_def)+

lemma milder_comp: "milder f \<Longrightarrow> milder g \<Longrightarrow> milder (\<lambda>r. g (f r))"
  unfolding milder_def by metis

lemma held_threads_ok:
  assumes "node_inv cfg m"
  shows "distinct (map snd (held (threads m)))"
    "Reserved i b c \<in> set (threads m) \<or> Checked i \<in> set (threads m) \<Longrightarrow> dns_safe_id i"
proof -
  have t: "threads_ok (rows m) (insts m) (threads m) (freed m)" using assms by (simp add: node_inv_def)
  then show "distinct (map snd (held (threads m)))" by (simp add: threads_ok_def)
  show "Reserved i b c \<in> set (threads m) \<or> Checked i \<in> set (threads m) \<Longrightarrow> dns_safe_id i"
    by (rule threads_safeD [OF t])
qed

text \<open>A step that only updates instances, with the same threads.\<close>

lemma mild_db:
  assumes inv: "node_inv cfg m" and g: "milder g"
    and n: "port_allocations (ndb n) = rows m" "instances (ndb n) = map g (insts m)" "warm_pool n = []"
  shows "node_inv cfg (m\<lparr>nd := n\<rparr>)"
  by (rule mild_step [OF inv g]) (use n held_threads_ok [OF inv] in auto)

text \<open>A step that only drops a thread or replaces one that holds nothing.\<close>

lemma thread_step:
  assumes inv: "node_inv cfg m" and ts: "threads m = xs @ t # ys" and "set us \<inter> {u. holds u \<noteq> []} = {}"
    and "\<And>i. Checked i \<notin> set us"
  shows "node_inv cfg (m\<lparr>threads := xs @ us @ ys\<rparr>)"
proof (rule mild_step [OF inv milder_id])
  have us: "held us = []" using assms(3) by (induction us) auto
  show "distinct (map snd (held (threads (m\<lparr>threads := xs @ us @ ys\<rparr>))))"
    "set (held (threads (m\<lparr>threads := xs @ us @ ys\<rparr>))) \<subseteq> set (held (threads m))"
    using held_threads_ok(1) [OF inv] by (auto simp: ts us)
  fix i b c
  assume "Reserved i b c \<in> set (threads (m\<lparr>threads := xs @ us @ ys\<rparr>)) \<or>
    Checked i \<in> set (threads (m\<lparr>threads := xs @ us @ ys\<rparr>))"
  then show "dns_safe_id i"
    using held_threads_ok(2) [OF inv, of i b c] assms(3,4) by (auto simp: ts)
qed (use inv in \<open>simp_all add: node_inv_def\<close>)

lemma check_keeps:
  assumes inv: "node_inv cfg m" and "dns_safe_id i"
  shows "node_inv cfg (m\<lparr>threads := Checked i # threads m\<rparr>)"
  by (rule mild_step [OF inv milder_id])
    (use inv assms held_threads_ok [OF inv] in \<open>auto simp: node_inv_def\<close>)

lemma suspend_keeps:
  assumes inv: "node_inv cfg m"
  shows "node_inv cfg (m\<lparr>nd := snd (suspend stop i (nd m))\<rparr>)"
proof (cases "snd (suspend stop i (nd m)) = nd m")
  case False
  then have "snd (suspend stop i (nd m)) = (nd m)\<lparr>ndb := set_lifecycle_state i ''suspended'' (ndb (nd m))\<rparr>"
    by (auto simp: suspend_def split: option.splits if_splits)
  then show ?thesis
    using inv by (intro mild_db [OF inv milder_simps(1) [of "\<lambda>r. in_id r = i" "''suspended''"]])
      (simp_all add: set_lifecycle_state_def update_instance_def node_inv_def)
qed (use inv in simp)

lemma milder_when: "milder f \<Longrightarrow> milder (\<lambda>r. if P r then f r else r)"
  by (simp add: milder_def)

lemma resume_db:
  "\<exists>g. milder g \<and> port_allocations (ndb (snd (resume now start connects i n))) = port_allocations (ndb n) \<and>
     instances (ndb (snd (resume now start connects i n))) = map g (instances (ndb n)) \<and>
     warm_pool (snd (resume now start connects i n)) = warm_pool n"
proof -
  let ?P = "\<lambda>r :: instance_row. in_id r = i"
  let ?life = "\<lambda>s r. if ?P r then r\<lparr>in_lifecycle := s\<rparr> else r"
  let ?seen = "\<lambda>r. if ?P r then r\<lparr>in_last_seen := Some now\<rparr> else r"
  let ?r = "snd (resume now start connects i n)"
  let ?start = "set_lifecycle_state i ''starting'' (ndb n)"
  have "?r = n \<or> ?r = n\<lparr>ndb := ?start\<rparr> \<or> ?r = n\<lparr>ndb := set_lifecycle_state i ''suspended'' ?start\<rparr> \<or>
      ?r = n\<lparr>ndb := touch_instance now i (set_lifecycle_state i ''running'' ?start)\<rparr>"
    by (auto simp: resume_def Let_def split: option.splits exec.splits)
  then consider "?r = n" | "?r = n\<lparr>ndb := ?start\<rparr>"
    | "?r = n\<lparr>ndb := set_lifecycle_state i ''suspended'' ?start\<rparr>"
    | "?r = n\<lparr>ndb := touch_instance now i (set_lifecycle_state i ''running'' ?start)\<rparr>" by blast
  then show ?thesis
  proof cases
    case 1
    then show ?thesis using milder_id by (intro exI [of _ "\<lambda>r. r"]) simp
  next
    case 2
    then show ?thesis
      by (intro exI [of _ "?life ''starting''"])
        (simp add: milder_simps set_lifecycle_state_def update_instance_def)
  next
    case 3
    have "milder (\<lambda>r. ?life ''suspended'' (?life ''starting'' r))"
      by (rule milder_comp; rule milder_simps)
    then show ?thesis
      using 3 by (intro exI [of _ "\<lambda>r. ?life ''suspended'' (?life ''starting'' r)"])
        (simp add: set_lifecycle_state_def update_instance_def comp_def)
  next
    case 4
    have "milder (\<lambda>r. ?seen (?life ''running'' (?life ''starting'' r)))"
      by (rule milder_comp, rule milder_comp; rule milder_simps)
    then show ?thesis
      using 4 by (intro exI [of _ "\<lambda>r. ?seen (?life ''running'' (?life ''starting'' r))"])
        (simp add: set_lifecycle_state_def touch_instance_def update_instance_def comp_def)
  qed
qed

lemma resume_keeps:
  assumes inv: "node_inv cfg m"
  shows "node_inv cfg (m\<lparr>nd := snd (resume now start connects i (nd m))\<rparr>)"
proof -
  obtain g where g: "milder g"
    "port_allocations (ndb (snd (resume now start connects i (nd m)))) = rows m"
    "instances (ndb (snd (resume now start connects i (nd m)))) = map g (insts m)"
    "warm_pool (snd (resume now start connects i (nd m))) = warm_pool (nd m)"
    using resume_db by blast
  show ?thesis by (rule mild_db [OF inv g(1)]) (use inv g in \<open>simp_all add: node_inv_def\<close>)
qed

text \<open>An update of the matching instances, with threads dropped or not.\<close>

lemma updating_keeps:
  assumes inv: "node_inv cfg m" and "milder (\<lambda>r. if P r then f r else r)"
    and "d = (ndb (nd m))\<lparr>instances := map (\<lambda>r. if P r then f r else r) (insts m)\<rparr>"
  shows "node_inv cfg (m\<lparr>nd := (nd m)\<lparr>ndb := d\<rparr>\<rparr>)"
  by (rule mild_db [OF inv assms(2)]) (use inv assms(3) in \<open>simp_all add: node_inv_def\<close>)

lemma finish_keeps:
  assumes inv: "node_inv cfg m" and ts: "threads m = xs @ Composing i # ys"
  shows "node_inv cfg (with_db (update_instance_status_db i (final_status h)) (m\<lparr>threads := xs @ ys\<rparr>))"
proof -
  have "node_inv cfg (m\<lparr>threads := xs @ [] @ ys\<rparr>)" by (rule thread_step [OF inv ts]) simp_all
  from updating_keeps [OF this milder_simps(6) [of "\<lambda>r. in_id r = i" h] refl]
  show ?thesis by (simp add: with_db_def update_instance_status_db_def update_instance_def)
qed

lemma mark_keeps:
  assumes inv: "node_inv cfg m" and ts: "threads m = xs @ Releasing i # ys"
  shows "node_inv cfg (m\<lparr>nd := mark_destroyed now i (nd m), threads := xs @ ys\<rparr>)"
proof -
  have inv': "node_inv cfg (m\<lparr>threads := xs @ [] @ ys\<rparr>)" by (rule thread_step [OF inv ts]) simp_all
  from mild_db [OF this milder_simps(7) [of "\<lambda>r. in_id r = i" now], of "mark_destroyed now i (nd m)"]
  show ?thesis
    using inv by (simp add: mark_destroyed_def destroy_instance_db_def update_instance_def
        delete_all_env_def node_inv_def)
qed

lemma restart_keeps:
  assumes inv: "node_inv cfg m"
  shows "node_inv cfg (m\<lparr>nd := (nd m)\<lparr>allocated_cores := {}, warm_pool := []\<rparr>, threads := []\<rparr>)"
  by (rule mild_step [OF inv milder_id]) simp_all

lemma set_pinned_db:
  assumes "set_pinned_until i t d = Inr (u, d')"
  shows "d' = d\<lparr>instances := map (\<lambda>r. if in_id r = i
     then r\<lparr>in_pinned_until := Some (max (coalesce (in_pinned_until r) 0) t)\<rparr> else r) (instances d)\<rparr>"
  using assms by (auto simp: set_pinned_until_def update_instance_def Let_def split: option.splits)

lemma extend_db:
  assumes "extend_instance later now i w secs d = Inr d'"
  shows "d' = d\<lparr>instances := map (\<lambda>r. if in_id r = i \<and> in_wallet r = w \<and> live r
     then r\<lparr>in_expires_at := later (coalesce (in_expires_at r) now) secs\<rparr> else r) (instances d)\<rparr>"
  using assms by (auto simp: extend_instance_def Let_def split: if_splits)

lemma begin_destroy_keeps:
  assumes inv: "node_inv cfg m"
  shows "node_inv cfg (m\<lparr>threads := Destroying r # threads m\<rparr>)"
  by (rule mild_step [OF inv milder_id])
    (use inv held_threads_ok [OF inv] in \<open>auto simp: node_inv_def\<close>)

lemma node_step_inv:
  assumes inv: "node_inv cfg m" and step: "node_step cfg m m'"
  shows "node_inv cfg m'"
  using step
proof (cases rule: node_step.cases)
  case (look_up xs i ys r)
  have "node_inv cfg (m\<lparr>threads := xs @ [Composing i] @ ys\<rparr>)"
    by (rule thread_step [OF inv look_up(2)]) simp_all
  with look_up show ?thesis by simp
next
  case (lose_thread xs t ys)
  have "node_inv cfg (m\<lparr>threads := xs @ [] @ ys\<rparr>)" by (rule thread_step [OF inv lose_thread(2)]) simp_all
  with lose_thread show ?thesis by simp
next
  case (touching now i)
  then show ?thesis
    using updating_keeps [OF inv milder_simps(2) [of "\<lambda>r. in_id r = i" "Some now"] refl]
    by (simp add: with_db_def touch_instance_def update_instance_def)
next
  case (pinning i t u d)
  then show ?thesis
    using updating_keeps [OF inv milder_simps(3) set_pinned_db [OF pinning(2)]] by (simp add: with_db_def)
next
  case (extending later now i w secs d)
  then show ?thesis
    using updating_keeps [OF inv milder_simps(4) extend_db [OF extending(2)]] by (simp add: with_db_def)
next
  case (nextjs now i port status)
  then show ?thesis
    using updating_keeps [OF inv milder_simps(5) [of "\<lambda>r. in_id r = i"] refl]
    by (simp add: with_db_def set_nextjs_service_def update_instance_def)
next
  case (from_warm w n i now req sec env_written down up obs moved)
  then show ?thesis using inv by (simp add: take_warm_def node_inv_def)
qed (simp_all add: inv check_keeps reserve_keeps insert_keeps bind_keeps finish_keeps begin_destroy_keeps
    release_keeps mark_keeps restart_keeps suspend_keeps resume_keeps maintain_keeps replenish_keeps)

lemma node_init_inv: "node_init cfg m \<Longrightarrow> node_inv cfg m"
  by (auto simp: node_init_def node_inv_def rows_ok_def instances_ok_def owners_ok_def threads_ok_def empty_db_def)

interpretation nodes: inductive_invariant "node_init cfg" "node_step cfg" "node_inv cfg" for cfg
  by unfold_locales (rule node_init_inv, assumption, rule node_step_inv)

end
