(* ===== verification/Node_Guarantees.thy ===== *)
theory Node_Guarantees
  imports Node_Machine
begin

text \<open>
  What the node machine guarantees in every reachable state, whatever the interleaving of the
  requests, and what it does not: the separation of the instances' ports, the fate of the warm
  pool, and the capacity limit.
\<close>

section \<open>Ports\<close>

definition port_set :: "instance_ports \<Rightarrow> nat set" where
  "port_set p = unat ` {kong_port p, postgres_port p, gotrue_port p, realtime_port p, storage_port p,
     studio_port p, analytics_port p, meta_port p, functions_port p}"

lemma block_ports_range:
  assumes "unat b + 10 \<le> 65535"
  shows "port_set (block_ports b) = {unat b ..< unat b + 9}"
proof -
  have "unat (b + 1) = unat b + 1" "unat (b + 2) = unat b + 2" "unat (b + 3) = unat b + 3"
    "unat (b + 4) = unat b + 4" "unat (b + 5) = unat b + 5" "unat (b + 6) = unat b + 6"
    "unat (b + 7) = unat b + 7" "unat (b + 8) = unat b + 8"
    using assms by (simp_all add: unat_word_ariths)
  moreover have "{unat b ..< unat b + 9} = (+) (unat b) ` {0, 1, 2, 3, 4, 5, 6, 7, 8}"
  proof -
    have "{0 ..< 9} = {0, 1, 2, 3, 4, 5, 6, 7, 8 :: nat}" by code_simp
    moreover have "(+) (unat b) ` {0 ..< 9} = {unat b ..< unat b + 9}"
      by (simp only: image_add_atLeastLessThan add.commute add_0_left)
    ultimately show ?thesis by simp
  qed
  ultimately show ?thesis by (simp add: port_set_def block_ports_def)
qed

lemma active_block:
  assumes inv: "node_inv cfg m" and r: "r \<in> set (insts m)" "active (freed m) r"
  obtains p where "p \<in> set (rows m)" "pa_base p = base_of r" "in_range cfg (base_of r)"
    "port_set (in_ports r) = {unat (base_of r) ..< unat (base_of r) + 9}"
proof -
  have o: "owners_ok (rows m) (insts m) (freed m)" and rows: "rows_ok cfg (rows m) (in_id ` set (insts m))"
    and c: "config_ok cfg" and ok: "instances_ok (insts m)" using inv by (simp_all add: node_inv_def)
  from owners_rowD [OF o r] obtain p where p: "p \<in> set (rows m)" "pa_base p = base_of r" by blast
  then have range: "in_range cfg (base_of r)" using rows by (auto simp: rows_ok_def)
  have ports: "in_ports r = block_ports (base_of r)" using ok r(1) by (simp add: instances_ok_def)
  have "port_set (block_ports (base_of r)) = {unat (base_of r) ..< unat (base_of r) + 9}"
    by (rule block_ports_range) (use range c in \<open>simp add: in_range_def config_ok_def\<close>)
  then show thesis using that p range ports by metis
qed

lemma active_ports:
  assumes "node_inv cfg m" "r \<in> set (insts m)" "active (freed m) r"
  shows "port_set (in_ports r) = {unat (base_of r) ..< unat (base_of r) + 9}"
  by (rule active_block [OF assms])

lemma active_apart:
  assumes inv: "node_inv cfg m" and rs: "r \<in> set (insts m)" "s \<in> set (insts m)"
    "active (freed m) r" "active (freed m) s" "in_id r \<noteq> in_id s"
  shows "apart (base_of r) (base_of s)"
proof -
  have o: "owners_ok (rows m) (insts m) (freed m)" and rows: "rows_ok cfg (rows m) (in_id ` set (insts m))"
    using inv by (simp_all add: node_inv_def)
  obtain p where p: "p \<in> set (rows m)" "pa_base p = base_of r" by (rule active_block [OF inv rs(1,3)]) blast
  obtain q where q: "q \<in> set (rows m)" "pa_base q = base_of s" by (rule active_block [OF inv rs(2,4)]) blast
  have "base_of r \<noteq> base_of s" using owners_sameD [OF o rs(1-4)] rs(5) by blast
  then show ?thesis using rows p(1) q(1) unfolding rows_ok_def p(2) [symmetric] q(2) [symmetric] by blast
qed

text \<open>
  C5: Whatever the order in which the database calls of concurrent provisions, tear-downs, warm
  pool runs and restarts interleave, and wherever a request is lost: instance identifiers are
  unique, an instance's status is one of the four the handlers write, and two instances whose
  ports no tear-down has released have disjoint sets of nine ports, inside the configured range.
\<close>

theorem instances_never_share_ports:
  assumes "reachable (node_init cfg) (node_step cfg) m"
  shows "distinct (map in_id (insts m)) \<and> in_status ` set (insts m) \<subseteq> statuses \<and>
    (\<forall>r \<in> set (insts m). active (freed m) r \<longrightarrow>
       port_set (in_ports r) \<subseteq> {unat (nc_port_range_start cfg) ..< unat (nc_port_range_end cfg)}) \<and>
    (\<forall>r \<in> set (insts m). \<forall>s \<in> set (insts m). active (freed m) r \<and> active (freed m) s \<and> in_id r \<noteq> in_id s \<longrightarrow>
       port_set (in_ports r) \<inter> port_set (in_ports s) = {})"
proof -
  from nodes.inv_reachable [OF assms] have inv: "node_inv cfg m" .
  then have ok: "instances_ok (insts m)" by (simp add: node_inv_def)
  have "port_set (in_ports r) \<inter> port_set (in_ports s) = {}"
    if rs: "r \<in> set (insts m)" "s \<in> set (insts m)" "active (freed m) r" "active (freed m) s" "in_id r \<noteq> in_id s" for r s
    using active_apart [OF inv rs] active_ports [OF inv rs(1,3)] active_ports [OF inv rs(2,4)]
    by (auto simp: apart_def)
  moreover have "port_set (in_ports r) \<subseteq> {unat (nc_port_range_start cfg) ..< unat (nc_port_range_end cfg)}"
    if "r \<in> set (insts m)" "active (freed m) r" for r
    by (rule active_block [OF inv that]) (auto simp: in_range_def)
  ultimately show ?thesis using ok by (auto simp: instances_ok_def)
qed

text \<open>A node with room for one instance, and its first provision up to the database row.\<close>

definition demo_node_config :: node_config where
  "demo_node_config = \<lparr>nc_data_dir = ''/data'', nc_hostname = ''h'', nc_public_host = '''',
     nc_port_range_start = 8000, nc_port_range_end = 8100, nc_max_instances = 1, nc_warm_pool_size = 1,
     nc_available_cpu_cores = 4, nc_smtp_host = '''', nc_smtp_port = 587, nc_smtp_user = '''',
     nc_smtp_pass = '''', nc_smtp_admin_email = '''', nc_smtp_sender_name = ''''\<rparr>"

definition demo_request :: provision_request where
  "demo_request = \<lparr>pr_wallet = ''w1'', pr_name = None, pr_autoconfirm = None, pr_redirects = None\<rparr>"

definition demo_node :: node where
  "demo_node = \<lparr>ndb = empty_db, allocated_cores = {}, warm_pool = [], env_files = Map.empty\<rparr>"

definition demo_machine :: machine where
  "demo_machine = \<lparr>nd = demo_node, threads = [], freed = {}\<rparr>"

lemma demo_machine_reachable: "reachable (node_init demo_node_config) (node_step demo_node_config) demo_machine"
  by (rule reach_init)
    (simp add: node_init_def demo_machine_def demo_node_def config_ok_def demo_node_config_def)

text \<open>Two provisions that have passed the capacity check reserve and insert one after the other.\<close>

lemma insert_fresh:
  assumes "i \<notin> instance_ids (ndb n)"
  shows "\<exists>n'. on_db (insert_instance (new_instance cfg now i req b c sec ''provisioning'')) (write_env dir txt n)
      = (Inr (), n') \<and>
    instances (ndb n') = instances (ndb n) @ [new_instance cfg now i req b c sec ''provisioning'']"
  using assms
  by (simp add: on_db_def insert_instance_def write_env_def new_instance_def inserted_instance_def)

lemma running_count_new:
  assumes "instances d' = instances d @ [new_instance cfg now i req b c sec ''provisioning'']"
  shows "running_instance_count d' = Suc (running_instance_count d)"
  using assms by (simp add: running_instance_count_def new_instance_def live_def)

lemma reserve_instances:
  assumes "reserve cfg n = (Inr (b, c), n')"
  shows "instances (ndb n') = instances (ndb n)"
  using assms by (auto simp: reserve_def allocate_port_block_def Let_def split: sum.splits if_splits prod.splits)

abbreviation running :: "node \<Rightarrow> nat" where
  "running n \<equiv> running_instance_count (ndb n)"

lemma prepare_running:
  assumes "running n \<le> nc_max_instances cfg"
  shows "running (snd (prepare_provision cfg now i req sec ok n)) \<le> nc_max_instances cfg"
proof (cases "check_capacity cfg n")
  case None
  then have room: "running n < nc_max_instances cfg" by (simp add: check_capacity_def Let_def split: if_splits)
  have bound: "running n' = running m" if "on_db (bind_port_to_instance b i) m = (x, n')" for b m x n'
    using that by (auto simp: on_db_def bind_port_to_instance_def running_instance_count_def split: if_splits)
  have ins: "running n' \<le> Suc (running m)" if "on_db (insert_instance r) (write_env dir content m) = (x, n')" for r dir content m x n'
    using that by (auto simp: on_db_def insert_instance_def write_env_def running_instance_count_def split: if_splits)
  obtain x n1 where res: "reserve cfg n = (x, n1)" by fastforce
  then have n1: "running n1 = running n"
    by (auto simp: reserve_def running_instance_count_def allocate_port_block_def Let_def
        split: sum.splits if_splits prod.splits)
  show ?thesis
  proof (cases x)
    case (Inr bc)
    obtain b c where bc: "bc = (b, c)" by fastforce
    obtain y n3 where y: "on_db (insert_instance (new_instance cfg now i req b c sec ''provisioning''))
      (write_env (instance_dir cfg i) (render_env_file cfg (env_params_for cfg i req b c sec)) n1) = (y, n3)" by fastforce
    obtain z n4 where z: "on_db (bind_port_to_instance b i) n3 = (z, n4)" by fastforce
    show ?thesis
      unfolding prepare_provision_def None res Inr bc option.case sum.case prod.case Let_def y z
      using room n1 ins [OF y] bound [OF z] by (auto split: sum.splits)
  qed (use None res n1 room in \<open>simp add: prepare_provision_def\<close>)
qed (use assms in \<open>simp add: prepare_provision_def\<close>)

section \<open>The capacity limit\<close>

text \<open>
  The capacity limit is a check, not a bound. A provision that runs alone never takes the node
  past \<open>nc_max_instances\<close>; but at one instance below the limit two provisions whose checks both come
  before either insert end with one instance too many.
\<close>

lemma capacity_check_races:
  assumes reach: "reachable (node_init cfg) (node_step cfg) m"
    and room: "Suc (running (nd m)) = nc_max_instances cfg"
    and ids: "dns_safe_id i" "dns_safe_id j" "i \<noteq> j" "i \<notin> instance_ids (ndb (nd m))" "j \<notin> instance_ids (ndb (nd m))"
    and r: "reserve cfg (nd m) = (Inr (b, c), n)" "reserve cfg n = (Inr (b', c'), n')"
  shows "(\<forall>now k req sec ok. running (snd (prepare_provision cfg now k req sec ok (nd m))) \<le> nc_max_instances cfg) \<and>
    (\<exists>m'. reachable (node_init cfg) (node_step cfg) m' \<and> running (nd m') = Suc (nc_max_instances cfg))"
proof (rule conjI)
  show "\<forall>now k req sec ok. running (snd (prepare_provision cfg now k req sec ok (nd m))) \<le> nc_max_instances cfg"
    using prepare_running room by (metis Suc_n_not_le_n nat_le_linear)
next
  let ?R = "reachable (node_init cfg) (node_step cfg)"
  let ?ts = "threads m"
  have cap: "check_capacity cfg (nd m) = None" using room by (simp add: check_capacity_def Let_def)
  have "?R (m\<lparr>threads := Checked i # ?ts\<rparr>)" by (rule reach_step [OF reach check [OF ids(1) cap]])
  moreover have "node_step cfg (m\<lparr>threads := Checked i # ?ts\<rparr>) (m\<lparr>threads := Checked j # Checked i # ?ts\<rparr>)"
    using check [OF ids(2), of cfg "m\<lparr>threads := Checked i # ?ts\<rparr>"] cap by simp
  ultimately have "?R (m\<lparr>threads := Checked j # Checked i # ?ts\<rparr>)" by (rule reach_step)
  moreover have "node_step cfg (m\<lparr>threads := Checked j # Checked i # ?ts\<rparr>)
      (m\<lparr>nd := n, threads := Checked j # Reserved i b c # ?ts\<rparr>)"
    using reserve_block [of "m\<lparr>threads := Checked j # Checked i # ?ts\<rparr>" "[Checked j]"] r(1) by simp
  ultimately have "?R (m\<lparr>nd := n, threads := Checked j # Reserved i b c # ?ts\<rparr>)" by (rule reach_step)
  moreover have "node_step cfg (m\<lparr>nd := n, threads := Checked j # Reserved i b c # ?ts\<rparr>)
      (m\<lparr>nd := n', threads := Reserved j b' c' # Reserved i b c # ?ts\<rparr>)"
    using reserve_block [of "m\<lparr>nd := n, threads := Checked j # Reserved i b c # ?ts\<rparr>" "[]"] r(2) by simp
  ultimately have start: "?R (m\<lparr>nd := n', threads := Reserved j b' c' # Reserved i b c # ?ts\<rparr>)" by (rule reach_step)
  obtain n1 where n1: "on_db (insert_instance (new_instance cfg now i req b c sec ''provisioning''))
      (write_env (instance_dir cfg i) txt n') = (Inr (), n1)"
    "instances (ndb n1) = instances (ndb n') @ [new_instance cfg now i req b c sec ''provisioning'']"
    using insert_fresh [of i n'] ids(4) reserve_instances [OF r(1)] reserve_instances [OF r(2)]
    by (fastforce simp: instance_ids_def)
  have "node_step cfg (m\<lparr>nd := n', threads := Reserved j b' c' # Reserved i b c # ?ts\<rparr>)
      (m\<lparr>nd := n1, threads := Reserved j b' c' # Inserted i b # ?ts\<rparr>)"
    using insert_row [of "m\<lparr>nd := n', threads := Reserved j b' c' # Reserved i b c # ?ts\<rparr>" "[Reserved j b' c']"] n1(1)
    by simp
  with start have mid: "?R (m\<lparr>nd := n1, threads := Reserved j b' c' # Inserted i b # ?ts\<rparr>)" by (rule reach_step)
  obtain n2 where n2: "on_db (insert_instance (new_instance cfg now j req b' c' sec ''provisioning''))
      (write_env (instance_dir cfg j) txt n1) = (Inr (), n2)"
    "instances (ndb n2) = instances (ndb n1) @ [new_instance cfg now j req b' c' sec ''provisioning'']"
    using insert_fresh [of j n1] ids(3,5) n1(2) reserve_instances [OF r(1)] reserve_instances [OF r(2)]
    by (fastforce simp: instance_ids_def new_instance_def)
  have "node_step cfg (m\<lparr>nd := n1, threads := Reserved j b' c' # Inserted i b # ?ts\<rparr>)
      (m\<lparr>nd := n2, threads := Inserted j b' # Inserted i b # ?ts\<rparr>)"
    using insert_row [of "m\<lparr>nd := n1, threads := Reserved j b' c' # Inserted i b # ?ts\<rparr>" "[]"] n2(1) by simp
  with mid have "?R (m\<lparr>nd := n2, threads := Inserted j b' # Inserted i b # ?ts\<rparr>)" by (rule reach_step)
  moreover have "running n2 = Suc (nc_max_instances cfg)"
    using running_count_new [OF n2(2)] running_count_new [OF n1(2)] room
      reserve_instances [OF r(1)] reserve_instances [OF r(2)] by (simp add: running_instance_count_def)
  ultimately show "\<exists>m'. ?R m' \<and> running (nd m') = Suc (nc_max_instances cfg)"
    by (intro exI [of _ "m\<lparr>nd := n2, threads := Inserted j b' # Inserted i b # ?ts\<rparr>"]) simp
qed

lemma demo_allocation:
  "allocate_port_block 8000 8100 (empty_db\<lparr>port_allocations := []\<rparr>) =
     Inr (8000, empty_db\<lparr>port_allocations := [\<lparr>pa_instance = None, pa_base = 8000\<rparr>]\<rparr>)"
  "allocate_port_block 8000 8100 (empty_db\<lparr>port_allocations := [\<lparr>pa_instance = None, pa_base = 8000\<rparr>]\<rparr>) =
     Inr (8010, empty_db\<lparr>port_allocations :=
       [\<lparr>pa_instance = None, pa_base = 8000\<rparr>, \<lparr>pa_instance = None, pa_base = 8010\<rparr>]\<rparr>)"
  by (simp_all add: allocate_port_block_def allocated_bases_def PORTS_PER_INSTANCE_def empty_db_def)

lemma demo_cores:
  "allocate_cpu_set 4 {} = (Some ''0,1'', {0, 1})" "allocate_cpu_set 4 {0, 1} = (Some ''2,3'', {0, 1, 2, 3})"
  by code_simp+

lemma demo_config:
  "nc_max_instances demo_node_config = 1" "nc_port_range_start demo_node_config = 8000"
  "nc_port_range_end demo_node_config = 8100" "nc_available_cpu_cores demo_node_config = 4"
  by (simp_all add: demo_node_config_def)

definition demo_reserved :: node where
  "demo_reserved = demo_node\<lparr>ndb := empty_db\<lparr>port_allocations := [\<lparr>pa_instance = None, pa_base = 8000\<rparr>]\<rparr>,
     allocated_cores := {0, 1}\<rparr>"

lemma demo_reserve: "reserve demo_node_config demo_node = (Inr (8000, Some ''0,1''), demo_reserved)"
proof -
  have "empty_db\<lparr>port_allocations := []\<rparr> = empty_db" by (simp add: empty_db_def)
  then show ?thesis
    using demo_allocation(1) by (simp add: reserve_def demo_config demo_cores demo_node_def demo_reserved_def)
qed

lemma demo_inserted:
  "\<exists>n. reachable (node_init demo_node_config) (node_step demo_node_config)
      \<lparr>nd = n, threads = [Inserted ''aaaaaaaaaaaa'' 8000], freed = {}\<rparr> \<and>
    instances (ndb n) = [new_instance demo_node_config 0 ''aaaaaaaaaaaa'' demo_request 8000 (Some ''0,1'') demo_secrets ''provisioning'']"
proof -
  let ?i = "''aaaaaaaaaaaa''" and ?row = "\<lambda>i. new_instance demo_node_config 0 i demo_request 8000 (Some ''0,1'')
    demo_secrets ''provisioning''"
  let ?R = "reachable (node_init demo_node_config) (node_step demo_node_config)"
  have id: "dns_safe_id ?i" by (simp add: dns_safe_id_def DNS_SAFE_ID_ALPHABET_def)
  have "check_capacity demo_node_config (nd demo_machine) = None"
    by (simp add: check_capacity_def demo_config demo_machine_def demo_node_def empty_db_def running_instance_count_def)
  then have "node_step demo_node_config demo_machine (demo_machine\<lparr>threads := Checked ?i # threads demo_machine\<rparr>)"
    by (rule check [OF id])
  with demo_machine_reachable have "?R (demo_machine\<lparr>threads := Checked ?i # threads demo_machine\<rparr>)" by (rule reach_step)
  then have "?R \<lparr>nd = demo_node, threads = [Checked ?i], freed = {}\<rparr>" by (simp add: demo_machine_def)
  moreover have "node_step demo_node_config \<lparr>nd = demo_node, threads = [Checked ?i], freed = {}\<rparr>
      \<lparr>nd = demo_reserved, threads = [Reserved ?i 8000 (Some ''0,1'')], freed = {}\<rparr>"
    using reserve_block [of "\<lparr>nd = demo_node, threads = [Checked ?i], freed = {}\<rparr>" "[]" ?i "[]"] demo_reserve by simp
  ultimately have R: "?R \<lparr>nd = demo_reserved, threads = [Reserved ?i 8000 (Some ''0,1'')], freed = {}\<rparr>"
    by (rule reach_step)
  have "?i \<notin> instance_ids (ndb demo_reserved)" "instances (ndb demo_reserved) = []"
    by (simp_all add: instance_ids_def demo_reserved_def empty_db_def)
  then obtain n where n: "on_db (insert_instance (?row ?i)) (write_env (instance_dir demo_node_config ?i) [] demo_reserved)
      = (Inr (), n)" "instances (ndb n) = [?row ?i]"
    using insert_fresh [of ?i demo_reserved demo_node_config 0 demo_request 8000 "Some ''0,1''" demo_secrets
        "instance_dir demo_node_config ?i" "[]"] by auto
  have "node_step demo_node_config \<lparr>nd = demo_reserved, threads = [Reserved ?i 8000 (Some ''0,1'')], freed = {}\<rparr>
      \<lparr>nd = n, threads = [Inserted ?i 8000], freed = {}\<rparr>"
    using insert_row [of "\<lparr>nd = demo_reserved, threads = [Reserved ?i 8000 (Some ''0,1'')], freed = {}\<rparr>" "[]" ?i 8000
        "Some ''0,1''" "[]"] n(1) by simp
  with R have "?R \<lparr>nd = n, threads = [Inserted ?i 8000], freed = {}\<rparr>" by (rule reach_step)
  then show ?thesis using n(2) by (intro exI [of _ n]) simp
qed

lemma demo_instance:
  "\<exists>m r. reachable (node_init demo_node_config) (node_step demo_node_config) m \<and> insts m = [r] \<and> active (freed m) r"
proof -
  let ?r = "new_instance demo_node_config 0 ''aaaaaaaaaaaa'' demo_request 8000 (Some ''0,1'') demo_secrets ''provisioning''"
  obtain n where n: "reachable (node_init demo_node_config) (node_step demo_node_config)
      \<lparr>nd = n, threads = [Inserted ''aaaaaaaaaaaa'' 8000], freed = {}\<rparr>" "instances (ndb n) = [?r]"
    using demo_inserted by blast
  have "insts \<lparr>nd = n, threads = [Inserted ''aaaaaaaaaaaa'' 8000], freed = {}\<rparr> = [?r]" using n(2) by simp
  moreover have "active (freed \<lparr>nd = n, threads = [Inserted ''aaaaaaaaaaaa'' 8000], freed = {}\<rparr>) ?r"
    by (simp add: active_def live_def new_instance_def)
  ultimately show ?thesis using n(1) by blast
qed

theorem instances_never_share_ports_witness:
  "\<exists>m r. reachable (node_init demo_node_config) (node_step demo_node_config) m \<and> insts m = [r] \<and>
     in_status r \<in> statuses \<and> port_set (in_ports r) \<subseteq> {8000 ..< 8100}"
proof -
  obtain m r where m: "reachable (node_init demo_node_config) (node_step demo_node_config) m"
    and r: "insts m = [r]" "active (freed m) r" using demo_instance by blast
  from instances_never_share_ports [OF m] r have "in_status r \<in> statuses"
    "port_set (in_ports r) \<subseteq> {8000 ..< 8100}" by (simp_all add: demo_config)
  with m r(1) show ?thesis by blast
qed

lemma capacity_check_races_witness:
  "\<exists>m. reachable (node_init demo_node_config) (node_step demo_node_config) m \<and> running (nd m) = 2"
proof -
  let ?one = demo_reserved
  note cfg = demo_config
  have r: "reserve demo_node_config (nd demo_machine) = (Inr (8000, Some ''0,1''), ?one)"
    using demo_reserve by (simp add: demo_machine_def)
  obtain n where r': "reserve demo_node_config ?one = (Inr (8010, Some ''2,3''), n)"
    using demo_allocation(2) by (simp add: reserve_def cfg demo_cores [simplified] demo_node_def demo_reserved_def)
  have none: "instances (ndb (nd demo_machine)) = []" by (simp add: demo_machine_def demo_node_def empty_db_def)
  have "\<exists>m. reachable (node_init demo_node_config) (node_step demo_node_config) m \<and>
      running (nd m) = Suc (nc_max_instances demo_node_config)"
    by (rule capacity_check_races [OF demo_machine_reachable _ _ _ _ _ _ r r',
          where i = "''aaaaaaaaaaaa''" and j = "''bbbbbbbbbbbb''", THEN conjunct2])
      (simp_all add: none running_instance_count_def instance_ids_def cfg dns_safe_id_def DNS_SAFE_ID_ALPHABET_def)
  then show ?thesis by (simp add: cfg numeral_2_eq_2)
qed

section \<open>The background tasks\<close>

definition leaked :: "u16 \<Rightarrow> machine \<Rightarrow> bool" where
  "leaked b m \<longleftrightarrow> \<lparr>pa_instance = None, pa_base = b\<rparr> \<in> set (rows m) \<and> b \<notin> snd ` set (held (threads m))"

lemma leaked_more:
  assumes "leaked b m" and "set (rows m) \<subseteq> set (rows m')" and "set (held (threads m')) \<subseteq> set (held (threads m))"
  shows "leaked b m'"
  using assms by (auto simp: leaked_def)

lemma allocate_rows:
  assumes "allocate_port_block s e d = Inr (b, d')"
  shows "port_allocations d' = port_allocations d @ [\<lparr>pa_instance = None, pa_base = b\<rparr>]" "b \<notin> set (allocated_bases d)"
  using assms by (auto simp: allocate_port_block_def Let_def split: if_splits)

lemma warm_rows:
  "node_inv cfg m \<Longrightarrow>
     set (rows m) \<subseteq> set (port_allocations (ndb (snd (provision_warm_instance cfg now w f u (nd m)))))"
  using warm_fails [of "nd m" cfg now w f u]
  by (auto simp: node_inv_def dest!: allocate_rows(1) split: sum.splits prod.splits)

lemma same_rows:
  "port_allocations (ndb (snd (suspend stop i n))) = port_allocations (ndb n)"
  by (auto simp: suspend_def set_lifecycle_state_def update_instance_def split: option.splits)

lemma leaked_step:
  assumes inv: "node_inv cfg m" and l: "leaked b m" and step: "node_step cfg m m'"
  shows "leaked b m'"
  using step
proof (cases rule: node_step.cases)
  case (reserve_block xs i ys b' c n)
  then obtain d where "allocate_port_block (nc_port_range_start cfg) (nc_port_range_end cfg) (ndb (nd m)) = Inr (b', d)"
    "ndb n = d" by (auto simp: reserve_def Let_def split: sum.splits prod.splits)
  from allocate_rows [OF this(1)] this(2)
  have "rows (m\<lparr>nd := n\<rparr>) = rows m @ [\<lparr>pa_instance = None, pa_base = b'\<rparr>]" "b' \<notin> set (map pa_base (rows m))"
    by (simp_all add: allocated_bases_def)
  then show ?thesis using l reserve_block by (auto simp: leaked_def rev_image_eqI)
next
  case (insert_row xs i b' c ys now req sec content n)
  then have "rows m' = rows m" "held (threads m') = held (threads m)"
    by (auto simp: on_db_def insert_instance_def write_env_def split: if_splits)
  with l show ?thesis by (simp add: leaked_def)
next
  case (bind_block xs i b' ys n)
  then have "b' \<noteq> b" and "rows m' = map (\<lambda>p. if pa_base p = b' then p\<lparr>pa_instance := Some i\<rparr> else p) (rows m)"
    using l by (auto simp: leaked_def on_db_def bind_port_to_instance_def split: if_splits)
  then show ?thesis using l bind_block by (force simp: leaked_def image_iff)
next
  case (release xs r ys)
  then show ?thesis using l by (auto simp: leaked_def release_resources_def free_port_block_def)
next
  case (mark xs i ys now)
  then show ?thesis using l
    by (auto simp: leaked_def mark_destroyed_def delete_all_env_def destroy_instance_db_def update_instance_def)
next
  case (pinning i t u d)
  then show ?thesis using l by (auto dest!: set_pinned_db simp: leaked_def with_db_def)
next
  case (extending later now i w secs d)
  then show ?thesis using l by (auto dest!: extend_db simp: leaked_def with_db_def)
next
  case (maintaining now gone attempts)
  show ?thesis unfolding maintaining maintain_state [OF inv]
    by (rule leaked_more [OF l]) (use warm_rows [OF inv] in \<open>auto split: list.splits\<close>)
next
  case (replenishing now w f u)
  show ?thesis unfolding replenishing
    by (rule leaked_more [OF l]) (use warm_rows [OF inv, of now w f u] warm_errs [OF inv, of now w f u] in
      \<open>auto simp: replenish_def\<close>)
next
  case (resuming now start connects i)
  show ?thesis unfolding resuming
    by (rule leaked_more [OF l]) (use resume_db [of now start connects i "nd m"] in auto)
next
  case (from_warm w n i now req sec env_written down up obs moved)
  then show ?thesis using inv by (simp add: take_warm_def node_inv_def)
qed (rule leaked_more [OF l];
  auto simp: with_db_def update_instance_status_db_def touch_instance_def set_nextjs_service_def update_instance_def same_rows)+

lemma leaked_steps: "(node_step cfg)\<^sup>*\<^sup>* m m' \<Longrightarrow> node_inv cfg m \<Longrightarrow> leaked b m \<Longrightarrow> leaked b m'"
  by (induction rule: rtranclp_induct) (auto intro: leaked_step nodes.inv_steps)

text \<open>
  C37: The warm pool is inert. In every reachable state it is empty, every attempt to fill it
  fails, and an attempt that found a free block loses that block for good: its row stays, owned
  by nobody, after any further steps. And no instance is ever reported idle, so none is ever
  suspended for being idle.
\<close>

theorem warm_pool_only_leaks:
  assumes "reachable (node_init cfg) (node_step cfg) m"
  shows "warm_pool (nd m) = [] \<and> list_idle_running_instances now secs (ndb (nd m)) = [] \<and>
    (\<exists>e n. provision_warm_instance cfg now w files_ok up (nd m) = (Inl e, n) \<and>
       (\<forall>b d m'. allocate_port_block (nc_port_range_start cfg) (nc_port_range_end cfg) (ndb (nd m)) = Inr (b, d) \<longrightarrow>
          (node_step cfg)\<^sup>*\<^sup>* (m\<lparr>nd := n\<rparr>) m' \<longrightarrow> \<lparr>pa_instance = None, pa_base = b\<rparr> \<in> set (rows m')))"
proof -
  from nodes.inv_reachable [OF assms] have inv: "node_inv cfg m" .
  then have ok: "instances_ok (insts m)" and t: "threads_ok (rows m) (insts m) (threads m) (freed m)"
    by (simp_all add: node_inv_def)
  then have "in_status r \<noteq> ''active''" if "r \<in> set (insts m)" for r
    using that by (auto simp: instances_ok_def statuses_def)
  then have "list_idle_running_instances now secs (ndb (nd m)) = []"
    by (simp add: list_idle_running_instances_def filter_empty_conv)
  moreover obtain e n where n: "provision_warm_instance cfg now w files_ok up (nd m) = (Inl e, n)"
    using warm_errs [OF inv] by blast
  moreover have "\<lparr>pa_instance = None, pa_base = b\<rparr> \<in> set (rows m')"
    if a: "allocate_port_block (nc_port_range_start cfg) (nc_port_range_end cfg) (ndb (nd m)) = Inr (b, d)"
      and steps: "(node_step cfg)\<^sup>*\<^sup>* (m\<lparr>nd := n\<rparr>) m'" for b d m'
  proof -
    from warm_fails [OF ok, of cfg now w files_ok up] a n have "ndb n = d" by auto
    moreover have "b \<notin> snd ` set (held (threads m))"
      by (rule fresh_base(2) [OF _ t]) (use allocate_rows(2) [OF a] in \<open>simp add: allocated_bases_def\<close>)
    ultimately have l: "leaked b (m\<lparr>nd := n\<rparr>)" using allocate_rows(1) [OF a] by (simp add: leaked_def)
    have "node_inv cfg (m\<lparr>nd := n\<rparr>)" using warm_state(2) [OF inv, of now w files_ok up] n by simp
    from leaked_steps [OF steps this l] show ?thesis by (simp add: leaked_def)
  qed
  ultimately show ?thesis using inv by (auto simp: node_inv_def)
qed

theorem warm_pool_only_leaks_witness:
  "fst (provision_warm_instance demo_node_config 0 \<lparr>wr_id = ''w'', wr_secret = ''s'', wr_password = ''p''\<rparr>
     True Exit_success demo_node) \<in> range Inl"
  using warm_pool_only_leaks [OF demo_machine_reachable, of 0 0 "\<lparr>wr_id = ''w'', wr_secret = ''s'', wr_password = ''p''\<rparr>"
      True Exit_success]
  by (auto simp: demo_machine_def)

end
