(* ===== verification/Wal_Chain.thy ===== *)
theory Wal_Chain
  imports Replication
begin

text \<open>
  The chain a primary builds: the rows of an instance, in the order of insertion, are numbered
  from 0 and each carries the hash of the one before and of its own file. A pass over the
  archive appends to the chain and never changes what it holds.
\<close>

definition hex_length_law :: "crypto \<Rightarrow> bool" where
  "hex_length_law C \<longleftrightarrow> (\<forall>x. length (hex_encode C x) = 2 * length x)"

definition aead_tag_law :: "crypto \<Rightarrow> bool" where
  "aead_tag_law C \<longleftrightarrow> (\<forall>k n a p c. length k = 32 \<longrightarrow> aead_encrypt C k n a p = Some c \<longrightarrow> 16 \<le> length c)"

definition chain_laws :: "crypto \<Rightarrow> bool" where
  "chain_laws C \<longleftrightarrow> hex_law C \<and> hex_length_law C \<and> digest_law C \<and> aead_law C \<and> aead_tag_law C"

lemma chain_lawsD:
  assumes "chain_laws C"
  shows "hex_decode C (hex_encode C x) = Some x" "length (hex_encode C x) = 2 * length x"
    "length (sha256 C x) = 32" "hex_encode C (sha256 C x) \<noteq> []"
    "aead_encrypt C k n a p = Some c \<Longrightarrow> aead_decrypt C k n a c = Some p"
    "length k = 32 \<Longrightarrow> aead_encrypt C k n a p = Some c \<Longrightarrow> 16 \<le> length c"
proof -
  show l: "hex_decode C (hex_encode C x) = Some x" "length (hex_encode C x) = 2 * length x" "length (sha256 C x) = 32" for x
    using assms by (simp_all add: chain_laws_def hex_law_def hex_length_law_def digest_law_def)
  show "hex_encode C (sha256 C x) \<noteq> []" using l(2,3) [of "sha256 C x"] l(3) [of x] by auto
  show "aead_encrypt C k n a p = Some c \<Longrightarrow> aead_decrypt C k n a c = Some p"
    "length k = 32 \<Longrightarrow> aead_encrypt C k n a p = Some c \<Longrightarrow> 16 \<le> length c"
    using assms unfolding chain_laws_def aead_law_def aead_tag_law_def by blast+
qed

section \<open>Linked rows\<close>

definition entry_ok :: "crypto \<Rightarrow> (string \<Rightarrow> string option) \<Rightarrow> string \<Rightarrow> int \<Rightarrow> wal_segment \<Rightarrow> bool" where
  "entry_ok C bl p k s \<longleftrightarrow> ws_previous_hash s = p \<and> ws_chain_index s = k \<and>
     (case bl (ws_path s) of None \<Rightarrow> False
      | Some b \<Rightarrow> link_hash C p b = Inr (ws_hash s) \<and> ws_size s = int (length b) \<and> NONCE_LEN + 16 \<le> length b)"

fun linked :: "crypto \<Rightarrow> (string \<Rightarrow> string option) \<Rightarrow> string \<Rightarrow> int \<Rightarrow> wal_segment list \<Rightarrow> bool" where
  "linked C bl p k [] \<longleftrightarrow> True"
| "linked C bl p k (s # ss) \<longleftrightarrow> entry_ok C bl p k s \<and> linked C bl (ws_hash s) (k + 1) ss"

definition last_hash :: "string \<Rightarrow> wal_segment list \<Rightarrow> string" where
  "last_hash p ss = (if ss = [] then p else ws_hash (last ss))"

lemma linked_append:
  "linked C bl p k (ss @ rs) \<longleftrightarrow> linked C bl p k ss \<and> linked C bl (last_hash p ss) (k + int (length ss)) rs"
  by (induction ss arbitrary: p k) (auto simp: last_hash_def add.assoc)

lemma linked_index: "linked C bl p k ss \<Longrightarrow> n < length ss \<Longrightarrow> ws_chain_index (ss ! n) = k + int n"
proof (induction ss arbitrary: p k n)
  case (Cons s ss)
  then show ?case using Cons.IH [of "ws_hash s" "k + 1" "n - 1"]
    by (cases n) (auto simp: entry_ok_def)
qed simp

lemma linked_ascends: "linked C bl p k ss \<Longrightarrow> sorted_wrt (<) (map ws_chain_index ss)"
  by (auto simp: sorted_wrt_iff_nth_less linked_index)

lemma linked_latest: "linked C bl p k ss \<Longrightarrow> latest_row ss = (if ss = [] then None else Some (last ss))"
  by (rule latest_ascending) (rule linked_ascends)

lemma linked_cong:
  "(\<And>s. s \<in> set ss \<Longrightarrow> bl' (ws_path s) = bl (ws_path s)) \<Longrightarrow> linked C bl' p k ss = linked C bl p k ss"
  by (induction ss arbitrary: p k) (auto simp: entry_ok_def)

lemma linked_last:
  assumes "linked C bl p k ss" and "ss \<noteq> []"
  shows "ws_chain_index (last ss) = k + int (length ss) - 1"
    "\<exists>x. ws_hash (last ss) = hex_encode C (sha256 C x)"
proof -
  from assms(2) obtain rs s where ss: "ss = rs @ [s]" by (cases ss rule: rev_cases) auto
  with assms(1) have s: "entry_ok C bl (last_hash p rs) (k + int (length rs)) s" by (simp add: linked_append)
  then show "ws_chain_index (last ss) = k + int (length ss) - 1" by (simp add: ss entry_ok_def)
  from s show "\<exists>x. ws_hash (last ss) = hex_encode C (sha256 C x)"
    by (auto simp: ss entry_ok_def link_hash_def ok_simps dest!: sym [of _ "ws_hash s"]
        split: option.splits if_splits)
qed

section \<open>The invariant of a primary\<close>

definition segment_path :: "string \<Rightarrow> string \<Rightarrow> string \<Rightarrow> string" where
  "segment_path dd inst name = path_text (encrypted_dir dd inst @ [name @ ''.enc''])"

definition primary_ok :: "crypto \<Rightarrow> string \<Rightarrow> store \<Rightarrow> bool" where
  "primary_ok C dd st \<longleftrightarrow> distinct (map segment_key (wal_segments (sdb st))) \<and>
     (\<forall>s \<in> set (wal_segments (sdb st)). ws_path s = segment_path dd (ws_instance s) (ws_name s) \<and>
        CHR ''/'' \<notin> set (ws_instance s) \<and> wal_name (ws_name s)) \<and>
     (\<forall>i. linked C (blobs st) [] 0 (wal_rows i (sdb st)))"

lemma wal_name_plain: "wal_name n \<Longrightarrow> CHR ''/'' \<notin> set n"
proof -
  have "\<not> is_upper_hex (CHR ''/'')" by (simp add: is_upper_hex_def ascii_defs)
  then show "wal_name n \<Longrightarrow> CHR ''/'' \<notin> set n" by (auto simp: wal_name_def list_all_iff)
qed

lemma last_field:
  assumes "CHR ''/'' \<notin> set a" "CHR ''/'' \<notin> set b" "x @ CHR ''/'' # a = y @ CHR ''/'' # b"
  shows "x = y \<and> a = b"
proof -
  have "rev (takeWhile (\<lambda>c. c \<noteq> CHR ''/'') (rev (z @ CHR ''/'' # d))) = d" if "CHR ''/'' \<notin> set d" for z d
  proof -
    have "takeWhile (\<lambda>c. c \<noteq> CHR ''/'') (rev d @ CHR ''/'' # rev z) = rev d"
      using that by (subst takeWhile_append2) auto
    then show ?thesis by simp
  qed
  from this [OF assms(1)] this [OF assms(2)] assms(3) have "a = b" by metis
  with assms(3) show ?thesis by simp
qed

lemma segment_path_inj:
  assumes "segment_path dd i n = segment_path dd j m" and "CHR ''/'' \<notin> set i" "CHR ''/'' \<notin> set j"
    and "wal_name n" "wal_name m"
  shows "i = j \<and> n = m"
proof -
  have p: "segment_path dd i n = (dd @ ''/wal-encrypted/'' @ i) @ CHR ''/'' # (n @ ''.enc'')" for i n
    by (simp add: segment_path_def path_text_def encrypted_dir_def)
  have "dd @ ''/wal-encrypted/'' @ i = dd @ ''/wal-encrypted/'' @ j \<and> n @ ''.enc'' = m @ ''.enc''"
    by (rule last_field) (use assms wal_name_plain in \<open>simp_all add: p\<close>)
  then show ?thesis by simp
qed


section \<open>A pass over the archive keeps it\<close>

lemma enqueue_all_keeps:
  "wal_segments (snd (enqueue_all i f es d)) = wal_segments d \<and>
   replica_segments (snd (enqueue_all i f es d)) = replica_segments d"
  by (induction es arbitrary: d)
    (auto simp: enqueue_replica_shipment_def split: sum.splits prod.splits if_splits)

definition recoverable :: "crypto \<Rightarrow> string \<Rightarrow> (string \<Rightarrow> pull) \<Rightarrow> (string \<Rightarrow> string option) \<Rightarrow> wal_segment \<Rightarrow> bool" where
  "recoverable C key pulled bl s \<longleftrightarrow>
     (case (pulled (ws_name s), bl (ws_path s)) of
        (Pulled plain nonce, Some b) \<Rightarrow> aead_decrypt C key (take NONCE_LEN b)
           (segment_aad (ws_instance s) (ws_name s) (ws_chain_index s)) (drop NONCE_LEN b) = Some plain
      | _ \<Rightarrow> False)"

text \<open>The hash and index the loop carries are those the next row has to link to.\<close>

definition chain_head :: "crypto \<Rightarrow> wal_segment list \<Rightarrow> string option \<Rightarrow> int \<Rightarrow> bool" where
  "chain_head C rs prev idx \<longleftrightarrow> idx = int (length rs) \<and>
     (case prev of None \<Rightarrow> rs = [] | Some h \<Rightarrow> rs \<noteq> [] \<and> length h = 32 \<and> last_hash [] rs = hex_encode C h)"

lemma chain_head_hash:
  "chain_head C rs prev idx \<Longrightarrow> (case prev of Some p \<Rightarrow> hex_encode C p | None \<Rightarrow> []) = last_hash [] rs"
  by (auto simp: chain_head_def last_hash_def split: option.splits)

lemma chain_head_link:
  assumes "chain_laws C" and "chain_head C rs prev idx"
  shows "link_hash C (last_hash [] rs) b = Inr (hex_encode C (chain_hash C prev b))"
proof (cases prev)
  case None
  then show ?thesis using assms(2) by (simp add: chain_head_def last_hash_def link_hash_def chain_hash_def)
next
  case (Some h)
  then have h: "last_hash [] rs = hex_encode C h" "length h = 32" using assms(2) by (simp_all add: chain_head_def)
  moreover have "hex_encode C h \<noteq> []" using h(2) chain_lawsD(2) [OF assms(1), of h] by auto
  ultimately show ?thesis
    by (simp add: link_hash_def chain_hash_def Some chain_lawsD(1) [OF assms(1)])
qed

lemma i64_succ_small: "0 \<le> k \<Longrightarrow> k + 1 < 2 ^ 63 \<Longrightarrow> i64_succ k = k + 1"
  unfolding i64_succ_def by (rule sint_in_i64) (simp add: in_i64_def)

lemma wal_rows_append:
  "wal_rows i (d\<lparr>wal_segments := wal_segments d @ [s]\<rparr>) = wal_rows i d @ (if ws_instance s = i then [s] else [])"
  by (simp add: wal_rows_def)

lemma archive_one:
  assumes laws: "chain_laws C" and ok: "primary_ok C dd st" and i: "CHR ''/'' \<notin> set i" and f: "wal_name f"
    and head: "chain_head C (wal_rows i (sdb st)) prev idx" and small: "length (wal_rows i (sdb st)) + 1 < 2 ^ 63"
    and new: "f \<notin> set (get_processed_wal_segments i (sdb st))"
    and body: "NONCE_LEN + 16 \<le> length b"
  defines "s \<equiv> wal_segment_of C dd i f prev idx b"
  defines "bl \<equiv> (blobs st)(ws_path s \<mapsto> b)"
  shows "\<And>r. r \<in> set (wal_segments (sdb st)) \<Longrightarrow> bl (ws_path r) = blobs st (ws_path r)"
    "primary_ok C dd (st\<lparr>blobs := bl\<rparr>)"
    "wal_segments d = wal_segments (sdb st) @ [s] \<Longrightarrow> primary_ok C dd (st\<lparr>blobs := bl, sdb := d\<rparr>)"
    "chain_head C (wal_rows i (sdb st) @ [s]) (Some (chain_hash C prev b)) (i64_succ idx)"
    "segment_key s \<notin> segment_key ` set (wal_segments (sdb st))"
proof -
  have s: "ws_instance s = i" "ws_name s = f" "ws_path s = segment_path dd i f" "ws_chain_index s = idx"
    "ws_hash s = hex_encode C (chain_hash C prev b)" "ws_size s = int (length b)"
    "ws_previous_hash s = last_hash [] (wal_rows i (sdb st))"
    using chain_head_hash [OF head] by (simp_all add: s_def wal_segment_of_def segment_path_def)
  have other: "ws_path r \<noteq> ws_path s" if r: "r \<in> set (wal_segments (sdb st))" for r
  proof
    assume "ws_path r = ws_path s"
    moreover have "ws_path r = segment_path dd (ws_instance r) (ws_name r)" "CHR ''/'' \<notin> set (ws_instance r)"
      "wal_name (ws_name r)" using ok r by (auto simp: primary_ok_def)
    ultimately have "ws_instance r = i \<and> ws_name r = f"
      using segment_path_inj i f s(3) by metis
    then show False using new r by (auto simp: get_processed_wal_segments_def wal_rows_def)
  qed
  then show keep: "\<And>r. r \<in> set (wal_segments (sdb st)) \<Longrightarrow> bl (ws_path r) = blobs st (ws_path r)"
    by (auto simp: bl_def)
  have rows: "r \<in> set (wal_rows j (sdb st)) \<Longrightarrow> r \<in> set (wal_segments (sdb st))" for j r by (simp add: wal_rows_def)
  have linked: "linked C bl [] 0 (wal_rows j (sdb st))" for j
    using ok linked_cong [of "wal_rows j (sdb st)" bl "blobs st"] keep rows by (simp add: primary_ok_def)
  then show "primary_ok C dd (st\<lparr>blobs := bl\<rparr>)" using ok by (simp add: primary_ok_def)
  show fresh: "segment_key s \<notin> segment_key ` set (wal_segments (sdb st))"
    using new s by (auto simp: get_processed_wal_segments_def wal_rows_def segment_key_def)
  have "entry_ok C bl (last_hash [] (wal_rows i (sdb st))) (int (length (wal_rows i (sdb st)))) s"
    using chain_head_link [OF laws head, of b] head body
    by (simp add: entry_ok_def s bl_def chain_head_def)
  then have "linked C bl [] 0 (wal_rows i (sdb st) @ [s])"
    using linked by (simp add: linked_append)
  then have all: "linked C bl [] 0 (wal_rows j d)" if "wal_segments d = wal_segments (sdb st) @ [s]" for j d
    using linked that s(1) by (cases "j = i") (simp_all add: wal_rows_def)
  show "wal_segments d = wal_segments (sdb st) @ [s] \<Longrightarrow> primary_ok C dd (st\<lparr>blobs := bl, sdb := d\<rparr>)"
    using ok all fresh s i f by (auto simp: primary_ok_def)
  show "chain_head C (wal_rows i (sdb st) @ [s]) (Some (chain_hash C prev b)) (i64_succ idx)"
    using head small s(5) chain_lawsD(3) [OF laws] i64_succ_small [of idx]
    by (simp add: chain_head_def last_hash_def chain_hash_def)
qed


text \<open>What a pass may do to a store: extend the rows by recoverable ones and leave the old files.\<close>

definition extends ::
  "crypto \<Rightarrow> string \<Rightarrow> string \<Rightarrow> (string \<Rightarrow> pull) \<Rightarrow> store \<Rightarrow> store \<Rightarrow> bool" where
  "extends C key i pulled st st' \<longleftrightarrow>
     (\<exists>new. wal_segments (sdb st') = wal_segments (sdb st) @ new \<and>
        (\<forall>s \<in> set new. ws_instance s = i \<and> recoverable C key pulled (blobs st') s)) \<and>
     (\<forall>r \<in> set (wal_segments (sdb st)). blobs st' (ws_path r) = blobs st (ws_path r))"

lemma extends_none:
  "wal_segments (sdb st') = wal_segments (sdb st) \<Longrightarrow>
   (\<And>r. r \<in> set (wal_segments (sdb st)) \<Longrightarrow> blobs st' (ws_path r) = blobs st (ws_path r)) \<Longrightarrow>
   extends C key i pulled st st'"
  by (simp add: extends_def)

lemma extends_trans:
  assumes "extends C key i pulled st st1" and "extends C key i pulled st1 st2"
  shows "extends C key i pulled st st2"
proof -
  from assms obtain n1 n2 where
    one: "wal_segments (sdb st1) = wal_segments (sdb st) @ n1" "\<forall>s \<in> set n1. ws_instance s = i \<and> recoverable C key pulled (blobs st1) s"
      "\<forall>r \<in> set (wal_segments (sdb st)). blobs st1 (ws_path r) = blobs st (ws_path r)"
    and two: "wal_segments (sdb st2) = wal_segments (sdb st1) @ n2" "\<forall>s \<in> set n2. ws_instance s = i \<and> recoverable C key pulled (blobs st2) s"
      "\<forall>r \<in> set (wal_segments (sdb st1)). blobs st2 (ws_path r) = blobs st1 (ws_path r)"
    unfolding extends_def by blast
  have "recoverable C key pulled (blobs st2) s" if "s \<in> set n1" for s
    using that one two(3) by (auto simp: recoverable_def)
  then show ?thesis
    using one two unfolding extends_def by (intro conjI exI [of _ "n1 @ n2"]) auto
qed

lemma process_files_keeps:
  assumes laws: "chain_laws C" and key: "length key = 32" and i: "CHR ''/'' \<notin> set i"
    and nonces: "\<And>f p n. pulled f = Pulled p n \<Longrightarrow> length n = NONCE_LEN"
  shows "\<forall>f \<in> set fs. wal_name f \<Longrightarrow> distinct fs \<Longrightarrow> primary_ok C dd st \<Longrightarrow>
    chain_head C (wal_rows i (sdb st)) prev idx \<Longrightarrow>
    \<forall>f \<in> set fs. f \<notin> set processed \<longrightarrow> f \<notin> set (get_processed_wal_segments i (sdb st)) \<Longrightarrow>
    length (wal_rows i (sdb st)) + length fs < 2 ^ 63 \<Longrightarrow>
    primary_ok C dd (snd (process_files C dd i key replicas processed pulled written fs prev idx st)) \<and>
    extends C key i pulled st (snd (process_files C dd i key replicas processed pulled written fs prev idx st))"
proof (induction fs arbitrary: prev idx st)
  case Nil
  then show ?case by (simp add: extends_none)
next
  case (Cons f fs)
  note goOn = Cons.IH [OF _ _ Cons.prems(3,4)]
  show ?case
  proof (cases "f \<in> set processed \<or> pulled f \<in> {Spawn_failed, Copy_failed, Read_failed}")
    case True
    then show ?thesis using goOn Cons.prems by (auto simp: extends_none)
  next
    case False
    then obtain plain nonce where p: "pulled f = Pulled plain nonce" "f \<notin> set processed" by (cases "pulled f") auto
    show ?thesis
    proof (cases "aead_encrypt C key nonce (segment_aad i f idx) plain")
      case None
      with p Cons.prems(3) show ?thesis by (simp add: extends_none)
    next
      case (Some ct)
      define b where "b = nonce @ ct"
      define s where "s = wal_segment_of C dd i f prev idx b"
      define st1 where "st1 = st\<lparr>blobs := (blobs st)(ws_path s \<mapsto> b)\<rparr>"
      have n: "length nonce = NONCE_LEN" and "16 \<le> length ct"
        using nonces [OF p(1)] chain_lawsD(6) [OF laws key Some] by simp_all
      then have size: "NONCE_LEN + 16 \<le> length b" by (simp add: b_def)
      have fw: "wal_name f" and new: "f \<notin> set (get_processed_wal_segments i (sdb st))"
        and small: "length (wal_rows i (sdb st)) + 1 < 2 ^ 63" using Cons.prems p(2) by auto
      note a = archive_one [OF laws Cons.prems(3) i fw Cons.prems(4) small new size, folded s_def]
      have st1: "sdb st1 = sdb st" "blobs st1 = (blobs st)(ws_path s \<mapsto> b)" by (simp_all add: st1_def)
      have ok1: "primary_ok C dd st1" using a(2) by (simp add: st1_def)
      have ex1: "extends C key i pulled st st1" using a(1) by (intro extends_none) (simp_all add: st1_def)
      have step: "process_files C dd i key replicas processed pulled written (f # fs) prev idx st =
          (if \<not> written f then (Inl Io_failed, st) else case insert_wal_segment s (sdb st1) of
             Inl e \<Rightarrow> (Inl (Repl_db e), st1)
           | Inr d \<Rightarrow> (case enqueue_all i f replicas d of
               (Inl e, d') \<Rightarrow> (Inl e, st1\<lparr>sdb := d'\<rparr>)
             | (Inr _, d') \<Rightarrow> process_files C dd i key replicas processed pulled written fs
                 (Some (chain_hash C prev b)) (i64_succ idx) (st1\<lparr>sdb := d'\<rparr>)))"
        using p(2) by (simp only: process_files.simps p(1) pull.case Some option.case if_False Let_def b_def s_def st1_def)
      show ?thesis
      proof (cases "written f \<and> ws_instance s \<in> instance_ids (sdb st)")
        case False
        then show ?thesis
          using ok1 ex1 Cons.prems(3) a(5) unfolding step st1(1)
          by (auto simp: insert_wal_segment_def extends_none)
      next
        case True
        define d where "d = (sdb st)\<lparr>wal_segments := wal_segments (sdb st) @ [s]\<rparr>"
        have ins: "insert_wal_segment s (sdb st1) = Inr d"
          using True a(5) by (simp add: insert_wal_segment_def st1(1) d_def)
        obtain x d' where enq: "enqueue_all i f replicas d = (x, d')" by fastforce
        then have d': "wal_segments d' = wal_segments (sdb st) @ [s]"
          using enqueue_all_keeps [of i f replicas d] by (simp add: d_def)
        define st2 where "st2 = st1\<lparr>sdb := d'\<rparr>"
        have ok2: "primary_ok C dd st2" using a(3) [OF d'] by (simp add: st2_def st1_def)
        have s: "ws_instance s = i" "ws_name s = f" "ws_chain_index s = idx"
          by (simp_all add: s_def wal_segment_of_def)
        have "recoverable C key pulled (blobs st2) s"
          using chain_lawsD(5) [OF laws Some] n by (simp add: recoverable_def st2_def st1 s p(1) b_def)
        then have ex2: "extends C key i pulled st st2"
          using ex1 s(1) d' unfolding extends_def by (auto simp: st2_def st1)
        have rows2: "wal_rows i (sdb st2) = wal_rows i (sdb st) @ [s]"
          using d' s(1) by (simp add: st2_def wal_rows_def)
        show ?thesis
        proof (cases x)
          case (Inl e)
          then show ?thesis unfolding step ins using True ok2 ex2 enq by (simp add: st2_def)
        next
          case (Inr u)
          have "primary_ok C dd (snd (process_files C dd i key replicas processed pulled written fs
                 (Some (chain_hash C prev b)) (i64_succ idx) st2)) \<and>
              extends C key i pulled st2 (snd (process_files C dd i key replicas processed pulled written fs
                 (Some (chain_hash C prev b)) (i64_succ idx) st2))"
          proof (rule Cons.IH [OF _ _ ok2])
            show "chain_head C (wal_rows i (sdb st2)) (Some (chain_hash C prev b)) (i64_succ idx)"
              unfolding rows2 by (rule a(4))
            show "\<forall>g \<in> set fs. g \<notin> set processed \<longrightarrow> g \<notin> set (get_processed_wal_segments i (sdb st2))"
              using Cons.prems(2,5) s(2) by (auto simp: get_processed_wal_segments_def rows2)
          qed (use Cons.prems rows2 in auto)
          then show ?thesis
            unfolding step ins using True Inr enq extends_trans [OF ex2] by (simp add: st2_def)
        qed
      qed
    qed
  qed
qed


lemma valid_names: "is_valid_wal_name f = Some True \<Longrightarrow> wal_name f"
  using segment_name_sound [of f] wal_filters_agree [of f]
  by (cases "validate_segment_name f") (auto split: if_splits)

lemma chain_head_start:
  assumes laws: "chain_laws C" and ok: "primary_ok C dd st" and small: "length (wal_rows i (sdb st)) < 2 ^ 63"
  shows "chain_head C (wal_rows i (sdb st)) (Option.bind (get_latest_wal_hash i (sdb st)) (hex_decode C))
    (case get_latest_wal_chain_index i (sdb st) of Some k \<Rightarrow> i64_succ k | None \<Rightarrow> 0)"
proof -
  let ?rs = "wal_rows i (sdb st)"
  have l: "linked C (blobs st) [] 0 ?rs" using ok by (simp add: primary_ok_def)
  note latest = linked_latest [OF l]
  show ?thesis
  proof (cases "?rs = []")
    case True
    then show ?thesis
      using latest by (simp add: chain_head_def get_latest_wal_hash_def get_latest_wal_chain_index_def)
  next
    case False
    obtain x where x: "ws_hash (last ?rs) = hex_encode C (sha256 C x)" using linked_last(2) [OF l False] by blast
    have k: "ws_chain_index (last ?rs) = int (length ?rs) - 1" using linked_last(1) [OF l False] by simp
    have "i64_succ (int (length ?rs) - 1) = int (length ?rs)"
      using i64_succ_small [of "int (length ?rs) - 1"] False small by (cases ?rs) auto
    then show ?thesis
      using latest False x k chain_lawsD(1,3) [OF laws]
      by (simp add: chain_head_def get_latest_wal_hash_def get_latest_wal_chain_index_def last_hash_def)
  qed
qed

lemma instance_pass:
  assumes laws: "chain_laws C" and ok: "primary_ok C dd st" and i: "CHR ''/'' \<notin> set (in_id r)"
    and nonces: "\<And>f p n. pulled f = Pulled p n \<Longrightarrow> length n = NONCE_LEN"
    and out: "\<And>out. listing = Some out \<Longrightarrow> distinct (listed_files out) \<and>
      length (wal_rows (in_id r) (sdb st)) + length (listed_files out) < 2 ^ 63"
  shows "primary_ok C dd (snd (process_instance_wal C dd r listing pulled written st)) \<and>
    (\<exists>key. extends C key (in_id r) pulled st (snd (process_instance_wal C dd r listing pulled written st)) \<and>
       (hex_decode C (wal_encryption_key (in_secrets r)) = Some key \<or>
        wal_segments (sdb (snd (process_instance_wal C dd r listing pulled written st))) = wal_segments (sdb st)))"
proof -
  let ?st' = "snd (process_instance_wal C dd r listing pulled written st)"
  show ?thesis
  proof (cases "?st' = st")
    case True
    then show ?thesis using ok extends_none [of st st] by simp
  next
    case False
    then obtain out key where listing: "listing = Some out" and
      key: "hex_decode C (wal_encryption_key (in_secrets r)) = Some key" "length key = 32"
      by (auto simp: process_instance_wal_def Let_def split: option.splits if_splits)
    let ?valid = "filter (\<lambda>f. is_valid_wal_name f = Some True) (listed_files out)"
    have valid: "\<forall>f \<in> set ?valid. wal_name f" "distinct ?valid" "length ?valid \<le> length (listed_files out)"
      and small: "length (wal_rows (in_id r) (sdb st)) + length (listed_files out) < 2 ^ 63"
      using valid_names out [OF listing] by simp_all
    have bound: "length (wal_rows (in_id r) (sdb st)) + length ?valid < 2 ^ 63" using small valid(3) by linarith
    have eq: "?st' = snd (process_files C dd (in_id r) key (list_instance_replicas (in_id r) (sdb st))
        (get_processed_wal_segments (in_id r) (sdb st)) pulled written ?valid
        (Option.bind (get_latest_wal_hash (in_id r) (sdb st)) (hex_decode C))
        (case get_latest_wal_chain_index (in_id r) (sdb st) of Some k \<Rightarrow> i64_succ k | None \<Rightarrow> 0) st)"
      using False listing key by (auto simp: process_instance_wal_def Let_def split: if_splits)
    have "primary_ok C dd ?st' \<and> extends C key (in_id r) pulled st ?st'"
      unfolding eq
      by (rule process_files_keeps [OF laws key(2) i _ valid(1,2) ok chain_head_start [OF laws ok]])
        (use small bound nonces in auto)
    with key(1) show ?thesis by blast
  qed
qed

lemma extends_rows: "extends C key i pulled st st' \<Longrightarrow> j \<noteq> i \<Longrightarrow> wal_rows j (sdb st') = wal_rows j (sdb st)"
  by (auto simp: extends_def wal_rows_def filter_empty_conv)

text \<open>The new rows of a whole pass, each recoverable under the key of its instance.\<close>

definition grown ::
  "crypto \<Rightarrow> (string \<Rightarrow> string \<Rightarrow> pull) \<Rightarrow> instance_row list \<Rightarrow> store \<Rightarrow> store \<Rightarrow> bool" where
  "grown C pulled rs st st' \<longleftrightarrow>
     (\<exists>new. wal_segments (sdb st') = wal_segments (sdb st) @ new \<and>
        (\<forall>s \<in> set new. \<exists>r \<in> set rs. ws_instance s = in_id r \<and>
           (\<exists>key. hex_decode C (wal_encryption_key (in_secrets r)) = Some key \<and>
              recoverable C key (pulled (in_id r)) (blobs st') s))) \<and>
     (\<forall>r \<in> set (wal_segments (sdb st)). blobs st' (ws_path r) = blobs st (ws_path r))"

lemma grown_first:
  assumes e: "extends C key (in_id r) (pulled (in_id r)) st st1"
      "hex_decode C (wal_encryption_key (in_secrets r)) = Some key \<or> wal_segments (sdb st1) = wal_segments (sdb st)"
    and g: "grown C pulled rs st1 st2"
  shows "grown C pulled (r # rs) st st2"
proof -
  from e(1) obtain n1 where
    one: "wal_segments (sdb st1) = wal_segments (sdb st) @ n1"
      "\<forall>s \<in> set n1. ws_instance s = in_id r \<and> recoverable C key (pulled (in_id r)) (blobs st1) s"
      "\<forall>r \<in> set (wal_segments (sdb st)). blobs st1 (ws_path r) = blobs st (ws_path r)"
    unfolding extends_def by blast
  from g obtain n2 where
    two: "wal_segments (sdb st2) = wal_segments (sdb st1) @ n2"
      "\<forall>s \<in> set n2. \<exists>r \<in> set rs. ws_instance s = in_id r \<and>
           (\<exists>key. hex_decode C (wal_encryption_key (in_secrets r)) = Some key \<and>
              recoverable C key (pulled (in_id r)) (blobs st2) s)"
      "\<forall>r \<in> set (wal_segments (sdb st1)). blobs st2 (ws_path r) = blobs st1 (ws_path r)"
    unfolding grown_def by blast
  have "ws_instance s = in_id r \<and> hex_decode C (wal_encryption_key (in_secrets r)) = Some key \<and>
      recoverable C key (pulled (in_id r)) (blobs st2) s" if "s \<in> set n1" for s
    using that one e(2) two(3) by (auto simp: recoverable_def)
  then show ?thesis
    using one two unfolding grown_def by (intro conjI exI [of _ "n1 @ n2"]) auto
qed


lemma pass_keeps:
  assumes laws: "chain_laws C"
    and nonces: "\<And>i f p n. pulled i f = Pulled p n \<Longrightarrow> length n = NONCE_LEN"
  shows "primary_ok C dd st \<Longrightarrow> distinct (map in_id rs) \<Longrightarrow>
    (\<forall>r \<in> set rs. CHR ''/'' \<notin> set (in_id r) \<and> (\<forall>out. listing (in_id r) = Some out \<longrightarrow> distinct (listed_files out) \<and>
       length (wal_rows (in_id r) (sdb st)) + length (listed_files out) < 2 ^ 63)) \<Longrightarrow>
    primary_ok C dd (foldl (\<lambda>st r. if wal_encryption_key (in_secrets r) = [] then st
       else snd (process_instance_wal C dd r (listing (in_id r)) (pulled (in_id r)) (written (in_id r)) st)) st rs) \<and>
    grown C pulled rs st (foldl (\<lambda>st r. if wal_encryption_key (in_secrets r) = [] then st
       else snd (process_instance_wal C dd r (listing (in_id r)) (pulled (in_id r)) (written (in_id r)) st)) st rs)"
proof (induction rs arbitrary: st)
  case Nil
  then show ?case by (simp add: grown_def)
next
  case (Cons r rs)
  define st1 where "st1 = (if wal_encryption_key (in_secrets r) = [] then st
       else snd (process_instance_wal C dd r (listing (in_id r)) (pulled (in_id r)) (written (in_id r)) st))"
  have "primary_ok C dd st1 \<and> (\<exists>key. extends C key (in_id r) (pulled (in_id r)) st st1 \<and>
      (hex_decode C (wal_encryption_key (in_secrets r)) = Some key \<or> wal_segments (sdb st1) = wal_segments (sdb st)))"
  proof (cases "wal_encryption_key (in_secrets r) = []")
    case True
    then show ?thesis using Cons.prems(1) extends_none [of st st] by (simp add: st1_def)
  next
    case False
    then show ?thesis
      unfolding st1_def if_not_P [OF False]
      by (intro instance_pass [OF laws Cons.prems(1)]) (use Cons.prems(3) nonces in auto)
  qed
  then obtain key where ok: "primary_ok C dd st1" and e: "extends C key (in_id r) (pulled (in_id r)) st st1"
    "hex_decode C (wal_encryption_key (in_secrets r)) = Some key \<or> wal_segments (sdb st1) = wal_segments (sdb st)"
    by blast
  have "wal_rows (in_id q) (sdb st1) = wal_rows (in_id q) (sdb st)" if "q \<in> set rs" for q
    by (rule extends_rows [OF e(1)]) (use that Cons.prems(2) in \<open>auto intro: rev_image_eqI\<close>)
  then have "\<forall>q \<in> set rs. CHR ''/'' \<notin> set (in_id q) \<and> (\<forall>out. listing (in_id q) = Some out \<longrightarrow> distinct (listed_files out) \<and>
       length (wal_rows (in_id q) (sdb st1)) + length (listed_files out) < 2 ^ 63)"
    using Cons.prems(3) by simp
  from Cons.IH [OF ok _ this] Cons.prems(2) grown_first [where pulled = pulled and r = r, OF e] show ?case
    unfolding foldl_Cons st1_def [symmetric] by simp
qed

lemma archiving_pass:
  assumes "chain_laws C" and "primary_ok C dd st"
    and "\<forall>i f p n. pulled i f = Pulled p n \<longrightarrow> length n = NONCE_LEN"
    and "distinct (map in_id (instances (sdb st)))" and "\<forall>r \<in> set (instances (sdb st)). CHR ''/'' \<notin> set (in_id r)"
    and "\<forall>i out. listing i = Some out \<longrightarrow> distinct (listed_files out) \<and>
      length (wal_rows i (sdb st)) + length (listed_files out) < 2 ^ 63"
  shows "primary_ok C dd (process_new_segments C dd listing pulled written st) \<and>
    grown C pulled (list_running_instances (sdb st)) st (process_new_segments C dd listing pulled written st)"
proof -
  have "set (list_running_instances (sdb st)) \<subseteq> set (instances (sdb st))"
    by (auto simp: list_running_instances_def newest_first_def)
  moreover have "distinct (map in_id (list_running_instances (sdb st)))"
  proof -
    have "distinct (map in_id (filter P (instances (sdb st))))" for P
      using assms(4) by (rule distinct_map_filter)
    then show ?thesis by (simp add: list_running_instances_def newest_first_def distinct_map)
  qed
  ultimately show ?thesis
    unfolding process_new_segments_def by (intro pass_keeps assms(1,2)) (use assms in auto)
qed


text \<open>
  C7: An archiving pass over all running instances, whatever fails in it, keeps every chain: the
  rows of an instance stay numbered from 0, each with the hash of the row before and of its own
  file. It only appends, the files of earlier rows stay as they are, and every new file decrypts,
  under the key of its instance and the name and index of its row, to the segment it was made from.
\<close>

theorem archiving_keeps_chains:
  assumes "chain_laws C" and "primary_ok C dd st"
    and "\<forall>i f p n. pulled i f = Pulled p n \<longrightarrow> length n = NONCE_LEN"
    and "distinct (map in_id (instances (sdb st)))" and "\<forall>r \<in> set (instances (sdb st)). CHR ''/'' \<notin> set (in_id r)"
    and "\<forall>i out. listing i = Some out \<longrightarrow> distinct (listed_files out) \<and>
      length (wal_rows i (sdb st)) + length (listed_files out) < 2 ^ 63"
  shows "primary_ok C dd (process_new_segments C dd listing pulled written st) \<and>
    grown C pulled (list_running_instances (sdb st)) st (process_new_segments C dd listing pulled written st)"
  by (rule archiving_pass [OF assms])

section \<open>A concrete pass\<close>

lemma hexes_length: "length (hexes s) = 2 * length s"
  by (induction s) simp_all

lemma demo_chain_laws: "chain_laws demo_crypto"
  using demo_hex demo_digest demo_aead
  by (auto simp: chain_laws_def hex_length_law_def aead_tag_law_def demo_crypto_def hexes_length)

definition demo_wal_instance :: instance_row where
  "demo_wal_instance = \<lparr>in_id = ''i1'', in_wallet = ''w'', in_name = None, in_status = ''running'',
     in_ports = \<lparr>kong_port = 0, postgres_port = 0, gotrue_port = 0, realtime_port = 0, storage_port = 0,
       studio_port = 0, analytics_port = 0, meta_port = 0, functions_port = 0\<rparr>,
     in_secrets = \<lparr>anon_key = [], service_role_key = [], jwt_secret = [], postgres_password = [],
       dashboard_password = [], wal_encryption_key = replicate 64 (CHR ''1'')\<rparr>,
     in_url = [], in_studio_url = [], in_project = [], in_dir = [], in_cpuset = None, in_created_at = 0,
     in_expires_at = None, in_destroyed_at = None, in_lifecycle = ''running'', in_last_seen = None,
     in_pinned_until = None, in_nextjs_port = None, in_nextjs_status = None, in_nextjs_deployed_at = None\<rparr>"

definition demo_store :: store where
  "demo_store = \<lparr>sdb = empty_db\<lparr>instances := [demo_wal_instance],
     instance_replicas := [\<lparr>ir_instance = ''i1'', ir_endpoint = ''http://r'', ir_added_at = 0\<rparr>]\<rparr>, blobs = Map.empty\<rparr>"

definition demo_pull :: "string \<Rightarrow> string \<Rightarrow> pull" where
  "demo_pull i f = Pulled ''data'' (replicate 12 (CHR ''n''))"

definition demo_archived :: store where
  "demo_archived = process_new_segments demo_crypto ''/d''
     (\<lambda>_. Some (''000000010000000000000001'' @ [CHR 0x0A] @ ''000000010000000000000002'' @ [CHR 0x0A]))
     demo_pull (\<lambda>_ _. True) demo_store"

theorem archiving_keeps_chains_witness:
  "primary_ok demo_crypto ''/d'' demo_archived \<and>
   map ws_name (wal_segments (sdb demo_archived)) = [''000000010000000000000001'', ''000000010000000000000002'']"
proof
  have "distinct (listed_files (''000000010000000000000001'' @ [CHR 0x0A] @ ''000000010000000000000002'' @ [CHR 0x0A]))"
    "length (listed_files (''000000010000000000000001'' @ [CHR 0x0A] @ ''000000010000000000000002'' @ [CHR 0x0A])) = 2"
    by code_simp+
  moreover have "primary_ok demo_crypto ''/d'' demo_store"
    by (simp add: primary_ok_def demo_store_def empty_db_def wal_rows_def)
  ultimately show "primary_ok demo_crypto ''/d'' demo_archived"
    unfolding demo_archived_def
    by (intro archiving_keeps_chains [OF demo_chain_laws, THEN conjunct1])
      (simp_all add: demo_pull_def NONCE_LEN_def demo_store_def demo_wal_instance_def empty_db_def wal_rows_def)
  show "map ws_name (wal_segments (sdb demo_archived)) = [''000000010000000000000001'', ''000000010000000000000002'']"
    by code_simp
qed

end
