(* ===== verification/Replica_Chain.thy ===== *)
theory Replica_Chain
  imports Wal_Chain
begin

text \<open>
  The replica's side: what it accepts, and that under any losses of the network what it holds of
  an honest primary is one contiguous part of the primary's chain.
\<close>

section \<open>What a replica accepts\<close>

lemma safe_join_ok: "safe_join_under ex canon base cs = Inr p \<Longrightarrow> p = base @ cs"
  by (auto simp: safe_join_under_def ok_simps Let_def split: if_splits option.splits)

definition signed_ok :: "crypto \<Rightarrow> repl_env \<Rightarrow> wire_segment \<Rightarrow> bool" where
  "signed_ok C E g \<longleftrightarrow>
     (case (sg_sig g, replication_hmac_secret E) of
        (None, _) \<Rightarrow> \<not> replication_require_hmac E
      | (Some _, None) \<Rightarrow> True
      | (Some s, Some secret) \<Rightarrow> hex_decode C (trim s) = Some (hmac_sha256 C secret
          (sig_message (sg_instance g) (sg_name g) (sg_hash g) (sg_prev g) (sg_index g))))"

lemma verify_sig_iff:
  assumes "hex_law C"
  shows "verify_replication_sig C E (sg_sig g) (sg_instance g) (sg_name g) (sg_hash g) (sg_prev g) (sg_index g) = Inr () \<longleftrightarrow>
    signed_ok C E g"
  using assms
  by (auto simp: verify_replication_sig_def signed_ok_def build_replication_sig_def hex_law_def ok_simps Let_def
      split: option.splits)

definition acceptable ::
  "crypto \<Rightarrow> repl_env \<Rightarrow> (path \<Rightarrow> bool) \<Rightarrow> (path \<Rightarrow> path option) \<Rightarrow> string \<Rightarrow> (string \<times> int) option \<Rightarrow> wire_segment \<Rightarrow> bool" where
  "acceptable C E ex canon dd latest g \<longleftrightarrow>
     validate_instance_id_component (sg_instance g) = Inr () \<and> wal_name (sg_name g) \<and> signed_ok C E g \<and>
     28 \<le> length (sg_body g) \<and> link_hash C (sg_prev g) (sg_body g) = Inr (sg_hash g) \<and>
     (case latest of None \<Rightarrow> True | Some (h, k) \<Rightarrow> sg_prev g = h \<and> sg_index g = i64_succ k) \<and>
     is_ok (safe_join_under ex canon (replica_dir dd (sg_instance g)) [sg_name g @ ''.enc''])"

definition held_path :: "string \<Rightarrow> string \<Rightarrow> string \<Rightarrow> string" where
  "held_path dd inst name = path_text (replica_dir dd inst @ [name @ ''.enc''])"

lemma valid_segment_iff: "validate_segment_name s = Inr () \<longleftrightarrow> wal_name s"
  using segment_name_sound segment_name_complete by blast

lemma map_sum_ok: "map_sum f id m = Inr x \<longleftrightarrow> m = Inr x"
  by (cases m) auto

lemma admit_iff:
  assumes "hex_law C"
  shows "admit_segment C E ex canon dd g st = Inr p \<longleftrightarrow>
    acceptable C E ex canon dd (latest_replica_hash (sg_instance g) (sdb st)) g \<and>
    p = replica_dir dd (sg_instance g) @ [sg_name g @ ''.enc'']"
proof -
  have link: "check_link prev k latest = Inr () \<longleftrightarrow>
      (case latest of None \<Rightarrow> True | Some (h, l) \<Rightarrow> prev = h \<and> k = i64_succ l)" for prev k latest
    by (auto simp: check_link_def split: option.splits)
  have join: "safe_join_under ex canon base cs = Inr p \<longleftrightarrow> is_ok (safe_join_under ex canon base cs) \<and> p = base @ cs"
    for base cs p by (cases "safe_join_under ex canon base cs") (auto dest: safe_join_ok)
  show ?thesis
    unfolding admit_segment_def acceptable_def
    by (auto simp: ok_simps map_sum_ok valid_segment_iff verify_sig_iff [OF assms] link join NONCE_LEN_def)
qed

lemma receive_result:
  fixes g :: wire_segment
  assumes "hex_law C" and "receive_segment C E ex canon dd written g st = (res, st')"
  shows "(is_ok res \<longleftrightarrow> written \<and> acceptable C E ex canon dd (latest_replica_hash (sg_instance g) (sdb st)) g) \<and>
    (if is_ok res then
       blobs st' = (blobs st)(held_path dd (sg_instance g) (sg_name g) \<mapsto> sg_body g) \<and>
       (if (sg_instance g, sg_name g) \<in> segment_key ` set (replica_segments (sdb st)) then sdb st' = sdb st
        else replica_segments (sdb st') = replica_segments (sdb st) @
          [stored_segment (held_path dd (sg_instance g) (sg_name g)) g])
     else st' = st)"
proof (cases "admit_segment C E ex canon dd g st")
  case (Inl e)
  then have "\<not> acceptable C E ex canon dd (latest_replica_hash (sg_instance g) (sdb st)) g"
    using admit_iff [OF assms(1), of E ex canon dd g st] by auto
  then show ?thesis using Inl assms(2) by (auto simp: receive_segment_def)
next
  case (Inr p)
  then have a: "acceptable C E ex canon dd (latest_replica_hash (sg_instance g) (sdb st)) g"
    and p: "path_text p = held_path dd (sg_instance g) (sg_name g)"
    using admit_iff [OF assms(1), of E ex canon dd g st] by (auto simp: held_path_def)
  have "segment_key (stored_segment q g) = (sg_instance g, sg_name g)" for q
    by (simp add: segment_key_def stored_segment_def)
  then show ?thesis
    using assms(2) a p by (auto simp: receive_segment_def Inr insert_replica_segment_def Let_def split: if_splits)
qed


text \<open>
  C15: A replica accepts a request exactly when its identifiers are safe, its signature is the
  HMAC of the five header fields under the shared secret (or signatures are not enforced), its
  body and previous hash give the announced hash, and it continues what the replica holds of the
  instance; a refused one changes nothing. An accepted body is written whatever is there: for a
  name the replica holds already, the file is replaced while the row keeps the old hash.
\<close>

theorem replica_accepts_exactly:
  fixes g :: wire_segment
  assumes "hex_law C" and "receive_segment C E ex canon dd written g st = (res, st')"
  shows "(is_ok res \<longleftrightarrow> written \<and> acceptable C E ex canon dd (latest_replica_hash (sg_instance g) (sdb st)) g) \<and>
    (if is_ok res then
       blobs st' = (blobs st)(held_path dd (sg_instance g) (sg_name g) \<mapsto> sg_body g) \<and>
       (if (sg_instance g, sg_name g) \<in> segment_key ` set (replica_segments (sdb st)) then sdb st' = sdb st
        else replica_segments (sdb st') = replica_segments (sdb st) @
          [stored_segment (held_path dd (sg_instance g) (sg_name g)) g])
     else st' = st)"
  by (rule receive_result [OF assms])

section \<open>What a replica holds of an honest primary\<close>

text \<open>Documented behaviour of hexadecimal text beyond the round trip: no white space.\<close>

definition hex_trim_law :: "crypto \<Rightarrow> bool" where
  "hex_trim_law C \<longleftrightarrow> (\<forall>x. trim (hex_encode C x) = hex_encode C x)"

text \<open>
  The abstract replica of one instance: nothing, or the rows \<open>a\<close> to \<open>m - 1\<close> of the primary's chain;
  it takes any row when it has nothing, and then only row \<open>m\<close>.
\<close>

type_synonym slice = "(nat \<times> nat) option"

fun slice_step :: "slice \<Rightarrow> nat \<Rightarrow> slice" where
  "slice_step None j = Some (j, Suc j)"
| "slice_step (Some (a, m)) j = (if j = m then Some (a, Suc m) else Some (a, m))"

definition copied :: "string \<Rightarrow> wal_segment \<Rightarrow> wal_segment" where
  "copied dd s = s\<lparr>ws_path := held_path dd (ws_instance s) (ws_name s)\<rparr>"

definition rows_between :: "slice \<Rightarrow> 'a list \<Rightarrow> 'a list" where
  "rows_between x rs = (case x of None \<Rightarrow> [] | Some (a, m) \<Rightarrow> take (m - a) (drop a rs))"

definition slice_ok :: "nat \<Rightarrow> slice \<Rightarrow> bool" where
  "slice_ok n x \<longleftrightarrow> (case x of None \<Rightarrow> True | Some (a, m) \<Rightarrow> a < m \<and> m \<le> n)"

definition holds_slice :: "string \<Rightarrow> string \<Rightarrow> store \<Rightarrow> store \<Rightarrow> slice \<Rightarrow> bool" where
  "holds_slice dd i prim rep x \<longleftrightarrow>
     slice_ok (length (wal_rows i (sdb prim))) x \<and>
     replica_rows i (sdb rep) = map (copied dd) (rows_between x (wal_rows i (sdb prim))) \<and>
     (\<forall>s \<in> set (rows_between x (wal_rows i (sdb prim))).
        blobs rep (held_path dd i (ws_name s)) = blobs prim (ws_path s))"

text \<open>What the two nodes share and the replica's file system allows.\<close>

definition compatible ::
  "crypto \<Rightarrow> repl_env \<Rightarrow> repl_env \<Rightarrow> (path \<Rightarrow> bool) \<Rightarrow> (path \<Rightarrow> path option) \<Rightarrow> string \<Rightarrow> string \<Rightarrow> bool" where
  "compatible C E E' ex canon dd i \<longleftrightarrow> chain_laws C \<and> hex_trim_law C \<and>
     replication_hmac_secret E' = replication_hmac_secret E \<and>
     (replication_hmac_secret E = None \<longrightarrow> \<not> replication_require_hmac E') \<and>
     validate_instance_id_component i = Inr () \<and>
     (\<forall>n. wal_name n \<longrightarrow> is_ok (safe_join_under ex canon (replica_dir dd i) [n @ ''.enc'']))"

lemma rows_between_step:
  assumes "slice_ok (length rs) (Some (a, m))" and "m < length rs"
  shows "rows_between (Some (a, Suc m)) rs = rows_between (Some (a, m)) rs @ [rs ! m]"
  using assms by (simp add: rows_between_def slice_ok_def Suc_diff_le take_Suc_conv_app_nth)

lemma rows_between_one: "j < length rs \<Longrightarrow> rows_between (Some (j, Suc j)) rs = [rs ! j]"
  by (simp add: rows_between_def take_Suc_conv_app_nth)

lemma rows_between_last:
  "slice_ok (length rs) (Some (a, m)) \<Longrightarrow> rows_between (Some (a, m)) rs \<noteq> [] \<and> last (rows_between (Some (a, m)) rs) = rs ! (m - 1)"
  by (auto simp: rows_between_def slice_ok_def last_conv_nth)

lemma rows_between_nth:
  assumes "slice_ok (length rs) (Some (a, m))" and "s \<in> set (rows_between (Some (a, m)) rs)"
  obtains k where "a \<le> k" "k < m" "k < length rs" "s = rs ! k"
proof -
  from assms(2) obtain d where "d < m - a" "s = rs ! (a + d)"
    using assms(1) by (auto simp: rows_between_def slice_ok_def in_set_conv_nth)
  with that [of "a + d"] assms(1) show thesis by (simp add: slice_ok_def)
qed

lemma linked_nth:
  assumes "linked C bl p k ss" and "n < length ss"
  shows "entry_ok C bl (last_hash p (take n ss)) (k + int n) (ss ! n)"
proof -
  have "ss = take n ss @ ss ! n # drop (Suc n) ss" using assms(2) by (simp add: id_take_nth_drop)
  with assms have "linked C bl p k (take n ss @ ss ! n # drop (Suc n) ss)" by simp
  then show ?thesis using assms(2) by (simp add: linked_append min_def)
qed

text \<open>The request the primary sends for row \<open>j\<close>.\<close>

definition honest_wire :: "crypto \<Rightarrow> repl_env \<Rightarrow> store \<Rightarrow> wal_segment \<Rightarrow> wire_segment" where
  "honest_wire C E prim s =
     \<lparr>sg_instance = ws_instance s, sg_name = ws_name s, sg_hash = ws_hash s, sg_prev = ws_previous_hash s,
      sg_index = ws_chain_index s,
      sg_sig = map_option (\<lambda>secret. build_replication_sig C secret (ws_instance s) (ws_name s)
        (ws_hash s) (ws_previous_hash s) (ws_chain_index s)) (replication_hmac_secret E),
      sg_body = (case blobs prim (ws_path s) of Some b \<Rightarrow> b | None \<Rightarrow> [])\<rparr>"

lemma honest_signed:
  assumes "compatible C E E' ex canon dd i"
  shows "signed_ok C E' (honest_wire C E prim s)"
proof -
  have "hex_decode C (hex_encode C x) = Some x" "trim (hex_encode C x) = hex_encode C x" for x
    using assms chain_lawsD(1) by (auto simp: compatible_def hex_trim_law_def)
  then show ?thesis
    using assms by (auto simp: signed_ok_def honest_wire_def build_replication_sig_def compatible_def split: option.splits)
qed

lemma primary_row:
  assumes ok: "primary_ok C dd' prim" and j: "j < length (wal_rows i (sdb prim))"
  obtains b where "ws_instance (wal_rows i (sdb prim) ! j) = i" "wal_name (ws_name (wal_rows i (sdb prim) ! j))"
    "ws_chain_index (wal_rows i (sdb prim) ! j) = int j"
    "ws_previous_hash (wal_rows i (sdb prim) ! j) = last_hash [] (take j (wal_rows i (sdb prim)))"
    "blobs prim (ws_path (wal_rows i (sdb prim) ! j)) = Some b" "28 \<le> length b"
    "link_hash C (last_hash [] (take j (wal_rows i (sdb prim)))) b = Inr (ws_hash (wal_rows i (sdb prim) ! j))"
    "ws_size (wal_rows i (sdb prim) ! j) = int (length b)"
proof -
  let ?s = "wal_rows i (sdb prim) ! j"
  have "?s \<in> set (wal_rows i (sdb prim))" using j by simp
  then have "ws_instance ?s = i" "wal_name (ws_name ?s)"
    using ok by (auto simp: wal_rows_def primary_ok_def)
  moreover have "entry_ok C (blobs prim) (last_hash [] (take j (wal_rows i (sdb prim)))) (int j) ?s"
    using linked_nth [of C "blobs prim" "[]" 0 "wal_rows i (sdb prim)" j] ok j by (simp add: primary_ok_def)
  ultimately show thesis using that by (auto simp: entry_ok_def NONCE_LEN_def split: option.splits)
qed

lemma primary_names:
  assumes ok: "primary_ok C dd' prim"
  shows "distinct (map ws_name (wal_rows i (sdb prim)))"
proof -
  have "distinct (map segment_key (wal_rows i (sdb prim)))"
    using ok by (simp add: primary_ok_def wal_rows_def distinct_map_filter)
  moreover have "map segment_key (wal_rows i (sdb prim)) = map (Pair i) (map ws_name (wal_rows i (sdb prim)))"
    by (auto simp: segment_key_def wal_rows_def)
  ultimately show ?thesis by (metis distinct_map)
qed


lemma held_latest:
  assumes ok: "primary_ok C dd' prim" and h: "holds_slice dd i prim rep x"
  shows "latest_replica_hash i (sdb rep) = (case x of None \<Rightarrow> None
    | Some (a, m) \<Rightarrow> Some (ws_hash (wal_rows i (sdb prim) ! (m - 1)), int (m - 1)))"
proof (cases x)
  case None
  then show ?thesis using h by (simp add: holds_slice_def rows_between_def latest_replica_hash_def latest_row_def)
next
  case (Some am)
  obtain a m where am: "am = (a, m)" by fastforce
  let ?rs = "wal_rows i (sdb prim)" and ?part = "rows_between (Some (a, m)) (wal_rows i (sdb prim))"
  have sl: "slice_ok (length ?rs) (Some (a, m))" using h Some am by (simp add: holds_slice_def)
  then have m: "m - 1 < length ?rs" by (auto simp: slice_ok_def)
  have "sorted_wrt (<) (map ws_chain_index ?rs)"
    using ok by (intro linked_ascends [of C "blobs prim" "[]" 0]) (simp add: primary_ok_def)
  then have "sorted_wrt (<) (map ws_chain_index (map (copied dd) ?part))"
    by (simp add: rows_between_def comp_def copied_def sorted_wrt_map sorted_wrt_take sorted_wrt_drop)
  from latest_ascending [OF this]
  have "latest_row (replica_rows i (sdb rep)) = Some (copied dd (?rs ! (m - 1)))"
    using h Some am rows_between_last [OF sl] by (simp add: holds_slice_def last_map)
  then show ?thesis
    using Some am primary_row [OF ok m] by (auto simp: latest_replica_hash_def copied_def)
qed

lemma deliver:
  assumes comp: "compatible C E E' ex canon dd i" and ok: "primary_ok C dd' prim"
    and small: "length (wal_rows i (sdb prim)) < 2 ^ 63"
    and h: "holds_slice dd i prim rep x" and j: "j < length (wal_rows i (sdb prim))"
    and r: "receive_segment C E' ex canon dd True (honest_wire C E prim (wal_rows i (sdb prim) ! j)) rep = (res, rep')"
  shows "holds_slice dd i prim rep' (slice_step x j) \<and> (is_ok res \<longleftrightarrow> slice_step x j \<noteq> x)"
proof -
  let ?rs = "wal_rows i (sdb prim)" and ?g = "honest_wire C E prim (wal_rows i (sdb prim) ! j)"
  define s where "s = ?rs ! j"
  obtain b where s: "ws_instance s = i" "wal_name (ws_name s)" "ws_chain_index s = int j"
    "ws_previous_hash s = last_hash [] (take j ?rs)" and b: "blobs prim (ws_path s) = Some b" "28 \<le> length b"
    "link_hash C (ws_previous_hash s) b = Inr (ws_hash s)" "ws_size s = int (length b)"
    by (rule primary_row [OF ok j, folded s_def]) auto
  have g: "sg_instance ?g = i" "sg_name ?g = ws_name s" "sg_body ?g = b" "sg_hash ?g = ws_hash s"
    "sg_prev ?g = ws_previous_hash s" "sg_index ?g = int j"
    using s b by (simp_all add: honest_wire_def s_def [symmetric])
  have laws: "hex_law C" using comp by (simp add: compatible_def chain_laws_def)
  have acc: "acceptable C E' ex canon dd latest ?g \<longleftrightarrow>
      (case latest of None \<Rightarrow> True | Some (h, k) \<Rightarrow> ws_previous_hash s = h \<and> int j = i64_succ k)" for latest
    using comp s(2) b honest_signed [OF comp] unfolding acceptable_def g by (auto simp: compatible_def)
  have latest: "acceptable C E' ex canon dd (latest_replica_hash i (sdb rep)) ?g \<longleftrightarrow> slice_step x j \<noteq> x"
  proof (cases x)
    case None
    then show ?thesis using held_latest [OF ok h] by (simp add: acc)
  next
    case (Some am)
    obtain a m where am: "am = (a, m)" by fastforce
    have sl: "0 < m" "m \<le> length ?rs" using h Some am by (auto simp: holds_slice_def slice_ok_def)
    then have "i64_succ (int (m - 1)) = int m" using i64_succ_small [of "int (m - 1)"] small by simp
    moreover have "last_hash [] (take m ?rs) = ws_hash (?rs ! (m - 1))"
      using sl by (auto simp: last_hash_def last_conv_nth)
    ultimately show ?thesis using held_latest [OF ok h] Some am s(4) by (auto simp: acc)
  qed
  note res = receive_result [OF laws r, unfolded g(1,2) latest]
  have names: "ws_name t \<noteq> ws_name s" if "k < length ?rs" "k \<noteq> j" "t = ?rs ! k" for k t
    using primary_names [OF ok, of i] that j nth_eq_iff_index_eq [of "map ws_name ?rs" k j] by (simp add: s_def)
  show ?thesis
  proof (cases "slice_step x j = x")
    case True
    with res h show ?thesis by simp
  next
    case False
    have step: "slice_step x j = (case x of None \<Rightarrow> Some (j, Suc j) | Some (a, m) \<Rightarrow> Some (a, Suc m))"
      "\<And>a m. x = Some (a, m) \<Longrightarrow> m = j"
      using False by (cases x; auto split: if_splits prod.splits)+
    have part: "rows_between (slice_step x j) ?rs = rows_between x ?rs @ [s]"
    proof (cases x)
      case None
      then show ?thesis using rows_between_one [OF j] by (simp add: s_def rows_between_def [of None])
    next
      case (Some am)
      obtain a m where am: "am = (a, m)" by fastforce
      then show ?thesis
        using rows_between_step [of ?rs a m] h j Some step(2) [of a m] step(1) by (simp add: holds_slice_def s_def)
    qed
    have other: "ws_name t \<noteq> ws_name s" if t: "t \<in> set (rows_between x ?rs)" for t
    proof (cases x)
      case None
      then show ?thesis using t by (simp add: rows_between_def)
    next
      case (Some am)
      obtain a m where am: "am = (a, m)" by fastforce
      have "slice_ok (length ?rs) (Some (a, m))" using h Some am by (simp add: holds_slice_def)
      from rows_between_nth [OF this t [unfolded Some am]] step(2) [of a m] Some am names
      show ?thesis by (metis nat_neq_iff)
    qed
    have fresh: "(i, ws_name s) \<notin> segment_key ` set (replica_segments (sdb rep))"
    proof
      assume "(i, ws_name s) \<in> segment_key ` set (replica_segments (sdb rep))"
      then have "ws_name s \<in> ws_name ` set (replica_rows i (sdb rep))"
        by (auto simp: segment_key_def replica_rows_def)
      then obtain t where "t \<in> set (rows_between x ?rs)" "ws_name t = ws_name s"
        using h by (auto simp: holds_slice_def copied_def)
      then show False using other by blast
    qed
    have row: "stored_segment (held_path dd i (ws_name s)) ?g = copied dd s"
      using s b g by (simp add: stored_segment_def copied_def)
    from res False fresh have new: "blobs rep' = (blobs rep)(held_path dd i (ws_name s) \<mapsto> b)"
      "replica_segments (sdb rep') = replica_segments (sdb rep) @ [copied dd s]"
      by (simp_all add: g(3) row)
    have "slice_ok (length ?rs) (slice_step x j)"
      using h j step by (cases x) (auto simp: holds_slice_def slice_ok_def)
    moreover have "replica_rows i (sdb rep') = replica_rows i (sdb rep) @ [copied dd s]"
      using new(2) s(1) by (simp add: replica_rows_def copied_def)
    moreover have "held_path dd i n = held_path dd i n' \<Longrightarrow> n = n'" for n n'
      by (simp add: held_path_def path_text_def replica_dir_def)
    ultimately show ?thesis
      using h res False new(1) b(1) other unfolding holds_slice_def part by auto
  qed
qed


section \<open>A shipping pass over a lossy network\<close>

text \<open>What may happen to a request; the fates are used up one by one, then all arrive.\<close>

datatype fate = Arrives | Reply_lost | Request_lost

fun next_fate :: "fate list \<Rightarrow> fate" where
  "next_fate [] = Arrives"
| "next_fate (f # fs) = f"

definition lossy_post ::
  "(wire_segment \<Rightarrow> store \<Rightarrow> (repl_error + wal_segment) \<times> store) \<Rightarrow> fate list \<times> store \<Rightarrow> string \<Rightarrow> wire_segment \<Rightarrow>
   (fate list \<times> store) \<times> reply" where
  "lossy_post receive w url g =
     (if next_fate (fst w) = Request_lost then ((tl (fst w), snd w), Unreachable)
      else ((tl (fst w), snd (receive g (snd w))),
        if next_fate (fst w) = Reply_lost then Unreachable
        else if is_ok (fst (receive g (snd w))) then Accepted else Rejected))"

fun arriving :: "fate list \<Rightarrow> nat list \<Rightarrow> nat list" where
  "arriving fs [] = []"
| "arriving fs (j # js) = (if next_fate fs = Request_lost then arriving (tl fs) js else j # arriving (tl fs) js)"

definition due :: "string \<Rightarrow> wal_segment list \<Rightarrow> replica_shipment \<Rightarrow> nat \<Rightarrow> bool" where
  "due i rs sh j \<longleftrightarrow> rs_instance sh = i \<and> j < length rs \<and> rs_name sh = ws_name (rs ! j) \<and>
     rs_attempts sh < MAX_SHIPMENT_ATTEMPTS"

text \<open>A pass changes nothing but the shipments.\<close>

definition same_wal :: "store \<Rightarrow> store \<Rightarrow> bool" where
  "same_wal prim st \<longleftrightarrow> blobs st = blobs prim \<and> wal_segments (sdb st) = wal_segments (sdb prim)"

lemma find_unique: "x \<in> set xs \<Longrightarrow> P x \<Longrightarrow> (\<And>y. y \<in> set xs \<Longrightarrow> P y \<Longrightarrow> y = x) \<Longrightarrow> find P xs = Some x"
proof (induction xs)
  case (Cons z zs)
  show ?case
  proof (cases "P z")
    case True
    then have "z = x" by (rule Cons.prems(3) [rotated]) simp
    then show ?thesis using True by simp
  next
    case False
    then have "x \<in> set zs" using Cons.prems(1,2) by auto
    then have "find P zs = Some x" using Cons.prems(2,3) by (intro Cons.IH) (auto intro: Cons.prems(3))
    then show ?thesis using False by simp
  qed
qed simp

lemma get_due:
  assumes ok: "primary_ok C dd' prim" and same: "same_wal prim st" and d: "due i (wal_rows i (sdb prim)) sh j"
  shows "get_wal_segment (rs_instance sh) (rs_name sh) (sdb st) = Some (wal_rows i (sdb prim) ! j)"
proof -
  let ?rs = "wal_rows i (sdb prim)"
  have j: "j < length ?rs" and n: "rs_instance sh = i" "rs_name sh = ws_name (?rs ! j)" using d by (auto simp: due_def)
  have mem: "?rs ! j \<in> set ?rs" using j by simp
  have "inj_on segment_key (set (wal_segments (sdb prim)))"
    using ok by (simp add: primary_ok_def distinct_map)
  then have "y = ?rs ! j" if "y \<in> set (wal_segments (sdb prim))" "ws_instance y = i" "ws_name y = ws_name (?rs ! j)" for y
    using that mem by (auto simp: inj_on_def wal_rows_def segment_key_def)
  then show ?thesis
    using mem same n unfolding get_wal_segment_def same_wal_def
    by (intro find_unique) (auto simp: wal_rows_def)
qed

lemma ship_one_due:
  assumes comp: "compatible C E E' ex canon dd i" and ok: "primary_ok C dd' prim"
    and small: "length (wal_rows i (sdb prim)) < 2 ^ 63"
    and h: "holds_slice dd i prim rep x" and same: "same_wal prim st" and d: "due i (wal_rows i (sdb prim)) sh j"
    and run: "ship_one C E now (lossy_post (receive_segment C E' ex canon dd True)) ((fs, rep), st) sh = ((fs', rep'), st')"
  defines "y \<equiv> (if next_fate fs = Request_lost then x else slice_step x j)"
  shows "holds_slice dd i prim rep' y" "same_wal prim st'" "fs' = tl fs"
    "sdb st' = (if next_fate fs = Arrives \<and> y \<noteq> x then mark_shipment_shipped now else increment_shipment_attempts now)
       (rs_id sh) (sdb st)"
proof -
  let ?s = "wal_rows i (sdb prim) ! j"
  have j: "j < length (wal_rows i (sdb prim))" using d by (simp add: due_def)
  obtain b where b: "blobs prim (ws_path ?s) = Some b" "ws_instance ?s = i"
    by (rule primary_row [OF ok j]) blast
  have wire: "wire_for C E sh ?s b = honest_wire C E prim ?s"
    using d b by (simp add: wire_for_def honest_wire_def due_def)
  obtain res rep1 where r: "receive_segment C E' ex canon dd True (honest_wire C E prim ?s) rep = (res, rep1)" by fastforce
  note dl = deliver [OF comp ok small h j r]
  have "ship_one C E now (lossy_post (receive_segment C E' ex canon dd True)) ((fs, rep), st) sh =
      ((tl fs, if next_fate fs = Request_lost then rep else rep1),
       st\<lparr>sdb := (if next_fate fs = Arrives \<and> is_ok res then mark_shipment_shipped now
                  else increment_shipment_attempts now) (rs_id sh) (sdb st)\<rparr>)"
    using get_due [OF ok same d] same b(1) d
    by (cases "next_fate fs") (simp_all add: ship_one_def due_def same_wal_def wire r lossy_post_def Let_def)
  with run have eq: "fs' = tl fs" "rep' = (if next_fate fs = Request_lost then rep else rep1)"
    "st' = st\<lparr>sdb := (if next_fate fs = Arrives \<and> is_ok res then mark_shipment_shipped now
                  else increment_shipment_attempts now) (rs_id sh) (sdb st)\<rparr>" by simp_all
  show "holds_slice dd i prim rep' y" using dl h by (simp add: eq(2) y_def)
  show "fs' = tl fs" by (rule eq(1))
  show "sdb st' = (if next_fate fs = Arrives \<and> y \<noteq> x then mark_shipment_shipped now else increment_shipment_attempts now)
       (rs_id sh) (sdb st)" using dl by (auto simp: eq(3) y_def)
  show "same_wal prim st'"
    using same by (simp add: eq(3) same_wal_def mark_shipment_shipped_def increment_shipment_attempts_def update_shipment_def)
qed

lemma ship_all:
  assumes comp: "compatible C E E' ex canon dd i" and ok: "primary_ok C dd' prim"
    and small: "length (wal_rows i (sdb prim)) < 2 ^ 63"
  shows "list_all2 (due i (wal_rows i (sdb prim))) ps js \<Longrightarrow> holds_slice dd i prim rep x \<Longrightarrow> same_wal prim st \<Longrightarrow>
    foldl (ship_one C E now (lossy_post (receive_segment C E' ex canon dd True))) ((fs, rep), st) ps = ((fs', rep'), st') \<Longrightarrow>
    holds_slice dd i prim rep' (foldl slice_step x (arriving fs js)) \<and> same_wal prim st'"
proof (induction ps js arbitrary: fs rep x st rule: list_all2_induct)
  case (Cons sh ps j js)
  obtain fs1 rep1 st1 where one: "ship_one C E now (lossy_post (receive_segment C E' ex canon dd True)) ((fs, rep), st) sh =
      ((fs1, rep1), st1)" by (metis surj_pair)
  note s1 = ship_one_due [OF comp ok small Cons.prems(1,2) Cons.hyps(1) one]
  show ?case
    using Cons.IH [OF s1(1,2), of fs1] Cons.prems(3) one s1(3) by (simp split: if_splits)
qed simp


definition prefix_slice :: "nat \<Rightarrow> slice" where
  "prefix_slice n = (if n = 0 then None else Some (0, n))"

lemma prefix_step: "slice_step (prefix_slice n) n = prefix_slice (Suc n)"
  by (simp add: prefix_slice_def)

lemma foldl_prefix: "foldl slice_step (prefix_slice n) [n..<n + k] = prefix_slice (n + k)"
  by (induction k) (simp_all add: prefix_step)

lemma arriving_all: "arriving [] js = js"
  by (induction js) simp_all

definition shipped :: "int \<Rightarrow> replica_shipment \<Rightarrow> replica_shipment" where
  "shipped now r = r\<lparr>rs_status := ''shipped'', rs_confirmed_at := Some now\<rparr>"

lemma ship_perfect:
  assumes comp: "compatible C E E' ex canon dd i" and ok: "primary_ok C dd' prim"
    and small: "length (wal_rows i (sdb prim)) < 2 ^ 63"
  shows "list_all2 (due i (wal_rows i (sdb prim))) ps [n..<n + length ps] \<Longrightarrow>
    holds_slice dd i prim rep (prefix_slice n) \<Longrightarrow> same_wal prim st \<Longrightarrow>
    foldl (ship_one C E now (lossy_post (receive_segment C E' ex canon dd True))) (([], rep), st) ps = ((fs', rep'), st') \<Longrightarrow>
    replica_shipments (sdb st') = map (\<lambda>r. if rs_id r \<in> rs_id ` set ps then shipped now r else r) (replica_shipments (sdb st))"
proof (induction ps arbitrary: n rep st)
  case (Cons sh ps)
  have range: "[n..<n + length (sh # ps)] = n # [Suc n..<Suc n + length ps]" by (simp add: upt_rec)
  then have d: "due i (wal_rows i (sdb prim)) sh n" "list_all2 (due i (wal_rows i (sdb prim))) ps [Suc n..<Suc n + length ps]"
    using Cons.prems(1) by simp_all
  obtain fs1 rep1 st1 where one: "ship_one C E now (lossy_post (receive_segment C E' ex canon dd True)) (([], rep), st) sh =
      ((fs1, rep1), st1)" by (metis surj_pair)
  note s1 = ship_one_due [OF comp ok small Cons.prems(2,3) d(1) one]
  have "holds_slice dd i prim rep1 (prefix_slice (Suc n))" "fs1 = []" using s1(1,3) prefix_step [of n] by simp_all
  moreover have "replica_shipments (sdb st1) = map (\<lambda>r. if rs_id r = rs_id sh then shipped now r else r) (replica_shipments (sdb st))"
    using s1(4) prefix_step [of n]
    by (simp add: prefix_slice_def mark_shipment_shipped_def update_shipment_def shipped_def split: if_splits)
  moreover have "rs_id (shipped now r) = rs_id r" "shipped now (shipped now r) = shipped now r" for r
    by (simp_all add: shipped_def)
  ultimately show ?case
    using Cons.IH [OF d(2) _ s1(2), of rep1] Cons.prems(4) one by (simp add: comp_def cong: map_cong)
qed simp


lemma slice_start: "\<exists>m'. foldl slice_step (Some (a, m)) js = Some (a, m')"
  by (induction js arbitrary: m) auto

text \<open>
  C6: A shipping pass of an intact primary to one replica. Whatever requests and replies the
  network loses, the replica then holds one contiguous part of the primary's chain, files
  included: the part the abstract replica reaches on the requests that arrived. With no losses, a
  replica that holds the first \<open>n\<close> rows ends with the whole chain and nothing stays pending. But if
  the very first request is lost while the next ones arrive, the replica starts at row 1, and no
  later delivery ever gives it row 0.
\<close>

theorem shipping_refines_slices:
  fixes pass :: "fate list \<Rightarrow> (fate list \<times> store) \<times> store"
  assumes comp: "compatible C E E' ex canon dd i" and ok: "primary_ok C dd' prim"
    and small: "length (wal_rows i (sdb prim)) < 2 ^ 63"
    and due: "list_all2 (due i (wal_rows i (sdb prim))) (get_pending_shipments (sdb prim)) js"
    and pass: "pass = (\<lambda>fs. ship_pending_segments C E now (lossy_post (receive_segment C E' ex canon dd True)) ((fs, rep), prim))"
  shows "(\<forall>fs x. holds_slice dd i prim rep x \<longrightarrow>
       holds_slice dd i prim (snd (fst (pass fs))) (foldl slice_step x (arriving fs js))) \<and>
    (\<forall>n. holds_slice dd i prim rep (prefix_slice n) \<and> js = [n..<length (wal_rows i (sdb prim))] \<longrightarrow>
       holds_slice dd i prim (snd (fst (pass []))) (prefix_slice (length (wal_rows i (sdb prim)))) \<and>
       get_pending_shipments (sdb (snd (pass []))) = []) \<and>
    (replica_rows i (sdb rep) = [] \<and> js = [0..<length (wal_rows i (sdb prim))] \<and> 1 < length js \<longrightarrow>
       holds_slice dd i prim (snd (fst (pass [Request_lost]))) (Some (1, length js)) \<and>
       (\<forall>later. \<exists>m. foldl slice_step (Some (1, length js)) later = Some (1, m)))"
proof -
  let ?rs = "wal_rows i (sdb prim)"
  have all: "holds_slice dd i prim (snd (fst (pass fs))) (foldl slice_step x (arriving fs js))"
    if "holds_slice dd i prim rep x" for fs x
  proof -
    obtain fs' rep' st' where p: "pass fs = ((fs', rep'), st')" by (metis surj_pair)
    show ?thesis
      using ship_all [OF comp ok small due that, of prim now fs fs' rep' st'] p
      by (simp add: pass ship_pending_segments_def same_wal_def)
  qed
  have perfect: "holds_slice dd i prim (snd (fst (pass []))) (prefix_slice (length ?rs)) \<and>
      get_pending_shipments (sdb (snd (pass []))) = []"
    if h: "holds_slice dd i prim rep (prefix_slice n)" and js: "js = [n..<length ?rs]" for n
  proof
    let ?ps = "get_pending_shipments (sdb prim)"
    have n: "n \<le> length ?rs" using h by (auto simp: holds_slice_def slice_ok_def prefix_slice_def split: if_splits)
    then have len: "length ?ps = length ?rs - n" using list_all2_lengthD [OF due] js by simp
    show "holds_slice dd i prim (snd (fst (pass []))) (prefix_slice (length ?rs))"
      using all [OF h, of "[]"] foldl_prefix [of n "length ?rs - n"] n by (simp add: arriving_all js)
    obtain fs' rep' st' where p: "pass [] = ((fs', rep'), st')" by (metis surj_pair)
    have "list_all2 (due i ?rs) ?ps [n..<n + length ?ps]" using due js len n by simp
    from ship_perfect [OF comp ok small this h, of prim now fs' rep' st'] p
    have "replica_shipments (sdb st') = map (\<lambda>r. if rs_id r \<in> rs_id ` set ?ps then shipped now r else r) (replica_shipments (sdb prim))"
      by (simp add: pass ship_pending_segments_def same_wal_def)
    moreover have "r \<in> set (replica_shipments (sdb prim)) \<Longrightarrow> rs_status r = ''pending'' \<Longrightarrow> rs_id r \<in> rs_id ` set ?ps" for r
      by (auto simp: get_pending_shipments_def)
    ultimately have "filter (\<lambda>r. rs_status r = ''pending'') (replica_shipments (sdb st')) = []"
      by (auto simp: filter_empty_conv shipped_def)
    then show "get_pending_shipments (sdb (snd (pass []))) = []"
      using p by (simp add: get_pending_shipments_def)
  qed
  have late: "holds_slice dd i prim (snd (fst (pass [Request_lost]))) (Some (1, length js))"
    if "replica_rows i (sdb rep) = []" "js = [0..<length ?rs]" "1 < length js"
  proof -
    have "holds_slice dd i prim rep None" using that(1) by (simp add: holds_slice_def slice_ok_def rows_between_def)
    moreover have "[0..<k] = 0 # 1 # [2..<k]" if "1 < k" for k :: nat
      using that by (simp add: upt_conv_Cons numeral_2_eq_2)
    then have "js = 0 # 1 # [2..<length ?rs]" using that(2,3) by simp
    moreover have "foldl slice_step (Some (1, m)) [m..<m + k] = Some (1, m + k)" for m k :: nat
      by (induction k) simp_all
    note run = this
    have k: "2 + (length ?rs - 2) = length ?rs" using that(2,3) by simp
    note run = run [of 2 "length ?rs - 2", unfolded k]
    moreover have len: "length js = length ?rs" using that(2) by simp
    ultimately show ?thesis
      unfolding len using all [of None "[Request_lost]"] run by (simp add: arriving_all numeral_2_eq_2)
  qed
  show ?thesis using all perfect late slice_start by blast
qed


section \<open>Two concrete nodes\<close>

definition demo_env :: repl_env where
  "demo_env = \<lparr>re_secret = Some ''k'', re_allow_missing = None\<rparr>"

lemma demo_hex_trim: "hex_trim_law demo_crypto"
proof -
  have "trim (hexes x) = hexes x" for x
    by (rule trim_clean) (auto simp: is_space_def dest!: hexes_plain)
  then show ?thesis by (simp add: hex_trim_law_def demo_crypto_def)
qed

lemma demo_join: "wal_name n \<Longrightarrow> is_ok (safe_join_under (\<lambda>_. False) Some base [n @ ''.enc''])"
proof -
  assume n: "wal_name n"
  have "\<not> is_upper_hex (CHR ''/'')" "\<not> is_upper_hex (CHR 0x5C)" "\<not> is_upper_hex (CHR 0x00)"
    by (simp_all add: is_upper_hex_def ascii_defs)
  with n have "CHR ''/'' \<notin> set (n @ ''.enc'')" "CHR 0x5C \<notin> set (n @ ''.enc'')" "CHR 0x00 \<notin> set (n @ ''.enc'')"
    by (auto simp: wal_name_def list_all_iff)
  moreover have "n @ ''.enc'' \<noteq> ''.''" "n @ ''.enc'' \<noteq> ''..''"
    using arg_cong [of "n @ ''.enc''" _ length] by fastforce+
  ultimately have "check_component (n @ ''.enc'') = Inr ()" by (simp add: check_component_def)
  then show ?thesis by (simp add: safe_join_under_def)
qed

lemma demo_compatible: "compatible demo_crypto demo_env demo_env (\<lambda>_. False) Some ''/r'' ''i1''"
  using demo_chain_laws demo_hex_trim demo_join
  by (simp add: compatible_def demo_env_def replication_hmac_secret_def validate_instance_id_component_def
      id_char_def ascii_defs)

definition demo_replica :: store where
  "demo_replica = \<lparr>sdb = empty_db, blobs = Map.empty\<rparr>"

definition demo_body :: "char \<Rightarrow> string" where
  "demo_body c = replicate 28 c"

definition demo_row :: wal_segment where
  "demo_row = wal_segment_of demo_crypto ''/d'' ''i1'' ''000000010000000000000001'' None 0 (demo_body (CHR ''x''))"

definition demo_next_row :: wal_segment where
  "demo_next_row = wal_segment_of demo_crypto ''/d'' ''i1'' ''000000010000000000000002''
     (Some (chain_hash demo_crypto None (demo_body (CHR ''x'')))) 1 (demo_body (CHR ''y''))"

definition demo_shipments :: "replica_shipment list" where
  "demo_shipments = map (\<lambda>(k, n). \<lparr>rs_id = k, rs_instance = ''i1'', rs_endpoint = ''http://r'', rs_name = n,
     rs_status = ''pending'', rs_attempts = 0, rs_last_attempt = None, rs_confirmed_at = None\<rparr>)
     [(1, ''000000010000000000000001''), (2, ''000000010000000000000002'')]"

definition demo_primary :: store where
  "demo_primary = \<lparr>sdb = empty_db\<lparr>wal_segments := [demo_row, demo_next_row], replica_shipments := demo_shipments\<rparr>,
     blobs = [ws_path demo_row \<mapsto> demo_body (CHR ''x''), ws_path demo_next_row \<mapsto> demo_body (CHR ''y'')]\<rparr>"

lemma demo_rows:
  "wal_segments (sdb demo_primary) = [demo_row, demo_next_row]"
  "wal_rows i (sdb demo_primary) = (if i = ''i1'' then [demo_row, demo_next_row] else [])"
  by (simp_all add: demo_primary_def wal_rows_def demo_row_def demo_next_row_def wal_segment_of_def)

lemma demo_primary_ok: "primary_ok demo_crypto ''/d'' demo_primary"
proof -
  have names: "validate_segment_name ''000000010000000000000001'' = Inr ()"
    "validate_segment_name ''000000010000000000000002'' = Inr ()" by code_simp+
  have hash: "chain_hash demo_crypto None (demo_body (CHR ''x'')) = demo_body (CHR ''x'') @ ''0000''" by code_simp
  have dec: "hex_decode demo_crypto (hex_encode demo_crypto x) = Some x" for x
    using demo_hex by (simp add: hex_law_def)
  have ne: "hex_encode demo_crypto (chain_hash demo_crypto None (demo_body (CHR ''x''))) \<noteq> []" by code_simp
  have path: "ws_path demo_row \<noteq> ws_path demo_next_row" by code_simp
  have body: "blobs demo_primary (ws_path demo_row) = Some (demo_body (CHR ''x''))"
    "blobs demo_primary (ws_path demo_next_row) = Some (demo_body (CHR ''y''))"
    using path by (simp_all add: demo_primary_def)
  have "entry_ok demo_crypto (blobs demo_primary) [] 0 demo_row"
    unfolding entry_ok_def body
    by (simp add: demo_row_def wal_segment_of_def link_hash_def chain_hash_def NONCE_LEN_def demo_body_def)
  moreover have "entry_ok demo_crypto (blobs demo_primary) (ws_hash demo_row) 1 demo_next_row"
    using ne unfolding entry_ok_def body
    by (simp add: demo_row_def demo_next_row_def wal_segment_of_def link_hash_def chain_hash_def [of _ "Some _"]
        NONCE_LEN_def demo_body_def dec)
  ultimately have "linked demo_crypto (blobs demo_primary) [] 0 [demo_row, demo_next_row]" by simp
  then show ?thesis
    using names valid_segment_iff
    by (simp add: primary_ok_def demo_rows)
      (simp add: demo_row_def demo_next_row_def wal_segment_of_def segment_key_def segment_path_def)
qed

theorem replica_accepts_exactly_witness:
  "\<exists>res st'. receive_segment demo_crypto demo_env (\<lambda>_. False) Some ''/r'' True
       (honest_wire demo_crypto demo_env demo_primary demo_row) demo_replica = (res, st') \<and>
     is_ok res \<and> replica_segments (sdb st') = [copied ''/r'' demo_row]"
proof -
  let ?g = "honest_wire demo_crypto demo_env demo_primary demo_row"
  obtain res st' where r: "receive_segment demo_crypto demo_env (\<lambda>_. False) Some ''/r'' True ?g demo_replica = (res, st')"
    by fastforce
  have empty: "latest_replica_hash i (sdb demo_replica) = None" "replica_segments (sdb demo_replica) = []" for i
    by (simp_all add: demo_replica_def empty_db_def latest_replica_hash_def replica_rows_def latest_row_def)
  have rows: "length (wal_rows ''i1'' (sdb demo_primary)) = 2" by (simp add: demo_rows)
  have "\<exists>x. holds_slice ''/r'' ''i1'' demo_primary demo_replica x \<and> x = None"
    by (simp add: holds_slice_def slice_ok_def rows_between_def replica_rows_def empty)
  with deliver [OF demo_compatible demo_primary_ok, of demo_replica None 0 res st'] r rows
  have "is_ok res" by (simp add: demo_rows)
  moreover have "(''i1'', ''000000010000000000000001'') \<notin> segment_key ` set (replica_segments (sdb demo_replica))"
    by (simp add: empty)
  moreover have "sg_instance ?g = ''i1''" "sg_name ?g = ''000000010000000000000001''"
    by (simp_all add: honest_wire_def demo_row_def wal_segment_of_def)
  moreover have "stored_segment (held_path ''/r'' ''i1'' ''000000010000000000000001'') ?g = copied ''/r'' demo_row"
  proof -
    have "ws_path demo_row \<noteq> ws_path demo_next_row" by code_simp
    then show ?thesis
      by (simp add: stored_segment_def honest_wire_def copied_def demo_primary_def)
        (simp add: demo_row_def wal_segment_of_def)
  qed
  ultimately show ?thesis
    using replica_accepts_exactly [OF demo_hex r] r by (simp add: empty)
qed

theorem shipping_refines_slices_witness:
  "holds_slice ''/r'' ''i1'' demo_primary (snd (fst (ship_pending_segments demo_crypto demo_env 0
       (lossy_post (receive_segment demo_crypto demo_env (\<lambda>_. False) Some ''/r'' True)) (([], demo_replica), demo_primary))))
     (Some (0, 2))"
proof -
  have start: "holds_slice ''/r'' ''i1'' demo_primary demo_replica (prefix_slice 0)"
    by (simp add: holds_slice_def slice_ok_def rows_between_def replica_rows_def prefix_slice_def demo_replica_def empty_db_def)
  moreover have js: "[0..<length (wal_rows ''i1'' (sdb demo_primary))] = [0, 1]" by (simp add: demo_rows upt_rec)
  moreover have "list_all2 (due ''i1'' [demo_row, demo_next_row]) demo_shipments [0, 1]"
    by (simp add: demo_shipments_def due_def demo_row_def demo_next_row_def wal_segment_of_def MAX_SHIPMENT_ATTEMPTS_def)
  moreover have "get_pending_shipments (sdb demo_primary) = demo_shipments"
    by (simp add: get_pending_shipments_def demo_primary_def demo_shipments_def)
  ultimately have due: "list_all2 (due ''i1'' (wal_rows ''i1'' (sdb demo_primary)))
      (get_pending_shipments (sdb demo_primary)) [0..<length (wal_rows ''i1'' (sdb demo_primary))]"
    by (simp add: demo_rows)
  have "length (wal_rows ''i1'' (sdb demo_primary)) < 2 ^ 63" by (simp add: demo_rows)
  from shipping_refines_slices [OF demo_compatible demo_primary_ok this due refl, where now = 0 and rep = demo_replica,
      THEN conjunct2, THEN conjunct1, rule_format, OF conjI [OF start refl], THEN conjunct1]
  show ?thesis by (simp add: demo_rows prefix_slice_def numeral_2_eq_2)
qed

end
