(* ===== verification/Node_Handlers.thy ===== *)
theory Node_Handlers
  imports Env_Api
begin

text \<open>
  The HTTP interface of a node (\<open>main.rs\<close>), second part: provisioning, look-ups, destroying and
  extending, the calls reserved to the operator, the redirect list and the replicas; then one
  function that serves any of these requests, and what may follow from a request that nobody
  signed. Tasks a handler spawns are recorded, their effects are steps of their own.
\<close>

section \<open>Look-ups\<close>

definition stats_handler :: "api_config \<Rightarrow> server \<Rightarrow> response \<times> server" where
  "stats_handler A s = ((200, Stats (get_stats (ac_node A) (sv_node s))), s)"

text \<open>Serialising an instance skips its secrets.\<close>

definition no_secrets :: instance_secrets where
  "no_secrets = \<lparr>anon_key = [], service_role_key = [], jwt_secret = [], postgres_password = [],
     dashboard_password = [], wal_encryption_key = []\<rparr>"

definition serialised :: "instance_row \<Rightarrow> instance_row" where
  "serialised i = i\<lparr>in_secrets := no_secrets\<rparr>"

definition list_instances_handler :: "string \<Rightarrow> string option \<Rightarrow> server \<Rightarrow> response \<times> server" where
  "list_instances_handler wallet status s =
     ((200, Instances (map serialised (list_instances wallet status (sdb_of s)))), s)"

definition get_instance_handler :: "string \<Rightarrow> string \<Rightarrow> server \<Rightarrow> response \<times> server" where
  "get_instance_handler inst wallet s =
     (case find (\<lambda>i. in_id i = inst) (list_instances wallet None (sdb_of s)) of
        Some i \<Rightarrow> ((200, Instance (serialised i)), s)
      | None \<Rightarrow> ((200, Message ''not found''), s))"

text \<open>Of the secrets four are shown.\<close>

definition get_instance_credentials_handler :: "string \<Rightarrow> string \<Rightarrow> server \<Rightarrow> response \<times> server" where
  "get_instance_credentials_handler inst wallet s =
     (case find (\<lambda>i. in_id i = inst) (list_instances wallet None (sdb_of s)) of
        Some i \<Rightarrow> ((200, Credentials (in_id i) (in_wallet i) (in_ports i)
            ((in_secrets i)\<lparr>dashboard_password := [], wal_encryption_key := []\<rparr>)), s)
      | None \<Rightarrow> ((200, Message ''not found''), s))"

section \<open>Provisioning\<close>

text \<open>What chance and Docker contribute to a provision: from the warm pool, then from scratch.\<close>

record provision_luck =
  pl_warm_id :: string
  pl_warm_secrets :: instance_secrets
  pl_env_written :: bool
  pl_down :: exec
  pl_up :: exec
  pl_health :: "container_state list option list"
  pl_moved :: bool
  pl_cold_id :: string
  pl_cold_secrets :: instance_secrets
  pl_files :: bool

definition starts_with_http :: "string \<Rightarrow> bool" where
  "starts_with_http e \<longleftrightarrow> starts_with ''http://'' e \<or> starts_with ''https://'' e"

definition replica_endpoints_of :: "string list option \<Rightarrow> string list" where
  "replica_endpoints_of eps =
     filter (\<lambda>e. e \<noteq> [] \<and> starts_with_http e)
       (map (\<lambda>e. trim_end_slashes (trim e)) (case eps of Some es \<Rightarrow> es | None \<Rightarrow> []))"

text \<open>A failure to register one endpoint is logged and the loop goes on.\<close>

definition register_replicas :: "int \<Rightarrow> string \<Rightarrow> string list \<Rightarrow> db \<Rightarrow> db" where
  "register_replicas now inst eps d =
     foldl (\<lambda>d e. case add_instance_replica now inst e d of Inl _ \<Rightarrow> d | Inr (_, d') \<Rightarrow> d') d eps"

definition choose_provision ::
  "node_config \<Rightarrow> int \<Rightarrow> provision_request \<Rightarrow> provision_luck \<Rightarrow> node \<Rightarrow>
   (node_error + provision_result) \<times> task list \<times> node" where
  "choose_provision cfg now req l n =
     (case take_warm n of
        (Some warm, n1) \<Rightarrow>
          (case provision_from_warm cfg now (pl_warm_id l) req (pl_warm_secrets l) (pl_env_written l)
              (pl_down l) (pl_up l) (pl_health l) (pl_moved l) warm n1 of
             (Inr r, n2) \<Rightarrow> (Inr r, [Replenish], n2)
           | (Inl _, n2) \<Rightarrow>
               (case prepare_provision cfg now (pl_cold_id l) req (pl_cold_secrets l) (pl_files l) n2 of
                  (r, n3) \<Rightarrow> (r, [], n3)))
      | (None, n1) \<Rightarrow>
          (case prepare_provision cfg now (pl_cold_id l) req (pl_cold_secrets l) (pl_files l) n1 of
             (r, n2) \<Rightarrow> (r, [], n2)))"

definition provision_handler ::
  "api_config \<Rightarrow> call \<Rightarrow> provision_luck \<Rightarrow> server \<Rightarrow> response \<times> server" where
  "provision_handler A c l s =
     (case js_provision (ac_json A) (ca_body c) of
        None \<Rightarrow> ((500, Internal), s)
      | Some (req, eps) \<Rightarrow>
          signed A c ''POST'' ''/instances'' (ca_body c) (pr_wallet req) (\<lambda>s.
            case choose_provision (ac_node A) (ca_time c) req l (sv_node s) of
              (Inl e, ts, n) \<Rightarrow> ((500, Internal), s\<lparr>sv_node := n, tasks := tasks s @ ts\<rparr>)
            | (Inr r, ts, n) \<Rightarrow>
                let d = register_replicas (ca_time c) (po_id r) (replica_endpoints_of eps) (ndb n);
                    pending = (po_status r = ''provisioning'');
                    later = (if pending then Finalize (po_id r) else Configure_archiving (po_id r))
                in ((if pending then 202 else 201, Provisioned r),
                    s\<lparr>sv_node := n\<lparr>ndb := d\<rparr>, tasks := tasks s @ ts @ [later]\<rparr>)) s)"

section \<open>Destroying and extending\<close>

text \<open>The directory that is removed holds the file of the functions container as well.\<close>

definition destroy_handler :: "api_config \<Rightarrow> call \<Rightarrow> exec \<Rightarrow> string \<Rightarrow> string \<Rightarrow> server \<Rightarrow> response \<times> server" where
  "destroy_handler A c down inst wallet =
     signed A c ''DELETE'' (''/instances/'' @ inst) [] wallet (\<lambda>s.
       case destroy (ca_time c) down inst wallet (sv_node s) of
         (Inl e, n) \<Rightarrow> ((500, Internal), s\<lparr>sv_node := n\<rparr>)
       | (Inr _, n) \<Rightarrow>
           ((200, Destroyed inst), s\<lparr>sv_node := n,
              fn_files := (case get_instance inst wallet (sdb_of s) of
                Some i \<Rightarrow> (fn_files s)(in_dir i := None) | None \<Rightarrow> fn_files s)\<rparr>))"

definition extend_handler ::
  "api_config \<Rightarrow> call \<Rightarrow> (int \<Rightarrow> int \<Rightarrow> int option) \<Rightarrow> string \<Rightarrow> server \<Rightarrow> response \<times> server" where
  "extend_handler A c later inst s =
     (case js_extend (ac_json A) (ca_body c) of
        None \<Rightarrow> ((500, Internal), s)
      | Some (wallet, secs) \<Rightarrow>
          signed A c ''POST'' (''/instances/'' @ inst @ ''/extend'') (ca_body c) wallet (\<lambda>s.
            case extend_instance later (ca_time c) inst wallet secs (sdb_of s) of
              Inl e \<Rightarrow> ((500, Internal), s)
            | Inr d \<Rightarrow> ((200, Extended inst), set_db d s)) s)"

section \<open>Calls of the operator\<close>

definition verify_operator_signed ::
  "api_config \<Rightarrow> call \<Rightarrow> string \<Rightarrow> string \<Rightarrow>
   (server \<Rightarrow> response \<times> server) \<Rightarrow> server \<Rightarrow> response \<times> server" where
  "verify_operator_signed A c rpath operator k s =
     (if (case ac_operator A of Some expected \<Rightarrow> expected \<noteq> operator | None \<Rightarrow> False)
      then ((403, Message ''operator pubkey does not match SUPABA_OPERATOR_ADDRESS''), s)
      else signed A c ''POST'' rpath (ca_body c) operator k s)"

definition touch_handler :: "api_config \<Rightarrow> call \<Rightarrow> string \<Rightarrow> server \<Rightarrow> response \<times> server" where
  "touch_handler A c inst s =
     (case js_operator (ac_json A) (ca_body c) of None \<Rightarrow> ((500, Internal), s) | Some operator \<Rightarrow>
       verify_operator_signed A c (''/instances/'' @ inst @ ''/touch'') operator (\<lambda>s.
         ((200, Touched inst), set_db (touch_instance (ca_time c) inst (sdb_of s)) s)) s)"

text \<open>\<open>others\<close> is what other requests do while the handler waits for the lock of the instance.\<close>

definition resume_locked ::
  "api_config \<Rightarrow> call \<Rightarrow> exec \<Rightarrow> bool list \<Rightarrow> string \<Rightarrow> server \<Rightarrow> response \<times> server" where
  "resume_locked A c start connects inst s =
     (case get_instance_by_id inst (sdb_of s) of
        None \<Rightarrow> ((500, Internal), s)
      | Some refreshed \<Rightarrow>
          if in_lifecycle refreshed = ''running''
          then ((200, Resumed inst True), set_db (touch_instance (ca_time c) inst (sdb_of s)) s)
          else (case resume (ca_time c) start connects inst (sv_node s) of
            (Inl e, n) \<Rightarrow> ((500, Internal), s\<lparr>sv_node := n\<rparr>)
          | (Inr _, n) \<Rightarrow> ((200, Resumed inst False), s\<lparr>sv_node := n\<rparr>)))"

definition resume_handler ::
  "api_config \<Rightarrow> call \<Rightarrow> (server \<Rightarrow> server) \<Rightarrow> exec \<Rightarrow> bool list \<Rightarrow> string \<Rightarrow> server \<Rightarrow> response \<times> server" where
  "resume_handler A c others start connects inst s =
     (case js_operator (ac_json A) (ca_body c) of None \<Rightarrow> ((500, Internal), s) | Some operator \<Rightarrow>
       verify_operator_signed A c (''/instances/'' @ inst @ ''/resume'') operator (\<lambda>s.
         case get_instance_by_id inst (sdb_of s) of
           None \<Rightarrow> ((500, Internal), s)
         | Some i \<Rightarrow>
             if in_lifecycle i = ''running''
             then ((200, Resumed inst True), set_db (touch_instance (ca_time c) inst (sdb_of s)) s)
             else resume_locked A c start connects inst (others s)) s)"

definition pin_handler :: "api_config \<Rightarrow> call \<Rightarrow> string \<Rightarrow> server \<Rightarrow> response \<times> server" where
  "pin_handler A c inst s =
     (case js_pin (ac_json A) (ca_body c) of None \<Rightarrow> ((500, Internal), s) | Some (operator, until_ts) \<Rightarrow>
       verify_operator_signed A c (''/instances/'' @ inst @ ''/pin'') operator (\<lambda>s.
         case set_pinned_until inst until_ts (sdb_of s) of
           Inl e \<Rightarrow> ((500, Internal), s)
         | Inr (resolved, d) \<Rightarrow> ((200, Pinned inst resolved), set_db d s)) s)"

section \<open>Redirect list\<close>

text \<open>The containers by which the service may be known, until one restarts; a 404 goes on.\<close>

datatype restart = Restart_ok | Restart_404 | Restart_error string

fun restart_auth :: "restart list \<Rightarrow> string option" where
  "restart_auth [] = None"
| "restart_auth (r # rs) = (case r of
     Restart_ok \<Rightarrow> None | Restart_404 \<Rightarrow> restart_auth rs | Restart_error e \<Rightarrow> Some (''restart auth: '' @ e))"

definition redirect_failure :: "string \<Rightarrow> response" where
  "redirect_failure msg =
     (if contains ''not found'' msg \<or> contains ''not owned'' msg then 404 else 500, Message msg)"

definition quoted_env :: "string \<Rightarrow> string" where
  "quoted_env dir = [CHR 0x22] @ dir @ ''/.env'' @ [CHR 0x22]"

definition redirect_error_text :: "string \<Rightarrow> redirect_error \<Rightarrow> string" where
  "redirect_error_text dir e = (case e of
     Bad_scheme \<Rightarrow> ''site_url must start with http:// or https://''
   | Bad_site_url \<Rightarrow> ''site_url must not contain commas or whitespace''
   | Not_owned \<Rightarrow> ''instance not found or not owned''
   | No_env_file \<Rightarrow> ''reading '' @ quoted_env dir)"

text \<open>The manager's part: the owner's instance, its file, and the outcomes of writing and restarting.\<close>

definition manager_append_redirects ::
  "write_outcome \<Rightarrow> restart list \<Rightarrow> string \<Rightarrow> string \<Rightarrow> string list \<Rightarrow> string option \<Rightarrow> node \<Rightarrow>
   (string + string) \<times> node" where
  "manager_append_redirects w rs inst wallet urls site n =
     (case manager_get_instance inst wallet n of
        None \<Rightarrow> (Inl ''instance not found or not owned'', n)
      | Some i \<Rightarrow>
          (case append_redirect_urls (env_files n (in_dir i)) urls site of
             Inl e \<Rightarrow> (Inl (redirect_error_text (in_dir i) e), n)
           | Inr (allow_list, content) \<Rightarrow>
               (case w of
                  Dir_failed \<Rightarrow> (Inl (''writing '' @ quoted_env (in_dir i)), n)
                | File_broken left \<Rightarrow> (Inl (''writing '' @ quoted_env (in_dir i)),
                    n\<lparr>env_files := (env_files n)(in_dir i := left)\<rparr>)
                | File_written \<Rightarrow>
                    (case restart_auth (take 2 rs) of
                       Some e \<Rightarrow> (Inl e, write_env (in_dir i) content n)
                     | None \<Rightarrow> (Inr allow_list, write_env (in_dir i) content n)))))"

definition append_redirect_urls_handler ::
  "api_config \<Rightarrow> call \<Rightarrow> write_outcome \<Rightarrow> restart list \<Rightarrow> string \<Rightarrow> server \<Rightarrow> response \<times> server" where
  "append_redirect_urls_handler A c w rs inst s =
     (case js_redirects (ac_json A) (ca_body c) of None \<Rightarrow> ((500, Internal), s) | Some (wallet, urls, site) \<Rightarrow>
       signed A c ''POST'' (''/instances/'' @ inst @ ''/auth/redirect-urls'') (ca_body c) wallet (\<lambda>s.
         case manager_append_redirects w rs inst wallet urls site (sv_node s) of
           (Inr allow_list, n) \<Rightarrow> ((200, Redirects allow_list), s\<lparr>sv_node := n\<rparr>)
         | (Inl msg, n) \<Rightarrow> (redirect_failure msg, s\<lparr>sv_node := n\<rparr>)) s)"

section \<open>Replicas\<close>

definition add_replica_handler :: "api_config \<Rightarrow> call \<Rightarrow> string \<Rightarrow> server \<Rightarrow> response \<times> server" where
  "add_replica_handler A c inst s =
     (case js_endpoint (ac_json A) (ca_body c) of None \<Rightarrow> ((500, Internal), s) | Some raw \<Rightarrow>
       let endpoint = trim_end_slashes (trim raw) in
       if endpoint = [] then ((400, Message ''endpoint is required''), s)
       else if \<not> starts_with ''http://'' endpoint \<and> \<not> starts_with ''https://'' endpoint
       then ((400, Message ''endpoint must start with http(s)://''), s)
       else (case get_instance_by_id inst (sdb_of s) of
          None \<Rightarrow> ((404, Message ''instance not found on this node''), s)
        | Some i \<Rightarrow>
            signed A c ''POST'' (''/instances/'' @ inst @ ''/replicas'') (ca_body c) (in_wallet i) (\<lambda>s.
              case add_instance_replica (ca_time c) inst endpoint (sdb_of s) of
                Inl e \<Rightarrow> ((500, Internal), s)
              | Inr (added, d) \<Rightarrow> ((200, Replica_added inst endpoint added), set_db d s)) s))"

definition list_replicas_handler :: "string \<Rightarrow> server \<Rightarrow> response \<times> server" where
  "list_replicas_handler inst s = ((200, Replicas (list_instance_replicas inst (sdb_of s))), s)"

text \<open>\<open>psql\<close> is what \<open>pg_switch_wal\<close> printed, when Docker ran it.\<close>

definition switch_wal :: "string option \<Rightarrow> string \<Rightarrow> db \<Rightarrow> string option" where
  "switch_wal psql inst d =
     (case get_instance_by_id inst d of None \<Rightarrow> None | Some _ \<Rightarrow> map_option trim psql)"

definition force_switch_wal_handler ::
  "api_config \<Rightarrow> call \<Rightarrow> string option \<Rightarrow> string \<Rightarrow> server \<Rightarrow> response \<times> server" where
  "force_switch_wal_handler A c psql inst s =
     (case get_instance_by_id inst (sdb_of s) of
        None \<Rightarrow> ((404, Message ''instance not found on this node''), s)
      | Some i \<Rightarrow>
          signed A c ''POST'' (''/instances/'' @ inst @ ''/replicas/force-switch-wal'') (ca_body c) (in_wallet i) (\<lambda>s.
            (case switch_wal psql inst (sdb_of s) of
               None \<Rightarrow> (500, Internal) | Some name \<Rightarrow> (200, Rotated name), s)) s)"

definition list_replica_segments_handler :: "string \<Rightarrow> server \<Rightarrow> response \<times> server" where
  "list_replica_segments_handler inst s = ((200, Segments (list_replica_segments_db inst (sdb_of s))), s)"


section \<open>Serving a request\<close>

datatype api_request =
    Get_stats
  | List_instances string "string option"
  | Get_instance string string
  | Get_credentials string string
  | Provision provision_luck
  | Destroy exec string string
  | Extend string
  | Touch string
  | Resume exec "bool list" string
  | Pin string
  | Append_redirects write_outcome "restart list" string
  | Add_replica string
  | List_replicas string
  | Force_switch "string option" string
  | List_segments string
  | Set_env string "write_outcome \<times> write_outcome" string
  | List_env string
  | List_env_keys string
  | Delete_env write_outcome string string
  | Apply_env write_outcome string

text \<open>A handler runs to its end before the next one starts; \<open>later\<close> is SQLite's addition of seconds.\<close>

fun serve_api ::
  "api_config \<Rightarrow> (int \<Rightarrow> int \<Rightarrow> int option) \<Rightarrow> call \<Rightarrow> api_request \<Rightarrow> server \<Rightarrow> response \<times> server" where
  "serve_api A later c Get_stats s = stats_handler A s"
| "serve_api A later c (List_instances wallet status) s = list_instances_handler wallet status s"
| "serve_api A later c (Get_instance inst wallet) s = get_instance_handler inst wallet s"
| "serve_api A later c (Get_credentials inst wallet) s = get_instance_credentials_handler inst wallet s"
| "serve_api A later c (Provision l) s = provision_handler A c l s"
| "serve_api A later c (Destroy down inst wallet) s = destroy_handler A c down inst wallet s"
| "serve_api A later c (Extend inst) s = extend_handler A c later inst s"
| "serve_api A later c (Touch inst) s = touch_handler A c inst s"
| "serve_api A later c (Resume start connects inst) s = resume_handler A c (\<lambda>s. s) start connects inst s"
| "serve_api A later c (Pin inst) s = pin_handler A c inst s"
| "serve_api A later c (Append_redirects w rs inst) s = append_redirect_urls_handler A c w rs inst s"
| "serve_api A later c (Add_replica inst) s = add_replica_handler A c inst s"
| "serve_api A later c (List_replicas inst) s = list_replicas_handler inst s"
| "serve_api A later c (Force_switch psql inst) s = force_switch_wal_handler A c psql inst s"
| "serve_api A later c (List_segments inst) s = list_replica_segments_handler inst s"
| "serve_api A later c (Set_env nonce ws inst) s = set_env_handler A c nonce ws inst s"
| "serve_api A later c (List_env inst) s = list_env_handler A c inst s"
| "serve_api A later c (List_env_keys inst) s = list_env_keys_handler A c inst s"
| "serve_api A later c (Delete_env w inst key) s = delete_env_handler A c w inst key s"
| "serve_api A later c (Apply_env w inst) s = apply_env_handler A c w inst s"

end
