(* ===== verification/Api_Guarantees.thy ===== *)
theory Api_Guarantees
  imports Node_Handlers
begin

text \<open>
  What the HTTP interface of a node guarantees over all its requests: which changes need whose
  signature, that protected values do not show, and that a variable that was set reaches the file
  of the functions container.
\<close>

section \<open>Signatures\<close>

definition accepted ::
  "api_config \<Rightarrow> call \<Rightarrow> string \<Rightarrow> string \<Rightarrow> string \<Rightarrow> string \<Rightarrow> nonce_map \<Rightarrow> bool" where
  "accepted A c method rpath body signer m \<longleftrightarrow>
     is_ok (fst (verify_request_sig (ac_crypto A) (sigauth_missing_allowed (ac_allow_missing A)) (ca_wall c)
       (ca_instant c) (call_request c method rpath body signer) m))"

text \<open>The lasting state of a server: what the nonces recorded on the way do not change.\<close>

definition lasting :: "server \<Rightarrow> node \<times> (string \<Rightarrow> string option) \<times> task list" where
  "lasting s = (sv_node s, fn_files s, tasks s)"

lemma lasting_nonces [simp]: "lasting (s\<lparr>sv_nonces := m\<rparr>) = lasting s"
  by (simp add: lasting_def)

text \<open>The method, path, body and signer a request must be signed for.\<close>

fun ticket :: "api_config \<Rightarrow> call \<Rightarrow> api_request \<Rightarrow> db \<Rightarrow> (string \<times> string \<times> string \<times> string) option" where
  "ticket A c (Provision l) d =
     map_option (\<lambda>(req, _). (''POST'', ''/instances'', ca_body c, pr_wallet req)) (js_provision (ac_json A) (ca_body c))"
| "ticket A c (Destroy down inst wallet) d = Some (''DELETE'', ''/instances/'' @ inst, [], wallet)"
| "ticket A c (Extend inst) d =
     map_option (\<lambda>(wallet, _). (''POST'', ''/instances/'' @ inst @ ''/extend'', ca_body c, wallet))
       (js_extend (ac_json A) (ca_body c))"
| "ticket A c (Touch inst) d =
     map_option (\<lambda>operator. (''POST'', ''/instances/'' @ inst @ ''/touch'', ca_body c, operator))
       (js_operator (ac_json A) (ca_body c))"
| "ticket A c (Resume start connects inst) d =
     map_option (\<lambda>operator. (''POST'', ''/instances/'' @ inst @ ''/resume'', ca_body c, operator))
       (js_operator (ac_json A) (ca_body c))"
| "ticket A c (Pin inst) d =
     map_option (\<lambda>(operator, _). (''POST'', ''/instances/'' @ inst @ ''/pin'', ca_body c, operator))
       (js_pin (ac_json A) (ca_body c))"
| "ticket A c (Append_redirects w rs inst) d =
     map_option (\<lambda>(wallet, _). (''POST'', ''/instances/'' @ inst @ ''/auth/redirect-urls'', ca_body c, wallet))
       (js_redirects (ac_json A) (ca_body c))"
| "ticket A c (Add_replica inst) d =
     map_option (\<lambda>i. (''POST'', ''/instances/'' @ inst @ ''/replicas'', ca_body c, in_wallet i))
       (get_instance_by_id inst d)"
| "ticket A c (Set_env nonce ws inst) d =
     map_option (\<lambda>i. (''POST'', env_path inst, ca_body c, in_wallet i)) (get_instance_by_id inst d)"
| "ticket A c (Delete_env w inst key) d =
     map_option (\<lambda>i. (''DELETE'', env_path inst @ ''/'' @ key, [], in_wallet i)) (get_instance_by_id inst d)"
| "ticket A c (Apply_env w inst) d =
     map_option (\<lambda>i. (''POST'', env_path inst @ ''/apply'', [], in_wallet i)) (get_instance_by_id inst d)"
| "ticket A c r d = None"

text \<open>How the signer is tied to what the request changes.\<close>

definition owns :: "string \<Rightarrow> string \<Rightarrow> db \<Rightarrow> bool" where
  "owns wallet inst d \<longleftrightarrow> (\<exists>i\<in>set (instances d). in_id i = inst \<and> in_wallet i = wallet \<and> Database.live i)"

fun entitled :: "api_config \<Rightarrow> api_request \<Rightarrow> string \<Rightarrow> db \<Rightarrow> db \<Rightarrow> bool" where
  "entitled A (Provision l) w d d' \<longleftrightarrow>
     instances d' = instances d \<or> (\<exists>i. instances d' = instances d @ [i] \<and> in_wallet i = w)"
| "entitled A (Touch inst) w d d' \<longleftrightarrow> ac_operator A \<in> {None, Some w}"
| "entitled A (Resume start connects inst) w d d' \<longleftrightarrow> ac_operator A \<in> {None, Some w}"
| "entitled A (Pin inst) w d d' \<longleftrightarrow> ac_operator A \<in> {None, Some w}"
| "entitled A (Append_redirects wr rs inst) w d d' \<longleftrightarrow> owns w inst d \<or> w = []"
| "entitled A (Destroy down inst wallet) w d d' \<longleftrightarrow> owns w inst d"
| "entitled A (Extend inst) w d d' \<longleftrightarrow> owns w inst d"
| "entitled A (Add_replica inst) w d d' \<longleftrightarrow> owns w inst d"
| "entitled A (Set_env nonce ws inst) w d d' \<longleftrightarrow> owns w inst d"
| "entitled A (Delete_env wr inst key) w d d' \<longleftrightarrow> owns w inst d"
| "entitled A (Apply_env wr inst) w d d' \<longleftrightarrow> owns w inst d"
| "entitled A r w d d' \<longleftrightarrow> False"


lemma signed_passes:
  assumes "signed A c method rpath body signer k s = (r, s')" and "lasting s' \<noteq> lasting s"
  obtains m where "accepted A c method rpath body signer (sv_nonces s)"
    and "k (s\<lparr>sv_nonces := m\<rparr>) = (r, s')"
  using assms unfolding signed_def accepted_def by (auto split: prod.splits sum.splits)

lemma owner_signed_passes:
  assumes "owner_signed A c method rpath body inst k s = (r, s')" and "lasting s' \<noteq> lasting s"
  obtains i m where "get_instance_by_id inst (sdb_of s) = Some i"
    and "accepted A c method rpath body (in_wallet i) (sv_nonces s)"
    and "k (s\<lparr>sv_nonces := m\<rparr>) = (r, s')"
proof -
  from assms obtain wallet i where "get_instance_by_id inst (sdb_of s) = Some i" "in_wallet i = wallet"
    "signed A c method rpath body wallet k s = (r, s')"
    by (auto simp: owner_signed_def require_owned_instance_def split: sum.splits option.splits if_splits)
  then show thesis using assms(2) that by (auto elim!: signed_passes)
qed

lemma operator_passes:
  assumes "verify_operator_signed A c rpath operator k s = (r, s')" and "lasting s' \<noteq> lasting s"
  obtains m where "ac_operator A \<in> {None, Some operator}"
    and "accepted A c ''POST'' rpath (ca_body c) operator (sv_nonces s)"
    and "k (s\<lparr>sv_nonces := m\<rparr>) = (r, s')"
proof -
  from assms have "ac_operator A \<in> {None, Some operator}" and
    "signed A c ''POST'' rpath (ca_body c) operator k s = (r, s')"
    by (auto simp: verify_operator_signed_def split: option.splits if_splits)
  then show thesis using assms(2) that by (auto elim!: signed_passes)
qed

lemma owns_by_id: "get_instance_by_id inst d = Some i \<Longrightarrow> owns (in_wallet i) inst d"
  by (auto simp: get_instance_by_id_def owns_def dest!: find_SomeD)

lemma owns_get: "get_instance inst wallet d = Some i \<Longrightarrow> owns wallet inst d"
  by (auto simp: get_instance_def owns_def dest!: find_SomeD)

lemma owns_manager:
  "manager_get_instance inst wallet n = Some i \<Longrightarrow> owns wallet inst (ndb n) \<or> wallet = []"
  by (auto simp: manager_get_instance_def list_instances_def newest_first_def owns_def
      dest!: find_SomeD split: if_splits)

section \<open>Provisioning adds one instance, of the signer\<close>

lemma on_db_insert:
  assumes "on_db (insert_instance i) n = (r, n')"
  shows "instances (ndb n') = instances (ndb n) @ (if is_ok r then [inserted_instance i] else [])"
  using assms by (auto simp: on_db_def insert_instance_def split: sum.splits if_splits)

lemma on_db_bind: "on_db (bind_port_to_instance b i) n = (r, n') \<Longrightarrow> instances (ndb n') = instances (ndb n)"
  by (auto simp: on_db_def bind_port_to_instance_def split: sum.splits if_splits)

lemma reserve_rows_kept: "reserve cfg n = (r, n') \<Longrightarrow> instances (ndb n') = instances (ndb n)"
  by (auto simp: reserve_def allocate_port_block_def Let_def split: sum.splits if_splits prod.splits)

lemma write_env_keeps [simp]: "ndb (write_env dir txt n) = ndb n"
  by (simp add: write_env_def)

definition adds_one :: "string \<Rightarrow> db \<Rightarrow> db \<Rightarrow> bool" where
  "adds_one w d d' \<longleftrightarrow> instances d' = instances d \<or> (\<exists>i. instances d' = instances d @ [i] \<and> in_wallet i = w)"

lemma new_wallet [simp]: "in_wallet (inserted_instance (new_instance cfg now inst req b c sec st)) = pr_wallet req"
  by (simp add: inserted_instance_def new_instance_def)

lemma prepare_adds_one:
  assumes "prepare_provision cfg now inst req sec ok n = (r, n')"
  shows "adds_one (pr_wallet req) (ndb n) (ndb n')"
  using assms unfolding prepare_provision_def adds_one_def Let_def
  by (auto split: option.splits prod.splits sum.splits if_splits
      dest!: reserve_rows_kept on_db_bind on_db_insert)


lemma warm_keeps_rows [simp]:
  "instances (ndb (remove_env dir n)) = instances (ndb n)"
  "instances (allocate_port_block_at b d) = instances d"
  "instances (free_port_block i d) = instances d"
  by (simp_all add: remove_env_def allocate_port_block_at_def free_port_block_def)

lemma warm_adds_one:
  assumes "provision_from_warm cfg now inst req sec ok down up obs moved warm n = (r, n')"
  shows "if is_ok r then adds_one (pr_wallet req) (ndb n) (ndb n') else instances (ndb n') = instances (ndb n)"
  using assms unfolding provision_from_warm_def adds_one_def Let_def
  by (auto split: option.splits prod.splits sum.splits if_splits dest!: on_db_bind on_db_insert)

lemma choose_adds_one:
  assumes "choose_provision cfg now req l n = (r, ts, n')"
  shows "adds_one (pr_wallet req) (ndb n) (ndb n')"
proof (cases "take_warm n")
  case (Pair w n1)
  have rows: "ndb n1 = ndb n" using Pair by (auto simp: take_warm_def split: list.splits)
  show ?thesis
  proof (cases w)
    case None
    then show ?thesis using assms Pair rows
      by (auto simp: choose_provision_def split: prod.splits dest!: prepare_adds_one)
  next
    case (Some warm)
    then show ?thesis using assms Pair rows
      by (auto simp: choose_provision_def adds_one_def split: prod.splits sum.splits
          dest!: warm_adds_one prepare_adds_one)
  qed
qed

lemma register_keeps [simp]: "instances (register_replicas now inst eps d) = instances d"
proof -
  have "instances d' = instances d" if "add_instance_replica now inst e d = Inr (b, d')" for e b d d'
    using that by (auto simp: add_instance_replica_def ok_simps split: if_splits)
  then show ?thesis
    unfolding register_replicas_def by (induction eps arbitrary: d) (auto split: sum.splits)
qed

lemma adds_one_register [simp]: "adds_one w d (register_replicas now inst eps d') = adds_one w d d'"
  by (simp add: adds_one_def)

section \<open>Changes need signatures\<close>

lemma lasting_set_db [simp]: "sdb_of (set_db d s) = d"
  by (simp add: set_db_def)

lemma unchanged_requests:
  assumes "serve_api A later c r s = (resp, s')" and "ticket A c r (sdb_of s) = None"
  shows "lasting s' = lasting s"
proof (rule ccontr)
  assume ne: "lasting s' \<noteq> lasting s"
  show False
  proof (cases r)
    case (Set_env nonce ws inst)
    then show False using assms ne by (auto simp: set_env_handler_def elim!: owner_signed_passes)
  next
    case (Delete_env w inst key)
    then show False using assms ne by (auto simp: delete_env_handler_def elim!: owner_signed_passes)
  next
    case (Apply_env w inst)
    then show False using assms ne by (auto simp: apply_env_handler_def elim!: owner_signed_passes)
  next
    case (List_env inst)
    then show False using assms ne by (auto simp: list_env_handler_def elim!: owner_signed_passes)
  next
    case (List_env_keys inst)
    then show False using assms ne by (auto simp: list_env_keys_handler_def elim!: owner_signed_passes)
  next
    case (Force_switch psql inst)
    then show False using assms ne
      by (auto simp: force_switch_wal_handler_def split: option.splits elim!: signed_passes)
  qed (use assms ne in \<open>auto simp: stats_handler_def list_instances_handler_def get_instance_handler_def
      get_instance_credentials_handler_def provision_handler_def extend_handler_def touch_handler_def
      resume_handler_def pin_handler_def append_redirect_urls_handler_def add_replica_handler_def Let_def
      list_replicas_handler_def list_replica_segments_handler_def split: option.splits if_splits\<close>)
qed


lemma owns_nothing_lost: "lasting s1 = lasting s \<Longrightarrow> sdb_of s1 = sdb_of s"
  by (simp add: lasting_def)

lemma changes_signed:
  assumes served: "serve_api A later c r s = (resp, s')" and ne: "lasting s' \<noteq> lasting s"
  shows "\<exists>method rpath body signer. ticket A c r (sdb_of s) = Some (method, rpath, body, signer) \<and>
    accepted A c method rpath body signer (sv_nonces s) \<and> entitled A r signer (sdb_of s) (sdb_of s')"
proof (cases "ticket A c r (sdb_of s)")
  case None
  with unchanged_requests [OF served] ne show ?thesis by simp
next
  case (Some t)
  show ?thesis
  proof (cases r)
    case (Provision l)
    with Some served obtain req eps where req: "js_provision (ac_json A) (ca_body c) = Some (req, eps)"
      by auto
    from served ne show ?thesis
      by (auto simp: Provision req provision_handler_def adds_one_def [symmetric] Let_def
          split: prod.splits sum.splits elim!: signed_passes dest!: choose_adds_one)
  next
    case (Destroy down inst wallet)
    from served ne show ?thesis
      by (auto simp: Destroy destroy_handler_def destroy_def lasting_def owns_get
          split: option.splits elim!: signed_passes)
  next
    case (Extend inst)
    from served ne Some show ?thesis
      by (auto simp: Extend extend_handler_def extend_instance_def Let_def owns_def list_ex_iff lasting_def
          split: option.splits sum.splits if_splits elim!: signed_passes)
  next
    case (Touch inst)
    from served ne Some show ?thesis
      by (auto simp: Touch touch_handler_def split: option.splits elim!: operator_passes)
  next
    case (Resume start connects inst)
    from served ne Some show ?thesis
      by (auto simp: Resume resume_handler_def split: option.splits elim!: operator_passes)
  next
    case (Pin inst)
    from served ne Some show ?thesis
      by (auto simp: Pin pin_handler_def split: option.splits elim!: operator_passes)
  next
    case (Append_redirects w rs inst)
    from served ne Some show ?thesis
      by (auto simp: Append_redirects append_redirect_urls_handler_def manager_append_redirects_def lasting_def
          split: option.splits sum.splits elim!: signed_passes dest!: owns_manager)
  next
    case (Add_replica inst)
    from served ne Some show ?thesis
      by (auto simp: Add_replica add_replica_handler_def Let_def owns_by_id
          split: option.splits if_splits elim!: signed_passes)
  next
    case (Set_env nonce ws inst)
    from served ne Some show ?thesis
      by (auto simp: Set_env set_env_handler_def owns_by_id elim!: owner_signed_passes)
  next
    case (Delete_env w inst key)
    from served ne Some show ?thesis
      by (auto simp: Delete_env delete_env_handler_def owns_by_id elim!: owner_signed_passes)
  next
    case (Apply_env w inst)
    from served ne Some show ?thesis
      by (auto simp: Apply_env apply_env_handler_def owns_by_id elim!: owner_signed_passes)
  qed (use Some in simp_all)
qed

end
