(* ===== verification/Env_Secrecy.thy ===== *)
theory Env_Secrecy
  imports Api_Guarantees
begin

text \<open>
  The values of protected variables do not show: two servers that differ only in them answer every
  request of the interface alike. The proof relates the two runs operation by operation.
\<close>

section \<open>States that differ in protected values only\<close>

text \<open>Both values of a protected row decrypt, so that neither makes a listing fail.\<close>

definition hidden_change :: "crypto \<Rightarrow> db \<Rightarrow> env_row \<Rightarrow> env_row \<Rightarrow> bool" where
  "hidden_change C d e e' \<longleftrightarrow>
     e' = e \<or>
     ev_instance e' = ev_instance e \<and> ev_key e' = ev_key e \<and> ev_updated_at e' = ev_updated_at e \<and>
     ev_protected e \<and> ev_protected e' \<and>
     (\<forall>dek. load_instance_dek C (ev_instance e) d = Inr dek \<longrightarrow>
        is_ok (decrypt_env_value C dek (ev_instance e) (ev_key e) (ev_value e)) \<and>
        is_ok (decrypt_env_value C dek (ev_instance e) (ev_key e) (ev_value e')))"

definition hidden_rows :: "crypto \<Rightarrow> db \<Rightarrow> env_row list \<Rightarrow> bool" where
  "hidden_rows C d es \<longleftrightarrow> list_all2 (hidden_change C d) (instance_env d) es"

text \<open>The foreign key of the table.\<close>

definition rows_of_instances :: "db \<Rightarrow> bool" where
  "rows_of_instances d \<longleftrightarrow> (\<forall>e\<in>set (instance_env d). ev_instance e \<in> instance_ids d)"

definition with_rows :: "env_row list \<Rightarrow> node \<Rightarrow> node" where
  "with_rows es n = n\<lparr>ndb := (ndb n)\<lparr>instance_env := es\<rparr>\<rparr>"

definition near :: "crypto \<Rightarrow> node \<Rightarrow> node \<Rightarrow> bool" where
  "near C n m \<longleftrightarrow> rows_of_instances (ndb n) \<and> (\<exists>es. hidden_rows C (ndb n) es \<and> m = with_rows es n)"

text \<open>What the files of the functions containers hold and which tasks were spawned does not matter.\<close>

definition same_but_protected :: "crypto \<Rightarrow> server \<Rightarrow> server \<Rightarrow> bool" where
  "same_but_protected C s t \<longleftrightarrow> near C (sv_node s) (sv_node t) \<and> sv_nonces t = sv_nonces s"

lemma hidden_env [simp]: "hidden_change C (d\<lparr>instance_env := es\<rparr>) = hidden_change C d"
  by (simp add: hidden_change_def fun_eq_iff)

lemma hidden_refl [simp]: "hidden_change C d e e"
  by (simp add: hidden_change_def)

lemma hidden_meta:
  assumes "hidden_change C d e e'"
  shows "ev_instance e' = ev_instance e" "ev_key e' = ev_key e" "ev_protected e' = ev_protected e"
    "ev_updated_at e' = ev_updated_at e"
  using assms by (auto simp: hidden_change_def)

section \<open>Lists in step\<close>

lemma insort_rel:
  "P x y \<Longrightarrow> list_all2 P xs ys \<Longrightarrow> (\<And>x y. P x y \<Longrightarrow> k x = k y) \<Longrightarrow>
     list_all2 P (insort_key k x xs) (insort_key k y ys)"
  by (rotate_tac 1, induction rule: list_all2_induct) auto

lemma sort_rel:
  assumes "list_all2 P xs ys" and "\<And>x y. P x y \<Longrightarrow> k x = k y"
  shows "list_all2 P (sort_key k xs) (sort_key k ys)"
  using assms(1) by (induction rule: list_all2_induct) (auto intro!: insort_rel simp: assms(2))

lemma filter_rel:
  assumes "list_all2 P xs ys" and "\<And>x y. P x y \<Longrightarrow> Q x = R y"
  shows "list_all2 (\<lambda>x y. P x y \<and> Q x) (filter Q xs) (filter R ys)"
  using assms(1) by (induction rule: list_all2_induct) (auto simp: assms(2))

lemma collect_rel:
  assumes "list_all2 P xs ys" and "\<And>x y. P x y \<Longrightarrow> rel_sum (=) Q (f x) (g y)"
  shows "rel_sum (=) (list_all2 Q) (collect_ok f xs) (collect_ok g ys)"
  using assms(1)
proof (induction rule: list_all2_induct)
  case (Cons x xs y ys)
  then show ?case using assms(2) [OF Cons(1)] by (auto elim!: rel_sum.cases)
qed simp

section \<open>The table\<close>


lemma rows_rel:
  assumes "hidden_rows C d es"
  shows "list_all2 (\<lambda>e e'. hidden_change C d e e' \<and> ev_instance e = inst)
    (env_rows inst d) (env_rows inst (d\<lparr>instance_env := es\<rparr>))"
proof -
  have "list_all2 (\<lambda>e e'. hidden_change C d e e' \<and> ev_instance e = inst)
      (filter (\<lambda>e. ev_instance e = inst) (instance_env d)) (filter (\<lambda>e. ev_instance e = inst) es)"
    using assms unfolding hidden_rows_def by (rule filter_rel) (rule arg_cong [where f = "\<lambda>x. x = inst"], rule hidden_meta(1) [symmetric])
  moreover have "ev_key e = ev_key e'" if "hidden_change C d e e' \<and> ev_instance e = inst" for e e'
    using that hidden_meta(2) [of C d e e'] by simp
  ultimately show ?thesis
    unfolding env_rows_def by simp (rule sort_rel)
qed

lemma hidden_decrypt:
  assumes "hidden_change C d e e' \<and> ev_instance e = inst" and "load_instance_dek C inst d = Inr dek"
  obtains "decrypt_env_value C dek inst (ev_key e') (ev_value e') = decrypt_env_value C dek inst (ev_key e) (ev_value e)"
    | v v' where "ev_protected e" "decrypt_env_value C dek inst (ev_key e) (ev_value e) = Inr v"
      "decrypt_env_value C dek inst (ev_key e') (ev_value e') = Inr v'"
  using assms unfolding hidden_change_def is_ok_iff by (metis (no_types))

lemma rel_sum_map:
  assumes "rel_sum (=) (list_all2 (\<lambda>a b. f a = f b)) m m'"
  shows "map_sum id (map f) m' = map_sum id (map f) m"
proof -
  have eq: "map f xs = map f ys" if "list_all2 (\<lambda>a b. f a = f b) xs ys" for xs ys
    using that by (induction rule: list_all2_induct) auto
  show ?thesis using assms by (cases m; cases m') (auto dest: eq)
qed

lemma list_full_agree:
  assumes "hidden_rows C d es"
  shows "map_sum id (map shown_row) (list_env_full_with_protection C inst (d\<lparr>instance_env := es\<rparr>)) =
    map_sum id (map shown_row) (list_env_full_with_protection C inst d)"
proof (cases "load_instance_dek C inst d")
  case (Inr dek)
  let ?f = "\<lambda>e. rbind (decrypt_env_value C dek inst (ev_key e) (ev_value e)) (\<lambda>v.
    Inr (ev_key e, v, ev_protected e, ev_updated_at e))"
  have "rel_sum (=) (\<lambda>a b. shown_row a = shown_row b) (?f e) (?f e')"
    if h: "hidden_change C d e e' \<and> ev_instance e = inst" for e e'
  proof -
    have meta: "ev_key e' = ev_key e" "ev_protected e' = ev_protected e" "ev_updated_at e' = ev_updated_at e"
      using h hidden_meta [of C d e e'] by simp_all
    show ?thesis
      by (rule hidden_decrypt [OF h Inr],
        cases "decrypt_env_value C dek inst (ev_key e) (ev_value e)") (simp_all add: meta shown_row_def)
  qed
  from rel_sum_map [OF collect_rel [OF rows_rel [OF assms] this]] Inr
  show ?thesis by (simp add: list_env_full_with_protection_def)
qed (simp add: list_env_full_with_protection_def)

lemma list_env_agree:
  assumes "hidden_rows C d es"
  shows "map_sum id (\<lambda>_. ()) (list_env C inst (d\<lparr>instance_env := es\<rparr>)) =
    map_sum id (\<lambda>_. ()) (list_env C inst d)"
proof (cases "load_instance_dek C inst d")
  case (Inr dek)
  let ?f = "\<lambda>e. rbind (decrypt_env_value C dek inst (ev_key e) (ev_value e)) (\<lambda>v. Inr (ev_key e, v))"
  have step: "rel_sum (=) (\<lambda>a b. fst a = fst b) (?f e) (?f e')"
    if h: "hidden_change C d e e' \<and> ev_instance e = inst" for e e'
  proof -
    have meta: "ev_key e' = ev_key e" using h hidden_meta [of C d e e'] by simp
    show ?thesis
      by (rule hidden_decrypt [OF h Inr],
        cases "decrypt_env_value C dek inst (ev_key e) (ev_value e)") (simp_all add: meta)
  qed
  have "map_sum id (map fst) (collect_ok ?f (env_rows inst (d\<lparr>instance_env := es\<rparr>))) =
      map_sum id (map fst) (collect_ok ?f (env_rows inst d))"
    by (rule rel_sum_map [OF collect_rel [OF rows_rel [OF assms] step]])
  with Inr show ?thesis
    by (cases "collect_ok ?f (env_rows inst d)"; cases "collect_ok ?f (env_rows inst (d\<lparr>instance_env := es\<rparr>))")
      (simp_all add: list_env_def)
qed (simp add: list_env_def)

lemma keys_agree:
  assumes "hidden_rows C d es"
  shows "get_env_keys inst (d\<lparr>instance_env := es\<rparr>) = get_env_keys inst d"
  using rows_rel [OF assms, of inst] unfolding get_env_keys_def
  by (induction rule: list_all2_induct) (auto dest: hidden_meta)

section \<open>Requests that write variables\<close>

lemma slot_rel: "hidden_change C d e e' \<Longrightarrow> env_slot inst key e' = env_slot inst key e"
  using hidden_meta(1,2) [of C d e e'] by (simp add: env_slot_def)

lemma find_slot_rel:
  "list_all2 (hidden_change C d) xs ys \<Longrightarrow>
     map_option ev_protected (find (env_slot inst key) ys) = map_option ev_protected (find (env_slot inst key) xs)"
  by (induction rule: list_all2_induct) (auto dest: slot_rel hidden_meta)

lemma put_env_rel:
  assumes "list_all2 (hidden_change C d) xs ys"
  shows "list_all2 (hidden_change C d) (put_env r xs) (put_env r ys)"
proof -
  let ?hit = "env_slot (ev_instance r) (ev_key r)"
  have "list_ex ?hit ys = list_ex ?hit xs"
    using assms by (induction rule: list_all2_induct) (auto dest: slot_rel)
  moreover have "list_all2 (hidden_change C d) (map (\<lambda>e. if ?hit e then r else e) xs)
      (map (\<lambda>e. if ?hit e then r else e) ys)"
    using assms by (induction rule: list_all2_induct) (auto dest: slot_rel simp: hidden_refl)
  moreover have "list_all2 (hidden_change C d) (xs @ [r]) (ys @ [r])"
    using assms by (intro list_all2_appendI) (simp_all add: hidden_change_def)
  ultimately show ?thesis by (simp add: put_env_def Let_def)
qed

lemma upsert_rel:
  assumes "hidden_rows C d es"
  shows "(\<exists>e. upsert_env_with_protection C nonce now inst key val prot d = Inl e \<and>
      upsert_env_with_protection C nonce now inst key val prot (d\<lparr>instance_env := es\<rparr>) = Inl e) \<or>
    (\<exists>rows rows'. upsert_env_with_protection C nonce now inst key val prot d = Inr (d\<lparr>instance_env := rows\<rparr>) \<and>
      upsert_env_with_protection C nonce now inst key val prot (d\<lparr>instance_env := es\<rparr>) =
        Inr (d\<lparr>instance_env := rows'\<rparr>) \<and>
      list_all2 (hidden_change C d) rows rows')"
proof -
  have "(case find (env_slot inst key) es of Some e \<Rightarrow> \<not> (ev_protected e \<and> \<not> prot) | None \<Rightarrow> True) =
      (case find (env_slot inst key) (instance_env d) of Some e \<Rightarrow> \<not> (ev_protected e \<and> \<not> prot) | None \<Rightarrow> True)"
    using find_slot_rel [OF assms [unfolded hidden_rows_def], of inst key]
    by (cases "find (env_slot inst key) es"; cases "find (env_slot inst key) (instance_env d)") auto
  moreover note put_env_rel [OF assms [unfolded hidden_rows_def]]
  ultimately show ?thesis
    by (auto simp: upsert_env_with_protection_def rbind_def split: sum.splits)
qed

lemma delete_rel:
  assumes "hidden_rows C d es"
  shows "\<exists>hit rows rows'. delete_env inst key d = (hit, d\<lparr>instance_env := rows\<rparr>) \<and>
    delete_env inst key (d\<lparr>instance_env := es\<rparr>) = (hit, d\<lparr>instance_env := rows'\<rparr>) \<and>
    list_all2 (hidden_change C d) rows rows'"
proof -
  note h = assms [unfolded hidden_rows_def]
  have "list_ex (env_slot inst key) es = list_ex (env_slot inst key) (instance_env d)"
    using h by (induction rule: list_all2_induct) (auto dest: slot_rel)
  moreover have "list_all2 (hidden_change C d) (filter (\<lambda>e. \<not> env_slot inst key e) (instance_env d))
      (filter (\<lambda>e. \<not> env_slot inst key e) es)"
    using h by (induction rule: list_all2_induct) (auto dest: slot_rel)
  ultimately show ?thesis unfolding delete_env_def by auto
qed


section \<open>Computations that keep servers in step\<close>

definition keeps_step :: "crypto \<Rightarrow> (server \<Rightarrow> response \<times> server) \<Rightarrow> bool" where
  "keeps_step C k \<longleftrightarrow> (\<forall>s t. same_but_protected C s t \<longrightarrow>
     fst (k t) = fst (k s) \<and> same_but_protected C (snd (k s)) (snd (k t)))"

named_theorems in_step_intros \<open>how computations that keep servers in step are put together\<close>

lemma keeps_stepI:
  assumes "\<And>s t. same_but_protected C s t \<Longrightarrow> fst (k t) = fst (k s) \<and> same_but_protected C (snd (k s)) (snd (k t))"
  shows "keeps_step C k"
  using assms by (simp add: keeps_step_def)

lemma keeps_return [in_step_intros]: "keeps_step C (\<lambda>s. (r, s))"
  by (simp add: keeps_step_def)

lemma keeps_option [in_step_intros]:
  "keeps_step C g \<Longrightarrow> (\<And>x. keeps_step C (f x)) \<Longrightarrow> keeps_step C (\<lambda>s. case x of None \<Rightarrow> g s | Some x \<Rightarrow> f x s)"
  by (cases x) simp_all

lemma keeps_sum [in_step_intros]:
  "(\<And>x. keeps_step C (f x)) \<Longrightarrow> (\<And>y. keeps_step C (g y)) \<Longrightarrow>
     keeps_step C (\<lambda>s. case x of Inl x \<Rightarrow> f x s | Inr y \<Rightarrow> g y s)"
  by (cases x) simp_all

lemma keeps_if [in_step_intros]:
  "keeps_step C f \<Longrightarrow> keeps_step C g \<Longrightarrow> keeps_step C (\<lambda>s. if b then f s else g s)"
  by (cases b) simp_all

lemma keeps_prod [in_step_intros]:
  "(\<And>x y. keeps_step C (f x y)) \<Longrightarrow> keeps_step C (\<lambda>s. case p of (x, y) \<Rightarrow> f x y s)"
  by (cases p) simp

text \<open>A look-up with the same result in both servers.\<close>

lemma keeps_lookup:
  assumes "\<And>s t. same_but_protected C s t \<Longrightarrow> f t = f s" and "\<And>x. keeps_step C (k x)"
  shows "keeps_step C (\<lambda>s. k (f s) s)"
proof (rule keeps_stepI)
  fix s t assume step: "same_but_protected C s t"
  from assms(1) [OF this] assms(2) [of "f s"] step
  show "fst (k (f t) t) = fst (k (f s) s) \<and> same_but_protected C (snd (k (f s) s)) (snd (k (f t) t))"
    by (simp add: keeps_step_def)
qed

text \<open>An operation of the node, its result and the server it leaves.\<close>

lemma keeps_node:
  assumes "\<And>n m. near C n m \<Longrightarrow> fst (F m) = fst (F n) \<and> near C (snd (F n)) (snd (F m))"
    and "\<And>x n s. sv_node (snd (k x n s)) = n \<and> sv_nonces (snd (k x n s)) = sv_nonces s"
    and "\<And>x n m s t. fst (k x n s) = fst (k x m t)"
  shows "keeps_step C (\<lambda>s. case F (sv_node s) of (x, n) \<Rightarrow> k x n s)"
proof (rule keeps_stepI)
  fix s t assume step: "same_but_protected C s t"
  obtain x n where s: "F (sv_node s) = (x, n)" by (cases "F (sv_node s)")
  obtain y m where t: "F (sv_node t) = (y, m)" by (cases "F (sv_node t)")
  have "y = x" "near C n m" using assms(1) [of "sv_node s" "sv_node t"] step s t
    by (auto simp: same_but_protected_def)
  then show "fst (case F (sv_node t) of (x, n) \<Rightarrow> k x n t) = fst (case F (sv_node s) of (x, n) \<Rightarrow> k x n s) \<and>
      same_but_protected C (snd (case F (sv_node s) of (x, n) \<Rightarrow> k x n s))
        (snd (case F (sv_node t) of (x, n) \<Rightarrow> k x n t))"
    using step assms(2) assms(3) [of x m t n s] by (simp add: s t same_but_protected_def)
qed

lemma step_nonces [simp]:
  "same_but_protected C (s\<lparr>sv_nonces := m\<rparr>) (t\<lparr>sv_nonces := m\<rparr>) = near C (sv_node s) (sv_node t)"
  by (simp add: same_but_protected_def)

lemma keeps_signed [in_step_intros]:
  assumes "keeps_step C k"
  shows "keeps_step C (signed A c method rpath body signer k)"
proof (rule keeps_stepI)
  fix s t assume step: "same_but_protected C s t"
  obtain x m where v: "verify_request_sig (ac_crypto A) (sigauth_missing_allowed (ac_allow_missing A)) (ca_wall c)
      (ca_instant c) (call_request c method rpath body signer) (sv_nonces s) = (x, m)"
    by (cases "verify_request_sig (ac_crypto A) (sigauth_missing_allowed (ac_allow_missing A)) (ca_wall c)
      (ca_instant c) (call_request c method rpath body signer) (sv_nonces s)")
  have "same_but_protected C (s\<lparr>sv_nonces := m\<rparr>) (t\<lparr>sv_nonces := m\<rparr>)" "sv_nonces t = sv_nonces s"
    using step by (simp_all add: same_but_protected_def)
  then show "fst (signed A c method rpath body signer k t) = fst (signed A c method rpath body signer k s) \<and>
      same_but_protected C (snd (signed A c method rpath body signer k s)) (snd (signed A c method rpath body signer k t))"
    using assms v by (cases x) (simp_all add: signed_def keeps_step_def)
qed


text \<open>The look-ups of the database do not read the table of variables.\<close>

lemma lookups_env [simp]:
  "get_instance_by_id inst (d\<lparr>instance_env := es\<rparr>) = get_instance_by_id inst d"
  "get_instance inst wallet (d\<lparr>instance_env := es\<rparr>) = get_instance inst wallet d"
  "list_instances wallet status (d\<lparr>instance_env := es\<rparr>) = list_instances wallet status d"
  "running_instance_count (d\<lparr>instance_env := es\<rparr>) = running_instance_count d"
  "allocated_port_count (d\<lparr>instance_env := es\<rparr>) = allocated_port_count d"
  "list_instance_replicas inst (d\<lparr>instance_env := es\<rparr>) = list_instance_replicas inst d"
  "list_replica_segments_db inst (d\<lparr>instance_env := es\<rparr>) = list_replica_segments_db inst d"
  "instance_ids (d\<lparr>instance_env := es\<rparr>) = instance_ids d"
  by (simp_all add: get_instance_by_id_def get_instance_def list_instances_def running_instance_count_def
      allocated_port_count_def list_instance_replicas_def list_replica_segments_db_def replica_rows_def
      instance_ids_def split: option.splits)

lemma rows_fields [simp]:
  "allocated_cores (with_rows es n) = allocated_cores n"
  "warm_pool (with_rows es n) = warm_pool n"
  "env_files (with_rows es n) = env_files n"
  "ndb (with_rows es n) = (ndb n)\<lparr>instance_env := es\<rparr>"
  by (simp_all add: with_rows_def)

lemma step_lookups:
  assumes "same_but_protected C s t"
  shows "get_instance_by_id inst (sdb_of t) = get_instance_by_id inst (sdb_of s)"
    "list_instances wallet status (sdb_of t) = list_instances wallet status (sdb_of s)"
    "list_instance_replicas inst (sdb_of t) = list_instance_replicas inst (sdb_of s)"
    "list_replica_segments_db inst (sdb_of t) = list_replica_segments_db inst (sdb_of s)"
    "get_stats cfg (sv_node t) = get_stats cfg (sv_node s)"
    "get_env_keys inst (sdb_of t) = get_env_keys inst (sdb_of s)"
    "map_sum id (map shown_row) (list_env_full_with_protection C inst (sdb_of t)) =
       map_sum id (map shown_row) (list_env_full_with_protection C inst (sdb_of s))"
  using assms by (auto simp: same_but_protected_def near_def get_stats_def Let_def keys_agree list_full_agree)

lemma keeps_owner_signed [in_step_intros]:
  assumes "keeps_step C k"
  shows "keeps_step C (owner_signed A c method rpath body inst k)"
proof -
  have "keeps_step C (\<lambda>s. case require_owned_instance inst w (sdb_of s) of Inl r \<Rightarrow> (r, s) | Inr _ \<Rightarrow>
      signed A c method rpath body w k s)" for w
    by (rule keeps_lookup [where f = "\<lambda>s. require_owned_instance inst w (sdb_of s)"])
      (auto simp: require_owned_instance_def step_lookups intro!: in_step_intros assms)
  then show ?thesis
    unfolding owner_signed_def by (intro in_step_intros)
qed

lemma keeps_operator [in_step_intros]:
  "keeps_step C k \<Longrightarrow> keeps_step C (verify_operator_signed A c rpath operator k)"
  unfolding verify_operator_signed_def by (intro in_step_intros)

section \<open>Operations of the node in step\<close>

text \<open>The ids and keys of the instances that exist survive.\<close>

definition keeps_keys :: "crypto \<Rightarrow> db \<Rightarrow> db \<Rightarrow> bool" where
  "keeps_keys C d d' \<longleftrightarrow> instance_ids d \<subseteq> instance_ids d' \<and>
     (\<forall>inst\<in>instance_ids d. load_instance_dek C inst d' = load_instance_dek C inst d)"

lemma keeps_keys_same: "instances d' = instances d \<Longrightarrow> keeps_keys C d d'"
  by (simp add: keeps_keys_def instance_ids_def load_instance_dek_def)

lemma keeps_keys_add:
  assumes "instances d' = instances d @ [i]"
  shows "keeps_keys C d d'"
proof -
  have "find P (xs @ [i]) = find P xs" if "\<exists>x\<in>set xs. P x" for P :: "instance_row \<Rightarrow> bool" and xs
    using that by (induction xs) auto
  then have "find (\<lambda>i. in_id i = inst) (instances d') = find (\<lambda>i. in_id i = inst) (instances d)"
    if "inst \<in> instance_ids d" for inst
  proof -
    from that have "\<exists>x\<in>set (instances d). in_id x = inst" by (auto simp: instance_ids_def)
    then show ?thesis using assms \<open>\<And>xs P. \<exists>x\<in>set xs. P x \<Longrightarrow> find P (xs @ [i]) = find P xs\<close> by simp
  qed
  then have "load_instance_dek C inst d' = load_instance_dek C inst d" if "inst \<in> instance_ids d" for inst
    using that by (simp add: load_instance_dek_def)
  then show ?thesis
    using assms by (auto simp: keeps_keys_def instance_ids_def)
qed

lemma keeps_keys_update:
  assumes "instances d' = map g (instances d)" and "\<And>i. in_id (g i) = in_id i \<and> in_secrets (g i) = in_secrets i"
  shows "keeps_keys C d d'"
proof -
  have "find (\<lambda>i. in_id i = inst) (map g xs) = map_option g (find (\<lambda>i. in_id i = inst) xs)" for inst xs
    using assms(2) by (induction xs) auto
  then have "load_instance_dek C inst d' = load_instance_dek C inst d" for inst
    using assms by (auto simp: load_instance_dek_def Let_def split: option.split)
  moreover have "instance_ids d' = instance_ids d"
    using assms by (simp add: instance_ids_def image_image)
  ultimately show ?thesis by (simp add: keeps_keys_def)
qed

lemma hidden_rows_keep:
  assumes "hidden_rows C d es" and "rows_of_instances d" and "keeps_keys C d d'"
    and "instance_env d' = instance_env d"
  shows "hidden_rows C d' es \<and> rows_of_instances d'"
proof -
  have "hidden_change C d' e e'" if "e \<in> set (instance_env d)" "hidden_change C d e e'" for e e'
    using that assms(2,3) by (auto simp: hidden_change_def rows_of_instances_def keeps_keys_def)
  then have "list_all2 (hidden_change C d') (instance_env d) es"
    using assms(1) unfolding hidden_rows_def list_all2_iff by (blast dest: set_zip_leftD)
  then show ?thesis
    using assms(2-4) by (auto simp: hidden_rows_def rows_of_instances_def keeps_keys_def)
qed

text \<open>
  An operation that commutes with a change of the table and keeps the keys: its result is the same
  and the nodes stay in step.
\<close>

lemma near_commute:
  assumes "near C n m"
    and commute: "\<And>es. F (with_rows es n) = map_prod id (with_rows es) (F n)"
    and keys: "keeps_keys C (ndb n) (ndb (snd (F n)))"
  shows "fst (F m) = fst (F n) \<and> near C (snd (F n)) (snd (F m))"
proof -
  from assms(1) obtain es where es: "hidden_rows C (ndb n) es" and m: "m = with_rows es n"
    and fk: "rows_of_instances (ndb n)" by (auto simp: near_def)
  have "with_rows (instance_env (ndb n)) n = n" by (simp add: with_rows_def)
  with commute [of "instance_env (ndb n)"] have "F n = map_prod id (with_rows (instance_env (ndb n))) (F n)" by simp
  then have "snd (F n) = with_rows (instance_env (ndb n)) (snd (F n))" by (metis snd_map_prod)
  then have "instance_env (ndb (snd (F n))) = instance_env (ndb n)"
    by (metis rows_fields(4) db.select_convs(8) db.surjective db.update_convs(8))
  from hidden_rows_keep [OF es fk keys this] show ?thesis
    by (auto simp: near_def m commute)
qed


text \<open>Operations of the database, total or fallible.\<close>

lemma keeps_db:
  assumes commute: "\<And>d es. g (d\<lparr>instance_env := es\<rparr>) = (g d)\<lparr>instance_env := es\<rparr>"
    and keys: "\<And>d. keeps_keys C d (g d)"
  shows "keeps_step C (\<lambda>s. (r, set_db (g (sdb_of s)) s))"
proof -
  have "near C (n\<lparr>ndb := g (ndb n)\<rparr>) (m\<lparr>ndb := g (ndb m)\<rparr>)" if "near C n m" for n m
    using near_commute [OF that, of "\<lambda>n. ((), n\<lparr>ndb := g (ndb n)\<rparr>)"] commute keys
    by (simp add: with_rows_def)
  then show ?thesis
    by (intro keeps_stepI) (simp add: same_but_protected_def set_db_def)
qed

lemma keeps_db_result:
  assumes commute: "\<And>d es. f (d\<lparr>instance_env := es\<rparr>) = map_sum id (map_prod id (instance_env_update (\<lambda>_. es))) (f d)"
    and keys: "\<And>d x d'. f d = Inr (x, d') \<Longrightarrow> keeps_keys C d d'"
  shows "keeps_step C (\<lambda>s. case f (sdb_of s) of Inl e \<Rightarrow> (r e, s) | Inr (x, d) \<Rightarrow> (q x, set_db d s))"
proof (rule keeps_stepI)
  fix s t assume step: "same_but_protected C s t"
  let ?F = "\<lambda>n. case f (ndb n) of Inl e \<Rightarrow> (Inl e, n) | Inr (x, d) \<Rightarrow> (Inr x, n\<lparr>ndb := d\<rparr>)"
  have near: "near C (sv_node s) (sv_node t)" using step by (simp add: same_but_protected_def)
  have "fst (?F (sv_node t)) = fst (?F (sv_node s)) \<and> near C (snd (?F (sv_node s))) (snd (?F (sv_node t)))"
  proof (rule near_commute [OF near])
    show "?F (with_rows es (sv_node s)) = map_prod id (with_rows es) (?F (sv_node s))" for es
      by (cases "f (sdb_of s)") (auto simp: commute with_rows_def)
    show "keeps_keys C (sdb_of s) (ndb (snd (?F (sv_node s))))"
      by (cases "f (sdb_of s)") (auto simp: keeps_keys_same dest: keys)
  qed
  then show "fst (case f (sdb_of t) of Inl e \<Rightarrow> (r e, t) | Inr (x, d) \<Rightarrow> (q x, set_db d t)) =
      fst (case f (sdb_of s) of Inl e \<Rightarrow> (r e, s) | Inr (x, d) \<Rightarrow> (q x, set_db d s)) \<and>
    same_but_protected C (snd (case f (sdb_of s) of Inl e \<Rightarrow> (r e, s) | Inr (x, d) \<Rightarrow> (q x, set_db d s)))
      (snd (case f (sdb_of t) of Inl e \<Rightarrow> (r e, t) | Inr (x, d) \<Rightarrow> (q x, set_db d t)))"
    using step by (cases "f (sdb_of s)"; cases "f (sdb_of t)") (auto simp: same_but_protected_def set_db_def)
qed

lemma keeps_update [in_step_intros]:
  assumes "\<And>i. in_id (g i) = in_id i \<and> in_secrets (g i) = in_secrets i"
  shows "keeps_step C (\<lambda>s. (r, set_db (update_instance inst g (sdb_of s)) s))"
proof (rule keeps_db)
  show "keeps_keys C d (update_instance inst g d)" for d
    by (rule keeps_keys_update [where g = "\<lambda>i. if in_id i = inst then g i else i"])
      (simp_all add: update_instance_def assms)
qed (simp add: update_instance_def)

lemma keeps_touch [in_step_intros]: "keeps_step C (\<lambda>s. (r, set_db (touch_instance now inst (sdb_of s)) s))"
  unfolding touch_instance_def by (rule keeps_update) simp

lemma keeps_pin [in_step_intros]:
  "keeps_step C (\<lambda>s. case set_pinned_until inst ts (sdb_of s) of
     Inl e \<Rightarrow> (r, s) | Inr (x, d) \<Rightarrow> (q x, set_db d s))"
proof (rule keeps_db_result [where r = "\<lambda>_. r"])
  show "keeps_keys C d d'" if "set_pinned_until inst ts d = Inr (x, d')" for d x d'
    using that by (intro keeps_keys_update [where g = "\<lambda>i. if in_id i = inst then i\<lparr>in_pinned_until :=
        Some (max (coalesce (in_pinned_until i) 0) ts)\<rparr> else i"])
      (auto simp: set_pinned_until_def update_instance_def Let_def split: option.splits)
qed (simp add: set_pinned_until_def update_instance_def Let_def split: option.split)

lemma keeps_replica [in_step_intros]:
  "keeps_step C (\<lambda>s. case add_instance_replica now inst e (sdb_of s) of
     Inl x \<Rightarrow> (r, s) | Inr (x, d) \<Rightarrow> (q x, set_db d s))"
proof (rule keeps_db_result [where r = "\<lambda>_. r"])
  show "keeps_keys C d d'" if "add_instance_replica now inst e d = Inr (x, d')" for d x d'
    using that by (intro keeps_keys_same) (auto simp: add_instance_replica_def Let_def split: if_splits)
qed (simp add: add_instance_replica_def Let_def)

lemma keeps_extend [in_step_intros]:
  "keeps_step C (\<lambda>s. case extend_instance later now inst wallet secs (sdb_of s) of
     Inl e \<Rightarrow> (r, s) | Inr d \<Rightarrow> (q, set_db d s))"
proof -
  let ?f = "\<lambda>d. map_sum id (Pair ()) (extend_instance later now inst wallet secs d)"
  have "keeps_step C (\<lambda>s. case ?f (sdb_of s) of Inl e \<Rightarrow> (r, s) | Inr (x, d) \<Rightarrow> (q, set_db d s))"
  proof (rule keeps_db_result [where r = "\<lambda>_. r" and q = "\<lambda>_. q"])
    let ?hit = "\<lambda>i. in_id i = inst \<and> in_wallet i = wallet \<and> Database.live i"
    show "keeps_keys C d d'" if "?f d = Inr (x, d')" for d x d'
      using that by (intro keeps_keys_update [where g = "\<lambda>i. if ?hit i
          then i\<lparr>in_expires_at := later (coalesce (in_expires_at i) now) secs\<rparr> else i"])
        (auto simp: extend_instance_def Let_def split: if_splits)
  qed (simp add: extend_instance_def Let_def)
  moreover have "(case ?f (sdb_of s) of Inl e \<Rightarrow> (r, s) | Inr (x, d) \<Rightarrow> (q, set_db d s)) =
      (case extend_instance later now inst wallet secs (sdb_of s) of Inl e \<Rightarrow> (r, s) | Inr d \<Rightarrow> (q, set_db d s))" for s
    by (cases "extend_instance later now inst wallet secs (sdb_of s)") simp_all
  ultimately show ?thesis by simp
qed


section \<open>Requests on the node in step\<close>

lemma near_resume:
  assumes "near C n m"
  shows "fst (resume now start ups inst m) = fst (resume now start ups inst n) \<and>
    near C (snd (resume now start ups inst n)) (snd (resume now start ups inst m))"
proof (rule near_commute [OF assms])
  show "resume now start ups inst (with_rows es n) = map_prod id (with_rows es) (resume now start ups inst n)" for es
    by (simp add: resume_def Let_def with_rows_def touch_instance_def set_lifecycle_state_def update_instance_def
        split: option.split exec.split)
  have upd: "keeps_keys C d d'" if "instances d' = map g (map h (map h' (instances d)))"
    "\<And>i. in_id (g i) = in_id i \<and> in_secrets (g i) = in_secrets i"
    "\<And>i. in_id (h i) = in_id i \<and> in_secrets (h i) = in_secrets i"
    "\<And>i. in_id (h' i) = in_id i \<and> in_secrets (h' i) = in_secrets i" for d d' g h h'
    using that by (intro keeps_keys_update [where g = "g \<circ> h \<circ> h'"]) simp_all
  let ?l = "\<lambda>st i. if in_id i = inst then i\<lparr>in_lifecycle := st\<rparr> else i"
  let ?t = "\<lambda>i. if in_id i = inst then i\<lparr>in_last_seen := Some now\<rparr> else i"
  note simps = resume_def Let_def touch_instance_def set_lifecycle_state_def update_instance_def
  show "keeps_keys C (ndb n) (ndb (snd (resume now start ups inst n)))"
  proof (cases "get_instance_by_id inst (ndb n)")
    case (Some i)
    show ?thesis
    proof (cases "in_destroyed_at i \<noteq> None \<or> in_lifecycle i = ''running''")
      case False
      then show ?thesis
      proof (cases start)
        case Spawn_error
        then show ?thesis using False Some
          by (intro upd [where g = id and h = id and h' = "?l ''starting''"]) (simp_all add: simps)
      next
        case Exit_failure
        then show ?thesis using False Some
          by (intro upd [where g = id and h = "?l ''suspended''" and h' = "?l ''starting''"]) (simp_all add: simps)
      next
        case Exit_success
        show ?thesis
        proof (cases "list_ex (\<lambda>ok. ok) ups")
          case True
          then show ?thesis using False Some Exit_success
            by (intro upd [where g = ?t and h = "?l ''running''" and h' = "?l ''starting''"]) (simp_all add: simps)
        next
          case no: False
          then show ?thesis using False Some Exit_success
            by (intro upd [where g = id and h = id and h' = "?l ''starting''"]) (simp_all add: simps)
        qed
      qed
    qed (auto simp: resume_def Some intro: keeps_keys_same)
  qed (simp add: resume_def keeps_keys_same)
qed

lemma near_redirects:
  assumes "near C n m"
  shows "fst (manager_append_redirects w rs inst wallet urls site m) =
      fst (manager_append_redirects w rs inst wallet urls site n) \<and>
    near C (snd (manager_append_redirects w rs inst wallet urls site n))
      (snd (manager_append_redirects w rs inst wallet urls site m))"
proof (rule near_commute [OF assms])
  have "manager_get_instance inst wallet (with_rows es n) = manager_get_instance inst wallet n" for es
    by (simp add: manager_get_instance_def)
  then show "manager_append_redirects w rs inst wallet urls site (with_rows es n) =
      map_prod id (with_rows es) (manager_append_redirects w rs inst wallet urls site n)" for es
    by (simp add: manager_append_redirects_def with_rows_def write_env_def
        split: option.split sum.split prod.split write_outcome.split)
  show "keeps_keys C (ndb n) (ndb (snd (manager_append_redirects w rs inst wallet urls site n)))"
    by (rule keeps_keys_same) (simp add: manager_append_redirects_def write_env_def
        split: option.split sum.split prod.split write_outcome.split)
qed

lemma rows_commute:
  "check_capacity cfg (with_rows es n) = check_capacity cfg n"
  "write_env dir txt (with_rows es n) = with_rows es (write_env dir txt n)"
  "remove_env dir (with_rows es n) = with_rows es (remove_env dir n)"
  "(with_rows es n)\<lparr>allocated_cores := cores\<rparr> = with_rows es (n\<lparr>allocated_cores := cores\<rparr>)"
  "reserve cfg (with_rows es n) = map_prod id (with_rows es) (reserve cfg n)"
  "on_db (insert_instance i) (with_rows es n) = map_prod id (with_rows es) (on_db (insert_instance i) n)"
  "on_db (bind_port_to_instance b inst) (with_rows es n) =
     map_prod id (with_rows es) (on_db (bind_port_to_instance b inst) n)"
  "(with_rows es n)\<lparr>ndb := allocate_port_block_at b (free_port_block p ((ndb n)\<lparr>instance_env := es\<rparr>))\<rparr> =
     with_rows es (n\<lparr>ndb := allocate_port_block_at b (free_port_block p (ndb n))\<rparr>)"
  by (simp_all add: with_rows_def check_capacity_def write_env_def remove_env_def reserve_def
      allocate_port_block_def allocated_bases_def on_db_def insert_instance_def instance_ids_def
      bind_port_to_instance_def allocate_port_block_at_def free_port_block_def Let_def split: prod.split)

lemma prepare_rows:
  "prepare_provision cfg now inst req sec ok (with_rows es n) =
     map_prod id (with_rows es) (prepare_provision cfg now inst req sec ok n)"
  unfolding prepare_provision_def rows_commute
  by (simp add: Let_def rows_commute split: option.split prod.split sum.split)

lemma warm_rows_commute:
  "provision_from_warm cfg now inst req sec ok down up obs moved warm (with_rows es n) =
     map_prod id (with_rows es) (provision_from_warm cfg now inst req sec ok down up obs moved warm n)"
  unfolding provision_from_warm_def rows_commute rows_fields Let_def
  by (simp add: rows_commute split: option.split prod.split sum.split) auto


lemma take_rows: "take_warm (with_rows es n) = map_prod id (with_rows es) (take_warm n)"
proof -
  have "(with_rows es n)\<lparr>warm_pool := ws\<rparr> = with_rows es (n\<lparr>warm_pool := ws\<rparr>)" for ws
    by (simp add: with_rows_def)
  then show ?thesis by (simp add: take_warm_def split: list.split)
qed

lemma choose_rows:
  "choose_provision cfg now req l (with_rows es n) =
     map_prod id (map_prod id (with_rows es)) (choose_provision cfg now req l n)"
  unfolding choose_provision_def take_rows
  by (cases "take_warm n") (simp add: warm_rows_commute prepare_rows split: option.split prod.split sum.split)

lemma register_rows:
  "register_replicas now inst eps (d\<lparr>instance_env := es\<rparr>) = (register_replicas now inst eps d)\<lparr>instance_env := es\<rparr>"
proof (induction eps arbitrary: d)
  case (Cons e eps)
  have one: "(case add_instance_replica now inst e (d\<lparr>instance_env := es\<rparr>) of
        Inl _ \<Rightarrow> d\<lparr>instance_env := es\<rparr> | Inr (_, d') \<Rightarrow> d') =
      (case add_instance_replica now inst e d of Inl _ \<Rightarrow> d | Inr (_, d') \<Rightarrow> d')\<lparr>instance_env := es\<rparr>"
    by (simp add: add_instance_replica_def Let_def)
  show ?case
    using Cons.IH by (simp add: register_replicas_def one)
qed (simp add: register_replicas_def)

definition provision_on_node ::
  "node_config \<Rightarrow> int \<Rightarrow> provision_request \<Rightarrow> provision_luck \<Rightarrow> string list \<Rightarrow> node \<Rightarrow>
   ((node_error + provision_result) \<times> task list) \<times> node" where
  "provision_on_node cfg now req l eps n = (case choose_provision cfg now req l n of
     (r, ts, n1) \<Rightarrow> ((r, ts), case r of Inl _ \<Rightarrow> n1
       | Inr p \<Rightarrow> n1\<lparr>ndb := register_replicas now (po_id p) eps (ndb n1)\<rparr>))"

lemma near_provision:
  assumes "near C n m"
  shows "fst (provision_on_node cfg now req l eps m) = fst (provision_on_node cfg now req l eps n) \<and>
    near C (snd (provision_on_node cfg now req l eps n)) (snd (provision_on_node cfg now req l eps m))"
proof (rule near_commute [OF assms])
  obtain r ts n1 where c: "choose_provision cfg now req l n = (r, ts, n1)" by (rule prod_cases3)
  have "(with_rows es n1)\<lparr>ndb := (register_replicas now inst eps (ndb n1))\<lparr>instance_env := es\<rparr>\<rparr> =
      with_rows es (n1\<lparr>ndb := register_replicas now inst eps (ndb n1)\<rparr>)" for inst es
    by (simp add: with_rows_def)
  then show "provision_on_node cfg now req l eps (with_rows es n) =
      map_prod id (with_rows es) (provision_on_node cfg now req l eps n)" for es
    by (cases r) (simp_all add: provision_on_node_def choose_rows c register_rows)
  have "instances (ndb (snd (provision_on_node cfg now req l eps n))) = instances (ndb n1)"
    by (cases r) (simp_all add: provision_on_node_def c)
  then show "keeps_keys C (ndb n) (ndb (snd (provision_on_node cfg now req l eps n)))"
    using choose_adds_one [OF c] by (auto simp: adds_one_def intro: keeps_keys_same keeps_keys_add)
qed

lemma near_destroy:
  assumes "near C n m"
  shows "fst (destroy now down inst wallet m) = fst (destroy now down inst wallet n) \<and>
    near C (snd (destroy now down inst wallet n)) (snd (destroy now down inst wallet m))"
proof -
  from assms obtain es where es: "hidden_rows C (ndb n) es" and m: "m = with_rows es n"
    and fk: "rows_of_instances (ndb n)" by (auto simp: near_def)
  have get: "get_instance inst wallet (ndb m) = get_instance inst wallet (ndb n)" by (simp add: m)
  show ?thesis
  proof (cases "get_instance inst wallet (ndb n) = None \<or> down = Spawn_error")
    case True
    with get assms show ?thesis by (auto simp: destroy_def split: option.split)
  next
    case False
    then obtain i where i: "get_instance inst wallet (ndb n) = Some i" and down: "down \<noteq> Spawn_error" by auto
    let ?keep = "\<lambda>e. ev_instance e \<noteq> inst"
    let ?n = "mark_destroyed now inst (release_resources i n)"
    have m': "mark_destroyed now inst (release_resources i m) = with_rows (filter ?keep es) ?n"
      by (cases "in_cpuset i") (simp_all add: m with_rows_def mark_destroyed_def release_resources_def
          delete_all_env_def free_port_block_def destroy_instance_db_def update_instance_def)
    let ?d = "(ndb n)\<lparr>instance_env := filter ?keep (instance_env (ndb n))\<rparr>"
    have rows: "instance_env (ndb ?n) = instance_env ?d" and ins: "instances (ndb ?n) =
        map (\<lambda>i. if in_id i = inst then i\<lparr>in_status := ''destroyed'', in_destroyed_at := Some now\<rparr> else i) (instances ?d)"
      by (simp_all add: mark_destroyed_def release_resources_def delete_all_env_def
          free_port_block_def destroy_instance_db_def update_instance_def)
    have "list_all2 (hidden_change C (ndb n)) (filter ?keep (instance_env (ndb n))) (filter ?keep es)"
      using es unfolding hidden_rows_def
      by (rule list_all2_mono [OF filter_rel]) (auto dest: hidden_meta)
    then have "hidden_rows C ?d (filter ?keep es)" "rows_of_instances ?d"
      using fk by (auto simp: hidden_rows_def rows_of_instances_def)
    moreover have "keeps_keys C ?d (ndb ?n)" by (rule keeps_keys_update [OF ins]) simp
    ultimately have "hidden_rows C (ndb ?n) (filter ?keep es) \<and> rows_of_instances (ndb ?n)"
      using hidden_rows_keep rows by blast
    then show ?thesis
      using i get down m' by (auto simp: destroy_def near_def)
  qed
qed

section \<open>Requests on the variables in step\<close>

lemma apply_nonces [simp]: "sv_nonces (snd (apply_env_to_functions C w inst s)) = sv_nonces s"
  by (simp add: apply_env_to_functions_def split: option.split sum.split write_outcome.split)

lemma apply_node [simp]: "sv_node (snd (apply_env_to_functions C w inst s)) = sv_node s"
  by (simp add: apply_env_to_functions_def split: option.split sum.split write_outcome.split)

lemma apply_result:
  "fst (apply_env_to_functions C w inst s) =
     (case get_instance_by_id inst (sdb_of s) of None \<Rightarrow> Inl Instance_not_found | Some i \<Rightarrow>
      if w = Dir_failed then Inl Files_failed
      else (case map_sum id (\<lambda>_. ()) (list_env C inst (sdb_of s)) of
        Inl e \<Rightarrow> Inl (Db_failed e) | Inr _ \<Rightarrow> if w = File_written then Inr () else Inl Files_failed))"
  by (cases "list_env C inst (sdb_of s)"; cases w)
    (simp_all add: apply_env_to_functions_def split: option.split)

lemma apply_step:
  assumes "same_but_protected C s t"
  shows "fst (apply_env_to_functions C w inst t) = fst (apply_env_to_functions C w inst s) \<and>
    same_but_protected C (snd (apply_env_to_functions C w inst s)) (snd (apply_env_to_functions C w inst t))"
proof
  from assms obtain es where es: "hidden_rows C (sdb_of s) es"
    and t: "sdb_of t = (sdb_of s)\<lparr>instance_env := es\<rparr>" by (auto simp: same_but_protected_def near_def)
  show "fst (apply_env_to_functions C w inst t) = fst (apply_env_to_functions C w inst s)"
    by (simp only: apply_result t list_env_agree [OF es] lookups_env)
  show "same_but_protected C (snd (apply_env_to_functions C w inst s)) (snd (apply_env_to_functions C w inst t))"
    using assms by (simp add: same_but_protected_def)
qed

lemma keeps_bind:
  assumes "\<And>s t. same_but_protected C s t \<Longrightarrow>
      fst (F t) = fst (F s) \<and> same_but_protected C (snd (F s)) (snd (F t))"
    and "\<And>x. keeps_step C (k x)"
  shows "keeps_step C (\<lambda>s. case F s of (x, s1) \<Rightarrow> k x s1)"
proof (rule keeps_stepI)
  fix s t assume "same_but_protected C s t"
  from assms(1) [OF this] assms(2) [of "fst (F s)"]
  show "fst (case F t of (x, s1) \<Rightarrow> k x s1) = fst (case F s of (x, s1) \<Rightarrow> k x s1) \<and>
      same_but_protected C (snd (case F s of (x, s1) \<Rightarrow> k x s1)) (snd (case F t of (x, s1) \<Rightarrow> k x s1))"
    by (simp add: case_prod_unfold keeps_step_def)
qed

lemma attempts_step:
  "same_but_protected C s t \<Longrightarrow> fst (apply_attempts C ws inst t) = fst (apply_attempts C ws inst s) \<and>
     same_but_protected C (snd (apply_attempts C ws inst s)) (snd (apply_attempts C ws inst t))"
proof (induction ws arbitrary: s t)
  case (Cons w ws)
  note r = apply_step [OF Cons.prems, of w inst]
  show ?case
    using r Cons.IH
    by (cases "apply_env_to_functions C w inst s"; cases "apply_env_to_functions C w inst t")
      (auto split: sum.split)
qed simp

lemma rows_step:
  assumes "same_but_protected C s t" and "list_all2 (hidden_change C (sdb_of s)) rows rows'"
    and "\<forall>e\<in>set rows. ev_instance e \<in> instance_ids (sdb_of s)"
  shows "same_but_protected C (set_db ((sdb_of s)\<lparr>instance_env := rows\<rparr>) s)
    (set_db ((sdb_of s)\<lparr>instance_env := rows'\<rparr>) t)"
proof -
  from assms(1) obtain es where "sv_node t = with_rows es (sv_node s)" "sv_nonces t = sv_nonces s"
    by (auto simp: same_but_protected_def near_def)
  then show ?thesis
    using assms(2,3)
    by (auto simp: same_but_protected_def near_def set_db_def with_rows_def hidden_rows_def rows_of_instances_def)
qed

lemma upsert_step:
  assumes "same_but_protected C s t"
  shows "(\<exists>e. upsert_env_with_protection C nonce now inst key val prot (sdb_of s) = Inl e \<and>
      upsert_env_with_protection C nonce now inst key val prot (sdb_of t) = Inl e) \<or>
    (\<exists>d d'. upsert_env_with_protection C nonce now inst key val prot (sdb_of s) = Inr d \<and>
      upsert_env_with_protection C nonce now inst key val prot (sdb_of t) = Inr d' \<and>
      same_but_protected C (set_db d s) (set_db d' t))"
proof -
  from assms obtain es where es: "hidden_rows C (sdb_of s) es"
    and t: "sdb_of t = (sdb_of s)\<lparr>instance_env := es\<rparr>" and fk: "rows_of_instances (sdb_of s)"
    by (auto simp: same_but_protected_def near_def)
  have "\<forall>e\<in>set rows. ev_instance e \<in> instance_ids (sdb_of s)"
    if "upsert_env_with_protection C nonce now inst key val prot (sdb_of s) = Inr ((sdb_of s)\<lparr>instance_env := rows\<rparr>)"
    for rows
  proof -
    from that obtain k stored where k: "load_instance_dek C inst (sdb_of s) = Inr (Some k)" and
      d: "(sdb_of s)\<lparr>instance_env := rows\<rparr> = (sdb_of s)\<lparr>instance_env := put_env \<lparr>ev_instance = inst,
        ev_key = key, ev_value = stored, ev_protected = prot, ev_updated_at = now\<rparr> (instance_env (sdb_of s))\<rparr>"
      by (rule upsert_env_effect)
    from k have "inst \<in> instance_ids (sdb_of s)"
      by (auto simp: load_instance_dek_def instance_ids_def split: option.splits dest: find_SomeD)
    moreover from arg_cong [OF d, of instance_env] have "rows = put_env \<lparr>ev_instance = inst,
        ev_key = key, ev_value = stored, ev_protected = prot, ev_updated_at = now\<rparr> (instance_env (sdb_of s))"
      by simp
    ultimately show ?thesis using fk by (auto simp: set_put_env rows_of_instances_def)
  qed
  then show ?thesis
    using upsert_rel [OF es, of nonce now inst key val prot] rows_step [OF assms] unfolding t by blast
qed

lemma delete_step:
  assumes "same_but_protected C s t"
  shows "\<exists>hit d d'. delete_env inst key (sdb_of s) = (hit, d) \<and> delete_env inst key (sdb_of t) = (hit, d') \<and>
    same_but_protected C (set_db d s) (set_db d' t)"
proof -
  from assms obtain es where es: "hidden_rows C (sdb_of s) es"
    and t: "sdb_of t = (sdb_of s)\<lparr>instance_env := es\<rparr>" and fk: "rows_of_instances (sdb_of s)"
    by (auto simp: same_but_protected_def near_def)
  from delete_rel [OF es, of inst key] obtain hit rows rows' where
    del: "delete_env inst key (sdb_of s) = (hit, (sdb_of s)\<lparr>instance_env := rows\<rparr>)"
      "delete_env inst key (sdb_of t) = (hit, (sdb_of s)\<lparr>instance_env := rows'\<rparr>)"
    and rows: "list_all2 (hidden_change C (sdb_of s)) rows rows'"
    unfolding t by auto
  from arg_cong [OF del(1) [unfolded delete_env_def], of "\<lambda>p. instance_env (snd p)"]
  have "\<forall>e\<in>set rows. ev_instance e \<in> instance_ids (sdb_of s)"
    using fk by (auto simp: rows_of_instances_def)
  from rows_step [OF assms rows this] del show ?thesis by blast
qed

lemmas keeps_apply [in_step_intros] = keeps_bind [OF apply_step]
lemmas keeps_attempts [in_step_intros] = keeps_bind [OF attempts_step]

lemma keeps_upsert [in_step_intros]:
  assumes "keeps_step C k"
  shows "keeps_step C (\<lambda>s. case upsert_env_with_protection C nonce now inst key val prot (sdb_of s) of
     Inl e \<Rightarrow> (r e, s) | Inr d \<Rightarrow> k (set_db d s))"
proof (rule keeps_stepI, goal_cases)
  case (1 s t)
  from upsert_step [OF 1, of nonce now inst key val prot] show ?case
    using 1 assms by (auto simp: keeps_step_def)
qed

lemma keeps_delete [in_step_intros]:
  assumes "keeps_step C f" and "keeps_step C g"
  shows "keeps_step C (\<lambda>s. case delete_env inst key (sdb_of s) of
     (False, d) \<Rightarrow> g (set_db d s) | (True, d) \<Rightarrow> f (set_db d s))"
proof (rule keeps_stepI, goal_cases)
  case (1 s t)
  from delete_step [OF 1, of inst key] obtain hit d d' where "delete_env inst key (sdb_of s) = (hit, d)"
    "delete_env inst key (sdb_of t) = (hit, d')" "same_but_protected C (set_db d s) (set_db d' t)" by blast
  then show ?case using assms by (cases hit) (simp_all add: keeps_step_def)
qed

lemma keeps_set_env: "keeps_step (ac_crypto A) (set_env_handler A c nonce ws inst)"
  unfolding set_env_handler_def by (intro in_step_intros)


lemma keeps_delete_env: "keeps_step (ac_crypto A) (delete_env_handler A c w inst key)"
  unfolding delete_env_handler_def by (intro in_step_intros)

lemma keeps_provision: "keeps_step C (provision_handler A c l)"
proof (cases "js_provision (ac_json A) (ca_body c)")
  case (Some r)
  obtain req eps where r: "r = (req, eps)" by (cases r)
  let ?later = "\<lambda>p. if po_status p = ''provisioning'' then Finalize (po_id p) else Configure_archiving (po_id p)"
  have "keeps_step C (\<lambda>s. case provision_on_node (ac_node A) (ca_time c) req l (replica_endpoints_of eps) (sv_node s) of
      ((x, ts), n) \<Rightarrow> case x of
        Inl e \<Rightarrow> ((500, Internal), s\<lparr>sv_node := n, tasks := tasks s @ ts\<rparr>)
      | Inr p \<Rightarrow> ((if po_status p = ''provisioning'' then 202 else 201, Provisioned p),
          s\<lparr>sv_node := n, tasks := tasks s @ ts @ [?later p]\<rparr>))" (is "keeps_step C ?k")
    by (rule keeps_node [where F = "provision_on_node (ac_node A) (ca_time c) req l (replica_endpoints_of eps)",
        OF near_provision]) (auto split: sum.split)
  also have "?k = (\<lambda>s. case choose_provision (ac_node A) (ca_time c) req l (sv_node s) of
      (Inl e, ts, n) \<Rightarrow> ((500, Internal), s\<lparr>sv_node := n, tasks := tasks s @ ts\<rparr>)
    | (Inr r, ts, n) \<Rightarrow>
        let d = register_replicas (ca_time c) (po_id r) (replica_endpoints_of eps) (ndb n);
            pending = (po_status r = ''provisioning'');
            later = (if pending then Finalize (po_id r) else Configure_archiving (po_id r))
        in ((if pending then 202 else 201, Provisioned r),
            s\<lparr>sv_node := n\<lparr>ndb := d\<rparr>, tasks := tasks s @ ts @ [later]\<rparr>))"
    by (rule ext) (simp add: provision_on_node_def Let_def split: prod.split sum.split)
  finally have "keeps_step C (signed A c ''POST'' ''/instances'' (ca_body c) (pr_wallet req) (\<lambda>s.
      case choose_provision (ac_node A) (ca_time c) req l (sv_node s) of
      (Inl e, ts, n) \<Rightarrow> ((500, Internal), s\<lparr>sv_node := n, tasks := tasks s @ ts\<rparr>)
    | (Inr r, ts, n) \<Rightarrow>
        let d = register_replicas (ca_time c) (po_id r) (replica_endpoints_of eps) (ndb n);
            pending = (po_status r = ''provisioning'');
            later = (if pending then Finalize (po_id r) else Configure_archiving (po_id r))
        in ((if pending then 202 else 201, Provisioned r),
            s\<lparr>sv_node := n\<lparr>ndb := d\<rparr>, tasks := tasks s @ ts @ [later]\<rparr>)))"
    by (rule keeps_signed)
  then show ?thesis unfolding provision_handler_def [abs_def] Some r by simp
qed (simp add: provision_handler_def [abs_def] keeps_return)

lemma keeps_destroy: "keeps_step C (destroy_handler A c down inst wallet)"
  unfolding destroy_handler_def
proof (rule keeps_signed)
  have "keeps_step C (\<lambda>s. case destroy (ca_time c) down inst wallet (sv_node s) of (x, n) \<Rightarrow> case x of
      Inl e \<Rightarrow> ((500, Internal), s\<lparr>sv_node := n\<rparr>)
    | Inr _ \<Rightarrow> ((200, Destroyed inst), s\<lparr>sv_node := n, fn_files := (case get_instance inst wallet (sdb_of s) of
        Some i \<Rightarrow> (fn_files s)(in_dir i := None) | None \<Rightarrow> fn_files s)\<rparr>))"
    by (rule keeps_node [OF near_destroy]) (auto split: sum.split)
  then show "keeps_step C (\<lambda>s. case destroy (ca_time c) down inst wallet (sv_node s) of
      (Inl e, n) \<Rightarrow> ((500, Internal), s\<lparr>sv_node := n\<rparr>)
    | (Inr _, n) \<Rightarrow> ((200, Destroyed inst), s\<lparr>sv_node := n, fn_files := (case get_instance inst wallet (sdb_of s) of
        Some i \<Rightarrow> (fn_files s)(in_dir i := None) | None \<Rightarrow> fn_files s)\<rparr>))" .
qed


lemma keeps_resume: "keeps_step C (resume_handler A c (\<lambda>s. s) start ups inst)"
proof -
  have touch: "keeps_step C (\<lambda>s. ((200, Resumed inst b), set_db (touch_instance (ca_time c) inst (sdb_of s)) s))" for b
    by (rule keeps_touch)
  have up: "keeps_step C (\<lambda>s. case resume (ca_time c) start ups inst (sv_node s) of
      (Inl e, n) \<Rightarrow> ((500, Internal), s\<lparr>sv_node := n\<rparr>) | (Inr _, n) \<Rightarrow> ((200, Resumed inst False), s\<lparr>sv_node := n\<rparr>))"
    by (rule keeps_node [OF near_resume]) (auto split: sum.split)
  have locked: "keeps_step C (resume_locked A c start ups inst)"
    unfolding resume_locked_def
    by (rule keeps_lookup [where f = "\<lambda>s. get_instance_by_id inst (sdb_of s)"])
      (auto simp: step_lookups intro!: keeps_option keeps_if keeps_return touch up)
  have body: "keeps_step C (\<lambda>s. case get_instance_by_id inst (sdb_of s) of
      None \<Rightarrow> ((500, Internal), s)
    | Some i \<Rightarrow> if in_lifecycle i = ''running''
        then ((200, Resumed inst True), set_db (touch_instance (ca_time c) inst (sdb_of s)) s)
        else resume_locked A c start ups inst s)"
    by (rule keeps_lookup [where f = "\<lambda>s. get_instance_by_id inst (sdb_of s)"])
      (auto simp: step_lookups intro!: keeps_option keeps_if keeps_return touch locked)
  show ?thesis
    unfolding resume_handler_def by (intro keeps_option keeps_return keeps_operator body)
qed

lemma keeps_redirects: "keeps_step C (append_redirect_urls_handler A c w rs inst)"
proof -
  have "keeps_step C (\<lambda>s. case manager_append_redirects w rs inst wallet urls site (sv_node s) of
      (Inr allow_list, n) \<Rightarrow> ((200, Redirects allow_list), s\<lparr>sv_node := n\<rparr>)
    | (Inl msg, n) \<Rightarrow> (redirect_failure msg, s\<lparr>sv_node := n\<rparr>))" for wallet urls site
    by (rule keeps_node [OF near_redirects]) (auto split: sum.split)
  then show ?thesis
    unfolding append_redirect_urls_handler_def by (intro keeps_option keeps_prod keeps_return keeps_signed)
qed

lemma keeps_add_replica: "keeps_step C (add_replica_handler A c inst)"
proof -
  have "keeps_step C (\<lambda>s. case get_instance_by_id inst (sdb_of s) of
      None \<Rightarrow> ((404, Message ''instance not found on this node''), s)
    | Some i \<Rightarrow> signed A c ''POST'' (''/instances/'' @ inst @ ''/replicas'') (ca_body c) (in_wallet i) (\<lambda>s.
        case add_instance_replica (ca_time c) inst endpoint (sdb_of s) of
          Inl e \<Rightarrow> ((500, Internal), s)
        | Inr (added, d) \<Rightarrow> ((200, Replica_added inst endpoint added), set_db d s)) s)" for endpoint
    by (rule keeps_lookup [where f = "\<lambda>s. get_instance_by_id inst (sdb_of s)"])
      (auto simp: step_lookups intro!: keeps_option keeps_return keeps_signed keeps_replica)
  then show ?thesis
    unfolding add_replica_handler_def Let_def by (intro keeps_option keeps_if keeps_return)
qed

lemma keeps_force_switch: "keeps_step C (force_switch_wal_handler A c psql inst)"
proof -
  have "keeps_step C (\<lambda>s. (case switch_wal psql inst (sdb_of s) of
      None \<Rightarrow> (500, Internal) | Some name \<Rightarrow> (200, Rotated name), s))"
    by (rule keeps_lookup [where f = "\<lambda>s. switch_wal psql inst (sdb_of s)"])
      (auto simp: switch_wal_def step_lookups intro: keeps_return)
  then show ?thesis
    unfolding force_switch_wal_handler_def
    by (intro keeps_lookup [where f = "\<lambda>s. get_instance_by_id inst (sdb_of s)" and
          k = "\<lambda>x s. case x of None \<Rightarrow> ((404, Message ''instance not found on this node''), s) | Some i \<Rightarrow> f i s" for f])
      (auto simp: step_lookups intro!: keeps_option keeps_return keeps_signed)
qed

lemma keeps_readings:
  "keeps_step C (stats_handler A)"
  "keeps_step C (list_instances_handler wallet status)"
  "keeps_step C (get_instance_handler inst wallet)"
  "keeps_step C (get_instance_credentials_handler inst wallet)"
  "keeps_step C (list_replicas_handler inst)"
  "keeps_step C (list_replica_segments_handler inst)"
  "keeps_step C (list_env_keys_handler A c inst)"
proof -
  have keys: "keeps_step C (\<lambda>s. ((200, Env_keys (get_env_keys inst (sdb_of s))), s))"
    by (intro keeps_stepI) (simp add: step_lookups)
  show "keeps_step C (list_env_keys_handler A c inst)"
    unfolding list_env_keys_handler_def by (intro keeps_owner_signed keys)
qed (intro keeps_stepI; simp add: stats_handler_def list_instances_handler_def get_instance_handler_def
    get_instance_credentials_handler_def list_replicas_handler_def list_replica_segments_handler_def
    step_lookups split: option.split)+

lemma keeps_list_env: "keeps_step (ac_crypto A) (list_env_handler A c inst)"
  unfolding list_env_handler_def
proof (rule keeps_owner_signed, rule keeps_stepI)
  fix s t assume "same_but_protected (ac_crypto A) s t"
  note eq = step_lookups(7) [OF this, of inst] and this
  then show "fst (case list_env_full_with_protection (ac_crypto A) inst (sdb_of t) of
        Inl e \<Rightarrow> (500, Message ''failed to list env'') | Inr rows \<Rightarrow> (200, Env_rows (map shown_row rows)), t) =
      fst (case list_env_full_with_protection (ac_crypto A) inst (sdb_of s) of
        Inl e \<Rightarrow> (500, Message ''failed to list env'') | Inr rows \<Rightarrow> (200, Env_rows (map shown_row rows)), s) \<and>
      same_but_protected (ac_crypto A)
       (snd (case list_env_full_with_protection (ac_crypto A) inst (sdb_of s) of
        Inl e \<Rightarrow> (500, Message ''failed to list env'') | Inr rows \<Rightarrow> (200, Env_rows (map shown_row rows)), s))
       (snd (case list_env_full_with_protection (ac_crypto A) inst (sdb_of t) of
        Inl e \<Rightarrow> (500, Message ''failed to list env'') | Inr rows \<Rightarrow> (200, Env_rows (map shown_row rows)), t))"
    by (cases "list_env_full_with_protection (ac_crypto A) inst (sdb_of s)";
        cases "list_env_full_with_protection (ac_crypto A) inst (sdb_of t)") simp_all
qed

lemma keeps_plain:
  "keeps_step C (extend_handler A c later inst)"
  "keeps_step C (touch_handler A c inst)"
  "keeps_step C (pin_handler A c inst)"
  "keeps_step (ac_crypto A) (apply_env_handler A c w inst)"
  unfolding extend_handler_def touch_handler_def pin_handler_def apply_env_handler_def
  by (intro in_step_intros)+

lemma serve_keeps_step:
  assumes "same_but_protected (ac_crypto A) s t"
  shows "fst (serve_api A later c r t) = fst (serve_api A later c r s) \<and>
    same_but_protected (ac_crypto A) (snd (serve_api A later c r s)) (snd (serve_api A later c r t))"
proof -
  have "fst (h t) = fst (h s) \<and> same_but_protected (ac_crypto A) (snd (h s)) (snd (h t))"
    if "keeps_step (ac_crypto A) h" for h
    using that assms by (simp add: keeps_step_def)
  note this [OF keeps_readings(1)] this [OF keeps_readings(2)] this [OF keeps_readings(3)]
    this [OF keeps_readings(4)] this [OF keeps_readings(5)] this [OF keeps_readings(6)]
    this [OF keeps_readings(7)] this [OF keeps_provision] this [OF keeps_destroy] this [OF keeps_resume]
    this [OF keeps_redirects] this [OF keeps_add_replica] this [OF keeps_force_switch]
    this [OF keeps_set_env] this [OF keeps_delete_env] this [OF keeps_list_env] this [OF keeps_plain(1)]
    this [OF keeps_plain(2)] this [OF keeps_plain(3)] this [OF keeps_plain(4)]
  then show ?thesis by (cases r) simp_all
qed


section \<open>Sequences of requests\<close>

text \<open>Answers of a sequence of inputs, and two runs that answer alike as long as their states are related.\<close>

fun run_all :: "('i \<Rightarrow> 's \<Rightarrow> 'o \<times> 's) \<Rightarrow> 'i list \<Rightarrow> 's \<Rightarrow> 'o list \<times> 's" where
  "run_all step [] s = ([], s)"
| "run_all step (x # xs) s =
     (let (y, s1) = step x s; (ys, s2) = run_all step xs s1 in (y # ys, s2))"

locale lockstep =
  fixes step :: "'i \<Rightarrow> 's \<Rightarrow> 'o \<times> 's" and related :: "'s \<Rightarrow> 's \<Rightarrow> bool"
  assumes answers: "related s t \<Longrightarrow> fst (step x t) = fst (step x s)"
    and stays: "related s t \<Longrightarrow> related (snd (step x s)) (snd (step x t))"
begin

lemma runs_alike:
  "related s t \<Longrightarrow> fst (run_all step xs t) = fst (run_all step xs s) \<and>
     related (snd (run_all step xs s)) (snd (run_all step xs t))"
proof (induction xs arbitrary: s t)
  case (Cons x xs)
  from Cons.IH [OF stays [OF Cons.prems, of x]] answers [OF Cons.prems, of x]
  show ?case by (simp add: case_prod_unfold Let_def)
qed simp

end

interpretation api: lockstep "\<lambda>(c, r). serve_api A later c r" "same_but_protected (ac_crypto A)" for A later
  by unfold_locales (auto simp: serve_keeps_step)

text \<open>
  C1: the values of protected variables stay hidden: take two servers that differ only in them
  (each value decrypts, and the variables belong to instances of the database). Whatever sequence of
  the requests of \<open>serve_api\<close> (statistics, instances and their life cycle, credentials, operator
  calls, replicas, environment variables) they serve, by whomever, signed or not, all answers are the
  same. The other requests of the node are not covered: migrations, builds, side-cars, functions and
  the logs of these, which are given the values or run what is.
\<close>

theorem protected_values_stay_hidden:
  assumes "same_but_protected (ac_crypto A) s t"
  shows "fst (run_all (\<lambda>(c, r). serve_api A later c r) reqs t) =
    fst (run_all (\<lambda>(c, r). serve_api A later c r) reqs s)"
  using api.runs_alike [OF assms] by blast

definition secret_server :: "string \<Rightarrow> server" where
  "secret_server v = \<lparr>sv_node = \<lparr>ndb = demo_vault\<lparr>instance_env := [\<lparr>ev_instance = ''i'', ev_key = ''K'',
       ev_value = v, ev_protected = True, ev_updated_at = 0\<rparr>]\<rparr>, allocated_cores = {}, warm_pool = [],
       env_files = Map.empty\<rparr>, sv_nonces = [], fn_files = Map.empty, tasks = []\<rparr>"

definition owner_call :: call where
  "owner_call = \<lparr>ca_headers = [''X-Wallet-Pubkey'' \<mapsto> ''w''], ca_body = [], ca_wall = 0, ca_instant = 0, ca_time = 0\<rparr>"

lemma plain_opens:
  "\<not> starts_with ''enc-v'' v \<Longrightarrow> decrypt_env_value C dek inst key v = Inr v"
  by (cases "strip_prefix ENV_FORMAT_PREFIX_V2 v"; cases "strip_prefix ENV_FORMAT_PREFIX_V1 v")
    (auto simp: decrypt_env_value_def strip_prefix_iff starts_with_iff ENV_FORMAT_PREFIX_V1_def ENV_FORMAT_PREFIX_V2_def)

lemma secret_servers:
  assumes "\<not> starts_with ''enc-v'' v" and "\<not> starts_with ''enc-v'' v'"
  shows "same_but_protected C (secret_server v) (secret_server v')"
proof -
  have "with_rows [\<lparr>ev_instance = ''i'', ev_key = ''K'', ev_value = v', ev_protected = True, ev_updated_at = 0\<rparr>]
      (sv_node (secret_server v)) = sv_node (secret_server v')"
    by (simp add: with_rows_def secret_server_def)
  then show ?thesis
    using plain_opens [OF assms(1)] plain_opens [OF assms(2)]
    by (auto simp: same_but_protected_def near_def secret_server_def hidden_rows_def hidden_change_def
        rows_of_instances_def instance_ids_def demo_vault_def demo_vault_row_def empty_db_def with_rows_def
        intro!: exI [where x = "[\<lparr>ev_instance = ''i'', ev_key = ''K'', ev_value = v', ev_protected = True, ev_updated_at = 0\<rparr>]"])
qed

definition silent_readers :: readers where
  "silent_readers = \<lparr>js_set_env = Map.empty, js_extend = Map.empty, js_operator = Map.empty, js_pin = Map.empty,
     js_provision = Map.empty, js_redirects = Map.empty, js_endpoint = Map.empty\<rparr>"

definition lax_api :: api_config where
  "lax_api = \<lparr>ac_crypto = demo_crypto, ac_node = \<lparr>nc_data_dir = ''/data'', nc_hostname = ''h'', nc_public_host = '''',
     nc_port_range_start = 8000, nc_port_range_end = 8100, nc_max_instances = 1, nc_warm_pool_size = 0,
     nc_available_cpu_cores = 4, nc_smtp_host = '''', nc_smtp_port = 587, nc_smtp_user = '''',
     nc_smtp_pass = '''', nc_smtp_admin_email = '''', nc_smtp_sender_name = ''''\<rparr>,
     ac_operator = None, ac_allow_missing = Some ''1'', ac_json = silent_readers\<rparr>"

lemma owner_call_passes:
  "get_instance_by_id inst (sdb_of s) = Some i \<Longrightarrow> in_wallet i = ''w'' \<Longrightarrow> ac_allow_missing A = Some ''1'' \<Longrightarrow>
     owner_signed A owner_call method rpath body inst k s = k s"
  by (simp add: owner_signed_def extract_wallet_header_def owner_call_def trim_def is_space_def
      require_owned_instance_def signed_def verify_request_sig_def call_request_def
      sigauth_missing_allowed_def lower_def is_ascii_uppercase_def Let_def)

lemma secret_server_owner:
  "get_instance_by_id ''i'' (sdb_of (secret_server v)) = Some demo_vault_row" "in_wallet demo_vault_row = ''w''"
  by (simp_all add: get_instance_by_id_def secret_server_def demo_vault_def empty_db_def demo_vault_row_def
      Database.live_def)

lemma owner_unsigned:
  "verify_request_sig (ac_crypto lax_api) (sigauth_missing_allowed (ac_allow_missing lax_api)) (ca_wall owner_call)
     (ca_instant owner_call) (call_request owner_call verb rpath body signer) m = (Inr SigMissing, m)"
proof -
  have "sigauth_missing_allowed (Some ''1'')" by code_simp
  then show ?thesis by (simp add: verify_request_sig_def lax_api_def call_request_def owner_call_def)
qed

lemma demo_owner_row: "manager_get_instance ''i'' ''w'' (sv_node (secret_server v)) = Some demo_vault_row"
  by (simp add: manager_get_instance_def list_instances_def newest_first_def secret_server_def demo_vault_def
      empty_db_def demo_vault_row_def Database.live_def)

theorem protected_values_stay_hidden_witness:
  "fst (run_all (\<lambda>(c, r). serve_api lax_api (\<lambda>t n. Some (t + n)) c r)
      [(owner_call, List_env ''i''), (owner_call, Apply_env File_written ''i'')] (secret_server ''one'')) =
   fst (run_all (\<lambda>(c, r). serve_api lax_api (\<lambda>t n. Some (t + n)) c r)
      [(owner_call, List_env ''i''), (owner_call, Apply_env File_written ''i'')] (secret_server ''two'')) \<and>
   fst (serve_api lax_api (\<lambda>t n. Some (t + n)) owner_call (List_env ''i'') (secret_server ''one'')) =
     (200, Env_rows [(''K'', None, True, 0)])"
proof
  have one: "\<not> starts_with ''enc-v'' ''one''" and two: "\<not> starts_with ''enc-v'' ''two''"
    by (simp_all add: starts_with_def)
  from protected_values_stay_hidden [OF secret_servers [OF two one]]
  show "fst (run_all (\<lambda>(c, r). serve_api lax_api (\<lambda>t n. Some (t + n)) c r)
      [(owner_call, List_env ''i''), (owner_call, Apply_env File_written ''i'')] (secret_server ''one'')) =
   fst (run_all (\<lambda>(c, r). serve_api lax_api (\<lambda>t n. Some (t + n)) c r)
      [(owner_call, List_env ''i''), (owner_call, Apply_env File_written ''i'')] (secret_server ''two''))" .
  have key: "load_instance_dek demo_crypto ''i'' (sdb_of (secret_server v)) = Inr (Some (replicate 32 CHR ''k''))" for v
    using demo_vault_key by (simp add: secret_server_def load_instance_dek_def)
  have rows: "env_rows ''i'' (sdb_of (secret_server v)) =
      [\<lparr>ev_instance = ''i'', ev_key = ''K'', ev_value = v, ev_protected = True, ev_updated_at = 0\<rparr>]" for v
    by (simp add: env_rows_def secret_server_def)
  have "list_env_full_with_protection demo_crypto ''i'' (sdb_of (secret_server ''one'')) = Inr [(''K'', ''one'', True, 0)]"
    unfolding list_env_full_with_protection_def key rows by (simp add: plain_opens one)
  moreover have "ac_crypto lax_api = demo_crypto" "ac_allow_missing lax_api = Some ''1''"
    by (simp_all add: lax_api_def)
  ultimately show "fst (serve_api lax_api (\<lambda>t n. Some (t + n)) owner_call (List_env ''i'') (secret_server ''one'')) =
     (200, Env_rows [(''K'', None, True, 0)])"
    by (simp add: list_env_handler_def owner_call_passes [OF secret_server_owner] shown_row_def)
qed

end
