(* ===== verification/Api_Properties.thy ===== *)
theory Api_Properties
  imports Env_Secrecy
begin

text \<open>
  The properties of the HTTP interface: what a change needs, which secrets leave the node and for
  whom, and how a variable that was set comes to be in the file of the functions container.
\<close>

section \<open>Well-formed tables\<close>

definition env_ok :: "db \<Rightarrow> bool" where
  "env_ok d \<longleftrightarrow> env_keyed d \<and> (\<forall>e\<in>set (instance_env d). is_ok (check_env_key (ev_key e)))"

lemma checked_key:
  assumes "is_ok (check_env_key key)"
  shows "one_line key \<and> CHR ''='' \<notin> set key \<and> CHR ''|'' \<notin> set key \<and> key \<noteq> [] \<and> length key \<le> 128"
  using assms
  by (cases key) (auto simp: check_env_key_def is_ok_iff one_line_def list_all_iff ascii_defs split: if_splits)

text \<open>The copy of the check in \<open>path_safety.rs\<close> accepts the same keys with the same errors.\<close>

lemma key_checks_agree: "check_env_key key = Path_Safety.validate_env_key key"
  by (cases key) (simp_all add: check_env_key_def Path_Safety.validate_env_key_def env_key_char_def [abs_def] not_less)

section \<open>Reading the file of the functions container back\<close>

definition read_env_line :: "string \<Rightarrow> (string \<times> string) option" where
  "read_env_line l = (case break_on ''='' l of
     None \<Rightarrow> None
   | Some (k, quoted) \<Rightarrow>
       Option.bind (strip_prefix [CHR 0x22] quoted) (\<lambda>open.
       Option.bind (strip_suffix [CHR 0x22] open) (\<lambda>q. map_option (Pair k) (unescape q))))"

definition read_functions_env :: "string \<Rightarrow> (string \<times> string) list option" where
  "read_functions_env txt = those (map read_env_line (drop 2 (text_lines txt)))"

lemma break_on_key: "CHR ''='' \<notin> set k \<Longrightarrow> break_on ''='' (k @ CHR ''='' # r) = Some (k, r)"
  by (induction k) auto

lemma those_map: "(\<And>x. x \<in> set xs \<Longrightarrow> f x = Some (g x)) \<Longrightarrow> those (map f xs) = Some (map g xs)"
  by (induction xs) auto

lemma functions_env_read_back:
  assumes "\<forall>(k, v) \<in> set entries. is_ok (check_env_key k)"
  shows "read_functions_env (functions_env_file entries) = Some entries"
proof -
  have lines: "drop 2 (text_lines (functions_env_file entries)) = map functions_env_line entries"
    using assms checked_key by (intro functions_env_lines) blast
  have one: "read_env_line (functions_env_line kv) = Some kv" if "kv \<in> set entries" for kv
  proof -
    obtain k v where kv: "kv = (k, v)" by (cases kv)
    with that assms checked_key have "CHR ''='' \<notin> set k" by blast
    moreover have "strip_suffix [CHR 0x22] (x @ [CHR 0x22]) = Some x" for x by (simp add: strip_suffix_iff)
    ultimately show ?thesis
      by (simp add: read_env_line_def functions_env_line_def kv break_on_key unescape_escape)
  qed
  have "those (map (read_env_line \<circ> functions_env_line) entries) = Some (map (\<lambda>kv. kv) entries)"
    by (rule those_map) (simp add: one)
  then show ?thesis by (simp add: read_functions_env_def lines)
qed

section \<open>Setting a variable\<close>

lemma applied_file:
  assumes "apply_env_to_functions C w inst s = (Inr u, s1)"
  obtains i entries where "get_instance_by_id inst (sdb_of s) = Some i" and "list_env C inst (sdb_of s) = Inr entries"
    and "fn_files s1 (in_dir i) = Some (functions_env_file entries)" and "sv_node s1 = sv_node s"
    and "last (tasks s1) = Recreate_functions inst"
  using assms unfolding apply_env_to_functions_def
  by (auto split: option.splits sum.splits write_outcome.splits if_splits)

lemma attempts_file:
  assumes "apply_attempts C ws inst s = (None, s1)" and "ws \<noteq> []"
  shows "\<exists>i entries. get_instance_by_id inst (sdb_of s) = Some i \<and> list_env C inst (sdb_of s) = Inr entries \<and>
    fn_files s1 (in_dir i) = Some (functions_env_file entries) \<and> sv_node s1 = sv_node s \<and>
    last (tasks s1) = Recreate_functions inst"
  using assms
proof (induction ws arbitrary: s)
  case (Cons w ws)
  obtain x s0 where a: "apply_env_to_functions C w inst s = (x, s0)" by (cases "apply_env_to_functions C w inst s")
  show ?case
  proof (cases x)
    case (Inl e)
    with Cons.prems(1) a have "ws \<noteq> []" "apply_attempts C ws inst s0 = (None, s1)" by (auto split: if_splits)
    moreover have "sv_node s0 = sv_node s" using apply_node [of C w inst s] a by simp
    ultimately show ?thesis using Cons.IH [of s0] by simp
  next
    case (Inr u)
    with Cons.prems(1) a have "apply_env_to_functions C w inst s = (Inr u, s1)" by simp
    then show ?thesis by (rule applied_file) blast
  qed
qed simp

lemma written_value:
  assumes "vault_laws C" "length nonce = ENV_NONCE_LEN" "utf8 val" "env_keyed d"
    and up: "upsert_env_with_protection C nonce now inst key val prot d = Inr d'"
    and listed: "list_env C inst d' = Inr kvs'"
  shows "map_of kvs' key = Some val"
proof -
  from up obtain k stored where k: "load_instance_dek C inst d = Inr (Some k)" "length k = 32"
    and enc: "encrypt_env_value C nonce k inst key val = Inr stored"
    and d': "d' = d\<lparr>instance_env := put_env \<lparr>ev_instance = inst, ev_key = key, ev_value = stored,
        ev_protected = prot, ev_updated_at = now\<rparr> (instance_env d)\<rparr>"
    by (rule upsert_env_effect)
  let ?r = "\<lparr>ev_instance = inst, ev_key = key, ev_value = stored, ev_protected = prot, ev_updated_at = now\<rparr>"
  have "decrypt_env_value C (Some k) inst key stored = Inr val"
    by (rule sealed_opens(1) [OF assms(1) k(2) assms(2,3) enc])
  moreover have "?r \<in> set (env_rows inst d')" by (simp add: set_env_rows d' set_put_env)
  moreover have "distinct (map ev_key (env_rows inst d'))"
    using assms(4) put_env_keys by (auto intro!: env_keyed_rows simp: d' env_keyed_def)
  moreover have "list_all2 (\<lambda>e (k', v). ev_key e = k' \<and> decrypt_env_value C (Some k) inst (ev_key e) (ev_value e) = Inr v)
      (env_rows inst d') kvs'"
    using listed k(1) by (simp add: list_env_iff d')
  ultimately show ?thesis
    using list_all2_map_of [where g = ev_key and k = key and v = val] by fastforce
qed

lemma listed_keys:
  assumes "list_env C inst d = Inr kvs" and "\<forall>e\<in>set (instance_env d). is_ok (check_env_key (ev_key e))"
  shows "\<forall>(k, v) \<in> set kvs. is_ok (check_env_key k)"
proof -
  have "list_all2 (\<lambda>e (k, v). ev_key e = k) (env_rows inst d) kvs"
    using assms(1) unfolding list_env_iff by (auto elim!: list_all2_mono)
  then have "map fst kvs = map ev_key (env_rows inst d)"
    by (induction rule: list_all2_induct) auto
  then have "fst ` set kvs = ev_key ` set (env_rows inst d)" by (metis set_map)
  then have "fst kv \<in> ev_key ` set (instance_env d)" if "kv \<in> set kvs" for kv
    using that by (auto simp: set_env_rows)
  then show ?thesis using assms(2) by fastforce
qed


lemma owner_signed_answers:
  assumes "owner_signed A c verb route body inst k s = ((code, pl), s')" and "code \<notin> {401, 403, 404}"
  obtains i m where "get_instance_by_id inst (sdb_of s) = Some i"
    and "accepted A c verb route body (in_wallet i) (sv_nonces s)"
    and "k (s\<lparr>sv_nonces := m\<rparr>) = ((code, pl), s')"
proof -
  from assms obtain wallet i where i: "get_instance_by_id inst (sdb_of s) = Some i" "in_wallet i = wallet"
    and sg: "signed A c verb route body wallet k s = ((code, pl), s')"
    by (auto simp: owner_signed_def require_owned_instance_def extract_wallet_header_def Let_def
        split: option.splits if_splits)
  from sg assms(2) show thesis
    using i that unfolding signed_def accepted_def by (auto split: prod.splits sum.splits)
qed

lemma set_env_success:
  assumes served: "set_env_handler A c nonce ws inst s = ((200, Env_set True key True), s')"
    and body: "js_set_env (ac_json A) (ca_body c) = Some (key, val, prot)"
  shows "\<exists>d m. is_ok (check_env_key key) \<and>
    upsert_env_with_protection (ac_crypto A) nonce (ca_time c) inst key val prot (sdb_of s) = Inr d \<and>
    apply_attempts (ac_crypto A) [fst ws, snd ws] inst (set_db d (s\<lparr>sv_nonces := m\<rparr>)) = (None, s')"
  using served unfolding set_env_handler_def
  by (rule owner_signed_answers)
    (auto simp: body simp del: apply_attempts.simps split: sum.splits if_splits prod.splits option.splits)


text \<open>
  C12: a variable that was set reaches the file of the functions container. When the handler answers
  that the variable is set and applied, the listing of the instance has the new value under the key
  and every other key as before; the file under the directory of the instance, read line by line,
  is exactly this listing; the table stays well formed; and the recreation of the container has
  been spawned, no more: its outcome is not known when the request is answered.
\<close>
theorem env_set_reaches_functions:
  assumes "vault_laws (ac_crypto A)" and "length nonce = ENV_NONCE_LEN" and "env_ok (sdb_of s)"
    and "js_set_env (ac_json A) (ca_body c) = Some (key, val, prot)" and "utf8 val"
    and "set_env_handler A c nonce ws inst s = ((200, Env_set True key True), s')"
  shows "\<exists>i entries txt. get_instance_by_id inst (sdb_of s) = Some i \<and>
    list_env (ac_crypto A) inst (sdb_of s') = Inr entries \<and> map_of entries key = Some val \<and>
    (\<forall>kvs. list_env (ac_crypto A) inst (sdb_of s) = Inr kvs \<longrightarrow> map_of entries = (map_of kvs)(key \<mapsto> val)) \<and>
    fn_files s' (in_dir i) = Some txt \<and> read_functions_env txt = Some entries \<and>
    last (tasks s') = Recreate_functions inst \<and> env_ok (sdb_of s')"
proof -
  from set_env_success [OF assms(6,4)] obtain d m where key: "is_ok (check_env_key key)"
    and up: "upsert_env_with_protection (ac_crypto A) nonce (ca_time c) inst key val prot (sdb_of s) = Inr d"
    and tries: "apply_attempts (ac_crypto A) [fst ws, snd ws] inst (set_db d (s\<lparr>sv_nonces := m\<rparr>)) = (None, s')"
    by blast
  from up obtain k stored where d: "d = (sdb_of s)\<lparr>instance_env := put_env \<lparr>ev_instance = inst, ev_key = key,
      ev_value = stored, ev_protected = prot, ev_updated_at = ca_time c\<rparr> (instance_env (sdb_of s))\<rparr>"
    by (rule upsert_env_effect)
  from attempts_file [OF tries] obtain i entries where i: "get_instance_by_id inst d = Some i"
    and listed: "list_env (ac_crypto A) inst d = Inr entries"
    and written: "fn_files s' (in_dir i) = Some (functions_env_file entries)"
    and node: "sdb_of s' = d" and task: "last (tasks s') = Recreate_functions inst"
    by (auto simp: set_db_def)
  have ok: "env_ok d"
    using assms(3) key unfolding env_ok_def env_keyed_def d by (auto simp: set_put_env put_env_keys)
  have keyed: "env_keyed (sdb_of s)" using assms(3) by (simp add: env_ok_def)
  have "map_of entries = (map_of kvs)(key \<mapsto> val)" if "list_env (ac_crypto A) inst (sdb_of s) = Inr kvs" for kvs
    using env_write_read [OF assms(1,2,5) keyed up that] listed by auto
  moreover have "map_of entries key = Some val"
    by (rule written_value [OF assms(1,2,5) keyed up listed])
  moreover have "read_functions_env (functions_env_file entries) = Some entries"
    by (rule functions_env_read_back, rule listed_keys [OF listed]) (use ok in \<open>simp add: env_ok_def\<close>)
  moreover have "get_instance_by_id inst (sdb_of s) = Some i" using i by (simp add: d)
  ultimately show ?thesis using listed written node task ok by auto
qed

text \<open>A permissive server on which the owner sets a protected variable.\<close>

definition setting_api :: api_config where
  "setting_api = lax_api\<lparr>ac_json := silent_readers\<lparr>js_set_env := (\<lambda>_. Some (''A'', ''v'', True))\<rparr>\<rparr>"


theorem env_set_reaches_functions_witness:
  "\<exists>s' txt entries. set_env_handler setting_api owner_call (replicate 12 CHR ''n'') (Dir_failed, File_written) ''i''
      (secret_server ''old'') = ((200, Env_set True ''A'' True), s') \<and>
    fn_files s' (in_dir demo_vault_row) = Some txt \<and> read_functions_env txt = Some entries \<and>
    map_of entries ''A'' = Some ''v''"
proof -
  let ?s = "secret_server ''old''" and ?n = "replicate 12 CHR ''n''"
  have laws: "vault_laws (ac_crypto setting_api)" and cr: "ac_crypto setting_api = demo_crypto"
    and lax: "ac_allow_missing setting_api = Some ''1''"
    using demo_vault_laws by (simp_all add: setting_api_def lax_api_def)
  have body: "js_set_env (ac_json setting_api) (ca_body owner_call) = Some (''A'', ''v'', True)"
    by (simp add: setting_api_def)
  have n: "length ?n = ENV_NONCE_LEN" by (simp add: ENV_NONCE_LEN_def)
  have ok: "env_ok (sdb_of ?s)"
    by (simp add: env_ok_def env_keyed_def secret_server_def check_env_key_def ascii_defs)
  have key: "load_instance_dek demo_crypto ''i'' (sdb_of ?s) = Inr (Some (replicate 32 CHR ''k''))"
    using demo_vault_key by (simp add: secret_server_def load_instance_dek_def)
  obtain stored where enc: "encrypt_env_value demo_crypto ?n (replicate 32 CHR ''k'') ''i'' ''A'' ''v'' = Inr stored"
    using demo_seals by blast
  let ?row = "\<lparr>ev_instance = ''i'', ev_key = ''A'', ev_value = stored, ev_protected = True, ev_updated_at = 0\<rparr>"
  let ?d = "(sdb_of ?s)\<lparr>instance_env := put_env ?row (instance_env (sdb_of ?s))\<rparr>"
  have up: "upsert_env_with_protection demo_crypto ?n (ca_time owner_call) ''i'' ''A'' ''v'' True (sdb_of ?s) = Inr ?d"
    unfolding upsert_env_with_protection_def key
    by (simp add: enc secret_server_def env_slot_def owner_call_def)
  have old: "list_env demo_crypto ''i'' (sdb_of ?s) = Inr [(''K'', ''old'')]"
    unfolding list_env_def key
    by (simp add: env_rows_def secret_server_def plain_opens starts_with_def)
  obtain kvs where listed: "list_env demo_crypto ''i'' ?d = Inr kvs"
    using env_write_read [OF demo_vault_laws n _ _ up old] ok by (auto simp: env_ok_def)
  have "\<exists>s'. apply_attempts demo_crypto [Dir_failed, File_written] ''i'' (set_db ?d ?s) = (None, s')"
    by (simp add: apply_env_to_functions_def listed secret_server_owner)
  then obtain s' where tries: "apply_attempts demo_crypto [Dir_failed, File_written] ''i'' (set_db ?d ?s) = (None, s')" ..
  have served: "set_env_handler setting_api owner_call ?n (Dir_failed, File_written) ''i'' ?s =
      ((200, Env_set True ''A'' True), s')"
    unfolding set_env_handler_def owner_call_passes [OF secret_server_owner lax] body
    by (simp add: cr up tries check_env_key_def ascii_defs del: apply_attempts.simps)
  from env_set_reaches_functions [OF laws n ok body _ served] served secret_server_owner(1)
  show ?thesis by auto
qed


section \<open>Signatures and secrets\<close>

lemma accepted_cases:
  assumes "accepted A c verb route body signer m"
  defines "v \<equiv> fst (verify_request_sig (ac_crypto A) (sigauth_missing_allowed (ac_allow_missing A)) (ca_wall c)
    (ca_instant c) (call_request c verb route body signer) m)"
  shows "v = Inr SigVerified \<or> sigauth_missing_allowed (ac_allow_missing A) \<and> v = Inr SigMissing \<and>
    ca_headers c ''X-Kraph-Auth-Sig'' = None"
proof -
  have "verify_crypto C rq sig nonce ts \<noteq> Inr SigMissing" for C rq sig nonce ts
    by (auto simp: verify_crypto_def Let_def ok_simps)
  then show ?thesis
    using assms unfolding accepted_def is_ok_iff verify_request_sig_def
    by (auto simp: call_request_def split: option.splits prod.splits bool.splits if_splits sig_outcome.splits)
      (metis sig_outcome.exhaust)+
qed

text \<open>
  C11: nothing that lasts changes without a signature. If serving a request changes the database, a
  file, the cores, the warm pool or the spawned tasks, then the request was signed for its very
  verb, path and body by the party it concerns: the wallet the new instance belongs to, the owner
  of the instance, the configured operator (any signer when none is configured); an empty wallet
  counts as the owner for the redirect list. Only when missing signatures are allowed may the
  signature be missing.
\<close>
theorem api_changes_need_signatures:
  assumes "serve_api A later c r s = (resp, s')" and "lasting s' \<noteq> lasting s"
  shows "\<exists>verb route body signer v. ticket A c r (sdb_of s) = Some (verb, route, body, signer) \<and>
    entitled A r signer (sdb_of s) (sdb_of s') \<and>
    v = fst (verify_request_sig (ac_crypto A) (sigauth_missing_allowed (ac_allow_missing A)) (ca_wall c)
      (ca_instant c) (call_request c verb route body signer) (sv_nonces s)) \<and>
    (v = Inr SigVerified \<or> sigauth_missing_allowed (ac_allow_missing A) \<and> v = Inr SigMissing \<and>
      ca_headers c ''X-Kraph-Auth-Sig'' = None)"
proof -
  from changes_signed [OF assms] obtain verb route body signer where
    t: "ticket A c r (sdb_of s) = Some (verb, route, body, signer)"
    and ok: "accepted A c verb route body signer (sv_nonces s)"
    and who: "entitled A r signer (sdb_of s) (sdb_of s')" by blast
  show ?thesis
    by (intro exI conjI, rule t, rule who, rule refl, rule accepted_cases [OF ok])
qed

definition touching_api :: api_config where
  "touching_api = lax_api\<lparr>ac_json := silent_readers\<lparr>js_operator := (\<lambda>_. Some ''anyone'')\<rparr>\<rparr>"

theorem api_changes_need_signatures_witness:
  "\<exists>s' verb route body signer. serve_api touching_api (\<lambda>t n. None) owner_call (Touch ''i'') (secret_server ''v'') =
      ((200, Touched ''i''), s') \<and> lasting s' \<noteq> lasting (secret_server ''v'') \<and>
    ticket touching_api owner_call (Touch ''i'') (sdb_of (secret_server ''v'')) = Some (verb, route, body, signer) \<and>
    signer = ''anyone''"
proof -
  let ?s = "secret_server ''v''" and ?r = "Touch ''i''"
  let ?s' = "set_db (touch_instance 0 ''i'' (sdb_of ?s)) ?s"
  have "?s\<lparr>sv_nonces := sv_nonces ?s\<rparr> = ?s" by simp
  then have served: "serve_api touching_api (\<lambda>t n. None) owner_call ?r ?s = ((200, Touched ''i''), ?s')"
    by (simp add: touch_handler_def verify_operator_signed_def signed_def verify_request_sig_def
        call_request_def owner_call_def touching_api_def lax_api_def sigauth_missing_allowed_def lower_def
        is_ascii_uppercase_def trim_def is_space_def Let_def)
  have "map in_last_seen (instances (sdb_of ?s')) \<noteq> map in_last_seen (instances (sdb_of ?s))"
    by (simp add: set_db_def touch_instance_def update_instance_def secret_server_def demo_vault_def
        empty_db_def demo_vault_row_def)
  then have "sdb_of ?s' \<noteq> sdb_of ?s" by metis
  then have changed: "lasting ?s' \<noteq> lasting ?s" unfolding lasting_def by (metis fst_conv)
  from api_changes_need_signatures [OF served changed] obtain verb route body signer where
    t: "ticket touching_api owner_call ?r (sdb_of ?s) = Some (verb, route, body, signer)" by blast
  moreover have "signer = ''anyone''" using t by (simp add: touching_api_def)
  ultimately show ?thesis using served changed by blast
qed

definition secretive :: "payload \<Rightarrow> bool" where
  "secretive pl \<longleftrightarrow> (\<exists>rows. pl = Env_rows rows) \<or> (\<exists>inst w ports sec. pl = Credentials inst w ports sec)"

lemma plain_payloads [simp]:
  "\<not> secretive (Message m)" "\<not> secretive (Sig_refused e)" "\<not> secretive (Key_refused pe)" "\<not> secretive Reserved"
  "\<not> secretive (Apply_error ne)" "\<not> secretive (Env_set b key ap)" "\<not> secretive (Env_keys ks)"
  "\<not> secretive (Env_deleted key ap)" "\<not> secretive Env_applied" "\<not> secretive Internal" "\<not> secretive (Stats st)"
  "\<not> secretive (Provisioned p)" "\<not> secretive (Instances is)" "\<not> secretive (Instance i)" "\<not> secretive (Destroyed inst)"
  "\<not> secretive (Extended inst)" "\<not> secretive (Touched inst)" "\<not> secretive (Resumed inst b)" "\<not> secretive (Pinned inst t)"
  "\<not> secretive (Redirects l)" "\<not> secretive (Replica_added inst ep b)" "\<not> secretive (Replicas reps)"
  "\<not> secretive (Rotated l)" "\<not> secretive (Segments segs)"
  by (simp_all add: secretive_def)

lemma signed_plain:
  "(\<And>s. \<not> secretive (snd (fst (k s)))) \<Longrightarrow> \<not> secretive (snd (fst (signed A c verb route body signer k s)))"
  by (simp add: signed_def split: prod.split sum.split)

lemma owner_signed_plain:
  "(\<And>s. \<not> secretive (snd (fst (k s)))) \<Longrightarrow> \<not> secretive (snd (fst (owner_signed A c verb route body inst k s)))"
  by (simp add: owner_signed_def extract_wallet_header_def require_owned_instance_def Let_def signed_plain
      split: option.split sum.split)

lemma operator_plain:
  "(\<And>s. \<not> secretive (snd (fst (k s)))) \<Longrightarrow> \<not> secretive (snd (fst (verify_operator_signed A c route operator k s)))"
  by (simp add: verify_operator_signed_def signed_plain)

lemma secret_answers:
  assumes "secretive (snd (fst (serve_api A later c r s)))"
  shows "(\<exists>inst. r = List_env inst) \<or> (\<exists>inst w. r = Get_credentials inst w)"
proof (rule ccontr)
  note plain = signed_plain owner_signed_plain operator_plain
  assume "\<not> ((\<exists>inst. r = List_env inst) \<or> (\<exists>inst w. r = Get_credentials inst w))"
  then have "\<not> secretive (snd (fst (serve_api A later c r s)))"
  proof (cases r)
    case (Set_env nonce ws inst)
    then show ?thesis
      by (simp add: set_env_handler_def)
        (rule owner_signed_plain, simp split: option.split prod.split sum.split del: apply_attempts.simps)
  qed (simp_all add: stats_handler_def list_instances_handler_def get_instance_handler_def provision_handler_def
      destroy_handler_def extend_handler_def touch_handler_def resume_handler_def resume_locked_def pin_handler_def
      append_redirect_urls_handler_def redirect_failure_def add_replica_handler_def list_replicas_handler_def
      force_switch_wal_handler_def list_replica_segments_handler_def list_env_keys_handler_def
      delete_env_handler_def apply_env_handler_def Let_def plain
      split: option.split prod.split sum.split bool.split)
  with assms show False by simp
qed


lemma owner_signed_payload:
  assumes "fst (owner_signed A c verb route body inst k s) = (code, Env_rows rows)"
  shows "\<exists>i. get_instance_by_id inst (sdb_of s) = Some i \<and> accepted A c verb route body (in_wallet i) (sv_nonces s)"
proof -
  from assms obtain wallet i where i: "get_instance_by_id inst (sdb_of s) = Some i" "in_wallet i = wallet"
    and sg: "fst (signed A c verb route body wallet k s) = (code, Env_rows rows)"
    by (auto simp: owner_signed_def require_owned_instance_def extract_wallet_header_def Let_def
        split: option.splits if_splits)
  from sg i show ?thesis unfolding signed_def accepted_def by (auto split: prod.splits sum.splits)
qed

lemma credentials_answer:
  "if owns wallet inst (sdb_of s)
   then \<exists>i\<in>set (instances (sdb_of s)). in_id i = inst \<and> in_wallet i = wallet \<and> Database.live i \<and>
     get_instance_credentials_handler inst wallet s =
       ((200, Credentials inst wallet (in_ports i)
         ((in_secrets i)\<lparr>dashboard_password := [], wal_encryption_key := []\<rparr>)), s)
   else get_instance_credentials_handler inst wallet s = ((200, Message ''not found''), s)"
proof (cases "find (\<lambda>i. in_id i = inst) (list_instances wallet None (sdb_of s))")
  case None
  then have "\<not> owns wallet inst (sdb_of s)"
    by (auto simp: owns_def find_None_iff list_instances_def newest_first_def)
  then show ?thesis by (simp add: get_instance_credentials_handler_def None)
next
  case (Some i)
  then have i: "i \<in> set (instances (sdb_of s))" "in_id i = inst" "in_wallet i = wallet" "Database.live i"
    by (auto dest!: find_SomeD simp: list_instances_def newest_first_def)
  then have "owns wallet inst (sdb_of s)" by (auto simp: owns_def)
  then show ?thesis using i by (auto simp: get_instance_credentials_handler_def Some)
qed

text \<open>
  C13: which secrets a request can read. Values of variables are listed only to a call accepted as
  signed by the owner of the instance; the keys and the password of an instance are given to
  whoever names the instance and its wallet, whatever the headers, the body and the configuration,
  and no other request answers with them.
\<close>
theorem secrets_and_who_reads_them:
  "(fst (serve_api A later c r s) = (code, Env_rows rows) \<longrightarrow>
      (\<exists>inst i. r = List_env inst \<and> get_instance_by_id inst (sdb_of s) = Some i \<and>
        accepted A c ''GET'' (env_path inst) [] (in_wallet i) (sv_nonces s))) \<and>
   (if owns wallet inst (sdb_of s)
    then \<exists>i\<in>set (instances (sdb_of s)). in_id i = inst \<and> in_wallet i = wallet \<and> Database.live i \<and>
      serve_api A later c (Get_credentials inst wallet) s =
        ((200, Credentials inst wallet (in_ports i)
          ((in_secrets i)\<lparr>dashboard_password := [], wal_encryption_key := []\<rparr>)), s)
    else serve_api A later c (Get_credentials inst wallet) s = ((200, Message ''not found''), s)) \<and>
   (fst (serve_api A later c r s) = (code, Credentials inst' wallet' ports sec) \<longrightarrow>
      r = Get_credentials inst' wallet')"
proof (intro conjI impI)
  assume rows: "fst (serve_api A later c r s) = (code, Env_rows rows)"
  then have "secretive (snd (fst (serve_api A later c r s)))" by (simp add: secretive_def)
  from secret_answers [OF this] rows obtain inst where r: "r = List_env inst"
    by (auto simp: get_instance_credentials_handler_def split: option.splits)
  with rows have "fst (list_env_handler A c inst s) = (code, Env_rows rows)" by simp
  from owner_signed_payload [OF this [unfolded list_env_handler_def]] r
  show "\<exists>inst i. r = List_env inst \<and> get_instance_by_id inst (sdb_of s) = Some i \<and>
      accepted A c ''GET'' (env_path inst) [] (in_wallet i) (sv_nonces s)" by blast
next
  assume cred: "fst (serve_api A later c r s) = (code, Credentials inst' wallet' ports sec)"
  then have "secretive (snd (fst (serve_api A later c r s)))" by (simp add: secretive_def)
  from secret_answers [OF this] show "r = Get_credentials inst' wallet'"
  proof (elim disjE exE)
    fix inst assume "r = List_env inst"
    with cred have "fst (list_env_handler A c inst s) = (code, Credentials inst' wallet' ports sec)" by simp
    then show ?thesis
      by (auto simp: list_env_handler_def owner_signed_def signed_def extract_wallet_header_def
          require_owned_instance_def Let_def split: option.splits sum.splits prod.splits if_splits)
  next
    fix inst w assume r: "r = Get_credentials inst w"
    with cred credentials_answer [of w inst s] show ?thesis by (auto split: if_splits)
  qed
qed (use credentials_answer in simp)

theorem secrets_and_who_reads_them_witness:
  "\<exists>inst i. List_env ''i'' = List_env inst \<and>
     get_instance_by_id inst (sdb_of (secret_server ''one'')) = Some i \<and>
     accepted lax_api owner_call ''GET'' (env_path inst) [] (in_wallet i) (sv_nonces (secret_server ''one''))"
proof -
  have key: "load_instance_dek demo_crypto ''i'' (sdb_of (secret_server v)) = Inr (Some (replicate 32 CHR ''k''))" for v
    using demo_vault_key by (simp add: secret_server_def load_instance_dek_def)
  have "list_env_full_with_protection demo_crypto ''i'' (sdb_of (secret_server ''one'')) = Inr [(''K'', ''one'', True, 0)]"
    unfolding list_env_full_with_protection_def key
    by (simp add: env_rows_def secret_server_def plain_opens starts_with_def)
  moreover have "ac_crypto lax_api = demo_crypto" "ac_allow_missing lax_api = Some ''1''" by (simp_all add: lax_api_def)
  ultimately have "fst (serve_api lax_api (\<lambda>t n. None) owner_call (List_env ''i'') (secret_server ''one'')) =
      (200, Env_rows [(''K'', None, True, 0)])"
    by (simp add: list_env_handler_def owner_call_passes [OF secret_server_owner] shown_row_def)
  from conjunct1 [OF secrets_and_who_reads_them, rule_format, OF this] show ?thesis .
qed

end
