(* ===== verification/Migration_Scripts.thy ===== *)
theory Migration_Scripts
  imports Kraph_Text
begin

text \<open>
  The command lines and shell scripts of the database migration (\<open>db_migration.rs\<close>). A script is
  translated to what it prints and the status it exits with, given what the tools it calls
  (\<open>pg_dump\<close>, \<open>pg_restore\<close>, \<open>psql\<close>, \<open>wc\<close>, \<open>date\<close>) answer to their command lines.
\<close>

section \<open>Requests and their limits\<close>

record migration_request =
  mg_wallet :: string
  mg_source_url :: string
  mg_source_url_env :: "string option"
  mg_target_url :: string
  mg_mode :: "string option"
  mg_schema_only :: bool
  mg_data_only :: bool
  mg_exclude_schemas :: "string list option"
  mg_exclude_tables :: "string list option"
  mg_include_tables :: "string list option"
  mg_timeout_secs :: "u64 option"
  mg_parallel_jobs :: "u32 option"

datatype migrate_error =
    Wrong_mode string
  | Schema_and_data
  | Unsafe_exclude_schema string
  | Unsafe_exclude_table string
  | Unsafe_include_table string
  | Unsafe_pubsub string
  | Image_failed string
  | Create_failed string
  | Start_failed string
  | Wait_failed string
  | Timed_out u64
  | Log_slice_panic
  | Probe_failed int string
  | Probe_no_row string
  | Kill_failed string

definition DEFAULT_TIMEOUT_SECS :: u64 where "DEFAULT_TIMEOUT_SECS = 30 * 60"
definition MAX_TIMEOUT_SECS :: u64 where "MAX_TIMEOUT_SECS = 2 * 60 * 60"

definition clamp_timeout_secs :: "u64 option \<Rightarrow> u64" where
  "clamp_timeout_secs supplied =
     min (case supplied of Some n \<Rightarrow> n | None \<Rightarrow> DEFAULT_TIMEOUT_SECS) MAX_TIMEOUT_SECS"

definition is_pg_identifier_safe :: "string \<Rightarrow> bool" where
  "is_pg_identifier_safe s \<longleftrightarrow> s \<noteq> [] \<and>
     list_all (\<lambda>c. is_ascii_alphanumeric c \<or> c = CHR ''_'' \<or> c = CHR ''-'') s"

definition is_pg_table_pattern_safe :: "string \<Rightarrow> bool" where
  "is_pg_table_pattern_safe s \<longleftrightarrow> s \<noteq> [] \<and>
     list_all (\<lambda>c. is_ascii_alphanumeric c \<or> c = CHR ''_'' \<or> c = CHR ''-'' \<or> c = CHR ''.'' \<or> c = CHR ''*'') s"

definition DEFAULT_EXCLUDE_SCHEMAS :: "string list" where
  "DEFAULT_EXCLUDE_SCHEMAS = [''auth'', ''storage'', ''realtime'', ''supabase_functions'', ''extensions'',
     ''graphql'', ''graphql_public'', ''net'', ''pgsodium'', ''pgsodium_masks'', ''vault'', ''_realtime'',
     ''_analytics'', ''pg_catalog'', ''information_schema'', ''pgbouncer'']"

section \<open>Arguments\<close>

text \<open>The loop over a list from the request: the first unsafe value refuses it.\<close>

fun safe_args :: "(string \<Rightarrow> bool) \<Rightarrow> (string \<Rightarrow> migrate_error) \<Rightarrow> string \<Rightarrow> string list \<Rightarrow>
    migrate_error + string list" where
  "safe_args ok err opt [] = Inr []"
| "safe_args ok err opt (x # xs) =
     guard (ok x) (err x) (rbind (safe_args ok err opt xs) (\<lambda>args. Inr ((opt @ x) # args)))"

definition exclude_schemas_of :: "migration_request \<Rightarrow> string list" where
  "exclude_schemas_of req =
     (case mg_exclude_schemas req of Some l \<Rightarrow> l | None \<Rightarrow> DEFAULT_EXCLUDE_SCHEMAS)"

definition bulk_dump_args :: "migration_request \<Rightarrow> migrate_error + string list" where
  "bulk_dump_args req =
     rbind (safe_args is_pg_identifier_safe Unsafe_exclude_schema ''--exclude-schema='' (exclude_schemas_of req)) (\<lambda>a1.
     rbind (case mg_exclude_tables req of
         Some l \<Rightarrow> safe_args is_pg_table_pattern_safe Unsafe_exclude_table ''--exclude-table='' l
       | None \<Rightarrow> Inr []) (\<lambda>a2.
     rbind (case mg_include_tables req of
         Some l \<Rightarrow> safe_args is_pg_table_pattern_safe Unsafe_include_table ''--table='' l
       | None \<Rightarrow> Inr []) (\<lambda>a3.
     Inr ([''-Fc'', ''--no-owner'', ''--no-privileges'', ''--no-comments'', ''--verbose'', ''--quote-all-identifiers''] @
       (if mg_schema_only req then [''--schema-only''] else []) @
       (if mg_data_only req then [''--data-only''] else []) @ a1 @ a2 @ a3 @ [''$KRAPH_SOURCE_URL'']))))"

definition parallel_of :: "migration_request \<Rightarrow> u32" where
  "parallel_of req = max 1 (min 16 (case mg_parallel_jobs req of Some n \<Rightarrow> n | None \<Rightarrow> 4))"

definition bulk_restore_args :: "migration_request \<Rightarrow> string list" where
  "bulk_restore_args req =
     [''--no-owner'', ''--no-privileges'', ''--no-comments'', ''--verbose''] @
     (if 1 < parallel_of req then [''--jobs='' @ show_int (uint (parallel_of req))] else [''--single-transaction'']) @
     [''--dbname=$KRAPH_TARGET_URL'']"

definition live_dump_args :: "string list \<Rightarrow> string list" where
  "live_dump_args exclude_schemas =
     [''-Fc'', ''--no-owner'', ''--no-privileges'', ''--no-comments'', ''--schema-only'', ''--verbose'',
      ''--quote-all-identifiers''] @ map (\<lambda>s. ''--exclude-schema='' @ s) exclude_schemas @ [''$KRAPH_SOURCE_URL'']"

definition live_restore_args :: "string list" where
  "live_restore_args = [''--no-owner'', ''--no-privileges'', ''--no-comments'', ''--single-transaction'',
     ''--dbname=$KRAPH_TARGET_URL'']"

definition pub_sql :: "string \<Rightarrow> string" where
  "pub_sql p = ''DROP PUBLICATION IF EXISTS '' @ p @ ''; CREATE PUBLICATION '' @ p @ '' FOR ALL TABLES;''"

definition quoted_src :: string where "quoted_src = '':'' @ [CHR 0x27] @ ''src'' @ [CHR 0x27]"

definition sub_sql :: "string \<Rightarrow> string" where
  "sub_sql p = ''DROP SUBSCRIPTION IF EXISTS '' @ p @ ''; CREATE SUBSCRIPTION '' @ p @ '' CONNECTION '' @
     quoted_src @ '' PUBLICATION '' @ p @ '';''"

section \<open>The scripts\<close>

text \<open>A tool prints lines and has a status. \<open>pt_restore\<close> gets the filtered table of contents, if any.\<close>

record tool =
  tl_rc :: nat
  tl_out :: "string list"

record pg_tools =
  pt_dump :: "string \<Rightarrow> tool"
  pt_size :: string
  pt_toc :: "nat \<times> string list"
  pt_restore :: "string \<Rightarrow> string list option \<Rightarrow> tool"
  pt_publish :: "string \<Rightarrow> tool"
  pt_subscribe :: "string \<Rightarrow> tool"

definition marker :: string where "marker = ''::kraph-migrate-result::''"

definition rc_str :: "tool \<Rightarrow> string" where "rc_str t = dec_digits (tl_rc t)"

text \<open>The table of contents without event triggers; a failing \<open>pg_restore -l\<close> goes on without it.\<close>

definition filter_toc :: "pg_tools \<Rightarrow> string list \<times> string list option" where
  "filter_toc T =
     (let (rc, toc) = pt_toc T in
      if rc \<noteq> 0 then ([''[kraph-migrate] pg_restore -l failed rc='' @ dec_digits rc @ ''; proceeding without TOC filter''], None)
      else let filtered = filter (\<lambda>l. \<not> contains ''EVENT TRIGGER'' l) toc in
        ([''[kraph-migrate] TOC filtered: '' @ dec_digits (length toc - length filtered) @ '' EVENT TRIGGER entries removed''],
         if filtered = [] then None else Some filtered))"

definition dump_line :: "string list \<Rightarrow> string" where "dump_line args = ''pg_dump '' @ join '' '' args"
definition restore_line :: "string list \<Rightarrow> string" where "restore_line args = ''pg_restore '' @ join '' '' args"

definition bulk_script :: "nat \<Rightarrow> string list \<Rightarrow> string list \<Rightarrow> pg_tools \<Rightarrow> string list \<times> nat" where
  "bulk_script exclude_count dump_args restore_args T =
     (let d = pt_dump T (dump_line dump_args);
        head = [''[kraph-migrate] starting bulk pg_dump (exclude_schemas='' @ dec_digits exclude_count @ '')''] @ tl_out d @
          [''[kraph-migrate] pg_dump rc='' @ rc_str d @ '' dump_size='' @ pt_size T]
      in if tl_rc d \<noteq> 0 then (head @ [marker @ '' dump='' @ rc_str d @ '' restore=skipped''], tl_rc d)
      else let (said, toc) = filter_toc T;
        r = pt_restore T (restore_line restore_args) toc
      in (head @ said @ [''[kraph-migrate] starting pg_restore''] @ tl_out r @
          [''[kraph-migrate] pg_restore rc='' @ rc_str r, marker @ '' dump='' @ rc_str d @ '' restore='' @ rc_str r],
          if tl_rc d = 0 \<and> tl_rc r = 0 then 0 else 1))"

definition live_script :: "string \<Rightarrow> string list \<Rightarrow> string list \<Rightarrow> pg_tools \<Rightarrow> string list \<times> nat" where
  "live_script pubsub dump_args restore_args T =
     (let d = pt_dump T (dump_line dump_args);
        head = [''[kraph-migrate] live_sync setup phase 1a: schema dump''] @ tl_out d @
          [''[kraph-migrate] pg_dump rc='' @ rc_str d @ '' dump_size='' @ pt_size T]
      in if tl_rc d \<noteq> 0 then (head @ [marker @ '' dump='' @ rc_str d @ '' restore=skipped sub=skipped''], tl_rc d)
      else let (said, toc) = filter_toc T;
        r = pt_restore T (restore_line restore_args) toc;
        restored = head @ said @ [''[kraph-migrate] live_sync setup phase 1b: schema restore''] @ tl_out r @
          [''[kraph-migrate] pg_restore rc='' @ rc_str r];
        codes = '' dump='' @ rc_str d @ '' restore='' @ rc_str r
      in if tl_rc r \<noteq> 0 then (restored @ [marker @ codes @ '' sub=skipped''], tl_rc r)
      else let p = pt_publish T (pub_sql pubsub);
        published = restored @ [''[kraph-migrate] live_sync setup phase 2: create publication on source''] @ tl_out p
      in if tl_rc p \<noteq> 0 then (published @ [marker @ codes @ '' pub='' @ rc_str p @ '' sub=skipped''], tl_rc p)
      else let s = pt_subscribe T (sub_sql pubsub)
      in (published @ [''[kraph-migrate] live_sync setup phase 3: create subscription on target''] @ tl_out s @
          [marker @ codes @ '' pub='' @ rc_str p @ '' sub='' @ rc_str s],
          if tl_rc s = 0 then 0 else 1))"

text \<open>
  Cutting over. Each turn of the loop asks the target for the position it has received and, if
  there is one, whether it has reached the source's; \<open>Inl\<close> is the status of a failing \<open>psql\<close>,
  which ends the script (\<open>set -e\<close>). The loop is bounded by fuel.
\<close>

record poll =
  po_received :: "nat + string"
  po_reached :: "nat + string"
  po_now :: int

record cutover_tools =
  ct_source_lsn :: "nat + string"
  ct_start :: int
  ct_poll :: "nat \<Rightarrow> poll"
  ct_drop_sub :: "string \<Rightarrow> nat"
  ct_drop_pub :: "string \<Rightarrow> nat"

definition drop_both :: "string \<Rightarrow> cutover_tools \<Rightarrow> string list \<times> nat" where
  "drop_both pubsub T =
     (let s = ct_drop_sub T (''DROP SUBSCRIPTION IF EXISTS '' @ pubsub);
          p = ct_drop_pub T (''DROP PUBLICATION IF EXISTS '' @ pubsub)
      in if s \<noteq> 0 then ([''[kraph-migrate] dropping subscription on target''], s)
      else if p \<noteq> 0 then ([''[kraph-migrate] dropping subscription on target'', ''[kraph-migrate] dropping publication on source''], p)
      else ([''[kraph-migrate] dropping subscription on target'', ''[kraph-migrate] dropping publication on source'',
        marker @ '' caught_up=true''], 0))"

fun cutover_loop :: "nat \<Rightarrow> string \<Rightarrow> string \<Rightarrow> int \<Rightarrow> cutover_tools \<Rightarrow> nat \<Rightarrow> (string list \<times> nat) option" where
  "cutover_loop 0 pubsub source deadline T n = None"
| "cutover_loop (Suc fuel) pubsub source deadline T n =
     (let p = ct_poll T n;
        on_time = (\<lambda>said. if deadline \<le> po_now p then Some (said @ [marker @ '' caught_up=false reason=timeout''], 2)
          else map_option (\<lambda>(ls, rc). (said @ ls, rc)) (cutover_loop fuel pubsub source deadline T (Suc n)))
      in case po_received p of
        Inl rc \<Rightarrow> Some ([], rc)
      | Inr received \<Rightarrow>
          let said = [''[kraph-migrate] received: '' @ (if received = [] then ''<null>'' else received) @
            '' target_pos vs source '' @ source]
          in if received = [] then on_time said
          else (case po_reached p of
            Inl rc \<Rightarrow> Some (said, rc)
          | Inr reached \<Rightarrow>
              if reached = ''t'' then
                (let (ls, rc) = drop_both pubsub T in Some (said @ [''[kraph-migrate] caught up''] @ ls, rc))
              else on_time said))"

definition cutover_script :: "nat \<Rightarrow> string \<Rightarrow> int \<Rightarrow> cutover_tools \<Rightarrow> (string list \<times> nat) option" where
  "cutover_script fuel pubsub max_wait T =
     (case ct_source_lsn T of
        Inl rc \<Rightarrow> Some ([''[kraph-migrate] cutover: snapshotting source LSN''], rc)
      | Inr source \<Rightarrow>
          map_option (\<lambda>(ls, rc). ([''[kraph-migrate] cutover: snapshotting source LSN'',
              ''[kraph-migrate] source LSN: '' @ source] @ ls, rc))
            (cutover_loop fuel pubsub source (ct_start T + max_wait) T 0))"

end
