(* ===== verification/Migration.thy ===== *)
theory Migration
  imports Migration_Scripts
begin

text \<open>
  Running migrations (\<open>db_migration.rs\<close>): one container per run, its logs, its exit code, the verdict.
  What Docker answers is a record; what the node asks of it is the list of its actions. Clean-up
  is the action \<open>Remove\<close> (a spawned task whose outcome is ignored).
\<close>

section \<open>Logs\<close>

text \<open>\<open>String::from_utf8_lossy\<close>: every maximal ill-formed sequence becomes U+FFFD.\<close>

definition replacement :: string where "replacement = [CHR 0xEF, CHR 0xBF, CHR 0xBD]"

definition second_ok :: "char \<Rightarrow> char \<Rightarrow> bool" where
  "second_ok a b \<longleftrightarrow>
     (if byte a = 224 then 160 \<le> byte b \<and> byte b < 192
      else if byte a = 237 then 128 \<le> byte b \<and> byte b < 160
      else if byte a = 240 then 144 \<le> byte b \<and> byte b < 192
      else if byte a = 244 then 128 \<le> byte b \<and> byte b < 144
      else is_continuation b)"

fun utf8_lossy :: "string \<Rightarrow> string" where
  "utf8_lossy [] = []"
| "utf8_lossy (a # s) =
     (if byte a < 128 then a # utf8_lossy s
      else if 194 \<le> byte a \<and> byte a < 245 then
        (case s of [] \<Rightarrow> replacement | b # s1 \<Rightarrow>
          if \<not> second_ok a b then replacement @ utf8_lossy s
          else if byte a < 224 then a # b # utf8_lossy s1
          else (case s1 of [] \<Rightarrow> replacement | c # s2 \<Rightarrow>
            if \<not> is_continuation c then replacement @ utf8_lossy s1
            else if byte a < 240 then a # b # c # utf8_lossy s2
            else (case s2 of [] \<Rightarrow> replacement | d # s3 \<Rightarrow>
              if \<not> is_continuation d then replacement @ utf8_lossy s2
              else a # b # c # d # utf8_lossy s3)))
      else replacement @ utf8_lossy s)"

datatype log_item = Chunk string | Stream_error

definition MIGRATION_MAX_LOG_BYTES :: nat where "MIGRATION_MAX_LOG_BYTES = 64 * 1024"

definition keep_tail :: "string \<Rightarrow> string" where
  "keep_tail buf =
     (if MIGRATION_MAX_LOG_BYTES \<le> length buf then drop (length buf - MIGRATION_MAX_LOG_BYTES * 3 div 4) buf else buf)"

fun drain_into :: "string \<Rightarrow> log_item list \<Rightarrow> string" where
  "drain_into buf [] = buf"
| "drain_into buf (Chunk message # items) = drain_into (keep_tail buf @ message) items"
| "drain_into buf (Stream_error # items) = buf"

definition drain_logs :: "log_item list \<Rightarrow> string" where
  "drain_logs items = utf8_lossy (drain_into [] items)"

definition tail_log :: "string \<Rightarrow> nat \<Rightarrow> string option" where
  "tail_log s limit = (if length s \<le> limit then Some s else slice_from s (length s - limit))"

text \<open>\<open>split_whitespace\<close>.\<close>

fun split_by :: "(char \<Rightarrow> bool) \<Rightarrow> string \<Rightarrow> string list" where
  "split_by P [] = [[]]"
| "split_by P (c # s) =
     (if P c then [] # split_by P s else (c # hd (split_by P s)) # tl (split_by P s))"

definition split_whitespace :: "string \<Rightarrow> string list" where
  "split_whitespace s = filter (\<lambda>w. w \<noteq> []) (split_by is_space s)"

fun marker_codes :: "i64 option \<Rightarrow> i64 option \<Rightarrow> string list \<Rightarrow> i64 option \<times> i64 option" where
  "marker_codes d r [] = (d, r)"
| "marker_codes d r (tok # toks) =
     (case strip_prefix ''dump='' tok of Some v \<Rightarrow> marker_codes (parse_i64 v) r toks
      | None \<Rightarrow> (case strip_prefix ''restore='' tok of Some v \<Rightarrow> marker_codes d (parse_i64 v) toks
      | None \<Rightarrow> marker_codes d r toks))"

fun scan_marker :: "string list \<Rightarrow> (i64 \<times> i64) option" where
  "scan_marker [] = None"
| "scan_marker (l # ls) =
     (case break_on marker l of None \<Rightarrow> scan_marker ls
      | Some (_, after) \<Rightarrow> (case marker_codes None None (split_whitespace after) of
          (Some d, Some r) \<Rightarrow> Some (d, r) | _ \<Rightarrow> scan_marker ls))"

definition parse_result_marker :: "string \<Rightarrow> (i64 \<times> i64) option" where
  "parse_result_marker log = scan_marker (take 50 (rev (text_lines log)))"

section \<open>Containers\<close>

datatype job =
    Bulk_job nat "string list" "string list"
  | Live_job string "string list" "string list"
  | Cutover_job string u64
  | Probe_job

datatype docker_action =
    Pull string
  | Create string string nat "string list" job
  | Start string
  | Kill string
  | Remove string

datatype inspect = Image_present | Image_missing | Inspect_error string

text \<open>What the stream of \<open>wait_container\<close> may yield.\<close>

datatype wait_event = Exited i64 | Wait_error string i64 | Server_error nat string | Other_error string

text \<open>\<open>dk_wait\<close> is \<open>None\<close> when the container does not end in time.\<close>

record docker_run =
  dk_inspect :: inspect
  dk_pull :: "string option list"
  dk_create :: "string option"
  dk_start :: "string option"
  dk_logs :: "log_item list"
  dk_wait :: "wait_event list option"
  dk_ms :: nat

definition image_name :: string where "image_name = ''postgres:17-alpine''"

definition pull_image_if_missing :: "docker_run \<Rightarrow> (migrate_error + unit) \<times> docker_action list" where
  "pull_image_if_missing D =
     (case dk_inspect D of
        Image_present \<Rightarrow> (Inr (), [])
      | Inspect_error e \<Rightarrow> (Inl (Image_failed (''inspect image: '' @ e)), [])
      | Image_missing \<Rightarrow>
          (case find (\<lambda>x. x \<noteq> None) (dk_pull D) of
             Some (Some e) \<Rightarrow> (Inl (Image_failed (''image pull: '' @ e)), [Pull image_name])
           | _ \<Rightarrow> (Inr (), [Pull image_name])))"

text \<open>The wait of a bulk run: a missing container counts as killed, a wait error carries the code.\<close>

fun strict_wait :: "i64 option \<Rightarrow> wait_event list \<Rightarrow> migrate_error + i64" where
  "strict_wait seen [] = Inr (case seen of Some c \<Rightarrow> c | None \<Rightarrow> 0)"
| "strict_wait seen (Exited c # es) = strict_wait (Some c) es"
| "strict_wait seen (Wait_error e c # es) = Inr c"
| "strict_wait seen (Server_error n e # es) = (if n = 404 then Inr 137 else Inl (Wait_failed e))"
| "strict_wait seen (Other_error e # es) = Inl (Wait_failed e)"

text \<open>The wait of the other runs: errors of the stream are passed over.\<close>

fun lax_wait :: "i64 option \<Rightarrow> wait_event list \<Rightarrow> migrate_error + i64" where
  "lax_wait seen [] = Inr (case seen of Some c \<Rightarrow> c | None \<Rightarrow> 0)"
| "lax_wait seen (Exited c # es) = lax_wait (Some c) es"
| "lax_wait seen (_ # es) = lax_wait seen es"

text \<open>One run: image, container, start, logs, exit code within the time limit, clean-up.\<close>

definition run_container ::
  "(i64 option \<Rightarrow> wait_event list \<Rightarrow> migrate_error + i64) \<Rightarrow> (log_item list \<Rightarrow> string) \<Rightarrow> bool \<Rightarrow> u64 \<Rightarrow>
   string \<Rightarrow> nat \<Rightarrow> string list \<Rightarrow> job \<Rightarrow> docker_run \<Rightarrow>
   (migrate_error + string \<times> i64) \<times> docker_action list" where
  "run_container waiter reader kill timeout name mem env j D =
     (case pull_image_if_missing D of
        (Inl e, acts) \<Rightarrow> (Inl e, acts)
      | (Inr _, acts) \<Rightarrow>
          (case dk_create D of
             Some e \<Rightarrow> (Inl (Create_failed e), acts)
           | None \<Rightarrow>
               let acts = acts @ [Create name image_name mem env j] in
               (case dk_start D of
                  Some e \<Rightarrow> (Inl (Start_failed e), acts @ [Remove name])
                | None \<Rightarrow>
                    (case dk_wait D of
                       None \<Rightarrow> (Inl (Timed_out timeout), acts @ [Start name] @ (if kill then [Kill name] else []) @ [Remove name])
                     | Some es \<Rightarrow>
                         (case waiter None es of
                            Inl e \<Rightarrow> (Inl e, acts @ [Start name, Remove name])
                          | Inr code \<Rightarrow> (Inr (reader (dk_logs D), code), acts @ [Start name, Remove name]))))))"

section \<open>The runs\<close>

record migration_result =
  mr_state :: string
  mr_duration_ms :: nat
  mr_log_tail :: string
  mr_exit_code_dump :: i64
  mr_exit_code_restore :: i64
  mr_rows_migrated :: nat
  mr_tables_done :: nat
  mr_error :: string

definition both_urls :: "string \<Rightarrow> string \<Rightarrow> string list" where
  "both_urls source_url target_url = [''KRAPH_SOURCE_URL='' @ source_url, ''KRAPH_TARGET_URL='' @ target_url]"

definition i64_str :: "i64 \<Rightarrow> string" where "i64_str c = show_int (sint c)"

text \<open>The verdict of a bulk run.\<close>

definition bulk_verdict :: "nat \<Rightarrow> string \<Rightarrow> i64 \<Rightarrow> migrate_error + migration_result" where
  "bulk_verdict ms log_tail exit_code =
     (let (dump_rc, restore_rc) = (case parse_result_marker log_tail of Some c \<Rightarrow> c
          | None \<Rightarrow> if exit_code = 0 then (0, 0) else (- 1, - 1));
        tables_done = length (filter (\<lambda>l. contains ''processing data for table'' l) (text_lines log_tail))
      in if exit_code \<noteq> 0 \<or> dump_rc \<noteq> 0 \<or> restore_rc \<noteq> 0 then
        (case tail_log log_tail 4096 of None \<Rightarrow> Inl Log_slice_panic
         | Some t \<Rightarrow> Inr \<lparr>mr_state = ''failed'', mr_duration_ms = ms, mr_log_tail = log_tail,
             mr_exit_code_dump = dump_rc, mr_exit_code_restore = restore_rc, mr_rows_migrated = 0,
             mr_tables_done = tables_done,
             mr_error = ''migration failed (container exit='' @ i64_str exit_code @ '', dump='' @ i64_str dump_rc @
               '', restore='' @ i64_str restore_rc @ ''). last log:'' @ [CHR 0x0A] @ t\<rparr>)
      else Inr \<lparr>mr_state = ''done'', mr_duration_ms = ms, mr_log_tail = log_tail,
             mr_exit_code_dump = 0, mr_exit_code_restore = 0, mr_rows_migrated = 0,
             mr_tables_done = tables_done, mr_error = []\<rparr>)"

definition run_bulk_migration ::
  "docker_run \<Rightarrow> string \<Rightarrow> migration_request \<Rightarrow> (migrate_error + migration_result) \<times> docker_action list" where
  "run_bulk_migration D name req =
     (let mode = (case mg_mode req of Some m \<Rightarrow> m | None \<Rightarrow> ''bulk'') in
      if mode \<noteq> ''bulk'' then (Inl (Wrong_mode mode), [])
      else if mg_schema_only req \<and> mg_data_only req then (Inl Schema_and_data, [])
      else (case bulk_dump_args req of
        Inl e \<Rightarrow> (Inl e, [])
      | Inr args \<Rightarrow>
          (case run_container strict_wait drain_logs True (clamp_timeout_secs (mg_timeout_secs req)) name (4 * 1024 ^ 3)
              (both_urls (mg_source_url req) (mg_target_url req))
              (Bulk_job (length (exclude_schemas_of req)) args (bulk_restore_args req)) D of
             (Inl e, acts) \<Rightarrow> (Inl e, acts)
           | (Inr (log_tail, exit_code), acts) \<Rightarrow> (bulk_verdict (dk_ms D) log_tail exit_code, acts))))"

definition run_live_sync_setup ::
  "docker_run \<Rightarrow> string \<Rightarrow> string \<Rightarrow> migration_request \<Rightarrow> (migrate_error + migration_result) \<times> docker_action list" where
  "run_live_sync_setup D name pubsub req =
     (let exclude_schemas = exclude_schemas_of req in
      case safe_args is_pg_identifier_safe Unsafe_exclude_schema [] exclude_schemas of
        Inl e \<Rightarrow> (Inl e, [])
      | Inr _ \<Rightarrow>
          if \<not> is_pg_identifier_safe pubsub then (Inl (Unsafe_pubsub pubsub), [])
          else (case run_container lax_wait drain_logs True (clamp_timeout_secs (mg_timeout_secs req)) name (2 * 1024 ^ 3)
              (both_urls (mg_source_url req) (mg_target_url req))
              (Live_job pubsub (live_dump_args exclude_schemas) live_restore_args) D of
             (Inl e, acts) \<Rightarrow> (Inl e, acts)
           | (Inr (log_tail, exit_code), acts) \<Rightarrow>
               let (dump_rc, restore_rc) = (case parse_result_marker log_tail of Some c \<Rightarrow> c
                 | None \<Rightarrow> (if exit_code = 0 then 0 else - 1, 0))
               in if exit_code \<noteq> 0 then
                 (case tail_log log_tail 4096 of None \<Rightarrow> (Inl Log_slice_panic, acts)
                  | Some t \<Rightarrow> (Inr \<lparr>mr_state = ''failed'', mr_duration_ms = dk_ms D, mr_log_tail = log_tail,
                      mr_exit_code_dump = dump_rc, mr_exit_code_restore = restore_rc, mr_rows_migrated = 0,
                      mr_tables_done = 0,
                      mr_error = ''live_sync setup failed (container exit='' @ i64_str exit_code @ ''). last log:'' @
                        [CHR 0x0A] @ t\<rparr>, acts))
               else (Inr \<lparr>mr_state = ''cdc_streaming'', mr_duration_ms = dk_ms D, mr_log_tail = log_tail,
                      mr_exit_code_dump = dump_rc, mr_exit_code_restore = restore_rc, mr_rows_migrated = 0,
                      mr_tables_done = 0, mr_error = []\<rparr>, acts)))"

text \<open>The time limit of a cutover is not clamped, and the addition wraps.\<close>

definition run_live_sync_cutover ::
  "docker_run \<Rightarrow> string \<Rightarrow> string \<Rightarrow> string \<Rightarrow> string \<Rightarrow> u64 \<Rightarrow>
   (migrate_error + migration_result) \<times> docker_action list" where
  "run_live_sync_cutover D name pubsub source_url target_url max_wait_secs =
     (if \<not> is_pg_identifier_safe pubsub then (Inl (Unsafe_pubsub pubsub), [])
      else (case run_container lax_wait drain_logs True (max_wait_secs + 60) name (256 * 1024 ^ 2)
          (both_urls source_url target_url) (Cutover_job pubsub max_wait_secs) D of
         (Inl e, acts) \<Rightarrow> (Inl e, acts)
       | (Inr (log_tail, exit_code), acts) \<Rightarrow>
           if exit_code \<noteq> 0 then
             (case tail_log log_tail 4096 of None \<Rightarrow> (Inl Log_slice_panic, acts)
              | Some t \<Rightarrow> (Inr \<lparr>mr_state = ''failed'', mr_duration_ms = dk_ms D, mr_log_tail = log_tail,
                  mr_exit_code_dump = 0, mr_exit_code_restore = 0, mr_rows_migrated = 0, mr_tables_done = 0,
                  mr_error = ''cutover failed (exit='' @ i64_str exit_code @ ''). last log:'' @ [CHR 0x0A] @ t\<rparr>, acts))
           else (Inr \<lparr>mr_state = ''done'', mr_duration_ms = dk_ms D, mr_log_tail = log_tail,
                  mr_exit_code_dump = 0, mr_exit_code_restore = 0, mr_rows_migrated = 0, mr_tables_done = 0,
                  mr_error = []\<rparr>, acts)))"

datatype kill_outcome = Killed | Kill_refused nat string | Kill_error string

definition cancel_migration :: "kill_outcome \<Rightarrow> string \<Rightarrow> (migrate_error + unit) \<times> docker_action list" where
  "cancel_migration k name =
     (case k of
        Killed \<Rightarrow> Inr ()
      | Kill_refused n e \<Rightarrow> if n = 404 \<or> n = 409 then Inr () else Inl (Kill_failed e)
      | Kill_error e \<Rightarrow> Inl (Kill_failed e), [Kill name])"

section \<open>Probing a source\<close>

record source_probe =
  sp_version :: string
  sp_version_num :: i64
  sp_wal_level :: string
  sp_slots :: i64

text \<open>Both outputs together, until more than 16 KiB are there; errors of the stream are passed over.\<close>

fun probe_into :: "string \<Rightarrow> log_item list \<Rightarrow> string" where
  "probe_into buf [] = buf"
| "probe_into buf (Chunk message # items) =
     (let buf' = buf @ message in if 16 * 1024 < length buf' then buf' else probe_into buf' items)"
| "probe_into buf (Stream_error # items) = probe_into buf items"

definition part :: "string list \<Rightarrow> nat \<Rightarrow> string \<Rightarrow> string" where
  "part parts n missing = trim (if n < length parts then parts ! n else missing)"

definition number_or_zero :: "string \<Rightarrow> i64" where
  "number_or_zero s = (case parse_i64 s of Some n \<Rightarrow> n | None \<Rightarrow> 0)"

definition parse_probe :: "string \<Rightarrow> source_probe" where
  "parse_probe line =
     (let parts = split_on (CHR ''|'') line in
      \<lparr>sp_version = part parts 0 [], sp_version_num = number_or_zero (part parts 1 ''0''),
       sp_wal_level = part parts 2 [], sp_slots = number_or_zero (part parts 3 ''0'')\<rparr>)"

definition probe_source ::
  "docker_run \<Rightarrow> string \<Rightarrow> string \<Rightarrow> (migrate_error + source_probe) \<times> docker_action list" where
  "probe_source D luck source_url =
     (case run_container lax_wait (\<lambda>items. utf8_lossy (probe_into [] items)) False 30
         (''kraph-migrate-probe-'' @ luck) (256 * 1024 ^ 2) [''KRAPH_SOURCE_URL='' @ source_url] Probe_job D of
        (Inl e, acts) \<Rightarrow> (Inl e, acts)
      | (Inr (log, exit), acts) \<Rightarrow>
          if exit \<noteq> 0 then
            (case tail_log log 2048 of None \<Rightarrow> Inl Log_slice_panic
             | Some t \<Rightarrow> Inl (Probe_failed (sint exit) t), acts)
          else (case find (contains ''|'') (rev (text_lines log)) of
              None \<Rightarrow> Inl (Probe_no_row log)
            | Some line \<Rightarrow> Inr (parse_probe line), acts))"

end
