(* ===== verification/Migration_Logs.thy ===== *)
theory Migration_Logs
  imports Migration
begin

text \<open>
  Facts about the log of a migration: the buffer is the end of what was printed, a final line
  survives cutting and decoding, and the codes of the script's last line are read back.
\<close>

section \<open>The buffer\<close>

fun printed :: "log_item list \<Rightarrow> string" where
  "printed [] = []"
| "printed (Chunk message # items) = message @ printed items"
| "printed (Stream_error # items) = []"

fun chunk_size :: "log_item \<Rightarrow> nat" where
  "chunk_size (Chunk message) = length message"
| "chunk_size Stream_error = 0"

lemma keep_tail_suffix: "\<exists>cut. buf = cut @ keep_tail buf"
  unfolding keep_tail_def by (metis append_Nil append_take_drop_id)

lemma keep_tail_length:
  "length (keep_tail buf) < MIGRATION_MAX_LOG_BYTES"
  "min 49152 (length buf) \<le> length (keep_tail buf)"
  by (auto simp: keep_tail_def MIGRATION_MAX_LOG_BYTES_def)

lemma drain_suffix: "\<exists>cut. buf @ printed items = cut @ drain_into buf items"
proof (induction buf items rule: drain_into.induct)
  case (2 buf message items)
  from keep_tail_suffix [of buf] obtain cut where "buf = cut @ keep_tail buf" by blast
  then show ?case using 2 by (metis append.assoc printed.simps(2) drain_into.simps(2))
qed auto

lemma drain_keeps: "min 49152 (length (buf @ printed items)) \<le> length (drain_into buf items)"
proof (induction buf items rule: drain_into.induct)
  case (2 buf message items)
  then show ?case using keep_tail_length(2) [of buf] by (simp add: min_def split: if_splits)
qed auto

lemma drain_bounded:
  "\<lbrakk>length buf < MIGRATION_MAX_LOG_BYTES + m; \<forall>i \<in> set items. chunk_size i \<le> m\<rbrakk> \<Longrightarrow>
    length (drain_into buf items) < MIGRATION_MAX_LOG_BYTES + m"
proof (induction buf items rule: drain_into.induct)
  case (2 buf message items)
  have "length (keep_tail buf @ message) < MIGRATION_MAX_LOG_BYTES + m"
    using "2.prems" keep_tail_length(1) [of buf] by simp
  with 2 show ?case by simp
qed auto

lemma drain_whole: "length (buf @ printed items) < MIGRATION_MAX_LOG_BYTES \<Longrightarrow> drain_into buf items = buf @ printed items"
  by (induction buf items rule: drain_into.induct) (auto simp: keep_tail_def)

text \<open>A final line shorter than what is always kept stays whole, and starts a line.\<close>

lemma drain_last_line:
  assumes out: "printed items = before @ l @ [CHR 0x0A]" and b: "before = [] \<or> last before = CHR 0x0A"
    and short: "length l < 40000"
  obtains kept where "drain_into [] items = kept @ l @ [CHR 0x0A]" and "kept = [] \<or> last kept = CHR 0x0A"
proof -
  obtain cut where cut: "printed items = cut @ drain_into [] items" using drain_suffix [of "[]" items] by auto
  show ?thesis
  proof (cases "length (drain_into [] items) \<le> length l + 1")
    case True
    have "length (before @ l @ [CHR 0x0A]) \<le> length (drain_into [] items)"
      using drain_keeps [of "[]" items] short out True by (auto simp: min_def split: if_splits)
    then have "length before + length l + 1 \<le> length (drain_into [] items)" by simp
    with True have "length before = 0" by linarith
    moreover from this have "cut = []" using drain_whole [of "[]" items] short out cut by (simp add: MIGRATION_MAX_LOG_BYTES_def)
    ultimately show ?thesis using that [of "[]"] cut out by simp
  next
    case False
    have "cut @ drain_into [] items = before @ l @ [CHR 0x0A]" using cut out by simp
    then obtain us where us: "cut @ us = before \<and> drain_into [] items = us @ l @ [CHR 0x0A] \<or>
        cut = before @ us \<and> us @ drain_into [] items = l @ [CHR 0x0A]"
      by (auto simp: append_eq_append_conv2)
    have "length (us @ drain_into [] items) \<noteq> length (l @ [CHR 0x0A])" using False by simp
    with us have "cut @ us = before" "drain_into [] items = us @ l @ [CHR 0x0A]" by metis+
    then show ?thesis using that [of us] b by (cases "us = []") auto
  qed
qed

section \<open>Decoding\<close>

lemma lossy_ascii: "list_all (\<lambda>c. byte c < 128) s \<Longrightarrow> utf8_lossy s = s"
  by (induction s) auto

lemma ascii_no_second: "byte b < 128 \<Longrightarrow> \<not> second_ok a b \<and> \<not> is_continuation b"
  by (auto simp: second_ok_def is_continuation_def)

text \<open>An ASCII character starts afresh.\<close>

lemma lossy_cons: "byte c < 128 \<Longrightarrow> utf8_lossy (c # t) = c # utf8_lossy t"
  by simp

lemma lossy_break: "byte c < 128 \<Longrightarrow> utf8_lossy (s @ c # t) = utf8_lossy s @ c # utf8_lossy t"
proof (induction s rule: length_induct)
  case (1 s)
  have IH: "utf8_lossy (s' @ c # t) = utf8_lossy s' @ c # utf8_lossy t" if "length s' < length s" for s'
    using 1 that by blast
  note step = lossy_cons [OF "1.prems"] ascii_no_second [OF "1.prems"]
  show ?case
  proof (cases s)
    case (Cons a s1)
    then have i1: "utf8_lossy (s1 @ c # t) = utf8_lossy s1 @ c # utf8_lossy t" using IH by simp
    show ?thesis
    proof (cases s1)
      case Nil
      then show ?thesis unfolding Cons append_Cons append_Nil
        by (subst (1 2) utf8_lossy.simps(2)) (simp add: step del: utf8_lossy.simps(2))
    next
      case (Cons b s2)
      note s1 = \<open>s = a # s1\<close> Cons
      then have i2: "utf8_lossy (s2 @ c # t) = utf8_lossy s2 @ c # utf8_lossy t" using IH by simp
      show ?thesis
      proof (cases s2)
        case Nil
        then show ?thesis using i1 unfolding s1 append_Cons append_Nil
          by (subst (1 2) utf8_lossy.simps(2)) (simp add: step del: utf8_lossy.simps(2))
      next
        case (Cons d s3)
        then have i3: "utf8_lossy (s3 @ c # t) = utf8_lossy s3 @ c # utf8_lossy t" using IH s1 by simp
        show ?thesis
        proof (cases s3)
          case Nil
          then show ?thesis using i1 i2 unfolding s1 \<open>s2 = d # s3\<close> append_Cons append_Nil
            by (subst (1 2) utf8_lossy.simps(2)) (simp add: step del: utf8_lossy.simps(2))
        next
          case (Cons e s4)
          then have i4: "utf8_lossy (s4 @ c # t) = utf8_lossy s4 @ c # utf8_lossy t"
            using IH s1 \<open>s2 = d # s3\<close> by simp
          show ?thesis using i1 i2 i3 i4 unfolding s1 \<open>s2 = d # s3\<close> Cons append_Cons
            by (subst (1 2) utf8_lossy.simps(2)) (simp add: step del: utf8_lossy.simps(2))
        qed
      qed
    qed
  qed (use "1.prems" in simp)
qed

section \<open>The last line\<close>

lemma split_on_snoc: "split_on d (s @ d # t) = split_on d s @ split_on d t"
proof (induction s)
  case (Cons c s)
  then show ?case by (cases "split_on d s") (auto split: list.splits)
qed simp

definition plain_line :: "string \<Rightarrow> bool" where
  "plain_line l \<longleftrightarrow> list_all (\<lambda>c. byte c < 128 \<and> byte c \<noteq> 10 \<and> byte c \<noteq> 13) l"

lemma plain_line_facts:
  assumes "plain_line l"
  shows "CHR 0x0A \<notin> set l" "strip_cr l = l" "list_all (\<lambda>c. byte c < 128) l"
proof -
  show "CHR 0x0A \<notin> set l" using assms by (auto simp: plain_line_def list_all_iff)
  have "CHR 0x0D \<notin> set l" using assms by (auto simp: plain_line_def list_all_iff)
  then show "strip_cr l = l"
    by (auto simp: strip_cr_def strip_suffix_iff split: option.split)
  show "list_all (\<lambda>c. byte c < 128) l" using assms by (auto simp: plain_line_def list_all_iff)
qed

lemma text_lines_last:
  assumes "plain_line l" and "kept = [] \<or> last kept = CHR 0x0A"
  shows "\<exists>ls. text_lines (kept @ l @ [CHR 0x0A]) = ls @ [l]"
proof (cases "kept = []")
  case True
  then show ?thesis
    using plain_line_facts [OF assms(1)] by (simp add: text_lines_def split_on_append Let_def)
next
  case False
  then obtain k where "kept = k @ [CHR 0x0A]" using assms(2) by (metis append_butlast_last_id)
  then show ?thesis
    using plain_line_facts [OF assms(1)]
    by (auto simp: text_lines_def split_on_snoc split_on_append split_on_clean Let_def butlast_append)
qed

lemma log_last_line:
  assumes "printed items = before @ l @ [CHR 0x0A]" and "before = [] \<or> last before = CHR 0x0A"
    and "length l < 40000" and l: "plain_line l"
  shows "\<exists>ls. text_lines (drain_logs items) = ls @ [l]"
proof -
  from drain_last_line [OF assms(1-3)] obtain kept
    where k: "drain_into [] items = kept @ l @ [CHR 0x0A]" "kept = [] \<or> last kept = CHR 0x0A" by blast
  note pl = plain_line_facts [OF l]
  have tail: "utf8_lossy (l @ [CHR 0x0A]) = l @ [CHR 0x0A]" using pl(3) by (intro lossy_ascii) simp
  show ?thesis
  proof (cases "kept = []")
    case True
    then show ?thesis using k tail text_lines_last [OF l, of "[]"] by (simp add: drain_logs_def)
  next
    case False
    then obtain s where s: "kept = s @ [CHR 0x0A]" using k(2) by (metis append_butlast_last_id)
    then have "drain_logs items = (utf8_lossy s @ [CHR 0x0A]) @ l @ [CHR 0x0A]"
      using tail by (simp add: drain_logs_def k(1) lossy_break)
    then show ?thesis using text_lines_last [OF l, of "utf8_lossy s @ [CHR 0x0A]"] by simp
  qed
qed

end
