(* ===== verification/Migration_Outcomes.thy ===== *)
theory Migration_Outcomes
  imports Migration_Logs
begin

text \<open>
  From the script in the container to the answer of the node: command lines that are split at
  blanks only, the verdict of a bulk run, and what the runs of a live synchronisation make of a
  failing script.
\<close>

section \<open>The container did what it was asked\<close>

text \<open>
  Docker's part, as documented by its client library: the end of a container with a status other
  than 0 reaches the waiting stream as an error that carries the status; the log is the output.
\<close>

definition bollard_wait :: "nat \<Rightarrow> wait_event list" where
  "bollard_wait rc = (if rc = 0 then [Exited 0] else [Wait_error [] (of_nat rc)])"

definition unlines :: "string list \<Rightarrow> string" where
  "unlines ls = concat (map (\<lambda>l. l @ [CHR 0x0A]) ls)"

definition container_ran :: "docker_run \<Rightarrow> string list \<times> nat \<Rightarrow> bool" where
  "container_ran D end_of \<longleftrightarrow> dk_inspect D = Image_present \<and> dk_create D = None \<and> dk_start D = None \<and>
     dk_wait D = Some (bollard_wait (snd end_of)) \<and> printed (dk_logs D) = unlines (fst end_of)"

lemma unlines_snoc: "unlines (ls @ [l]) = unlines ls @ l @ [CHR 0x0A]"
  by (simp add: unlines_def)

lemma unlines_end: "unlines ls = [] \<or> last (unlines ls) = CHR 0x0A"
  by (induction ls rule: rev_induct) (auto simp: unlines_snoc unlines_def)

lemma run_ran:
  assumes "container_ran D (out, rc)"
  shows "run_container strict_wait rd k t name mem env j D =
      (Inr (rd (dk_logs D), of_nat rc), [Create name image_name mem env j, Start name, Remove name])"
    and "run_container lax_wait rd k t name mem env j D =
      (Inr (rd (dk_logs D), 0), [Create name image_name mem env j, Start name, Remove name])"
  using assms
  by (simp_all add: container_ran_def run_container_def pull_image_if_missing_def bollard_wait_def Let_def)

section \<open>Reading the codes back\<close>

lemma split_by_word: "list_all (\<lambda>c. \<not> P c) w \<Longrightarrow> P c \<Longrightarrow> split_by P (w @ c # s) = w # split_by P s"
  by (induction w) auto

lemma split_by_clean: "list_all (\<lambda>c. \<not> P c) w \<Longrightarrow> split_by P w = [w]"
  by (induction w) auto

lemma break_on_start: "p \<noteq> [] \<Longrightarrow> break_on p (p @ r) = Some ([], r)"
proof (cases p)
  case (Cons c q)
  have "strip_prefix (c # q) (c # q @ r) = Some r" by (subst strip_prefix_iff) simp
  then show ?thesis using Cons by (simp del: strip_prefix.simps)
qed simp

lemma digits_not_space: "list_all (\<lambda>c. \<not> is_space c) (dec_digits n)"
  using dec_digits_digits [of n] by (auto simp: list_all_iff is_space_def is_ascii_digit_def)

lemma parse_i64_digits: "n < 2 ^ 63 \<Longrightarrow> parse_i64 (dec_digits n) = Some (of_nat n)"
proof -
  assume n: "n < 2 ^ 63"
  obtain c r where d: "dec_digits n = c # r" by (cases "dec_digits n") simp_all
  then have "is_ascii_digit c" using dec_digits_digits [of n] by simp
  then have "c \<noteq> CHR ''-''" "c \<noteq> CHR ''+''" by (auto simp: is_ascii_digit_def)
  then show ?thesis
    using n parse_show_nat [of n] d by (simp add: parse_i64_def in_i64_def)
qed

lemma dec_digits_short: "n < 256 \<Longrightarrow> length (dec_digits n) \<le> 3"
  by (simp add: dec_digits.simps [of n] dec_digits.simps [of "n div 10"] dec_digits.simps [of "n div 10 div 10"])

definition codes_line :: "string \<Rightarrow> string \<Rightarrow> string" where
  "codes_line d r = marker @ '' dump='' @ d @ '' restore='' @ r"

lemma codes_tokens:
  assumes "list_all (\<lambda>c. \<not> is_space c) d" "list_all (\<lambda>c. \<not> is_space c) r"
  shows "split_whitespace ('' dump='' @ d @ '' restore='' @ r) = [''dump='' @ d, ''restore='' @ r]"
proof -
  have "split_by is_space ('' dump='' @ d @ '' restore='' @ r) =
      [] # split_by is_space ((''dump='' @ d) @ CHR '' '' # (''restore='' @ r))"
    by (simp add: is_space_def)
  also have "\<dots> = [[], ''dump='' @ d, ''restore='' @ r]"
    using assms by (subst split_by_word) (auto simp: split_by_clean is_space_def)
  finally show ?thesis by (simp add: split_whitespace_def)
qed

lemma scan_codes:
  assumes "list_all (\<lambda>c. \<not> is_space c) d" "list_all (\<lambda>c. \<not> is_space c) r"
  shows "scan_marker (codes_line d r # ls) =
    (case (parse_i64 d, parse_i64 r) of (Some x, Some y) \<Rightarrow> Some (x, y) | _ \<Rightarrow> scan_marker ls)"
proof -
  have "break_on marker (codes_line d r) = Some ([], '' dump='' @ d @ '' restore='' @ r)"
    unfolding codes_line_def by (rule break_on_start) (simp add: marker_def)
  then show ?thesis using codes_tokens [OF assms] by (simp split: option.split)
qed

lemma scan_nothing: "\<forall>l \<in> set ls. \<not> contains marker l \<Longrightarrow> scan_marker ls = None"
  by (induction ls) (auto simp: contains_def split: option.split)

lemma codes_plain:
  assumes "plain_line d" "plain_line r"
  shows "plain_line (codes_line d r)"
  using assms by (simp add: plain_line_def codes_line_def marker_def)

lemma digits_plain: "plain_line (dec_digits n)"
  using dec_digits_digits [of n] by (auto simp: plain_line_def list_all_iff is_ascii_digit_def)

lemma skipped_word: "plain_line ''skipped''" "list_all (\<lambda>c. \<not> is_space c) ''skipped''"
  by (simp_all add: plain_line_def is_space_def)

lemma marker_read_back:
  assumes log: "printed items = unlines (ls @ [codes_line d r])"
    and "plain_line d" "plain_line r" and "length d < 10" "length r < 10"
    and ns: "list_all (\<lambda>c. \<not> is_space c) d" "list_all (\<lambda>c. \<not> is_space c) r"
  shows "parse_result_marker (drain_logs items) = (case (parse_i64 d, parse_i64 r) of (Some x, Some y) \<Rightarrow> Some (x, y)
      | _ \<Rightarrow> scan_marker (take 49 (tl (rev (text_lines (drain_logs items))))))"
proof -
  have "length (codes_line d r) < 40000" using assms by (simp add: codes_line_def marker_def)
  with log_last_line [OF log [unfolded unlines_snoc] unlines_end this codes_plain] assms obtain ks
    where ks: "text_lines (drain_logs items) = ks @ [codes_line d r]" by blast
  show ?thesis
    unfolding parse_result_marker_def ks
    by (simp add: scan_codes [OF ns] take_Cons' split: option.split del: scan_marker.simps)
qed

section \<open>The verdict of a bulk run\<close>

definition accepted_bulk :: "migration_request \<Rightarrow> string list \<Rightarrow> bool" where
  "accepted_bulk req args \<longleftrightarrow> mg_mode req \<in> {None, Some ''bulk''} \<and>
     \<not> (mg_schema_only req \<and> mg_data_only req) \<and> bulk_dump_args req = Inr args"

definition dumped :: "pg_tools \<Rightarrow> string list \<Rightarrow> tool" where
  "dumped T args = pt_dump T (dump_line args)"

definition restored :: "pg_tools \<Rightarrow> string list \<Rightarrow> tool" where
  "restored T args = pt_restore T (restore_line args) (snd (filter_toc T))"

lemma bulk_script_end:
  "\<exists>ls. bulk_script k args rargs T = (let d = dumped T args; r = restored T rargs in
     (ls @ [codes_line (rc_str d) (if tl_rc d \<noteq> 0 then ''skipped'' else rc_str r)],
      if tl_rc d \<noteq> 0 then tl_rc d else if tl_rc r = 0 then 0 else 1))"
  by (auto simp: bulk_script_def dumped_def restored_def codes_line_def Let_def split: prod.splits)

text \<open>Where a log too long to be quoted whole would be cut within a character.\<close>

definition bad_cut :: "string \<Rightarrow> bool" where
  "bad_cut log \<longleftrightarrow> 4096 < length log \<and> \<not> is_char_boundary log (length log - 4096)"

lemma tail_log_cut: "tail_log log 4096 = (if bad_cut log then None else Some (drop (length log - 4096) log))"
  by (auto simp: tail_log_def bad_cut_def slice_from_def)

lemma run_bulk_accepted:
  assumes "accepted_bulk req args"
    and "container_ran D (out, rc)"
  shows "fst (run_bulk_migration D name req) = bulk_verdict (dk_ms D) (drain_logs (dk_logs D)) (of_nat rc)"
  using assms by (auto simp: accepted_bulk_def run_bulk_migration_def run_ran Let_def)

lemma of_nat_i64_zero: "n < 2 ^ 63 \<Longrightarrow> (of_nat n :: i64) = 0 \<longleftrightarrow> n = 0"
  by (auto simp: word_of_nat_eq_0_iff dest: dvd_imp_le)

text \<open>
  C21: the verdict of a bulk migration. When the request is accepted and Docker runs the container,
  the answer is ``done'', with both codes 0 and no error, exactly if \<open>pg_dump\<close> and \<open>pg_restore\<close>
  both end with status 0. When \<open>pg_restore\<close> fails, the answer is ``failed'' with its status. When
  \<open>pg_dump\<close> fails, the answer is ``failed'', but its status is lost: both codes are -1 unless the
  log holds another result line. In both cases the handler panics instead if the log is longer than
  4096 bytes and the cut falls inside a character. However long the log, the last line of the
  script is read back.
\<close>
theorem bulk_verdict_is_sound:
  assumes req: "accepted_bulk req args"
    and ran: "container_ran D (bulk_script (length (exclude_schemas_of req)) args (bulk_restore_args req) T)"
    and rc: "tl_rc (dumped T args) < 256" "tl_rc (restored T (bulk_restore_args req)) < 256"
  shows "let log = drain_logs (dk_logs D); d = tl_rc (dumped T args); r = tl_rc (restored T (bulk_restore_args req));
      answer = fst (run_bulk_migration D name req) in
    ((\<exists>m. answer = Inr m \<and> mr_state m = ''done'') \<longleftrightarrow> d = 0 \<and> r = 0) \<and>
    (d = 0 \<and> r = 0 \<longrightarrow> (\<exists>m. answer = Inr m \<and> mr_error m = [] \<and> mr_exit_code_dump m = 0 \<and> mr_exit_code_restore m = 0)) \<and>
    (answer = Inl Log_slice_panic \<longleftrightarrow> \<not> (d = 0 \<and> r = 0) \<and> bad_cut log) \<and>
    (\<not> (d = 0 \<and> r = 0) \<and> \<not> bad_cut log \<longrightarrow> (\<exists>m. answer = Inr m \<and> mr_state m = ''failed'' \<and>
      (d = 0 \<longrightarrow> mr_exit_code_dump m = 0 \<and> mr_exit_code_restore m = of_nat r) \<and>
      (d \<noteq> 0 \<and> (\<forall>l \<in> set (butlast (text_lines log)). \<not> contains marker l) \<longrightarrow>
        mr_exit_code_dump m = - 1 \<and> mr_exit_code_restore m = - 1)))"
proof -
  define dt where "dt = dumped T args"
  define rt where "rt = restored T (bulk_restore_args req)"
  let ?log = "drain_logs (dk_logs D)"
  let ?d = "rc_str dt" and ?r = "if tl_rc dt \<noteq> 0 then ''skipped'' else rc_str rt"
  define code where "code = (if tl_rc dt \<noteq> 0 then tl_rc dt else if tl_rc rt = 0 then 0 else 1)"
  have small: "tl_rc dt < 256" "tl_rc rt < 256" using rc by (simp_all add: dt_def rt_def)
  obtain ls where ran': "container_ran D (ls @ [codes_line ?d ?r], code)"
    using ran bulk_script_end [of "length (exclude_schemas_of req)" args "bulk_restore_args req" T]
    unfolding dt_def [symmetric] rt_def [symmetric] code_def by (metis (no_types))
  have answer: "fst (run_bulk_migration D name req) = bulk_verdict (dk_ms D) ?log (of_nat code)"
    by (rule run_bulk_accepted [OF req ran'])
  have read: "parse_result_marker ?log = (case (parse_i64 ?d, parse_i64 ?r) of (Some x, Some y) \<Rightarrow> Some (x, y)
      | _ \<Rightarrow> scan_marker (take 49 (tl (rev (text_lines ?log)))))"
  proof (rule marker_read_back [where ls = ls])
    show "printed (dk_logs D) = unlines (ls @ [codes_line ?d ?r])" using ran' by (simp add: container_ran_def)
  qed (use small dec_digits_short [of "tl_rc dt"] dec_digits_short [of "tl_rc rt"] in
      \<open>auto simp: rc_str_def digits_plain digits_not_space skipped_word(1) skipped_word(2) [simplified]\<close>)
  have p: "parse_i64 ?d = Some (of_nat (tl_rc dt))" "tl_rc dt = 0 \<Longrightarrow> parse_i64 ?r = Some (of_nat (tl_rc rt))"
    "parse_i64 ''skipped'' = None"
    using small by (simp_all add: rc_str_def parse_i64_digits) (simp add: parse_i64_def parse_nat_def is_ascii_digit_def)
  have zero: "(of_nat code :: i64) = 0 \<longleftrightarrow> code = 0" "(of_nat (tl_rc rt) :: i64) = 0 \<longleftrightarrow> tl_rc rt = 0"
    "(of_nat (tl_rc dt) :: i64) = 0 \<longleftrightarrow> tl_rc dt = 0"
    using small by (simp_all add: of_nat_i64_zero code_def)
  have lost: "parse_result_marker ?log = None"
    if "tl_rc dt \<noteq> 0" "\<forall>l \<in> set (butlast (text_lines ?log)). \<not> contains marker l"
  proof -
    have "set (take 49 (tl (rev (text_lines ?log)))) \<subseteq> set (butlast (text_lines ?log))"
      by (metis butlast_rev rev_rev_ident set_rev set_take_subset)
    then show ?thesis using that p read scan_nothing by (simp add: subset_iff)
  qed
  have good: "parse_result_marker ?log = Some (0, of_nat (tl_rc rt))" if "tl_rc dt = 0"
    using that p read by simp
  consider (both) "tl_rc dt = 0" "tl_rc rt = 0" | (restore) "tl_rc dt = 0" "tl_rc rt \<noteq> 0" | (dump) "tl_rc dt \<noteq> 0"
    by blast
  then show ?thesis
  proof cases
    case both
    then show ?thesis unfolding Let_def dt_def [symmetric] rt_def [symmetric] answer using good zero by (simp add: bulk_verdict_def code_def Let_def)
  next
    case restore
    then show ?thesis unfolding Let_def dt_def [symmetric] rt_def [symmetric] answer using good zero
      by (auto simp: bulk_verdict_def code_def Let_def tail_log_cut)
  next
    case dump
    then show ?thesis unfolding Let_def dt_def [symmetric] rt_def [symmetric] answer using lost zero
      by (auto simp: bulk_verdict_def code_def Let_def tail_log_cut split: prod.split)
  qed
qed

section \<open>Command lines\<close>

text \<open>
  What a POSIX shell makes of an unquoted line whose only special characters are blanks and one
  variable: the variable is replaced by its value and the result is split at blanks, tabs and line
  feeds. (Names with \<open>*\<close> stay as they are where no file matches them.)
\<close>

definition ifs :: "char \<Rightarrow> bool" where "ifs c \<longleftrightarrow> byte c \<in> {9, 10, 32}"

definition sh_words :: "string \<Rightarrow> string list" where
  "sh_words line = filter (\<lambda>w. w \<noteq> []) (split_by ifs line)"

definition expand :: "string \<Rightarrow> string \<Rightarrow> string \<Rightarrow> string" where
  "expand var val line = join val (split_str var line)"

definition quiet :: "char \<Rightarrow> bool" where
  "quiet c \<longleftrightarrow> is_ascii_alphanumeric c \<or> c \<in> set ''_-.*=''"

text \<open>An option: a dash first, then only letters, digits and five harmless characters.\<close>

definition plain_option :: "string \<Rightarrow> bool" where
  "plain_option a \<longleftrightarrow> starts_with ''-'' a \<and> list_all quiet a"

lemma break_on_first: "c \<notin> set pre \<Longrightarrow> break_on (c # v) (pre @ (c # v) @ post) = Some (pre, post)"
proof (induction pre)
  case Nil
  show ?case using break_on_start [of "c # v" post] by simp
next
  case (Cons d pre)
  then have "strip_prefix (c # v) (d # pre @ (c # v) @ post) = None" by simp
  with Cons show ?case by (simp del: strip_prefix.simps)
qed

lemma expand_last:
  assumes "c \<notin> set pre"
  shows "expand (c # v) val (pre @ c # v) = pre @ val"
proof -
  have "break_on (c # v) (pre @ c # v) = Some (pre, [])" using break_on_first [OF assms, of v "[]"] by simp
  moreover have "break_on (c # v) [] = None" by simp
  ultimately show ?thesis
    by (simp add: expand_def split_str.simps [of "c # v" "pre @ c # v"] split_str.simps [of "c # v" "[]"])
qed

lemma join_snoc: "join '' '' (ws @ [x]) = concat (map (\<lambda>w. w @ '' '') ws) @ x"
proof (induction ws)
  case (Cons w ws)
  then show ?case by (cases ws) auto
qed simp

lemma quiet_not_ifs: "list_all quiet w \<Longrightarrow> list_all (\<lambda>c. \<not> ifs c) w"
  by (induction w) (auto simp: quiet_def ifs_def ascii_defs)

lemma sh_words_options:
  "list_all plain_option ws \<Longrightarrow> sh_words (concat (map (\<lambda>w. w @ '' '') ws) @ url) = ws @ sh_words url"
proof (induction ws)
  case (Cons w ws)
  then have w: "list_all (\<lambda>c. \<not> ifs c) w" "w \<noteq> []"
    by (auto simp: plain_option_def quiet_not_ifs starts_with_iff)
  have "split_by ifs (w @ CHR '' '' # (concat (map (\<lambda>w. w @ '' '') ws) @ url)) =
      w # split_by ifs (concat (map (\<lambda>w. w @ '' '') ws) @ url)"
    by (rule split_by_word [OF w(1)]) (simp add: ifs_def)
  with Cons w(2) show ?case by (simp add: sh_words_def)
qed simp

lemma no_dollar: "list_all plain_option ws \<Longrightarrow> CHR ''$'' \<notin> set (concat (map (\<lambda>w. w @ '' '') ws))"
proof -
  have "\<not> quiet (CHR ''$'')" by (simp add: quiet_def ascii_defs)
  then show "list_all plain_option ws \<Longrightarrow> CHR ''$'' \<notin> set (concat (map (\<lambda>w. w @ '' '') ws))"
    by (auto simp: plain_option_def list_all_iff)
qed

text \<open>
  A tool called with options and a last word that ends in a variable gets the options and the words
  that the last one has become.
\<close>

lemma argv_of_line:
  assumes name: "list_all (\<lambda>c. \<not> ifs c \<and> c \<noteq> CHR ''$'') prog" "prog \<noteq> []" and ws: "list_all plain_option ws"
    and opt: "CHR ''$'' \<notin> set opt"
  shows "sh_words (expand (CHR ''$'' # v) val (prog @ '' '' @ join '' '' (ws @ [opt @ CHR ''$'' # v]))) =
    prog # ws @ sh_words (opt @ val)"
proof -
  let ?pre = "prog @ '' '' @ concat (map (\<lambda>w. w @ '' '') ws) @ opt"
  have eq: "prog @ '' '' @ join '' '' (ws @ [opt @ CHR ''$'' # v]) = ?pre @ CHR ''$'' # v" by (simp add: join_snoc)
  have nd: "CHR ''$'' \<notin> set ?pre" using name opt no_dollar [OF ws] by (auto simp: list_all_iff)
  have "expand (CHR ''$'' # v) val (prog @ '' '' @ join '' '' (ws @ [opt @ CHR ''$'' # v])) = ?pre @ val"
    unfolding eq by (rule expand_last [OF nd])
  moreover have "split_by ifs (?pre @ val) = prog # split_by ifs (concat (map (\<lambda>w. w @ '' '') ws) @ opt @ val)"
    using split_by_word [of ifs prog "CHR '' ''"] name by (simp add: ifs_def list_all_iff)
  ultimately show ?thesis using sh_words_options [OF ws, of "opt @ val"] name by (simp add: sh_words_def)
qed

lemma safe_args_ok:
  "safe_args ok err opt xs = Inr args \<longleftrightarrow> list_all ok xs \<and> args = map ((@) opt) xs"
  by (induction xs arbitrary: args) (auto simp: ok_simps)

lemma safe_names_quiet:
  "is_pg_identifier_safe s \<Longrightarrow> list_all quiet s" "is_pg_table_pattern_safe s \<Longrightarrow> list_all quiet s"
  by (auto simp: is_pg_identifier_safe_def is_pg_table_pattern_safe_def quiet_def list_all_iff)

lemma prefixed_plain:
  "\<lbrakk>list_all ok xs; \<And>x. ok x \<Longrightarrow> list_all quiet x; plain_option opt\<rbrakk> \<Longrightarrow> list_all plain_option (map ((@) opt) xs)"
  by (auto simp: list_all_iff plain_option_def starts_with_iff)

lemma fixed_plain:
  "list_all plain_option [''-Fc'', ''--no-owner'', ''--no-privileges'', ''--no-comments'', ''--verbose'',
    ''--quote-all-identifiers'', ''--schema-only'', ''--data-only'', ''--single-transaction'',
    ''--exclude-schema='', ''--exclude-table='', ''--table='']"
  by (simp add: plain_option_def starts_with_def quiet_def ascii_defs)

lemma bulk_options:
  assumes "bulk_dump_args req = Inr args"
  shows "args = butlast args @ [''$KRAPH_SOURCE_URL'']" "list_all plain_option (butlast args)"
proof -
  from assms obtain a1 a2 a3 where
    a1: "safe_args is_pg_identifier_safe Unsafe_exclude_schema ''--exclude-schema='' (exclude_schemas_of req) = Inr a1"
    and a2: "(case mg_exclude_tables req of
         Some l \<Rightarrow> safe_args is_pg_table_pattern_safe Unsafe_exclude_table ''--exclude-table='' l | None \<Rightarrow> Inr []) = Inr a2"
    and a3: "(case mg_include_tables req of
         Some l \<Rightarrow> safe_args is_pg_table_pattern_safe Unsafe_include_table ''--table='' l | None \<Rightarrow> Inr []) = Inr a3"
    and args: "args = ([''-Fc'', ''--no-owner'', ''--no-privileges'', ''--no-comments'', ''--verbose'', ''--quote-all-identifiers''] @
       (if mg_schema_only req then [''--schema-only''] else []) @
       (if mg_data_only req then [''--data-only''] else []) @ a1 @ a2 @ a3) @ [''$KRAPH_SOURCE_URL'']"
    by (auto simp: bulk_dump_args_def ok_simps)
  note fixed = fixed_plain [simplified]
  have "list_all plain_option a1" using a1 fixed by (auto simp: safe_args_ok intro: prefixed_plain safe_names_quiet)
  moreover have "list_all plain_option a2" using a2 fixed
    by (auto simp: safe_args_ok split: option.splits intro: prefixed_plain safe_names_quiet)
  moreover have "list_all plain_option a3" using a3 fixed
    by (auto simp: safe_args_ok split: option.splits intro: prefixed_plain safe_names_quiet)
  ultimately show "args = butlast args @ [''$KRAPH_SOURCE_URL'']" "list_all plain_option (butlast args)"
    unfolding args using fixed by (simp_all del: append_assoc add: butlast_snoc)
qed

lemma restore_options:
  "bulk_restore_args req = butlast (bulk_restore_args req) @ [''--dbname='' @ ''$KRAPH_TARGET_URL'']"
  "list_all plain_option (butlast (bulk_restore_args req))"
proof -
  have "list_all quiet (show_int (uint n))" for n :: u32
    using dec_digits_digits by (auto simp: show_int_def list_all_iff quiet_def ascii_defs)
  moreover have "plain_option ''--jobs=''" by (simp add: plain_option_def starts_with_def quiet_def ascii_defs)
  ultimately have "plain_option (''--jobs='' @ show_int (uint n))" for n :: u32
    by (auto simp: plain_option_def starts_with_iff simp del: append.simps)
  then show "bulk_restore_args req = butlast (bulk_restore_args req) @ [''--dbname='' @ ''$KRAPH_TARGET_URL'']"
    "list_all plain_option (butlast (bulk_restore_args req))"
    using fixed_plain by (simp_all add: bulk_restore_args_def)
qed

lemma live_options:
  assumes "list_all is_pg_identifier_safe schemas"
  shows "live_dump_args schemas = butlast (live_dump_args schemas) @ [''$KRAPH_SOURCE_URL'']"
    "list_all plain_option (butlast (live_dump_args schemas))"
proof -
  have "plain_option ''--exclude-schema=''" using fixed_plain by simp
  then have "list_all plain_option (map ((@) ''--exclude-schema='') schemas)"
    using assms by (auto intro: prefixed_plain safe_names_quiet)
  then have p: "list_all plain_option (map (\<lambda>s. ''--exclude-schema='' @ s) schemas)" .
  show "live_dump_args schemas = butlast (live_dump_args schemas) @ [''$KRAPH_SOURCE_URL'']"
    "list_all plain_option (butlast (live_dump_args schemas))"
    using p fixed_plain by (simp_all add: live_dump_args_def butlast_append)
qed

text \<open>
  No value of a request reaches the shell as anything but an option. For an accepted bulk
  request, and for a live synchronisation whose schema names pass the check, the tool gets exactly
  the options the code lists, each a dash followed by letters, digits and \<open>_-.*=\<close>; \<open>pg_restore\<close> gets
  its options and the words of the target. The URL of the source is not quoted, so what it holds
  after a blank becomes arguments of \<open>pg_dump\<close> of its own.
\<close>
lemma command_lines_are_safe:
  assumes "accepted_bulk req args" and "list_all is_pg_identifier_safe schemas"
  shows "sh_words (expand ''$KRAPH_SOURCE_URL'' url (dump_line args)) = ''pg_dump'' # butlast args @ sh_words url \<and>
    sh_words (expand ''$KRAPH_TARGET_URL'' target (restore_line (bulk_restore_args req))) =
      ''pg_restore'' # butlast (bulk_restore_args req) @ sh_words (''--dbname='' @ target) \<and>
    sh_words (expand ''$KRAPH_SOURCE_URL'' url (dump_line (live_dump_args schemas))) =
      ''pg_dump'' # butlast (live_dump_args schemas) @ sh_words url \<and>
    list_all plain_option (butlast args) \<and> list_all plain_option (butlast (bulk_restore_args req)) \<and>
    list_all plain_option (butlast (live_dump_args schemas))"
proof (intro conjI)
  have bulk: "bulk_dump_args req = Inr args" using assms(1) by (simp add: accepted_bulk_def)
  note lines = dump_line_def restore_line_def
  show "list_all plain_option (butlast args)" "list_all plain_option (butlast (bulk_restore_args req))"
    "list_all plain_option (butlast (live_dump_args schemas))"
    using bulk_options [OF bulk] restore_options live_options [OF assms(2)] by blast+
  show "sh_words (expand ''$KRAPH_SOURCE_URL'' url (dump_line args)) = ''pg_dump'' # butlast args @ sh_words url"
    using argv_of_line [of "''pg_dump''" "butlast args" "[]" "''KRAPH_SOURCE_URL''" url] bulk_options [OF bulk]
    by (simp add: lines ifs_def)
  show "sh_words (expand ''$KRAPH_SOURCE_URL'' url (dump_line (live_dump_args schemas))) =
      ''pg_dump'' # butlast (live_dump_args schemas) @ sh_words url"
    using argv_of_line [of "''pg_dump''" "butlast (live_dump_args schemas)" "[]" "''KRAPH_SOURCE_URL''" url]
      live_options [OF assms(2)]
    by (simp add: lines ifs_def)
  show "sh_words (expand ''$KRAPH_TARGET_URL'' target (restore_line (bulk_restore_args req))) =
      ''pg_restore'' # butlast (bulk_restore_args req) @ sh_words (''--dbname='' @ target)"
    using argv_of_line [of "''pg_restore''" "butlast (bulk_restore_args req)" "''--dbname=''" "''KRAPH_TARGET_URL''" target]
      restore_options [of req]
    by (simp add: lines ifs_def)
qed

section \<open>A run that fits\<close>

definition ended :: "string list \<times> nat \<Rightarrow> docker_run" where
  "ended e = \<lparr>dk_inspect = Image_present, dk_pull = [], dk_create = None, dk_start = None,
     dk_logs = [Chunk (unlines (fst e))], dk_wait = Some (bollard_wait (snd e)), dk_ms = 1\<rparr>"

lemma ended_ran [simp]: "container_ran (ended e) e"
  by (simp add: container_ran_def ended_def)

definition demo_bulk :: migration_request where
  "demo_bulk = \<lparr>mg_wallet = ''w'', mg_source_url = ''postgres://h/db'', mg_source_url_env = None,
     mg_target_url = ''postgres://t/db'', mg_mode = None, mg_schema_only = False, mg_data_only = False,
     mg_exclude_schemas = Some [''auth''], mg_exclude_tables = None, mg_include_tables = Some [''public.a*''],
     mg_timeout_secs = None, mg_parallel_jobs = None\<rparr>"

definition demo_args :: "string list" where
  "demo_args = [''-Fc'', ''--no-owner'', ''--no-privileges'', ''--no-comments'', ''--verbose'',
     ''--quote-all-identifiers'', ''--exclude-schema=auth'', ''--table=public.a*'', ''$KRAPH_SOURCE_URL'']"

lemma demo_accepted: "accepted_bulk demo_bulk demo_args"
  by (simp add: accepted_bulk_def demo_bulk_def demo_args_def bulk_dump_args_def exclude_schemas_of_def
      is_pg_identifier_safe_def is_pg_table_pattern_safe_def ascii_defs)

definition demo_tools :: "nat \<Rightarrow> pg_tools" where
  "demo_tools rc = \<lparr>pt_dump = (\<lambda>_. \<lparr>tl_rc = 0, tl_out = []\<rparr>), pt_size = ''5'',
     pt_toc = (0, [''1; TABLE a'', ''2; EVENT TRIGGER b'']), pt_restore = (\<lambda>_ _. \<lparr>tl_rc = rc, tl_out = []\<rparr>),
     pt_publish = (\<lambda>_. \<lparr>tl_rc = 0, tl_out = []\<rparr>), pt_subscribe = (\<lambda>_. \<lparr>tl_rc = rc, tl_out = []\<rparr>)\<rparr>"

lemma demo_tools_rc [simp]:
  "tl_rc (dumped (demo_tools rc) a) = 0" "tl_rc (restored (demo_tools rc) a) = rc"
  by (simp_all add: dumped_def restored_def demo_tools_def)

theorem bulk_verdict_is_sound_witness:
  "\<exists>m. fst (run_bulk_migration (ended (bulk_script (length (exclude_schemas_of demo_bulk)) demo_args
      (bulk_restore_args demo_bulk) (demo_tools 0))) ''n'' demo_bulk) = Inr m \<and> mr_state m = ''done''"
  using bulk_verdict_is_sound [OF demo_accepted ended_ran, of "demo_tools 0" "''n''"] by (simp add: Let_def)

lemma command_lines_are_safe_witness:
  "sh_words (expand ''$KRAPH_SOURCE_URL'' ''h --file=f'' (dump_line demo_args)) =
    ''pg_dump'' # butlast demo_args @ [''h'', ''--file=f'']"
proof -
  have "list_all is_pg_identifier_safe [''auth'']" by (simp add: is_pg_identifier_safe_def ascii_defs)
  moreover have "sh_words ''h --file=f'' = [''h'', ''--file=f'']" by (simp add: sh_words_def ifs_def)
  ultimately show ?thesis using command_lines_are_safe [OF demo_accepted] by metis
qed

section \<open>Live synchronisation\<close>

text \<open>A failing command has a status other than 0.\<close>

definition failing_statuses :: "cutover_tools \<Rightarrow> bool" where
  "failing_statuses T \<longleftrightarrow> (\<forall>n rc. po_received (ct_poll T n) = Inl rc \<or> po_reached (ct_poll T n) = Inl rc \<longrightarrow> rc \<noteq> 0) \<and>
     (\<forall>rc. ct_source_lsn T = Inl rc \<longrightarrow> rc \<noteq> 0)"

definition caught_up :: "string \<Rightarrow> cutover_tools \<Rightarrow> bool" where
  "caught_up pubsub T \<longleftrightarrow>
     (\<exists>n r. po_received (ct_poll T n) = Inr r \<and> r \<noteq> [] \<and> po_reached (ct_poll T n) = Inr ''t'') \<and>
     ct_drop_sub T (''DROP SUBSCRIPTION IF EXISTS '' @ pubsub) = 0 \<and>
     ct_drop_pub T (''DROP PUBLICATION IF EXISTS '' @ pubsub) = 0"

text \<open>Each turn sleeps three seconds.\<close>

definition clock_runs :: "cutover_tools \<Rightarrow> bool" where
  "clock_runs T \<longleftrightarrow> ct_start T \<le> po_now (ct_poll T 0) \<and>
     (\<forall>n. po_now (ct_poll T n) + 3 \<le> po_now (ct_poll T (Suc n)))"

lemma clock_at: "clock_runs T \<Longrightarrow> ct_start T + 3 * int n \<le> po_now (ct_poll T n)"
proof (induction n)
  case (Suc n)
  then have "po_now (ct_poll T n) + 3 \<le> po_now (ct_poll T (Suc n))" by (simp add: clock_runs_def)
  with Suc show ?case by simp
qed (simp add: clock_runs_def)

lemma loop_ends:
  "deadline \<le> po_now (ct_poll T (n + fuel)) \<Longrightarrow> \<exists>e. cutover_loop (Suc fuel) pubsub source deadline T n = Some e"
proof (induction fuel arbitrary: n)
  case 0
  then show ?case by (simp add: Let_def split: sum.split prod.split)
next
  case (Suc fuel)
  then obtain e where "cutover_loop (Suc fuel) pubsub source deadline T (Suc n) = Some e" by fastforce
  then show ?case
    by (subst cutover_loop.simps(2)) (simp add: Let_def del: cutover_loop.simps split: sum.split prod.split)
qed

lemma loop_success:
  "cutover_loop fuel pubsub source deadline T n = Some (ls, 0) \<Longrightarrow> failing_statuses T \<Longrightarrow> caught_up pubsub T"
proof (induction fuel arbitrary: n ls)
  case (Suc fuel)
  show ?case
  proof (cases "\<exists>ls'. cutover_loop fuel pubsub source deadline T (Suc n) = Some (ls', 0)")
    case True
    then show ?thesis using Suc by blast
  next
    case False
    then show ?thesis using Suc.prems
      by (auto simp: Let_def failing_statuses_def caught_up_def drop_both_def split: sum.splits if_splits prod.splits)
  qed
qed simp

lemma live_script_end:
  "snd (live_script pubsub dargs rargs T) = 0 \<longleftrightarrow> tl_rc (dumped T dargs) = 0 \<and> tl_rc (restored T rargs) = 0 \<and>
     tl_rc (pt_publish T (pub_sql pubsub)) = 0 \<and> tl_rc (pt_subscribe T (sub_sql pubsub)) = 0"
  by (auto simp: live_script_def dumped_def restored_def Let_def split: prod.splits)

lemma live_setup_ran:
  assumes "is_pg_identifier_safe pubsub" "list_all is_pg_identifier_safe (exclude_schemas_of req)"
    and "container_ran D e"
  shows "\<exists>m. fst (run_live_sync_setup D name pubsub req) = Inr m \<and> mr_state m = ''cdc_streaming'' \<and> mr_error m = []"
proof -
  obtain out rc where e: "e = (out, rc)" by (cases e)
  have "safe_args is_pg_identifier_safe Unsafe_exclude_schema [] (exclude_schemas_of req) = Inr (exclude_schemas_of req)"
    using assms(2) map_idI [of "exclude_schemas_of req" "(@) []"] by (simp add: safe_args_ok)
  with assms show ?thesis unfolding e
    by (simp add: run_live_sync_setup_def run_ran(2) Let_def split: prod.split)
qed

lemma cutover_ran:
  assumes "is_pg_identifier_safe pubsub" and "container_ran D e"
  shows "\<exists>m. fst (run_live_sync_cutover D name pubsub src tgt w) = Inr m \<and> mr_state m = ''done'' \<and> mr_error m = []"
  using assms by (cases e) (simp add: run_live_sync_cutover_def run_ran(2))

text \<open>
  C28: live synchronisation always claims success. The set-up script ends with 0 only if dump,
  restore, publication and subscription all succeed, and the cutover script ends, within one turn
  per three seconds of the waiting time and one more, with 0 only if the target has caught up and
  subscription and publication are dropped. But once the containers run to their end in time, the
  node answers ``cdc_streaming'' and ``done'' without an error, whatever their status.
\<close>
theorem live_sync_always_claims_success:
  assumes names: "is_pg_identifier_safe pubsub" "list_all is_pg_identifier_safe (exclude_schemas_of req)"
    and began: "container_ran D (live_script pubsub (live_dump_args (exclude_schemas_of req)) live_restore_args T)"
    and clock: "clock_runs C" "failing_statuses C"
    and fuel: "unat max_wait div 3 + 2 \<le> fuel"
  shows "\<exists>e. cutover_script fuel pubsub (uint max_wait) C = Some e \<and> (snd e = 0 \<longrightarrow> caught_up pubsub C) \<and>
    (\<forall>D' name'. container_ran D' e \<longrightarrow> (\<exists>m. fst (run_live_sync_cutover D' name' pubsub src tgt max_wait) = Inr m \<and>
      mr_state m = ''done'' \<and> mr_error m = [])) \<and>
    (\<exists>m. fst (run_live_sync_setup D name pubsub req) = Inr m \<and> mr_state m = ''cdc_streaming'' \<and> mr_error m = []) \<and>
    (snd (live_script pubsub (live_dump_args (exclude_schemas_of req)) live_restore_args T) = 0 \<longleftrightarrow>
      tl_rc (dumped T (live_dump_args (exclude_schemas_of req))) = 0 \<and> tl_rc (restored T live_restore_args) = 0 \<and>
      tl_rc (pt_publish T (pub_sql pubsub)) = 0 \<and> tl_rc (pt_subscribe T (sub_sql pubsub)) = 0)"
proof -
  obtain f where f: "fuel = Suc f" "unat max_wait div 3 + 1 \<le> f" using fuel by (cases fuel) auto
  have "unat max_wait \<le> 3 * f" using f(2) by linarith
  then have "int (unat max_wait) \<le> 3 * int f" by linarith
  then have "uint max_wait \<le> 3 * int f" by simp
  then have "ct_start C + uint max_wait \<le> po_now (ct_poll C (0 + f))" using clock_at [OF clock(1), of f] by simp
  note ends = loop_ends [OF this, of pubsub]
  have "\<exists>e. cutover_script fuel pubsub (uint max_wait) C = Some e"
  proof (cases "ct_source_lsn C")
    case (Inr source)
    from ends [of source] obtain a where "cutover_loop fuel pubsub source (ct_start C + uint max_wait) C 0 = Some a"
      unfolding f(1) by blast
    then show ?thesis using Inr by (simp add: cutover_script_def)
  qed (simp add: cutover_script_def)
  then obtain ls rc where e: "cutover_script fuel pubsub (uint max_wait) C = Some (ls, rc)" by fastforce
  have "caught_up pubsub C" if "rc = 0"
  proof (cases "ct_source_lsn C")
    case (Inl r)
    then have "r = 0" using e that by (simp add: cutover_script_def)
    then show ?thesis using Inl clock(2) by (auto simp: failing_statuses_def)
  next
    case (Inr source)
    then obtain ks where "cutover_loop fuel pubsub source (ct_start C + uint max_wait) C 0 = Some (ks, rc)"
      using e by (auto simp: cutover_script_def simp del: cutover_loop.simps)
    then show ?thesis using that loop_success clock(2) by blast
  qed
  then have end_of: "snd (ls, rc) = 0 \<longrightarrow> caught_up pubsub C" by simp
  have "container_ran D' (ls, rc) \<longrightarrow> (\<exists>m. fst (run_live_sync_cutover D' name' pubsub src tgt max_wait) = Inr m \<and>
      mr_state m = ''done'' \<and> mr_error m = [])" for D' name'
    using cutover_ran [OF names(1)] by blast
  note parts = e end_of this live_setup_ran [OF names began] live_script_end
  show ?thesis by (rule exI [of _ "(ls, rc)"]) (intro conjI allI parts)
qed

definition stuck_cutover :: cutover_tools where
  "stuck_cutover = \<lparr>ct_source_lsn = Inr ''0/1'', ct_start = 0,
     ct_poll = (\<lambda>n. \<lparr>po_received = Inr [], po_reached = Inr ''f'', po_now = 3 * int n\<rparr>),
     ct_drop_sub = (\<lambda>_. 0), ct_drop_pub = (\<lambda>_. 0)\<rparr>"

theorem live_sync_always_claims_success_witness:
  "\<not> caught_up ''kraph_a'' stuck_cutover \<and>
   (\<exists>e. cutover_script 3 ''kraph_a'' 3 stuck_cutover = Some e \<and> snd e \<noteq> 0 \<and>
     (\<exists>m. fst (run_live_sync_cutover (ended e) ''c'' ''kraph_a'' ''s'' ''t'' 3) = Inr m \<and> mr_state m = ''done'')) \<and>
   (\<exists>m. fst (run_live_sync_setup (ended (live_script ''kraph_a'' (live_dump_args [''auth'']) live_restore_args
      (demo_tools 1))) ''n'' ''kraph_a'' demo_bulk) = Inr m \<and> mr_state m = ''cdc_streaming'')"
proof -
  have x: "exclude_schemas_of demo_bulk = [''auth'']" by (simp add: exclude_schemas_of_def demo_bulk_def)
  have names: "is_pg_identifier_safe ''kraph_a''" "list_all is_pg_identifier_safe (exclude_schemas_of demo_bulk)"
    by (simp_all add: x is_pg_identifier_safe_def ascii_defs)
  have stuck: "clock_runs stuck_cutover" "failing_statuses stuck_cutover" "\<not> caught_up ''kraph_a'' stuck_cutover"
    by (auto simp: stuck_cutover_def clock_runs_def failing_statuses_def caught_up_def)
  have "unat (3 :: u64) div 3 + 2 \<le> 3" by simp
  from live_sync_always_claims_success [where T = "demo_tools 1" and src = "''s''" and tgt = "''t''" and name = "''n''",
      OF names ended_ran stuck(1,2) this] obtain e
    where e: "cutover_script 3 ''kraph_a'' (uint (3 :: u64)) stuck_cutover = Some e" "snd e = 0 \<longrightarrow> caught_up ''kraph_a'' stuck_cutover"
      "\<exists>m. fst (run_live_sync_cutover (ended e) ''c'' ''kraph_a'' ''s'' ''t'' 3) = Inr m \<and> mr_state m = ''done''"
    and m: "\<exists>m. fst (run_live_sync_setup (ended (live_script ''kraph_a'' (live_dump_args [''auth'']) live_restore_args
      (demo_tools 1))) ''n'' ''kraph_a'' demo_bulk) = Inr m \<and> mr_state m = ''cdc_streaming''"
    unfolding x by (metis ended_ran)
  then show ?thesis using stuck(3) by auto
qed

end
