(* ===== verification/Migration_Api.thy ===== *)
theory Migration_Api
  imports Migration_Outcomes Env_Api Job_Admission
begin

text \<open>
  The four endpoints of the migration (\<open>main.rs\<close>): probe a source, start a migration, cut over,
  cancel. The state is the server with the admission table; a handler gives its answer, what it
  asked of Docker and the state it leaves. \<open>urlencoding\<close> and the random names are arguments.
\<close>

record migrate_readers =
  js_migrate_probe :: "string \<Rightarrow> (string \<times> string option \<times> string option) option"
  js_migrate_start :: "string \<Rightarrow> migration_request option"
  js_migrate_cutover :: "string \<Rightarrow> (string \<times> string option \<times> string option \<times> u64 option) option"

text \<open>What chance and Docker contribute: the connection, a random name, the run, the kill.\<close>

record migrate_luck =
  ml_connected :: bool
  ml_nanoid :: string
  ml_run :: docker_run
  ml_kill :: kill_outcome

datatype resolve_error = Both_given | None_given | Env_var_not_set string | Env_unreadable db_error

datatype migrate_payload =
    M_internal
  | M_unauthorized sig_error
  | M_wrong_wallet
  | M_not_found
  | M_not_migration
  | M_busy admission_error
  | M_unresolved resolve_error
  | M_failed migrate_error
  | M_probe source_probe
  | M_started string migration_result
  | M_start_failed string migrate_error
  | M_cutover migration_result
  | M_cancelled

datatype answer = Answer nat migrate_payload | Connection_broken

type_synonym migration_state = "server \<times> admission"
type_synonym migrate_outcome = "answer \<times> docker_action list \<times> migration_state"

section \<open>The URLs\<close>

definition resolve_source_url ::
  "crypto \<Rightarrow> string \<Rightarrow> string option \<Rightarrow> string option \<Rightarrow> db \<Rightarrow> resolve_error + string" where
  "resolve_source_url C inst source_url source_url_env d =
     (case (source_url, source_url_env) of
        (Some u, None) \<Rightarrow> if u \<noteq> [] then Inr u else Inl None_given
      | (None, None) \<Rightarrow> Inl None_given
      | (su, Some name) \<Rightarrow>
          if su \<in> {None, Some []} \<and> name \<noteq> [] then
            (case list_env C inst d of
               Inl e \<Rightarrow> Inl (Env_unreadable e)
             | Inr entries \<Rightarrow>
                 (case find (\<lambda>(k, v). k = name) entries of
                    Some (_, v) \<Rightarrow> Inr v | None \<Rightarrow> Inl (Env_var_not_set name)))
          else if su = None then Inl None_given else Inl Both_given)"

text \<open>The port is 16 bits wide and the addition wraps.\<close>

definition target_url :: "(string \<Rightarrow> string) \<Rightarrow> instance_row \<Rightarrow> string" where
  "target_url url_encode i =
     ''postgresql://postgres:'' @ url_encode (postgres_password (in_secrets i)) @ ''@host.docker.internal:'' @
     show_int (uint (postgres_port (in_ports i) + 100)) @ ''/postgres''"

function trim_start_matches :: "string \<Rightarrow> string \<Rightarrow> string" where
  "trim_start_matches p s =
     (if p = [] then s else (case strip_prefix p s of Some r \<Rightarrow> trim_start_matches p r | None \<Rightarrow> s))"
  by auto
termination
  by (relation "measure (length \<circ> snd)") (auto simp: strip_prefix_iff)

declare trim_start_matches.simps [simp del]

section \<open>The handlers\<close>

text \<open>The checks three of them begin with: the signature of the wallet in the body, its instance.\<close>

definition signed_by_owner ::
  "api_config \<Rightarrow> call \<Rightarrow> string \<Rightarrow> string \<Rightarrow> string \<Rightarrow>
   (instance_row \<Rightarrow> migration_state \<Rightarrow> migrate_outcome) \<Rightarrow> migration_state \<Rightarrow> migrate_outcome" where
  "signed_by_owner A c rpath wallet inst k = (\<lambda>(s, adm).
     case verify_request_sig (ac_crypto A) (sigauth_missing_allowed (ac_allow_missing A)) (ca_wall c)
         (ca_instant c) (call_request c ''POST'' rpath (ca_body c) wallet) (sv_nonces s) of
       (Inl e, m) \<Rightarrow> (Answer 401 (M_unauthorized e), [], s\<lparr>sv_nonces := m\<rparr>, adm)
     | (Inr _, m) \<Rightarrow>
         (case manager_get_instance inst wallet (sv_node s) of
            None \<Rightarrow> (Answer 404 M_not_found, [], s\<lparr>sv_nonces := m\<rparr>, adm)
          | Some i \<Rightarrow> k i (s\<lparr>sv_nonces := m\<rparr>, adm)))"

text \<open>A panic breaks the connection; any other result becomes a response.\<close>

definition answer_of :: "('r \<Rightarrow> migrate_payload) \<Rightarrow> (migrate_error \<Rightarrow> migrate_payload) \<Rightarrow> migrate_error + 'r \<Rightarrow> answer" where
  "answer_of ok err r =
     (case r of Inr m \<Rightarrow> Answer 200 (ok m)
      | Inl e \<Rightarrow> if e = Log_slice_panic then Connection_broken else Answer 502 (err e))"

definition migrate_probe_handler ::
  "api_config \<Rightarrow> migrate_readers \<Rightarrow> call \<Rightarrow> migrate_luck \<Rightarrow> string \<Rightarrow> migration_state \<Rightarrow> migrate_outcome" where
  "migrate_probe_handler A J c l inst st =
     (case js_migrate_probe J (ca_body c) of
        None \<Rightarrow> (Answer 500 M_internal, [], st)
      | Some (wallet, source, source_env) \<Rightarrow>
          signed_by_owner A c (''/instances/'' @ inst @ ''/migrate/probe'') wallet inst (\<lambda>i (s, adm).
            if \<not> ml_connected l then (Answer 500 M_internal, [], s, adm)
            else (case resolve_source_url (ac_crypto A) inst source source_env (sdb_of s) of
              Inl e \<Rightarrow> (Answer 400 (M_unresolved e), [], s, adm)
            | Inr url \<Rightarrow>
                (let (r, acts) = probe_source (ml_run l) (ml_nanoid l) url in
                 (answer_of M_probe M_failed r, acts, s, adm)))) st)"

text \<open>
  The guard of the admission table is dropped on every way out; \<open>others\<close> is what other requests do
  to the state while the container runs.
\<close>

definition migrate_start_handler ::
  "api_config \<Rightarrow> migrate_readers \<Rightarrow> (string \<Rightarrow> string) \<Rightarrow> call \<Rightarrow> migrate_luck \<Rightarrow>
   (migration_state \<Rightarrow> migration_state) \<Rightarrow> string \<Rightarrow> migration_state \<Rightarrow> migrate_outcome" where
  "migrate_start_handler A J url_encode c l others inst st =
     (case js_migrate_start J (ca_body c) of
        None \<Rightarrow> (Answer 500 M_internal, [], st)
      | Some req \<Rightarrow>
          signed_by_owner A c (''/instances/'' @ inst @ ''/migrate'') (mg_wallet req) inst (\<lambda>i (s, adm).
            case try_acquire Migration (mg_wallet req) inst adm of
              Inl e \<Rightarrow> (Answer 429 (M_busy e), [], s, adm)
            | Inr (g, adm1) \<Rightarrow>
                (case resolve_source_url (ac_crypto A) inst
                    (if mg_source_url req = [] then None else Some (mg_source_url req)) (mg_source_url_env req) (sdb_of s) of
                   Inl e \<Rightarrow> (Answer 400 (M_unresolved e), [], s, drop_guard g adm1)
                 | Inr url \<Rightarrow>
                     if \<not> ml_connected l then (Answer 500 M_internal, [], s, drop_guard g adm1)
                     else
                       (let req1 = req\<lparr>mg_source_url := url, mg_target_url := target_url url_encode i\<rparr>;
                            name = ''kraph-migrate-'' @ ml_nanoid l;
                            (r, acts) = (if mg_mode req = Some ''live_sync''
                              then run_live_sync_setup (ml_run l) name
                                (''kraph_'' @ trim_start_matches ''kraph-migrate-'' name) req1
                              else run_bulk_migration (ml_run l) name req1);
                            (s2, adm2) = others (s, adm1)
                        in (answer_of (M_started name) (M_start_failed name) r, acts, s2, drop_guard g adm2)))) st)"

definition migrate_cutover_handler ::
  "api_config \<Rightarrow> migrate_readers \<Rightarrow> (string \<Rightarrow> string) \<Rightarrow> call \<Rightarrow> migrate_luck \<Rightarrow> string \<Rightarrow> string \<Rightarrow>
   migration_state \<Rightarrow> migrate_outcome" where
  "migrate_cutover_handler A J url_encode c l inst pubsub st =
     (case js_migrate_cutover J (ca_body c) of
        None \<Rightarrow> (Answer 500 M_internal, [], st)
      | Some (wallet, source, source_env, max_wait_secs) \<Rightarrow>
          signed_by_owner A c (''/instances/'' @ inst @ ''/migrate/cutover/'' @ pubsub) wallet inst (\<lambda>i (s, adm).
            if \<not> ml_connected l then (Answer 500 M_internal, [], s, adm)
            else (case resolve_source_url (ac_crypto A) inst source source_env (sdb_of s) of
              Inl e \<Rightarrow> (Answer 400 (M_unresolved e), [], s, adm)
            | Inr url \<Rightarrow>
                (let (r, acts) = run_live_sync_cutover (ml_run l) (''kraph-cutover-'' @ ml_nanoid l) pubsub url
                    (target_url url_encode i) (case max_wait_secs of Some n \<Rightarrow> n | None \<Rightarrow> 15 * 60)
                 in (answer_of M_cutover M_failed r, acts, s, adm)))) st)"

definition migrate_cancel_handler ::
  "api_config \<Rightarrow> call \<Rightarrow> migrate_luck \<Rightarrow> string \<Rightarrow> string \<Rightarrow> string \<Rightarrow> migration_state \<Rightarrow> migrate_outcome" where
  "migrate_cancel_handler A c l inst container wallet = (\<lambda>(s, adm).
     if \<not> starts_with ''kraph-migrate-'' container then (Answer 403 M_not_migration, [], s, adm)
     else (case get_instance_by_id inst (sdb_of s) of
        None \<Rightarrow> (Answer 404 M_not_found, [], s, adm)
      | Some i \<Rightarrow>
          if wallet \<noteq> in_wallet i then (Answer 401 M_wrong_wallet, [], s, adm)
          else (case verify_request_sig (ac_crypto A) (sigauth_missing_allowed (ac_allow_missing A)) (ca_wall c)
              (ca_instant c) (call_request c ''DELETE'' (''/instances/'' @ inst @ ''/migrate/'' @ container) [] (in_wallet i))
              (sv_nonces s) of
             (Inl e, m) \<Rightarrow> (Answer 401 (M_unauthorized e), [], s\<lparr>sv_nonces := m\<rparr>, adm)
           | (Inr _, m) \<Rightarrow>
               if \<not> ml_connected l then (Answer 500 M_internal, [], s\<lparr>sv_nonces := m\<rparr>, adm)
               else (let (r, acts) = cancel_migration (ml_kill l) container in
                 (answer_of (\<lambda>_. M_cancelled) M_failed r, acts, s\<lparr>sv_nonces := m\<rparr>, adm)))))"

datatype migrate_request =
    Probe string
  | Start_migration string
  | Cut_over string string
  | Cancel string string string

fun serve_migration ::
  "api_config \<Rightarrow> migrate_readers \<Rightarrow> (string \<Rightarrow> string) \<Rightarrow> call \<Rightarrow> migrate_luck \<Rightarrow> (migration_state \<Rightarrow> migration_state) \<Rightarrow>
   migrate_request \<Rightarrow> migration_state \<Rightarrow> migrate_outcome" where
  "serve_migration A J enc c l others (Probe inst) st = migrate_probe_handler A J c l inst st"
| "serve_migration A J enc c l others (Start_migration inst) st = migrate_start_handler A J enc c l others inst st"
| "serve_migration A J enc c l others (Cut_over inst pubsub) st = migrate_cutover_handler A J enc c l inst pubsub st"
| "serve_migration A J enc c l others (Cancel inst container wallet) st = migrate_cancel_handler A c l inst container wallet st"

end
