(* ===== verification/Migration_Guarantees.thy ===== *)
theory Migration_Guarantees
  imports Migration_Api Env_Secrecy
begin

text \<open>
  What the migration endpoints do to Docker, and on whose behalf: every container is created for
  the signer's own instance and removed on every way out, nothing else is killed.
\<close>

section \<open>A run touches its own container\<close>

fun concerns :: "string \<Rightarrow> string list \<Rightarrow> docker_action \<Rightarrow> bool" where
  "concerns name env (Pull img) = (img = image_name)"
| "concerns name env (Create n img mem e j) = (n = name \<and> img = image_name \<and> e = env)"
| "concerns name env (Start n) = (n = name)"
| "concerns name env (Kill n) = (n = name)"
| "concerns name env (Remove n) = (n = name)"

fun creates :: "docker_action \<Rightarrow> bool" where
  "creates (Create n img mem e j) = True"
| "creates _ = False"

definition tidy :: "string \<Rightarrow> string list \<Rightarrow> docker_action list \<Rightarrow> bool" where
  "tidy name env acts \<longleftrightarrow> list_all (concerns name env) acts \<and> (list_ex creates acts \<longrightarrow> last acts = Remove name)"

lemma pull_tidy: "snd (pull_image_if_missing D) \<in> {[], [Pull image_name]}"
  by (simp add: pull_image_if_missing_def split: inspect.split option.split)

lemma container_tidy: "tidy name env (snd (run_container w rd k t name mem env j D))"
proof -
  obtain r acts where p: "pull_image_if_missing D = (r, acts)" by (cases "pull_image_if_missing D")
  with pull_tidy [of D] have "acts = [] \<or> acts = [Pull image_name]" by auto
  then show ?thesis
    by (auto simp: run_container_def p tidy_def Let_def split: sum.split option.split)
qed

lemma container_tidied: "run_container w rd k t name mem env j D = (r, acts) \<Longrightarrow> tidy name env acts"
  using container_tidy [of name env w rd k t mem j D] by simp

lemma bulk_tidy:
  "snd (run_bulk_migration D name req) \<noteq> [] \<Longrightarrow>
    tidy name (both_urls (mg_source_url req) (mg_target_url req)) (snd (run_bulk_migration D name req))"
  by (auto simp: run_bulk_migration_def Let_def split: sum.splits prod.splits dest!: container_tidied)

lemma live_tidy:
  "snd (run_live_sync_setup D name pubsub req) \<noteq> [] \<Longrightarrow>
    tidy name (both_urls (mg_source_url req) (mg_target_url req)) (snd (run_live_sync_setup D name pubsub req))"
  by (auto simp: run_live_sync_setup_def Let_def split: sum.splits prod.splits option.splits if_splits dest!: container_tidied)

lemma cutover_tidy:
  "snd (run_live_sync_cutover D name pubsub src tgt w) \<noteq> [] \<Longrightarrow>
    tidy name (both_urls src tgt) (snd (run_live_sync_cutover D name pubsub src tgt w))"
  by (auto simp: run_live_sync_cutover_def Let_def split: sum.splits prod.splits option.splits if_splits dest!: container_tidied)

lemma probe_tidy:
  "tidy (''kraph-migrate-probe-'' @ luck) [''KRAPH_SOURCE_URL='' @ url] (snd (probe_source D luck url))"
  by (auto simp: probe_source_def Let_def split: sum.splits prod.splits option.splits if_splits dest!: container_tidied)

section \<open>The gate\<close>

lemma manager_get_instance_row:
  assumes "manager_get_instance inst wallet n = Some i"
  shows "i \<in> set (instances (ndb n)) \<and> in_id i = inst \<and> (wallet = [] \<or> in_wallet i = wallet)"
  using assms
  by (auto simp: manager_get_instance_def get_instance_by_id_def list_instances_def newest_first_def
      dest!: find_SomeD split: if_splits)

text \<open>What a handler behind the gate may leave: the table of admissions, and what lasts, as they were.\<close>

definition untouched :: "migration_state \<Rightarrow> migration_state \<Rightarrow> bool" where
  "untouched st st' \<longleftrightarrow> lasting (fst st') = lasting (fst st) \<and> by_instance (snd st') = by_instance (snd st)"

lemma signed_by_owner_cases:
  assumes "signed_by_owner A c rpath wallet inst k (s, adm) = (ans, acts, st')"
  obtains (refused) "acts = []" "untouched (s, adm) st'"
    | (served) i m where "accepted A c ''POST'' rpath (ca_body c) wallet (sv_nonces s)"
      and "i \<in> set (instances (sdb_of s))" "in_id i = inst" "wallet = [] \<or> in_wallet i = wallet"
      and "k i (s\<lparr>sv_nonces := m\<rparr>, adm) = (ans, acts, st')"
  using assms manager_get_instance_row [of inst wallet "sv_node s"]
  unfolding signed_by_owner_def accepted_def
  by (auto simp: untouched_def split: prod.splits sum.splits option.splits)

lemma guard_released:
  "try_acquire kind wallet inst adm = Inr (g, adm1) \<Longrightarrow> by_instance (drop_guard g adm1) = by_instance adm"
  by (auto simp: try_acquire_def drop_guard_def Let_def split: if_splits)

section \<open>On whose behalf\<close>

fun instance_of :: "migrate_request \<Rightarrow> string" where
  "instance_of (Probe inst) = inst"
| "instance_of (Start_migration inst) = inst"
| "instance_of (Cut_over inst pubsub) = inst"
| "instance_of (Cancel inst container wallet) = inst"

text \<open>Verb, path and body the signature must cover.\<close>

fun covered :: "call \<Rightarrow> migrate_request \<Rightarrow> string \<times> string \<times> string" where
  "covered c (Probe inst) = (''POST'', ''/instances/'' @ inst @ ''/migrate/probe'', ca_body c)"
| "covered c (Start_migration inst) = (''POST'', ''/instances/'' @ inst @ ''/migrate'', ca_body c)"
| "covered c (Cut_over inst pubsub) = (''POST'', ''/instances/'' @ inst @ ''/migrate/cutover/'' @ pubsub, ca_body c)"
| "covered c (Cancel inst container wallet) = (''DELETE'', ''/instances/'' @ inst @ ''/migrate/'' @ container, [])"

fun works_for :: "(string \<Rightarrow> string) \<Rightarrow> string \<Rightarrow> instance_row \<Rightarrow> migrate_request \<Rightarrow> docker_action list \<Rightarrow> bool" where
  "works_for enc luck i (Probe inst) acts \<longleftrightarrow>
     (\<exists>url. tidy (''kraph-migrate-probe-'' @ luck) [''KRAPH_SOURCE_URL='' @ url] acts)"
| "works_for enc luck i (Start_migration inst) acts \<longleftrightarrow>
     (\<exists>url. tidy (''kraph-migrate-'' @ luck) (both_urls url (target_url enc i)) acts)"
| "works_for enc luck i (Cut_over inst pubsub) acts \<longleftrightarrow>
     (\<exists>url. tidy (''kraph-cutover-'' @ luck) (both_urls url (target_url enc i)) acts)"
| "works_for enc luck i (Cancel inst container wallet) acts \<longleftrightarrow>
     acts = [Kill container] \<and> starts_with ''kraph-migrate-'' container"

definition on_behalf ::
  "api_config \<Rightarrow> (string \<Rightarrow> string) \<Rightarrow> call \<Rightarrow> migrate_luck \<Rightarrow> server \<Rightarrow> migrate_request \<Rightarrow> docker_action list \<Rightarrow> bool" where
  "on_behalf A enc c l s r acts \<longleftrightarrow> (\<exists>wallet i verb route body. covered c r = (verb, route, body) \<and>
     accepted A c verb route body wallet (sv_nonces s) \<and> i \<in> set (instances (sdb_of s)) \<and>
     in_id i = instance_of r \<and> (wallet = [] \<or> in_wallet i = wallet) \<and> works_for enc (ml_nanoid l) i r acts)"

lemma probe_gate:
  assumes "migrate_probe_handler A J c l inst (s, adm) = (ans, acts, st')"
  shows "untouched (s, adm) st' \<and> (acts \<noteq> [] \<longrightarrow> on_behalf A enc c l s (Probe inst) acts)"
proof (cases "js_migrate_probe J (ca_body c)")
  case None
  then show ?thesis using assms by (auto simp: migrate_probe_handler_def untouched_def)
next
  case (Some p)
  obtain wallet source source_env where p: "p = (wallet, source, source_env)" by (cases p)
  show ?thesis
    using assms unfolding migrate_probe_handler_def Some p option.case prod.case
  proof (rule signed_by_owner_cases)
    fix i m
    assume gate: "accepted A c ''POST'' (''/instances/'' @ inst @ ''/migrate/probe'') (ca_body c) wallet (sv_nonces s)"
      "i \<in> set (instances (sdb_of s))" "in_id i = inst" "wallet = [] \<or> in_wallet i = wallet"
    assume "(\<lambda>(s, adm). if \<not> ml_connected l then (Answer 500 M_internal, [], s, adm)
      else (case resolve_source_url (ac_crypto A) inst source source_env (sdb_of s) of
        Inl e \<Rightarrow> (Answer 400 (M_unresolved e), [], s, adm)
      | Inr url \<Rightarrow> (let (r, acts) = probe_source (ml_run l) (ml_nanoid l) url in
           (answer_of M_probe M_failed r, acts, s, adm)))) (s\<lparr>sv_nonces := m\<rparr>, adm) = (ans, acts, st')"
    then show ?thesis using gate probe_tidy [of "ml_nanoid l" _ "ml_run l"]
      by (auto simp: on_behalf_def untouched_def Let_def split: if_splits sum.splits prod.splits) (metis snd_conv)+
  qed simp
qed

lemma sv_simps: "sv_node (s\<lparr>sv_nonces := m\<rparr>) = sv_node s" by simp

lemma start_tidy:
  assumes "(if live_sync then run_live_sync_setup D name pubsub req else run_bulk_migration D name req) = (r, acts)"
    and "acts \<noteq> []"
  shows "tidy name (both_urls (mg_source_url req) (mg_target_url req)) acts"
  using assms live_tidy [of D name pubsub req] bulk_tidy [of D name req] by (auto split: if_splits)

lemma start_gate:
  assumes "migrate_start_handler A J enc c l (\<lambda>st. st) inst (s, adm) = (ans, acts, st')"
  shows "untouched (s, adm) st' \<and> (acts \<noteq> [] \<longrightarrow> on_behalf A enc c l s (Start_migration inst) acts)"
proof (cases "js_migrate_start J (ca_body c)")
  case None
  then show ?thesis using assms by (auto simp: migrate_start_handler_def untouched_def)
next
  case (Some req)
  show ?thesis
    using assms unfolding migrate_start_handler_def Some option.case
  proof (rule signed_by_owner_cases, goal_cases)
    case (2 i m)
    have "untouched (s, adm) st' \<and> (acts \<noteq> [] \<longrightarrow> (\<exists>url. tidy (''kraph-migrate-'' @ ml_nanoid l)
        (both_urls url (target_url enc i)) acts))"
    proof (cases "try_acquire Migration (mg_wallet req) inst adm")
      case (Inl e)
      then show ?thesis using 2(5) by (auto simp: untouched_def)
    next
      case (Inr p)
      then obtain g adm1 where acq: "try_acquire Migration (mg_wallet req) inst adm = Inr (g, adm1)" by (cases p) auto
      show ?thesis
      proof (cases "resolve_source_url (ac_crypto A) inst (if mg_source_url req = [] then None else Some (mg_source_url req))
          (mg_source_url_env req) (sdb_of s)")
        case (Inl e)
        have "(Answer 400 (M_unresolved e), [], s\<lparr>sv_nonces := m\<rparr>, drop_guard g adm1) = (ans, acts, st')"
          using 2(5) unfolding prod.case acq sum.case sv_simps Inl by simp
        then show ?thesis using guard_released [OF acq] by (force simp: untouched_def)
      next
        case (Inr url)
        let ?req = "req\<lparr>mg_source_url := url, mg_target_url := target_url enc i\<rparr>"
        let ?name = "''kraph-migrate-'' @ ml_nanoid l"
        obtain r acts' where run: "(if mg_mode req = Some ''live_sync''
            then run_live_sync_setup (ml_run l) ?name (''kraph_'' @ trim_start_matches ''kraph-migrate-'' ?name) ?req
            else run_bulk_migration (ml_run l) ?name ?req) = (r, acts')" by fastforce
        have "acts = [] \<or> acts = acts'" "untouched (s, adm) st'"
        proof -
          have "ml_connected l \<Longrightarrow> (answer_of (M_started ?name) (M_start_failed ?name) r, acts', s\<lparr>sv_nonces := m\<rparr>,
              drop_guard g adm1) = (ans, acts, st')"
            using 2(5) unfolding prod.case acq sum.case Let_def sv_simps Inr run by simp
          moreover have "\<not> ml_connected l \<Longrightarrow> (Answer 500 M_internal, [], s\<lparr>sv_nonces := m\<rparr>, drop_guard g adm1) = (ans, acts, st')"
            using 2(5) unfolding prod.case acq sum.case sv_simps Inr by simp
          ultimately show "acts = [] \<or> acts = acts'" "untouched (s, adm) st'"
            using guard_released [OF acq] by (cases "ml_connected l"; force simp: untouched_def)+
        qed
        then show ?thesis using start_tidy [OF run] by auto
      qed
    qed
    with 2(1-4) show ?case by (auto simp: on_behalf_def)
  qed simp
qed

lemma cutover_gate:
  assumes "migrate_cutover_handler A J enc c l inst pubsub (s, adm) = (ans, acts, st')"
  shows "untouched (s, adm) st' \<and> (acts \<noteq> [] \<longrightarrow> on_behalf A enc c l s (Cut_over inst pubsub) acts)"
proof (cases "js_migrate_cutover J (ca_body c)")
  case None
  then show ?thesis using assms by (auto simp: migrate_cutover_handler_def untouched_def)
next
  case (Some p)
  obtain wallet source source_env w where p: "p = (wallet, source, source_env, w)" by (cases p)
  show ?thesis
    using assms unfolding migrate_cutover_handler_def Some p option.case prod.case
  proof (rule signed_by_owner_cases, goal_cases)
    case (2 i m)
    have "untouched (s, adm) st' \<and> (acts \<noteq> [] \<longrightarrow> (\<exists>url. tidy (''kraph-cutover-'' @ ml_nanoid l)
        (both_urls url (target_url enc i)) acts))"
      using 2(5) cutover_tidy [of "ml_run l" "''kraph-cutover-'' @ ml_nanoid l" pubsub _ "target_url enc i"]
      by (auto simp: untouched_def Let_def split: if_splits sum.splits prod.splits) (metis snd_conv)+
    with 2(1-4) show ?case by (auto simp: on_behalf_def)
  qed simp
qed

lemma cancel_gate:
  assumes "migrate_cancel_handler A c l inst container wallet (s, adm) = (ans, acts, st')"
  shows "untouched (s, adm) st' \<and> (acts \<noteq> [] \<longrightarrow> on_behalf A enc c l s (Cancel inst container wallet) acts)"
proof (cases "get_instance_by_id inst (sdb_of s)")
  case None
  then show ?thesis using assms by (auto simp: migrate_cancel_handler_def untouched_def split: if_splits)
next
  case (Some i)
  then have i: "i \<in> set (instances (sdb_of s))" "in_id i = inst"
    by (auto simp: get_instance_by_id_def dest!: find_SomeD)
  obtain v m where v: "verify_request_sig (ac_crypto A) (sigauth_missing_allowed (ac_allow_missing A)) (ca_wall c)
      (ca_instant c) (call_request c ''DELETE'' (''/instances/'' @ inst @ ''/migrate/'' @ container) [] (in_wallet i))
      (sv_nonces s) = (v, m)" by fastforce
  have "on_behalf A enc c l s (Cancel inst container wallet) [Kill container]"
    if "v = Inr u" "starts_with ''kraph-migrate-'' container" for u
    unfolding on_behalf_def
    by (rule exI [of _ "in_wallet i"], rule exI [of _ i]) (use that i v in \<open>simp add: accepted_def\<close>)
  then show ?thesis using assms Some
    by (auto simp: migrate_cancel_handler_def untouched_def v [simplified] cancel_migration_def Let_def
        split: if_splits sum.splits)
qed

text \<open>
  C14: migrations stay in their containers. Whatever a migration request asks of Docker, it came with
  an accepted signature over its verb, path and body by the wallet of the instance in its path (an
  empty wallet counts as the owner, except for cancelling). A probe, a start and a cutover concern one
  container, with a name of its own, whose target is the Postgres of that instance, and which is
  removed on every way out once it is created; a cancellation kills the container it names, whose
  name starts with \<open>kraph-migrate-\<close>. Rows, files, cores and tasks stay as they are, and
  the admission table is free again.
\<close>
theorem migrations_stay_in_their_containers:
  assumes "serve_migration A J enc c l (\<lambda>st. st) r (s, adm) = (ans, acts, st')"
  shows "untouched (s, adm) st' \<and> (acts \<noteq> [] \<longrightarrow> on_behalf A enc c l s r acts)"
  using assms
  by (cases r) (simp_all add: probe_gate start_gate cutover_gate cancel_gate)

definition lax_readers :: migrate_readers where
  "lax_readers = \<lparr>js_migrate_probe = Map.empty, js_migrate_start = (\<lambda>_. Some (demo_bulk\<lparr>mg_wallet := ''w''\<rparr>)),
     js_migrate_cutover = Map.empty\<rparr>"

definition demo_luck :: migrate_luck where
  "demo_luck = \<lparr>ml_connected = True, ml_nanoid = ''n'', ml_run = (ended ([], 0))\<lparr>dk_create := Some ''busy''\<rparr>,
     ml_kill = Killed\<rparr>"

theorem migrations_stay_in_their_containers_witness:
  "\<exists>ans acts st'. serve_migration lax_api lax_readers (\<lambda>p. p) owner_call (demo_luck\<lparr>ml_nanoid := ''m''\<rparr>) (\<lambda>st. st)
      (Cancel ''i'' ''kraph-migrate-n'' ''w'') (secret_server ''v'', \<lparr>by_wallet = {}, by_instance = {}\<rparr>) = (ans, acts, st') \<and>
    acts \<noteq> [] \<and> on_behalf lax_api (\<lambda>p. p) owner_call (demo_luck\<lparr>ml_nanoid := ''m''\<rparr>) (secret_server ''v'')
      (Cancel ''i'' ''kraph-migrate-n'' ''w'') acts"
proof -
  let ?st = "(secret_server ''v'', \<lparr>by_wallet = {}, by_instance = {}\<rparr>)" and ?l = "demo_luck\<lparr>ml_nanoid := ''m''\<rparr>"
  let ?r = "Cancel ''i'' ''kraph-migrate-n'' ''w''"
  obtain i where i: "get_instance_by_id ''i'' (sdb_of (secret_server ''v'')) = Some i" "in_wallet i = ''w''"
    using secret_server_owner by blast
  have "snd (serve_migration lax_api lax_readers (\<lambda>p. p) owner_call ?l (\<lambda>st. st) ?r ?st) =
      ([Kill ''kraph-migrate-n''], (secret_server ''v'')\<lparr>sv_nonces := sv_nonces (secret_server ''v'')\<rparr>,
        \<lparr>by_wallet = {}, by_instance = {}\<rparr>)"
    using i by (simp add: migrate_cancel_handler_def starts_with_def verify_request_sig_def call_request_def owner_call_def
        lax_api_def sigauth_missing_allowed_def lower_def is_ascii_uppercase_def trim_def is_space_def demo_luck_def
        cancel_migration_def Let_def)
  then obtain ans st' where s: "serve_migration lax_api lax_readers (\<lambda>p. p) owner_call ?l (\<lambda>st. st) ?r ?st =
      (ans, [Kill ''kraph-migrate-n''], st')" by (metis prod.collapse)
  from migrations_stay_in_their_containers [OF this] show ?thesis using s by blast
qed

end
