(* ===== verification/Node_Service.thy ===== *)
theory Node_Service
  imports Migration_Api
begin

text \<open>
  The Node side-car of an instance (\<open>nextjs_service.rs\<close> and its two endpoints in \<open>main.rs\<close>): the
  upload of a bundle, its way into the directory of the instance, the container that runs it, and
  its logs. The file system of an instance is what stands at \<open>nextjs\<close> and which staging
  directories are left; what the archive holds and what Docker answers are arguments.
\<close>

definition NEXTJS_IMAGE :: string where "NEXTJS_IMAGE = ''node:20-alpine''"
definition CONTAINER_PORT :: u16 where "CONTAINER_PORT = 3000"
definition MAX_BUNDLE_BYTES :: nat where "MAX_BUNDLE_BYTES = 512 * 1024 * 1024"

section \<open>Bundles\<close>

text \<open>
  What reading the archive yields, item by item: a broken header or path, or an entry whose path
  is given as the archive has it, with whether \<open>unpack_in\<close> succeeds.
\<close>

datatype tar_item = Broken_item | Entry string bool

text \<open>
  What the staging directory shows at its top after the extraction: a name, the target when it is
  a symbolic link, and whether, links followed, it is a directory and holds the entry script.
\<close>

record top_entry =
  te_name :: string
  te_link :: "string option"
  te_is_dir :: bool
  te_has_script :: bool

text \<open>
  What stands at \<open>nextjs\<close>: the extracted tree, one entry of it, a link somewhere, or what a removal
  that failed midway has left of one of these.
\<close>

datatype site = Whole_bundle string | Part_of_bundle string string | Link_to string | Remains_of site

record site_dir =
  sd_target :: "site option"
  sd_staging :: "string list"

datatype deploy_error =
    Instance_missing
  | Bundle_too_large nat nat
  | Pull_error string
  | Staging_failed
  | Tar_failed
  | Absolute_path string
  | Parent_traversal string
  | Unpack_failed
  | Read_dir_failed
  | Missing_entry_script string
  | Swap_failed
  | Port_too_high
  | Create_container_failed string
  | Start_container_failed string

definition is_absolute :: "string \<Rightarrow> bool" where
  "is_absolute p = (case p of [] \<Rightarrow> False | c # _ \<Rightarrow> c = CHR ''/'')"

definition has_parent_dir :: "string \<Rightarrow> bool" where
  "has_parent_dir p \<longleftrightarrow> ''..'' \<in> set (split_on (CHR ''/'') p)"

fun extract_bundle :: "tar_item list \<Rightarrow> deploy_error + unit" where
  "extract_bundle [] = Inr ()"
| "extract_bundle (Broken_item # items) = Inl Tar_failed"
| "extract_bundle (Entry p unpacked # items) =
     (if is_absolute p then Inl (Absolute_path p)
      else if has_parent_dir p then Inl (Parent_traversal p)
      else if \<not> unpacked then Inl Unpack_failed else extract_bundle items)"

definition entry_script :: "string list \<Rightarrow> string" where
  "entry_script argv = (case argv of _ # script # _ \<Rightarrow> script | _ \<Rightarrow> ''server.js'')"

section \<open>The container\<close>

record sidecar_spec =
  sc_name :: string
  sc_image :: string
  sc_cmd :: "string list"
  sc_workdir :: string
  sc_env :: "string list"
  sc_binds :: "string list"
  sc_port :: "u16 \<times> u16"
  sc_network :: string
  sc_memory :: nat
  sc_nano_cpus :: nat

datatype sidecar_action =
    Pull_image string
  | Stop_container string
  | Remove_container string
  | Create_sidecar sidecar_spec
  | Start_container string

text \<open>How \<open>remove_dir_all\<close> ends, which is tried and whose failure is ignored.\<close>

datatype removal = Removed | Left_whole | Left_part

text \<open>What the file system and Docker contribute to a deployment.\<close>

record deploy_luck =
  dp_pull :: "string option list"
  dp_staging :: string
  dp_staging_made :: bool
  dp_items :: "tar_item list option"
  dp_root_script :: bool
  dp_top :: "top_entry list option"
  dp_cleared :: removal
  dp_renamed :: bool
  dp_dropped :: bool
  dp_create :: "string + string"
  dp_start :: "string option"

record deploy_result =
  dr_instance_id :: string
  dr_host_port :: u16
  dr_container_id :: string
  dr_url :: string

definition container_name_for :: "string \<Rightarrow> string" where
  "container_name_for inst = ''supaba-'' @ inst @ ''-nextjs''"

definition site_path :: "string \<Rightarrow> string \<Rightarrow> string" where
  "site_path data_root inst = data_root @ ''/instances/'' @ inst @ ''/nextjs''"

text \<open>An environment that cannot be read is left out with a warning.\<close>

definition sidecar_env :: "crypto \<Rightarrow> instance_row \<Rightarrow> db \<Rightarrow> string list" where
  "sidecar_env C i d =
     [''PORT='' @ show_u16 CONTAINER_PORT, ''HOSTNAME=0.0.0.0'', ''NODE_ENV=production'',
      ''SUPABASE_URL=http://kong:8000'', ''SUPABASE_ANON_KEY='' @ anon_key (in_secrets i)] @
     (case list_env C (in_id i) d of
        Inr user_env \<Rightarrow> map (\<lambda>(k, v). k @ ''='' @ v) (filter (\<lambda>(k, _). k \<noteq> []) user_env)
      | Inl _ \<Rightarrow> [])"

definition sidecar_of :: "string \<Rightarrow> instance_row \<Rightarrow> u16 \<Rightarrow> string list \<Rightarrow> string list \<Rightarrow> sidecar_spec" where
  "sidecar_of data_root i host_port argv env =
     \<lparr>sc_name = container_name_for (in_id i), sc_image = NEXTJS_IMAGE, sc_cmd = argv, sc_workdir = ''/app'',
      sc_env = env, sc_binds = [site_path data_root (in_id i) @ '':/app:ro''],
      sc_port = (host_port, CONTAINER_PORT), sc_network = in_project i @ ''_internal'',
      sc_memory = 1024 * 1024 * 1024, sc_nano_cpus = 2000000000\<rparr>"

definition stop_and_remove :: "string \<Rightarrow> sidecar_action list" where
  "stop_and_remove container = [Stop_container container, Remove_container container]"

section \<open>Deploying\<close>

text \<open>
  Where the bundle starts in the staging directory: its root, or the first top-level entry that is
  a directory with the entry script.
\<close>

definition bundle_root :: "deploy_luck \<Rightarrow> string list \<Rightarrow> deploy_error + site" where
  "bundle_root L argv =
     (if dp_root_script L then Inr (Whole_bundle (dp_staging L))
      else (case dp_top L of None \<Rightarrow> Inl Read_dir_failed | Some entries \<Rightarrow>
        (case find (\<lambda>e. te_is_dir e \<and> te_has_script e) entries of
           None \<Rightarrow> Inl (Missing_entry_script (entry_script argv))
         | Some e \<Rightarrow> Inr (case te_link e of
             Some target \<Rightarrow> Link_to target | None \<Rightarrow> Part_of_bundle (dp_staging L) (te_name e)))))"

text \<open>
  The old site is removed before the new one is moved into its place; \<open>dp_cleared\<close> says how the
  removal went. The staging directory is gone when it was moved itself; otherwise its removal is tried,
  and \<open>dp_dropped\<close> says whether that worked.
\<close>

definition remove_site :: "removal \<Rightarrow> site option \<Rightarrow> site option" where
  "remove_site how old = (case how of Removed \<Rightarrow> None | Left_whole \<Rightarrow> old | Left_part \<Rightarrow> map_option Remains_of old)"

definition drop_staging :: "deploy_luck \<Rightarrow> site \<Rightarrow> string list \<Rightarrow> string list" where
  "drop_staging L new staged =
     (case new of Whole_bundle _ \<Rightarrow> staged | _ \<Rightarrow> if dp_dropped L then staged else dp_staging L # staged)"

definition stage_bundle :: "deploy_luck \<Rightarrow> string list \<Rightarrow> site_dir \<Rightarrow> (deploy_error + unit) \<times> site_dir" where
  "stage_bundle L argv D =
     (if \<not> dp_staging_made L then (Inl Staging_failed, D)
      else let D1 = D\<lparr>sd_staging := dp_staging L # sd_staging D\<rparr> in
        (case dp_items L of None \<Rightarrow> (Inl Tar_failed, D1) | Some items \<Rightarrow>
          (case extract_bundle items of Inl e \<Rightarrow> (Inl e, D1) | Inr _ \<Rightarrow>
            (case bundle_root L argv of Inl e \<Rightarrow> (Inl e, D1) | Inr new \<Rightarrow>
              let D2 = D1\<lparr>sd_target := remove_site (dp_cleared L) (sd_target D1)\<rparr> in
              if \<not> dp_renamed L then (Inl Swap_failed, D2)
              else (Inr (), D2\<lparr>sd_target := Some new, sd_staging := drop_staging L new (sd_staging D)\<rparr>)))))"

definition ensure_image :: "string option list \<Rightarrow> deploy_error + unit" where
  "ensure_image items = (case find (\<lambda>x. x \<noteq> None) items of Some (Some e) \<Rightarrow> Inl (Pull_error e) | _ \<Rightarrow> Inr ())"

text \<open>
  The whole deployment on the database and the directories; \<open>others\<close> is what other requests do to
  the database while the image is pulled and the old container is stopped.
\<close>

definition deploy ::
  "crypto \<Rightarrow> string \<Rightarrow> string \<Rightarrow> int \<Rightarrow> deploy_luck \<Rightarrow> (db \<Rightarrow> db) \<Rightarrow> string \<Rightarrow> string \<Rightarrow> string \<Rightarrow> string list \<Rightarrow>
   db \<times> (string \<Rightarrow> site_dir) \<Rightarrow>
   (deploy_error + deploy_result) \<times> sidecar_action list \<times> db \<times> (string \<Rightarrow> site_dir)" where
  "deploy C data_root public_host now L others inst wallet tarball argv = (\<lambda>(d, dirs).
     case get_instance inst wallet d of None \<Rightarrow> (Inl Instance_missing, [], d, dirs) | Some i \<Rightarrow>
     if MAX_BUNDLE_BYTES < length tarball then
       (Inl (Bundle_too_large (length tarball) MAX_BUNDLE_BYTES), [], d, dirs)
     else let pull = [Pull_image NEXTJS_IMAGE] in
     (case ensure_image (dp_pull L) of
        Inl e \<Rightarrow> (Inl e, pull, others d, dirs)
      | Inr _ \<Rightarrow>
     let d = others d in
     (case stage_bundle L argv (dirs (in_id i)) of
        (Inl e, D) \<Rightarrow> (Inl e, pull, d, dirs(in_id i := D))
      | (Inr _, D) \<Rightarrow>
          let dirs = dirs(in_id i := D) in
          (case checked_add (kong_port (in_ports i)) 9 of
             None \<Rightarrow> (Inl Port_too_high, pull, d, dirs)
           | Some host_port \<Rightarrow>
               let container = container_name_for (in_id i);
                   spec = sidecar_of data_root i host_port argv (sidecar_env C i d);
                   acts = pull @ stop_and_remove container @ [Create_sidecar spec]
               in (case dp_create L of
                     Inl e \<Rightarrow> (Inl (Create_container_failed e), acts, d, dirs)
                   | Inr cid \<Rightarrow>
                       (case dp_start L of
                          Some e \<Rightarrow> (Inl (Start_container_failed e), acts @ [Start_container cid], d, dirs)
                        | None \<Rightarrow>
                            (Inr \<lparr>dr_instance_id = in_id i, dr_host_port = host_port, dr_container_id = cid,
                               dr_url = ''https://'' @ in_id i @ ''.'' @ public_host @ ''/''\<rparr>,
                             acts @ [Start_container cid],
                             set_nextjs_service now (in_id i) (Some host_port) ''running'' d, dirs)))))))"

text \<open>\<open>teardown\<close>: nothing in the node calls it.\<close>

definition teardown :: "string \<Rightarrow> sidecar_action list" where
  "teardown inst = stop_and_remove (container_name_for inst)"

section \<open>The endpoints\<close>

datatype service_payload =
    V_internal
  | V_unauthorized sig_error
  | V_not_found
  | V_busy admission_error
  | V_bad_entry "string option"
  | V_deployed deploy_result
  | V_deploy_failed deploy_error
  | V_no_sidecar
  | V_logs string string nat string

record service_state =
  vs_server :: server
  vs_admission :: admission
  vs_dirs :: "string \<Rightarrow> site_dir"

type_synonym service_outcome = "(nat \<times> service_payload) \<times> sidecar_action list \<times> service_state"

definition deploy_path :: "string \<Rightarrow> string" where
  "deploy_path inst = ''/instances/'' @ inst @ ''/services/nextjs/deploy''"

definition shell_meta :: "string \<Rightarrow> bool" where
  "shell_meta a \<longleftrightarrow> CHR '';'' \<in> set a \<or> CHR ''|'' \<in> set a \<or> CHR ''&'' \<in> set a \<or> CHR 0x60 \<in> set a \<or> CHR 0x0A \<in> set a"

text \<open>\<open>js_argv\<close> reads a JSON array of strings.\<close>

definition entry_argv :: "(string \<Rightarrow> string list option) \<Rightarrow> string option \<Rightarrow> service_payload + string list" where
  "entry_argv js_argv entry =
     rbind (case entry of
         Some s \<Rightarrow> (case js_argv s of
             Some v \<Rightarrow> guard (v \<noteq> [] \<and> list_all (\<lambda>x. x \<noteq> []) v) (V_bad_entry None) (Inr v)
           | None \<Rightarrow> Inl (V_bad_entry None))
       | None \<Rightarrow> Inr [''node'', ''server.js'']) (\<lambda>v.
       case find shell_meta v of Some a \<Rightarrow> Inl (V_bad_entry (Some a)) | None \<Rightarrow> Inr v)"

definition deploy_nextjs_service_handler ::
  "api_config \<Rightarrow> (string \<Rightarrow> string list option) \<Rightarrow> call \<Rightarrow> bool \<Rightarrow> deploy_luck \<Rightarrow> (db \<Rightarrow> db) \<Rightarrow>
   string \<Rightarrow> string \<Rightarrow> string option \<Rightarrow> service_state \<Rightarrow> service_outcome" where
  "deploy_nextjs_service_handler A js_argv c connected L others inst wallet entry s =
     (case verify_request_sig (ac_crypto A) (sigauth_missing_allowed (ac_allow_missing A)) (ca_wall c)
         (ca_instant c) (call_request c ''POST'' (deploy_path inst) (ca_body c) wallet) (sv_nonces (vs_server s)) of
        (Inl e, m) \<Rightarrow> ((401, V_unauthorized e), [], s\<lparr>vs_server := (vs_server s)\<lparr>sv_nonces := m\<rparr>\<rparr>)
      | (Inr _, m) \<Rightarrow>
          let sv = (vs_server s)\<lparr>sv_nonces := m\<rparr>; s = s\<lparr>vs_server := sv\<rparr> in
          if manager_get_instance inst wallet (sv_node sv) = None then ((404, V_not_found), [], s)
          else (case try_acquire Build wallet inst (vs_admission s) of
             Inl e \<Rightarrow> ((429, V_busy e), [], s)
           | Inr (g, busy) \<Rightarrow>
               if \<not> connected then ((500, V_internal), [], s\<lparr>vs_admission := drop_guard g busy\<rparr>)
               else (case entry_argv js_argv entry of
                  Inl p \<Rightarrow> ((400, p), [], s\<lparr>vs_admission := drop_guard g busy\<rparr>)
                | Inr argv \<Rightarrow>
                    (case deploy (ac_crypto A) (nc_data_dir (ac_node A)) (nc_public_host (ac_node A)) (ca_time c) L
                        others inst wallet (ca_body c) argv (sdb_of sv, vs_dirs s) of
                       (r, acts, d, dirs) \<Rightarrow>
                         (case r of Inr res \<Rightarrow> (201, V_deployed res) | Inl e \<Rightarrow> (502, V_deploy_failed e), acts,
                          s\<lparr>vs_server := set_db d sv, vs_admission := drop_guard g busy, vs_dirs := dirs\<rparr>)))))"

text \<open>The logs, of which the last bytes are kept while they are read.\<close>

datatype probe_outcome = Container_there | Container_missing | Probe_failed

fun keep_last :: "nat \<Rightarrow> string \<Rightarrow> log_item list \<Rightarrow> string" where
  "keep_last cap buf [] = buf"
| "keep_last cap buf (Stream_error # items) = buf"
| "keep_last cap buf (Chunk message # items) =
     (let buf = buf @ message in
      keep_last cap (if cap < length buf then drop (length buf - cap) buf else buf) items)"

definition tail_bytes :: "nat option \<Rightarrow> nat" where
  "tail_bytes wanted = (case wanted of Some t \<Rightarrow> max 1024 (min t (256 * 1024)) | None \<Rightarrow> 64 * 1024)"

definition get_nextjs_service_logs_handler ::
  "bool \<Rightarrow> probe_outcome \<Rightarrow> log_item list \<Rightarrow> string \<Rightarrow> string \<Rightarrow> nat option \<Rightarrow> server \<Rightarrow> nat \<times> service_payload" where
  "get_nextjs_service_logs_handler connected there items inst wallet wanted sv =
     (if manager_get_instance inst wallet (sv_node sv) = None then (404, V_not_found)
      else if \<not> connected then (500, V_internal)
      else (case there of
         Container_missing \<Rightarrow> (404, V_no_sidecar)
       | Probe_failed \<Rightarrow> (500, V_internal)
       | Container_there \<Rightarrow>
           let buf = keep_last (tail_bytes wanted) [] items in
           (200, V_logs inst (container_name_for inst) (length buf) (utf8_lossy buf))))"

end
