(* ===== verification/Service_Guarantees.thy ===== *)
theory Service_Guarantees
  imports Node_Service Node_Guarantees Env_Secrecy
begin

text \<open>
  What a deployment of the Node side-car may touch, and where its port lies among the ports of the
  other instances.
\<close>

section \<open>One deployment\<close>

definition live_row :: "string \<Rightarrow> string \<Rightarrow> db \<Rightarrow> instance_row \<Rightarrow> bool" where
  "live_row inst wallet d i \<longleftrightarrow>
     i \<in> set (instances d) \<and> in_id i = inst \<and> in_wallet i = wallet \<and> in_destroyed_at i = None"

lemma get_instance_live: "get_instance inst wallet d = Some i \<Longrightarrow> live_row inst wallet d i"
  by (auto simp: get_instance_def live_row_def Database.live_def dest: find_SomeD)

lemma stage_bundle_ok:
  "stage_bundle L argv D = (Inr u, D') \<Longrightarrow>
     \<exists>new. bundle_root L argv = Inr new \<and> D' = \<lparr>sd_target = Some new, sd_staging = drop_staging L new (sd_staging D)\<rparr>"
  by (cases D) (auto simp: stage_bundle_def Let_def split: if_splits option.splits sum.splits)

text \<open>An archive that is refused or cannot be read leaves the site as it is.\<close>

definition archive_refused :: "deploy_luck \<Rightarrow> bool" where
  "archive_refused L \<longleftrightarrow> (case dp_items L of None \<Rightarrow> True | Some items \<Rightarrow> extract_bundle items \<noteq> Inr ())"

lemma stage_bundle_refused:
  "stage_bundle L argv D = (r, D') \<Longrightarrow> archive_refused L \<Longrightarrow> sd_target D' = sd_target D \<and> \<not> is_ok r"
  by (cases r) (auto simp: stage_bundle_def archive_refused_def Let_def split: if_splits option.splits sum.splits)

text \<open>What a deployment creates, and what it leaves when it succeeds.\<close>

definition sidecar_ok :: "crypto \<Rightarrow> string \<Rightarrow> instance_row \<Rightarrow> string list \<Rightarrow> db \<Rightarrow> sidecar_spec \<Rightarrow> bool" where
  "sidecar_ok C data_root i argv d spec \<longleftrightarrow>
     sc_name spec = ''supaba-'' @ in_id i @ ''-nextjs'' \<and> sc_image spec = ''node:20-alpine'' \<and> sc_cmd spec = argv \<and>
     sc_binds spec = [data_root @ ''/instances/'' @ in_id i @ ''/nextjs:/app:ro''] \<and>
     sc_workdir spec = ''/app'' \<and>
     unat (fst (sc_port spec)) = unat (kong_port (in_ports i)) + 9 \<and> snd (sc_port spec) = 3000 \<and>
     sc_network spec = in_project i @ ''_internal'' \<and> sc_memory spec = 1073741824 \<and>
     sc_nano_cpus spec = 2 * 10 ^ 9 \<and>
     sc_env spec =
       [''PORT=3000'', ''HOSTNAME=0.0.0.0'', ''NODE_ENV=production'', ''SUPABASE_URL=http://kong:8000'',
        ''SUPABASE_ANON_KEY='' @ anon_key (in_secrets i)] @
       [k @ ''='' @ v. (k, v) \<leftarrow> (case list_env C (in_id i) d of Inr vars \<Rightarrow> vars | Inl _ \<Rightarrow> []), k \<noteq> []]"

lemma sidecar_of_ok:
  assumes "checked_add (kong_port (in_ports i)) 9 = Some port"
  shows "sidecar_ok C data_root i argv d (sidecar_of data_root i port argv (sidecar_env C i d))"
proof -
  have "''PORT='' @ show_u16 CONTAINER_PORT = ''PORT=3000''" by code_simp
  moreover have "map (\<lambda>(k, v). k @ ''='' @ v) (filter (\<lambda>(k, _). k \<noteq> []) vars) = [k @ ''='' @ v. (k, v) \<leftarrow> vars, k \<noteq> []]"
    for vars :: "(string \<times> string) list" by (induction vars) auto
  ultimately show ?thesis
    using checked_add_unat [OF assms]
    by (cases "list_env C (in_id i) d")
      (simp_all add: sidecar_ok_def sidecar_of_def sidecar_env_def container_name_for_def NEXTJS_IMAGE_def
        site_path_def CONTAINER_PORT_def)
qed

lemma deploy_missing:
  "get_instance inst wallet d = None \<Longrightarrow>
     deploy C root host now L others inst wallet tarball argv (d, dirs) = (Inl Instance_missing, [], d, dirs)"
  by (simp add: deploy_def)

lemma deploy_created:
  assumes "deploy C root host now L others inst wallet tarball argv (d, dirs) = (r, acts, d', dirs')"
    "get_instance inst wallet d = Some i" "Create_sidecar spec \<in> set acts"
  shows "sidecar_ok C root i argv (others d) spec"
  using assms
  by (auto simp: deploy_def Let_def stop_and_remove_def split_def sidecar_of_ok
      split: if_splits option.splits sum.splits)

lemma deploy_dirs:
  assumes "deploy C root host now L others inst wallet tarball argv (d, dirs) = (r, acts, d', dirs')"
    "get_instance inst wallet d = Some i" "other \<noteq> inst"
  shows "dirs' other = dirs other"
proof -
  have "in_id i = inst" using get_instance_live [OF assms(2)] by (simp add: live_row_def)
  then show ?thesis using assms
    by (auto simp: deploy_def Let_def split: if_splits option.splits sum.splits prod.splits)
qed

lemma deploy_success:
  assumes "deploy C root host now L others inst wallet tarball argv (d, dirs) = (Inr res, acts, d', dirs')"
    "get_instance inst wallet d = Some i"
  shows "length tarball \<le> MAX_BUNDLE_BYTES \<and> bundle_root L argv = Inr (the (sd_target (dirs' inst))) \<and>
    sd_target (dirs' inst) \<noteq> None \<and>
    sd_staging (dirs' inst) = drop_staging L (the (sd_target (dirs' inst))) (sd_staging (dirs inst)) \<and>
    (\<exists>spec. Create_sidecar spec \<in> set acts \<and> last acts = Start_container (dr_container_id res)) \<and>
    unat (dr_host_port res) = unat (kong_port (in_ports i)) + 9 \<and>
    d' = set_nextjs_service now inst (Some (dr_host_port res)) ''running'' (others d)"
proof -
  have "in_id i = inst" using get_instance_live [OF assms(2)] by (simp add: live_row_def)
  then show ?thesis using assms
    by (auto simp: deploy_def Let_def split: if_splits option.splits sum.splits prod.splits
        dest!: checked_add_unat stage_bundle_ok)
qed

lemma deploy_refused:
  assumes "deploy C root host now L others inst wallet tarball argv (d, dirs) = (r, acts, d', dirs')"
    "archive_refused L"
  shows "sd_target (dirs' inst) = sd_target (dirs inst) \<and> \<not> is_ok r"
proof (cases "get_instance inst wallet d")
  case None
  then show ?thesis using assms(1) deploy_missing by auto
next
  case (Some i)
  have "in_id i = inst" using get_instance_live [OF Some] by (simp add: live_row_def)
  moreover obtain u D where D: "stage_bundle L argv (dirs (in_id i)) = (u, D)" by fastforce
  ultimately show ?thesis using assms(1) Some stage_bundle_refused [OF D assms(2)] D
    by (auto simp: deploy_def Let_def split: if_splits sum.splits prod.splits)
qed

lemma link_from_archive:
  "bundle_root L argv = Inr (Link_to t) \<Longrightarrow>
     \<not> dp_root_script L \<and> (\<exists>es. dp_top L = Some es \<and> (\<exists>e \<in> set es. te_link e = Some t \<and> te_has_script e))"
  by (fastforce simp: bundle_root_def split: if_splits option.splits dest: find_SomeD)

lemma entry_argv_ok:
  "entry_argv js_argv entry = Inr argv \<Longrightarrow>
     argv \<noteq> [] \<and> list_all (\<lambda>a. a \<noteq> [] \<and> \<not> shell_meta a) argv"
proof -
  assume h: "entry_argv js_argv entry = Inr argv"
  then have "find shell_meta argv = None" "argv \<noteq> []" "list_all (\<lambda>x. x \<noteq> []) argv"
    by (auto simp: entry_argv_def ok_simps split: option.splits if_splits)
  then show ?thesis by (auto simp: find_None_iff list_all_iff)
qed

definition deploy_signed :: "api_config \<Rightarrow> call \<Rightarrow> string \<Rightarrow> string \<Rightarrow> service_state \<Rightarrow> bool" where
  "deploy_signed A c inst wallet s \<longleftrightarrow>
     is_ok (fst (verify_request_sig (ac_crypto A) (sigauth_missing_allowed (ac_allow_missing A)) (ca_wall c)
       (ca_instant c) (call_request c ''POST'' (deploy_path inst) (ca_body c) wallet) (sv_nonces (vs_server s))))"

text \<open>The handler either refuses, and touches nothing but the nonces, or runs one deployment.\<close>

lemma handler_cases:
  assumes "deploy_nextjs_service_handler A js_argv c connected L others inst wallet entry s = ((status, p), acts, s')"
  obtains
    (refused) "acts = []" "vs_dirs s' = vs_dirs s" "vs_admission s' = vs_admission s" "status \<noteq> 201"
      "sv_node (vs_server s') = sv_node (vs_server s)"
  | (ran) argv r d' where "deploy_signed A c inst wallet s" "entry_argv js_argv entry = Inr argv"
      "deploy (ac_crypto A) (nc_data_dir (ac_node A)) (nc_public_host (ac_node A)) (ca_time c) L others inst wallet
         (ca_body c) argv (sdb_of (vs_server s), vs_dirs s) = (r, acts, d', vs_dirs s')"
      "vs_admission s' = vs_admission s" "sdb_of (vs_server s') = d'"
      "(\<exists>res. r = Inr res \<and> status = 201 \<and> p = V_deployed res) \<or> (\<exists>e. r = Inl e \<and> status = 502 \<and> p = V_deploy_failed e)"
proof (cases "verify_request_sig (ac_crypto A) (sigauth_missing_allowed (ac_allow_missing A)) (ca_wall c)
    (ca_instant c) (call_request c ''POST'' (deploy_path inst) (ca_body c) wallet) (sv_nonces (vs_server s))")
  case (Pair v m)
  note verified = Pair
  show ?thesis
  proof (cases v)
    case (Inl e)
    then show ?thesis using refused assms verified by (auto simp: deploy_nextjs_service_handler_def)
  next
    case (Inr u)
    define sv where "sv = (vs_server s)\<lparr>sv_nonces := m\<rparr>"
    show ?thesis
    proof (cases "manager_get_instance inst wallet (sv_node sv) = None \<or> (\<exists>e. try_acquire Build wallet inst (vs_admission s) = Inl e)
        \<or> \<not> connected \<or> (\<exists>q. entry_argv js_argv entry = Inl q)")
      case True
      then show ?thesis using refused assms verified Inr
        by (auto simp: deploy_nextjs_service_handler_def Let_def sv_def dest: acquire_release
            split: if_splits sum.splits prod.splits)
    next
      case False
      then obtain g busy argv where g: "try_acquire Build wallet inst (vs_admission s) = Inr (g, busy)"
        and argv: "entry_argv js_argv entry = Inr argv" "connected"
        by (metis sum.exhaust prod.exhaust)
      obtain y where y: "manager_get_instance inst wallet (sv_node sv) = Some y" using False by auto
      obtain r acts' d' dirs' where run: "deploy (ac_crypto A) (nc_data_dir (ac_node A)) (nc_public_host (ac_node A)) (ca_time c) L
          others inst wallet (ca_body c) argv (sdb_of sv, vs_dirs s) = (r, acts', d', dirs')"
        by (metis prod.exhaust)
      have "deploy_nextjs_service_handler A js_argv c connected L others inst wallet entry s =
          ((case r of Inr res \<Rightarrow> (201, V_deployed res) | Inl e \<Rightarrow> (502, V_deploy_failed e)), acts',
           s\<lparr>vs_server := set_db d' sv, vs_admission := drop_guard g busy, vs_dirs := dirs'\<rparr>)"
        using verified Inr g argv run y by (simp add: deploy_nextjs_service_handler_def Let_def sv_def)
      then show ?thesis
        using ran [of argv r d'] assms run argv verified Inr acquire_release [OF g]
        by (auto simp: deploy_signed_def sv_def set_db_def split: sum.splits)
    qed
  qed
qed

text \<open>
  C16: A deployment of the side-car stays in its place. Docker is asked for something, or a
  directory changes, only if the wallet signed this path and body and owns a live instance of that
  name; only the directory of that instance changes, and the slot in the admission table is given
  back on every way out. A container that is created has the image, name, network and limits of the
  instance, runs an argument vector without a shell character in the site, which it mounts
  read-only, maps its port 3000 to the tenth port of the block, and its environment is exactly the
  five fixed entries (the anonymous key among them, no other secret) followed by the variables the
  owner has set, in their order. A deployment answered with 201 has put the root of the bundle in
  place, started the container and recorded port and status; its staging directory is gone unless the
  bundle was wrapped and the removal of the rest, whose failure is ignored, did not work. An archive
  that cannot be read or is refused leaves the site as it was. What stands in place is a symbolic link
  only when the archive brought one: nothing checks where it points.
\<close>

theorem deployments_stay_in_place:
  assumes h: "deploy_nextjs_service_handler A js_argv c connected L others inst wallet entry s = ((status, p), acts, s')"
  shows "vs_admission s' = vs_admission s \<and>
    (acts \<noteq> [] \<or> vs_dirs s' \<noteq> vs_dirs s \<longrightarrow>
       deploy_signed A c inst wallet s \<and> (\<exists>i. live_row inst wallet (sdb_of (vs_server s)) i)) \<and>
    (\<forall>other. other \<noteq> inst \<longrightarrow> vs_dirs s' other = vs_dirs s other) \<and>
    (\<forall>spec. Create_sidecar spec \<in> set acts \<longrightarrow>
       (\<exists>i argv. live_row inst wallet (sdb_of (vs_server s)) i \<and> entry_argv js_argv entry = Inr argv \<and>
          argv \<noteq> [] \<and> list_all (\<lambda>a. a \<noteq> [] \<and> \<not> shell_meta a) argv \<and>
          sidecar_ok (ac_crypto A) (nc_data_dir (ac_node A)) i argv (others (sdb_of (vs_server s))) spec)) \<and>
    (status = 201 \<longrightarrow>
       (\<exists>res new argv i. p = V_deployed res \<and> entry_argv js_argv entry = Inr argv \<and>
          live_row inst wallet (sdb_of (vs_server s)) i \<and> bundle_root L argv = Inr new \<and>
          sd_target (vs_dirs s' inst) = Some new \<and>
          sd_staging (vs_dirs s' inst) =
            (if dp_dropped L \<or> (\<exists>n. new = Whole_bundle n) then [] else [dp_staging L]) @ sd_staging (vs_dirs s inst) \<and>
          (\<exists>spec. Create_sidecar spec \<in> set acts \<and> last acts = Start_container (dr_container_id res)) \<and>
          unat (dr_host_port res) = unat (kong_port (in_ports i)) + 9 \<and>
          sdb_of (vs_server s') = set_nextjs_service (ca_time c) inst (Some (dr_host_port res)) ''running''
            (others (sdb_of (vs_server s))) \<and>
          (\<forall>t. new = Link_to t \<longrightarrow> (\<exists>es. dp_top L = Some es \<and> (\<exists>e \<in> set es. te_link e = Some t))))) \<and>
    (archive_refused L \<longrightarrow> status \<noteq> 201 \<and> sd_target (vs_dirs s' inst) = sd_target (vs_dirs s inst))"
  using h
proof (cases rule: handler_cases)
  case refused
  then show ?thesis by simp
next
  case (ran argv r d')
  show ?thesis
  proof (cases "get_instance inst wallet (sdb_of (vs_server s))")
    case None
    then show ?thesis using ran(3-6) deploy_missing [OF None] by auto
  next
    case (Some i)
    note row = get_instance_live [OF Some]
    have made: "\<forall>spec. Create_sidecar spec \<in> set acts \<longrightarrow> sidecar_ok (ac_crypto A) (nc_data_dir (ac_node A)) i argv
        (others (sdb_of (vs_server s))) spec"
      using deploy_created [OF ran(3) Some] by blast
    have rest: "\<forall>other. other \<noteq> inst \<longrightarrow> vs_dirs s' other = vs_dirs s other"
      using deploy_dirs [OF ran(3) Some] by blast
    have success: "\<exists>res new. p = V_deployed res \<and> bundle_root L argv = Inr new \<and>
        sd_target (vs_dirs s' inst) = Some new \<and>
        sd_staging (vs_dirs s' inst) =
          (if dp_dropped L \<or> (\<exists>n. new = Whole_bundle n) then [] else [dp_staging L]) @ sd_staging (vs_dirs s inst) \<and>
        (\<exists>spec. Create_sidecar spec \<in> set acts \<and> last acts = Start_container (dr_container_id res)) \<and>
        unat (dr_host_port res) = unat (kong_port (in_ports i)) + 9 \<and>
        d' = set_nextjs_service (ca_time c) inst (Some (dr_host_port res)) ''running'' (others (sdb_of (vs_server s))) \<and>
        (\<forall>t. new = Link_to t \<longrightarrow> (\<exists>es. dp_top L = Some es \<and> (\<exists>e \<in> set es. te_link e = Some t)))"
      if "status = 201"
    proof -
      obtain res where res: "r = Inr res" "p = V_deployed res" using ran(6) \<open>status = 201\<close> by auto
      let ?new = "the (sd_target (vs_dirs s' inst))"
      have drop: "drop_staging L new ds =
          (if dp_dropped L \<or> (\<exists>n. new = Whole_bundle n) then [] else [dp_staging L]) @ ds" for new ds
        by (cases new) (auto simp: drop_staging_def)
      have ok: "bundle_root L argv = Inr ?new" and out: "sd_target (vs_dirs s' inst) = Some ?new"
        and staged: "sd_staging (vs_dirs s' inst) =
          (if dp_dropped L \<or> (\<exists>n. ?new = Whole_bundle n) then [] else [dp_staging L]) @ sd_staging (vs_dirs s inst)"
        and made: "\<exists>spec. Create_sidecar spec \<in> set acts \<and> last acts = Start_container (dr_container_id res)"
        and port: "unat (dr_host_port res) = unat (kong_port (in_ports i)) + 9"
        and d': "d' = set_nextjs_service (ca_time c) inst (Some (dr_host_port res)) ''running'' (others (sdb_of (vs_server s)))"
        using deploy_success [OF ran(3) [unfolded res] Some] unfolding drop by simp_all
      have link: "\<exists>es. dp_top L = Some es \<and> (\<exists>e \<in> set es. te_link e = Some t)"
        if "the (sd_target (vs_dirs s' inst)) = Link_to t" for t
        using link_from_archive [of L argv t] ok that by auto
      show ?thesis
        by (intro exI [of _ res] exI [of _ ?new] conjI allI impI) (use res ok out staged made port d' link in simp_all)
    qed
    have refused: "archive_refused L \<Longrightarrow> status \<noteq> 201 \<and> sd_target (vs_dirs s' inst) = sd_target (vs_dirs s inst)"
      using deploy_refused [OF ran(3)] ran(6) by auto
    show ?thesis
      using ran(1,2,4,5) row made rest success refused entry_argv_ok [OF ran(2)] by blast
  qed
qed

text \<open>An upload whose archive is one link to the root of the file system, with an empty body.\<close>

definition link_luck :: deploy_luck where
  "link_luck = \<lparr>dp_pull = [], dp_staging = ''nextjs-staging-1'', dp_staging_made = True,
     dp_items = Some [Entry ''app'' True], dp_root_script = False,
     dp_top = Some [\<lparr>te_name = ''app'', te_link = Some ''/'', te_is_dir = True, te_has_script = True\<rparr>],
     dp_cleared = Removed, dp_renamed = True, dp_dropped = True, dp_create = Inr ''c'', dp_start = None\<rparr>"

definition demo_services :: service_state where
  "demo_services = \<lparr>vs_server = secret_server ''v'', vs_admission = \<lparr>by_wallet = {}, by_instance = {}\<rparr>,
     vs_dirs = (\<lambda>_. \<lparr>sd_target = None, sd_staging = []\<rparr>)\<rparr>"

lemma link_deploys:
  assumes "get_instance inst wallet d = Some i" "checked_add (kong_port (in_ports i)) 9 = Some port"
  shows "\<exists>res acts d' dirs'. deploy C root host now link_luck others inst wallet [] argv (d, dirs) = (Inr res, acts, d', dirs')"
  using assms
  by (simp add: deploy_def Let_def MAX_BUNDLE_BYTES_def link_luck_def ensure_image_def stage_bundle_def bundle_root_def
      is_absolute_def has_parent_dir_def)

lemma demo_deployment:
  "\<exists>res acts s'. deploy_nextjs_service_handler lax_api Some_argv owner_call True link_luck (\<lambda>d. d) ''i'' ''w'' None demo_services =
     ((201, V_deployed res), acts, s')"
proof -
  have row: "get_instance ''i'' ''w'' (sdb_of (secret_server ''v'')) = Some demo_vault_row"
    by (simp add: get_instance_def secret_server_def demo_vault_def empty_db_def demo_vault_row_def Database.live_def)
  have argv: "entry_argv Some_argv None = Inr [''node'', ''server.js'']"
    by (simp add: entry_argv_def shell_meta_def)
  have port: "checked_add (kong_port (in_ports demo_vault_row)) 9 = Some 10"
    by (simp add: demo_vault_row_def checked_add_def)
  obtain res acts d' dirs' where run: "deploy (ac_crypto lax_api) (nc_data_dir (ac_node lax_api))
      (nc_public_host (ac_node lax_api)) (ca_time owner_call) link_luck (\<lambda>d. d) ''i'' ''w'' []
      [''node'', ''server.js''] (sdb_of (secret_server ''v''), vs_dirs demo_services) = (Inr res, acts, d', dirs')"
    using link_deploys [OF row port] by blast
  have parts: "vs_server demo_services = secret_server ''v''" "ca_body owner_call = []"
    "try_acquire Build ''w'' ''i'' (vs_admission demo_services) \<noteq> Inl e" for e
    by (simp_all add: demo_services_def owner_call_def try_acquire_def Let_def)
  then obtain g busy where g: "try_acquire Build ''w'' ''i'' (vs_admission demo_services) = Inr (g, busy)"
    by (metis sum.exhaust prod.exhaust)
  show ?thesis
    using run argv g by (simp add: deploy_nextjs_service_handler_def parts owner_unsigned demo_owner_row Let_def)
qed

theorem deployments_stay_in_place_witness:
  "\<exists>res acts s'. deploy_nextjs_service_handler lax_api (\<lambda>_. None) owner_call True link_luck (\<lambda>d. d) ''i'' ''w'' None
      demo_services = ((201, V_deployed res), acts, s') \<and>
     sd_target (vs_dirs s' ''i'') = Some (Link_to ''/'') \<and> unat (dr_host_port res) = 10"
proof -
  obtain res acts s' where run: "deploy_nextjs_service_handler lax_api (\<lambda>_. None) owner_call True link_luck
      (\<lambda>d. d) ''i'' ''w'' None demo_services = ((201, V_deployed res), acts, s')"
    using demo_deployment by blast
  have link: "bundle_root link_luck argv = Inr new \<Longrightarrow> new = Link_to ''/''" for argv new
    by (simp add: bundle_root_def link_luck_def)
  have port: "live_row ''i'' ''w'' (sdb_of (vs_server demo_services)) i \<Longrightarrow> unat (kong_port (in_ports i)) = 1" for i
    by (simp add: live_row_def demo_services_def secret_server_def demo_vault_def empty_db_def demo_vault_row_def)
  obtain new argv i where "bundle_root link_luck argv = Inr new" "sd_target (vs_dirs s' ''i'') = Some new"
    "live_row ''i'' ''w'' (sdb_of (vs_server demo_services)) i" "unat (dr_host_port res) = unat (kong_port (in_ports i)) + 9"
    using deployments_stay_in_place [OF run, THEN conjunct2, THEN conjunct2, THEN conjunct2, THEN conjunct2, THEN conjunct1]
    by auto
  then show ?thesis using run link port by fastforce
qed

section \<open>The ports of side-cars\<close>

text \<open>
  C29: The port a side-car listens on belongs to its instance alone: a deployment that succeeds in a
  reachable state of the node, for an instance that no tear-down has released, takes a port in the
  configured range that is none of the nine ports of that instance, and neither a port nor the
  side-car port of another such instance.
\<close>

theorem sidecar_ports_stay_apart:
  assumes "reachable (node_init cfg) (node_step cfg) m" "inst \<notin> freed m"
    and run: "deploy C root host now L others inst wallet tarball argv (ndb (nd m), dirs) = (Inr res, acts, d', dirs')"
  shows "\<exists>r \<in> set (insts m). in_id r = inst \<and> in_wallet r = wallet \<and>
    unat (nc_port_range_start cfg) \<le> unat (dr_host_port res) \<and>
    unat (dr_host_port res) < unat (nc_port_range_end cfg) \<and> unat (dr_host_port res) \<notin> port_set (in_ports r) \<and>
    (\<forall>s \<in> set (insts m). active (freed m) s \<and> in_id s \<noteq> inst \<longrightarrow>
       unat (dr_host_port res) \<notin> port_set (in_ports s) \<and>
       checked_add (kong_port (in_ports s)) 9 \<noteq> Some (dr_host_port res))"
proof -
  obtain r where get: "get_instance inst wallet (ndb (nd m)) = Some r"
    using run deploy_missing by (cases "get_instance inst wallet (ndb (nd m))") auto
  then have r: "r \<in> set (insts m)" "in_id r = inst" "in_wallet r = wallet" "active (freed m) r"
    using get_instance_live [OF get] assms(2) by (simp_all add: live_row_def active_def Database.live_def)
  have inv: "node_inv cfg m" by (rule nodes.inv_reachable [OF assms(1)])
  have range: "in_range cfg (base_of r)" by (rule active_block [OF inv r(1,4)])
  have port: "unat (dr_host_port res) = unat (base_of r) + 9"
    using deploy_success [OF run get] by blast
  have "unat (dr_host_port res) \<notin> port_set (in_ports s) \<and> checked_add (base_of s) 9 \<noteq> Some (dr_host_port res)"
    if "s \<in> set (insts m)" "active (freed m) s" "in_id s \<noteq> inst" for s
    using active_apart [OF inv r(1) that(1) r(4) that(2)] active_ports [OF inv that(1,2)] port r(2) that(3)
    by (auto simp: apart_def dest!: checked_add_unat)
  then show ?thesis
    using port range r active_ports [OF inv r(1,4)] by (intro bexI [of _ r]) (auto simp: in_range_def)
qed

theorem sidecar_ports_stay_apart_witness:
  "\<exists>m r C root host now others wallet dirs res acts d' dirs'.
     reachable (node_init demo_node_config) (node_step demo_node_config) m \<and> insts m = [r] \<and>
     deploy C root host now link_luck others (in_id r) wallet [] [] (ndb (nd m), dirs) = (Inr res, acts, d', dirs') \<and>
     unat (dr_host_port res) < 8100 \<and> unat (dr_host_port res) \<notin> port_set (in_ports r)"
proof -
  obtain m r where m: "reachable (node_init demo_node_config) (node_step demo_node_config) m"
    and r: "insts m = [r]" "active (freed m) r" using demo_instance by blast
  have inv: "node_inv demo_node_config m" by (rule nodes.inv_reachable [OF m])
  have "in_range demo_node_config (base_of r)"
    by (rule active_block [OF inv _ r(2)]) (simp_all add: r(1))
  then have port: "checked_add (base_of r) 9 = Some (base_of r + 9)"
    by (simp add: in_range_def demo_config checked_add_def)
  have get: "get_instance (in_id r) (in_wallet r) (ndb (nd m)) = Some r"
    using r by (simp add: get_instance_def active_def)
  obtain res acts d' dirs' where run: "deploy demo_crypto root host 0 link_luck (\<lambda>d. d) (in_id r) (in_wallet r) [] []
      (ndb (nd m), dirs) = (Inr res, acts, d', dirs')"
    using link_deploys [OF get port] by blast
  have "in_id r \<notin> freed m" using r(2) by (simp add: active_def)
  from sidecar_ports_stay_apart [OF m this run]
  have "unat (dr_host_port res) < 8100" "unat (dr_host_port res) \<notin> port_set (in_ports r)"
    by (auto simp: r(1) demo_config)
  then show ?thesis using m r(1) run by blast
qed

end
