(* ===== verification/Functions_Api.thy ===== *)
theory Functions_Api
  imports Ipfs Migration Env_Secrecy
begin

text \<open>
  Edge functions and the integrity root of an instance (\<open>main.rs\<close>): deploying, listing and reading
  back a function, and the digest over all rows. The functions directory of an instance is the list
  of its entries in the order \<open>read_dir\<close> gives them; what the file system, the clock of a file and
  \<open>docker exec\<close> answer are arguments.
\<close>

section \<open>Requests and state\<close>

record function_request =
  fr_wallet :: string
  fr_name :: string
  fr_code :: string
  fr_hash :: "string option"

text \<open>An entry of \<open>volumes/functions\<close>: the source files it holds.\<close>

record fn_dir =
  fd_ts :: "string option"
  fd_js :: "string option"

type_synonym fn_tree = "(string \<times> fn_dir) list"

record fn_state =
  fs_server :: server
  fs_trees :: "string \<Rightarrow> fn_tree"

datatype fn_payload =
    F_internal
  | F_error string
  | F_sig_refused sig_error
  | F_not_found string
  | F_no_source string
  | F_deployed string string string
  | F_list "(string \<times> string) list"
  | F_source string string string string nat "int option"
  | F_root string
  | F_invalid_root string

datatype fn_write = Fn_dir_failed | Fn_write_broken "string option" | Fn_written

section \<open>Deploying a function\<close>

definition sanitise_function_name :: "string \<Rightarrow> string" where
  "sanitise_function_name s =
     keep_chars (\<lambda>c. case c of [a] \<Rightarrow> is_ascii_alphanumeric a \<or> a = CHR ''-'' \<or> a = CHR ''_'' | _ \<Rightarrow> False) s"

definition fn_dir_of :: "string \<Rightarrow> fn_tree \<Rightarrow> fn_dir" where
  "fn_dir_of fname t = (case map_of t fname of Some e \<Rightarrow> e | None \<Rightarrow> \<lparr>fd_ts = None, fd_js = None\<rparr>)"

definition write_function :: "fn_write \<Rightarrow> string \<Rightarrow> string \<Rightarrow> fn_tree \<Rightarrow> bool \<times> fn_tree" where
  "write_function w fname code t = (case w of
     Fn_dir_failed \<Rightarrow> (False, t)
   | Fn_write_broken left \<Rightarrow> (False, AList.update fname ((fn_dir_of fname t)\<lparr>fd_ts := left\<rparr>) t)
   | Fn_written \<Rightarrow> (True, AList.update fname ((fn_dir_of fname t)\<lparr>fd_ts := Some code\<rparr>) t))"

definition digest_hex :: "crypto \<Rightarrow> string \<Rightarrow> string" where
  "digest_hex C x = hex_encode C (sha256 C x)"

definition deploy_function_handler ::
  "api_config \<Rightarrow> (string \<Rightarrow> function_request option) \<Rightarrow> call \<Rightarrow> fn_write \<Rightarrow> string \<Rightarrow> fn_state \<Rightarrow>
   (nat \<times> fn_payload) \<times> fn_state" where
  "deploy_function_handler A js c w inst s =
     (case js (ca_body c) of None \<Rightarrow> ((500, F_internal), s) | Some req \<Rightarrow>
      (case manager_get_instance inst (fr_wallet req) (sv_node (fs_server s)) of
         None \<Rightarrow> ((404, F_error ''instance not found''), s)
       | Some i \<Rightarrow>
      (case verify_request_sig (ac_crypto A) (sigauth_missing_allowed (ac_allow_missing A)) (ca_wall c) (ca_instant c)
          (call_request c ''POST'' (''/instances/'' @ inst @ ''/functions/deploy'') (ca_body c) (in_wallet i))
          (sv_nonces (fs_server s)) of
         (Inl e, m) \<Rightarrow> ((401, F_sig_refused e), s\<lparr>fs_server := (fs_server s)\<lparr>sv_nonces := m\<rparr>\<rparr>)
       | (Inr _, m) \<Rightarrow>
           let s = s\<lparr>fs_server := (fs_server s)\<lparr>sv_nonces := m\<rparr>\<rparr>;
               computed = digest_hex (ac_crypto A) (fr_code req);
               fname = sanitise_function_name (fr_name req)
           in if fr_hash req \<noteq> None \<and> fr_hash req \<noteq> Some computed then ((400, F_error ''code hash mismatch''), s)
              else if fname = [] then ((400, F_error ''invalid function name''), s)
              else (case write_function w fname (fr_code req) (fs_trees s (in_dir i)) of
                (False, t) \<Rightarrow> ((500, F_internal), s\<lparr>fs_trees := (fs_trees s)(in_dir i := t)\<rparr>)
              | (True, t) \<Rightarrow>
                  ((200, F_deployed fname computed (in_url i @ ''/functions/v1/'' @ fname)),
                   s\<lparr>fs_trees := (fs_trees s)(in_dir i := t)\<rparr>)))))"

section \<open>Listing and reading\<close>

text \<open>The gate both share: a wallet parameter, its signature, its instance.\<close>

definition wallet_gate ::
  "api_config \<Rightarrow> call \<Rightarrow> string \<Rightarrow> string option \<Rightarrow> string \<Rightarrow>
   (instance_row \<Rightarrow> fn_state \<Rightarrow> nat \<times> fn_payload) \<Rightarrow> fn_state \<Rightarrow> (nat \<times> fn_payload) \<times> fn_state" where
  "wallet_gate A c rpath wallet inst k s =
     (case wallet of None \<Rightarrow> ((401, F_error ''wallet query param required''), s) | Some w \<Rightarrow>
      if w = [] then ((401, F_error ''wallet query param required''), s)
      else (case verify_request_sig (ac_crypto A) (sigauth_missing_allowed (ac_allow_missing A)) (ca_wall c)
          (ca_instant c) (call_request c ''GET'' rpath [] w) (sv_nonces (fs_server s)) of
        (Inl e, m) \<Rightarrow> ((401, F_sig_refused e), s\<lparr>fs_server := (fs_server s)\<lparr>sv_nonces := m\<rparr>\<rparr>)
      | (Inr _, m) \<Rightarrow>
          let s = s\<lparr>fs_server := (fs_server s)\<lparr>sv_nonces := m\<rparr>\<rparr> in
          (case manager_get_instance inst w (sv_node (fs_server s)) of
             None \<Rightarrow> ((404, F_error ''instance not found''), s)
           | Some i \<Rightarrow> (k i s, s))))"

text \<open>\<open>readable\<close>: whether a source that exists can be read; a failed read counts as an empty file.\<close>

definition listed_functions :: "crypto \<Rightarrow> (string \<Rightarrow> bool) \<Rightarrow> fn_tree \<Rightarrow> (string \<times> string) list" where
  "listed_functions C readable t =
     map (\<lambda>(fname, e). (fname, case fd_ts e of
         Some code \<Rightarrow> digest_hex C (if readable fname then code else []) | None \<Rightarrow> ''unknown''))
       (filter (\<lambda>(fname, _). fname \<noteq> ''main'' \<and> \<not> starts_with ''.'' fname) t)"

definition list_functions_handler ::
  "api_config \<Rightarrow> call \<Rightarrow> bool \<Rightarrow> (string \<Rightarrow> bool) \<Rightarrow> string option \<Rightarrow> string \<Rightarrow> fn_state \<Rightarrow> (nat \<times> fn_payload) \<times> fn_state" where
  "list_functions_handler A c dir_readable readable wallet inst =
     wallet_gate A c (''/instances/'' @ inst @ ''/functions'') wallet inst (\<lambda>i s.
       if \<not> dir_readable then (500, F_internal)
       else (200, F_list (listed_functions (ac_crypto A) readable (fs_trees s (in_dir i)))))"

text \<open>The name is cleaned again, with the Unicode test this time.\<close>

definition safe_source_name :: "(string \<Rightarrow> bool) \<Rightarrow> string \<Rightarrow> string" where
  "safe_source_name wide s = keep_chars (\<lambda>c. is_alphanumeric wide c \<or> c = ''-'' \<or> c = ''_'') s"

definition function_source :: "crypto \<Rightarrow> bool \<Rightarrow> int option \<Rightarrow> string \<Rightarrow> fn_tree \<Rightarrow> nat \<times> fn_payload" where
  "function_source C readable mtime safe_name t =
     (case map_of t safe_name of
        None \<Rightarrow> (404, F_not_found safe_name)
      | Some e \<Rightarrow>
          (case (case fd_ts e of Some code \<Rightarrow> Some (code, ''typescript'')
                 | None \<Rightarrow> map_option (\<lambda>code. (code, ''javascript'')) (fd_js e)) of
             None \<Rightarrow> (404, F_no_source safe_name)
           | Some (code, language) \<Rightarrow>
               if \<not> readable \<or> \<not> utf8 code then (500, F_error ''failed to read source'')
               else (200, F_source safe_name language code (digest_hex C code) (length code) mtime)))"

definition get_function_source_handler ::
  "api_config \<Rightarrow> (string \<Rightarrow> bool) \<Rightarrow> call \<Rightarrow> bool \<Rightarrow> int option \<Rightarrow> string option \<Rightarrow> string \<Rightarrow> string \<Rightarrow> fn_state \<Rightarrow>
   (nat \<times> fn_payload) \<times> fn_state" where
  "get_function_source_handler A wide c readable mtime wallet inst fname =
     wallet_gate A c (''/instances/'' @ inst @ ''/functions/'' @ fname @ ''/source'') wallet inst (\<lambda>i s.
       let safe_name = safe_source_name wide fname in
       if safe_name = [] then (400, F_error ''invalid function name'')
       else function_source (ac_crypto A) readable mtime safe_name (fs_trees s (in_dir i)))"

section \<open>The integrity root\<close>

datatype psql_outcome = Psql_done string | Psql_failed string string | Psql_not_started string

definition take_chars :: "nat \<Rightarrow> string \<Rightarrow> string" where
  "take_chars n s = concat (take n (chars_of s))"

definition integrity_root_handler :: "crypto \<Rightarrow> psql_outcome \<Rightarrow> string \<Rightarrow> server \<Rightarrow> nat \<times> fn_payload" where
  "integrity_root_handler C out inst sv =
     (case find (\<lambda>i. in_id i = inst) (list_all_instances (sdb_of sv)) of
        None \<Rightarrow> (404, F_error ''instance not found'')
      | Some i \<Rightarrow>
          (case out of
             Psql_done stdout \<Rightarrow> (200, F_root (digest_hex C (trim (utf8_lossy stdout))))
           | Psql_failed status stderr \<Rightarrow>
               (502, F_invalid_root (''psql exited '' @ status @ '': '' @ take_chars 200 (utf8_lossy stderr)))
           | Psql_not_started e \<Rightarrow> (502, F_invalid_root (''docker exec failed: '' @ e))))"

section \<open>What goes in comes out\<close>

definition fn_char :: "char \<Rightarrow> bool" where
  "fn_char a \<longleftrightarrow> is_ascii_alphanumeric a \<or> a = CHR ''-'' \<or> a = CHR ''_''"

lemma fn_char_ascii: "fn_char a \<Longrightarrow> byte a < 128"
  by (auto simp: fn_char_def is_ascii_alphanumeric_def is_ascii_alphabetic_def is_ascii_uppercase_def
      is_ascii_lowercase_def is_ascii_digit_def)

lemma chars_of_ascii: "list_all (\<lambda>a. byte a < 128) s \<Longrightarrow> chars_of s = map (\<lambda>a. [a]) s"
  by (induction s) (simp_all add: char_width_def)

lemma keep_chars_all: "list_all (\<lambda>a. byte a < 128 \<and> P [a]) s \<Longrightarrow> keep_chars P s = s"
proof -
  assume h: "list_all (\<lambda>a. byte a < 128 \<and> P [a]) s"
  then have "chars_of s = map (\<lambda>a. [a]) s" by (intro chars_of_ascii) (simp add: list_all_iff)
  moreover have "filter P (map (\<lambda>a. [a]) s) = map (\<lambda>a. [a]) s"
    using h by (simp add: list_all_iff)
  ultimately show ?thesis by (simp add: keep_chars_def)
qed

lemma sanitised_chars: "list_all fn_char (sanitise_function_name s)"
  by (auto simp: sanitise_function_name_def keep_chars_def list_all_iff fn_char_def split: list.splits)

text \<open>Both ways to clean a name agree on a clean one.\<close>

lemma sanitise_clean:
  assumes "list_all fn_char s"
  shows "sanitise_function_name s = s" "safe_source_name wide s = s"
proof -
  have "byte a < 128 \<and> (is_ascii_alphanumeric a \<or> a = CHR ''-'' \<or> a = CHR ''_'')" if "a \<in> set s" for a
    using assms that fn_char_ascii by (auto simp: list_all_iff fn_char_def)
  then show "sanitise_function_name s = s" "safe_source_name wide s = s"
    unfolding sanitise_function_name_def safe_source_name_def
    by (intro keep_chars_all, simp add: list_all_iff is_alphanumeric_def)+
qed

lemma written_function:
  "write_function w fname code t = (True, t') \<Longrightarrow>
     \<exists>e. map_of t' fname = Some e \<and> fd_ts e = Some code \<and> (\<forall>other. other \<noteq> fname \<longrightarrow> map_of t' other = map_of t other)"
  by (auto simp: write_function_def update_conv' split: fn_write.splits)

lemma written_listed:
  assumes "map_of t fname = Some e" "fd_ts e = Some code" "fname \<noteq> ''main''" "\<not> starts_with ''.'' fname"
  shows "(fname, digest_hex C code) \<in> set (listed_functions C (\<lambda>_. True) t)"
proof -
  have "(fname, e) \<in> set (filter (\<lambda>(fname, _). fname \<noteq> ''main'' \<and> \<not> starts_with ''.'' fname) t)"
    unfolding set_filter using map_of_SomeD [OF assms(1)] assms(3,4) by blast
  moreover have "(fname, digest_hex C code) = (\<lambda>(fname, e). (fname, case fd_ts e of
      Some code \<Rightarrow> digest_hex C (if True then code else []) | None \<Rightarrow> ''unknown'')) (fname, e)"
    unfolding prod.case assms(2) option.case by (simp only: if_True)
  ultimately show ?thesis unfolding listed_functions_def set_map by (rule image_eqI [rotated])
qed

lemma fn_char_no_dot: "list_all fn_char fname \<Longrightarrow> \<not> starts_with ''.'' fname"
  by (auto simp: starts_with_iff fn_char_def is_ascii_alphanumeric_def is_ascii_alphabetic_def is_ascii_uppercase_def
      is_ascii_lowercase_def is_ascii_digit_def)

text \<open>A call that passes the gate of the reading endpoints for an instance.\<close>

definition passes_gate :: "api_config \<Rightarrow> call \<Rightarrow> string \<Rightarrow> string \<Rightarrow> string \<Rightarrow> instance_row \<Rightarrow> fn_state \<Rightarrow> bool" where
  "passes_gate A c rpath wallet inst i s \<longleftrightarrow> wallet \<noteq> [] \<and>
     is_ok (fst (verify_request_sig (ac_crypto A) (sigauth_missing_allowed (ac_allow_missing A)) (ca_wall c)
       (ca_instant c) (call_request c ''GET'' rpath [] wallet) (sv_nonces (fs_server s)))) \<and>
     manager_get_instance inst wallet (sv_node (fs_server s)) = Some i"

lemma passes_gate_runs:
  assumes "passes_gate A c rpath wallet inst i s"
    and "\<And>m. k i (s\<lparr>fs_server := (fs_server s)\<lparr>sv_nonces := m\<rparr>\<rparr>) = r"
  shows "fst (wallet_gate A c rpath (Some wallet) inst k s) = r"
  using assms by (auto simp: passes_gate_def wallet_gate_def is_ok_iff Let_def split: prod.splits)

lemma deploy_function_cases:
  assumes "deploy_function_handler A js c w inst s = ((200, F_deployed fname hash url), s')"
    "js (ca_body c) = Some req" "manager_get_instance inst (fr_wallet req) (sv_node (fs_server s)) = Some i"
  shows "is_ok (fst (verify_request_sig (ac_crypto A) (sigauth_missing_allowed (ac_allow_missing A)) (ca_wall c)
      (ca_instant c) (call_request c ''POST'' (''/instances/'' @ inst @ ''/functions/deploy'') (ca_body c) (in_wallet i))
      (sv_nonces (fs_server s))))"
    "fname = sanitise_function_name (fr_name req)" "fname \<noteq> []" "hash = digest_hex (ac_crypto A) (fr_code req)"
    "\<exists>t. write_function w fname (fr_code req) (fs_trees s (in_dir i)) = (True, t) \<and> fs_trees s' = (fs_trees s)(in_dir i := t)"
  using assms by (auto simp: deploy_function_handler_def Let_def split: prod.splits sum.splits if_splits bool.splits)

text \<open>
  C27: What is deployed is what is read back. A deployment of a function that is answered with 200
  was signed by the owner for this path and body; the name has only letters, digits, \<open>-\<close> and \<open>_\<close>,
  so that it is one component of a path, and nothing but the source of that function of that
  instance has changed. As long as the file stays, the owner's reading endpoint returns the code,
  byte for byte, with the hash the deployment reported, and the listing shows the function with
  that hash, unless its name is \<open>main\<close>.
\<close>

theorem deployed_source_reads_back:
  assumes dep: "deploy_function_handler A js c w inst s = ((200, F_deployed fname hash url), s')"
    and req: "js (ca_body c) = Some req" "utf8 (fr_code req)"
    and row: "manager_get_instance inst (fr_wallet req) (sv_node (fs_server s)) = Some i"
  shows "is_ok (fst (verify_request_sig (ac_crypto A) (sigauth_missing_allowed (ac_allow_missing A)) (ca_wall c)
      (ca_instant c) (call_request c ''POST'' (''/instances/'' @ inst @ ''/functions/deploy'') (ca_body c) (in_wallet i))
      (sv_nonces (fs_server s)))) \<and>
    fname \<noteq> [] \<and> list_all fn_char fname \<and>
    (\<forall>dir. dir \<noteq> in_dir i \<longrightarrow> fs_trees s' dir = fs_trees s dir) \<and>
    (\<forall>other. other \<noteq> fname \<longrightarrow> map_of (fs_trees s' (in_dir i)) other = map_of (fs_trees s (in_dir i)) other) \<and>
    (\<forall>wide c2 mtime wallet j s2. fs_trees s2 (in_dir i) = fs_trees s' (in_dir i) \<and> in_dir j = in_dir i \<and>
       passes_gate A c2 (''/instances/'' @ inst @ ''/functions/'' @ fname @ ''/source'') wallet inst j s2 \<longrightarrow>
       fst (get_function_source_handler A wide c2 True mtime (Some wallet) inst fname s2) =
         (200, F_source fname ''typescript'' (fr_code req) hash (length (fr_code req)) mtime)) \<and>
    (\<forall>c2 wallet j s2. fs_trees s2 (in_dir i) = fs_trees s' (in_dir i) \<and> in_dir j = in_dir i \<and> fname \<noteq> ''main'' \<and>
       passes_gate A c2 (''/instances/'' @ inst @ ''/functions'') wallet inst j s2 \<longrightarrow>
       (\<exists>shown. fst (list_functions_handler A c2 True (\<lambda>_. True) (Some wallet) inst s2) = (200, F_list shown) \<and>
          (fname, hash) \<in> set shown))"
proof -
  note d = deploy_function_cases [OF dep req(1) row]
  obtain t where t: "write_function w fname (fr_code req) (fs_trees s (in_dir i)) = (True, t)"
    "fs_trees s' = (fs_trees s)(in_dir i := t)" using d(5) by blast
  obtain e where e: "map_of t fname = Some e" "fd_ts e = Some (fr_code req)"
    "\<forall>other. other \<noteq> fname \<longrightarrow> map_of t other = map_of (fs_trees s (in_dir i)) other"
    using written_function [OF t(1)] by blast
  have chars: "list_all fn_char fname" unfolding d(2) by (rule sanitised_chars)
  have source: "function_source C True mtime fname t =
      (200, F_source fname ''typescript'' (fr_code req) (digest_hex C (fr_code req)) (length (fr_code req)) mtime)" for C mtime
    using e req(2) by (simp add: function_source_def)
  have reads: "fst (get_function_source_handler A wide c2 True mtime (Some wallet) inst fname s2) =
      (200, F_source fname ''typescript'' (fr_code req) hash (length (fr_code req)) mtime)"
    if "fs_trees s2 (in_dir i) = fs_trees s' (in_dir i)" "in_dir j = in_dir i"
      "passes_gate A c2 (''/instances/'' @ inst @ ''/functions/'' @ fname @ ''/source'') wallet inst j s2"
    for wide c2 mtime wallet j s2
    unfolding get_function_source_handler_def
    by (rule passes_gate_runs [OF that(3)])
      (use that(1,2) t(2) source d(3,4) sanitise_clean(2) [OF chars] in \<open>simp add: Let_def\<close>)
  have lists: "\<exists>shown. fst (list_functions_handler A c2 True (\<lambda>_. True) (Some wallet) inst s2) = (200, F_list shown) \<and>
      (fname, hash) \<in> set shown"
    if "fs_trees s2 (in_dir i) = fs_trees s' (in_dir i)" "in_dir j = in_dir i" "fname \<noteq> ''main''"
      "passes_gate A c2 (''/instances/'' @ inst @ ''/functions'') wallet inst j s2"
    for c2 wallet j s2
    unfolding list_functions_handler_def
    by (intro exI conjI, rule passes_gate_runs [OF that(4)])
      (use that(1,2) t(2) d(4) written_listed [OF e(1,2) that(3) fn_char_no_dot [OF chars]] in simp_all)
  show ?thesis using d(1,3) chars t(2) e(3) reads lists by (intro conjI) auto
qed

definition demo_function :: function_request where
  "demo_function = \<lparr>fr_wallet = ''w'', fr_name = ''../hello'', fr_code = ''x'', fr_hash = None\<rparr>"

definition demo_functions :: fn_state where
  "demo_functions = \<lparr>fs_server = secret_server ''v'', fs_trees = (\<lambda>_. [])\<rparr>"

lemma demo_function_name: "sanitise_function_name ''../hello'' = ''hello''"
  by code_simp

theorem deployed_source_reads_back_witness:
  "\<exists>hash url s'. deploy_function_handler lax_api (\<lambda>_. Some demo_function) owner_call Fn_written ''i'' demo_functions =
      ((200, F_deployed ''hello'' hash url), s') \<and>
    fst (get_function_source_handler lax_api (\<lambda>_. False) owner_call True None (Some ''w'') ''i'' ''hello'' s') =
      (200, F_source ''hello'' ''typescript'' ''x'' hash 1 None)"
proof -
  have demo: "fr_wallet demo_function = ''w''" "fr_code demo_function = ''x''" "fr_hash demo_function = None"
    "sanitise_function_name (fr_name demo_function) = ''hello''" "fs_server demo_functions = secret_server ''v''"
    "sv_nonces (secret_server ''v'') = []"
    by (simp_all add: demo_function_def demo_functions_def demo_function_name secret_server_def)
  obtain hash url s' where dep: "deploy_function_handler lax_api (\<lambda>_. Some demo_function) owner_call Fn_written ''i''
      demo_functions = ((200, F_deployed ''hello'' hash url), s')"
    and same: "sv_node (fs_server s') = sv_node (secret_server ''v'')"
    by (simp add: deploy_function_handler_def demo demo_owner_row owner_unsigned write_function_def Let_def)
  have row: "manager_get_instance ''i'' (fr_wallet demo_function) (sv_node (fs_server demo_functions)) = Some demo_vault_row"
    by (simp add: demo demo_owner_row)
  have gate: "passes_gate lax_api owner_call rpath ''w'' ''i'' demo_vault_row s'" for rpath
    using same demo_owner_row [of "''v''"] by (simp add: passes_gate_def owner_unsigned)
  have "utf8 (fr_code demo_function)" by (simp add: demo)
  from deployed_source_reads_back [OF dep refl this row] gate
  have "fst (get_function_source_handler lax_api (\<lambda>_. False) owner_call True None (Some ''w'') ''i'' ''hello'' s') =
      (200, F_source ''hello'' ''typescript'' (fr_code demo_function) hash (length (fr_code demo_function)) None)"
    by blast
  then show ?thesis using dep by (auto simp: demo)
qed

end
