(* ===== verification/Frontend_Build.thy ===== *)
theory Frontend_Build
  imports Node_Service Ipfs Build_Store
begin

text \<open>
  Building a front-end in a container (\<open>frontend_build.rs\<close>): the request and its checks, the shell
  script with its quoting, the container and its log, and the two ways the output leaves the host.
  Docker, the tools the script calls, the walk over the output directory and Kubo answer as
  arguments.
\<close>

definition BUILD_MAX_LOG_BYTES :: nat where "BUILD_MAX_LOG_BYTES = 256 * 1024"
definition MAX_PIN_OUTPUT_BYTES :: nat where "MAX_PIN_OUTPUT_BYTES = 100 * 1024 * 1024"
definition MAX_PIN_OUTPUT_FILES :: nat where "MAX_PIN_OUTPUT_FILES = 5000"
definition BUILD_TIMEOUT_SECS :: nat where "BUILD_TIMEOUT_SECS = 600"

section \<open>The request\<close>

text \<open>The variables are a hash map: a list with distinct keys in an arbitrary order.\<close>

record build_request =
  bq_wallet :: string
  bq_tarball_url :: string
  bq_github_token :: "string option"
  bq_install :: "string option"
  bq_build :: "string option"
  bq_output_dir :: "string option"
  bq_node_version :: "string option"
  bq_env_vars :: "(string \<times> string) list"
  bq_target :: "string option"
  bq_entry :: "string list option"

datatype build_target = Ipfs_pin | Node_service "string list"

datatype build_error =
    Entry_required
  | Entry_empty
  | Entry_meta string
  | Output_dir_not_relative
  | Output_dir_characters
  | Output_dir_parent
  | Node_version_characters
  | Tempdir_failed
  | Build_image_error string
  | Build_create_failed string
  | Build_start_failed string
  | Build_wait_failed string
  | Build_timed_out
  | Build_failed i64 string
  | Build_log_panic
  | Walk_failed
  | Too_many_files
  | Stat_failed
  | Too_many_bytes nat
  | Read_failed
  | Output_empty
  | Kubo_add_unreachable
  | Kubo_add_failed nat string
  | Kubo_body_failed
  | Kubo_no_entries
  | Pack_failed

definition from_request :: "build_request \<Rightarrow> build_error + build_target" where
  "from_request req =
     (if bq_target req = Some ''nextjs_service'' then Inr (Node_service [''node'', ''server.js''])
      else if bq_target req = Some ''node_service'' then
        rbind (ok_or Entry_required (bq_entry req)) (\<lambda>entry.
        guard (entry \<noteq> []) Entry_empty (
        case find shell_meta entry of Some a \<Rightarrow> Inl (Entry_meta a) | None \<Rightarrow> Inr (Node_service entry)))
      else Inr Ipfs_pin)"

definition or_default :: "string option \<Rightarrow> string \<Rightarrow> string" where
  "or_default v d = (case v of Some s \<Rightarrow> s | None \<Rightarrow> d)"

definition install_cmd :: "build_request \<Rightarrow> string" where
  "install_cmd req = or_default (bq_install req)
     ''npm ci --no-audit --no-fund 2>/dev/null || npm install --no-audit --no-fund''"

definition build_cmd :: "build_request \<Rightarrow> string" where
  "build_cmd req = or_default (bq_build req) ''npm run build''"

definition output_dir_char :: "char \<Rightarrow> bool" where
  "output_dir_char c \<longleftrightarrow> is_ascii_alphanumeric c \<or> c = CHR ''_'' \<or> c = CHR ''-'' \<or> c = CHR ''.'' \<or> c = CHR ''/''"

definition check_build_paths :: "(string \<Rightarrow> bool) \<Rightarrow> string \<Rightarrow> string \<Rightarrow> build_error + unit" where
  "check_build_paths wide output_dir node_version =
     guard (output_dir \<noteq> [] \<and> \<not> starts_with ''/'' output_dir) Output_dir_not_relative (
     guard (list_all output_dir_char output_dir) Output_dir_characters (
     guard (''..'' \<notin> set (split_on (CHR ''/'') output_dir)) Output_dir_parent (
     guard (list_all (\<lambda>c. is_alphanumeric wide c \<or> c = ''.'' \<or> c = ''-'') (chars_of node_version))
       Node_version_characters (Inr ()))))"

definition build_image :: "string \<Rightarrow> string" where
  "build_image node_version = ''node:'' @ node_version @ ''-alpine''"

definition build_env :: "build_request \<Rightarrow> string list" where
  "build_env req =
     [''KRAPH_TARBALL_URL='' @ bq_tarball_url req, ''KRAPH_GITHUB_TOKEN='' @ or_default (bq_github_token req) [],
      ''CI=1'', ''NPM_CONFIG_FUND=false'', ''NPM_CONFIG_AUDIT=false''] @
     map (\<lambda>(k, v). k @ ''='' @ v) (filter (\<lambda>(k, _). \<not> starts_with ''KRAPH_'' k) (bq_env_vars req))"

section \<open>The script\<close>

definition escape_single_quoted :: "string \<Rightarrow> string" where
  "escape_single_quoted s =
     concat (map (\<lambda>c. if c = CHR 0x27 then [CHR 0x27, CHR 0x22, CHR 0x27, CHR 0x22, CHR 0x27] else [c]) s)"

definition quoted :: "string \<Rightarrow> string" where
  "quoted s = CHR 0x27 # escape_single_quoted s @ [CHR 0x27]"

text \<open>
  How the shell reads one word: plain text, single and double quotes. Expansions and backslashes,
  which the words of the script do not use, are not read (\<open>None\<close>).
\<close>

datatype quoting = Unquoted | Single | Double

fun sh_word :: "quoting \<Rightarrow> string \<Rightarrow> (string \<times> string) option" where
  "sh_word Unquoted [] = Some ([], [])"
| "sh_word Single [] = None"
| "sh_word Double [] = None"
| "sh_word Unquoted (c # s) =
     (if is_space c then Some ([], c # s)
      else if c = CHR 0x27 then sh_word Single s
      else if c = CHR 0x22 then sh_word Double s
      else if c \<in> set ''$`;&|<>()#*?~'' \<or> c = CHR 0x5C then None
      else map_option (\<lambda>(w, r). (c # w, r)) (sh_word Unquoted s))"
| "sh_word Single (c # s) =
     (if c = CHR 0x27 then sh_word Unquoted s else map_option (\<lambda>(w, r). (c # w, r)) (sh_word Single s))"
| "sh_word Double (c # s) =
     (if c = CHR 0x22 then sh_word Unquoted s
      else if c = CHR ''$'' \<or> c = CHR 0x60 \<or> c = CHR 0x5C then None
      else map_option (\<lambda>(w, r). (c # w, r)) (sh_word Double s))"

text \<open>The environment of a process, from the entries of the container: the last one counts.\<close>

definition env_of :: "string list \<Rightarrow> string \<Rightarrow> string option" where
  "env_of entries = foldl (\<lambda>m e. case break_on ''='' e of Some (k, v) \<Rightarrow> m(k \<mapsto> v) | None \<Rightarrow> m) Map.empty entries"

text \<open>
  The tools the script calls, as the status they end with; \<open>tl_sh\<close> is \<open>sh -c\<close> with the environment
  and the command it is given, for the first and the second of the two commands of the request.
\<close>

record build_tools =
  tl_prepare :: nat
  tl_wget :: "string \<Rightarrow> string \<Rightarrow> nat"
  tl_unpack :: nat
  tl_sh :: "bool \<Rightarrow> (string \<Rightarrow> string option) \<Rightarrow> string \<Rightarrow> nat"
  tl_tsconfig :: bool
  tl_backup :: nat
  tl_patch :: bool
  tl_has_dir :: "string \<Rightarrow> bool"
  tl_copy :: "string \<Rightarrow> nat"

text \<open>What a run shows: its status, the commands of the request it ran, whether type checks were cut.\<close>

record build_run =
  rn_status :: nat
  rn_commands :: "((string \<Rightarrow> string option) \<times> string) list"
  rn_unchecked :: bool

definition env_text :: "(string \<Rightarrow> string option) \<Rightarrow> string \<Rightarrow> string" where
  "env_text env k = or_default (env k) []"

text \<open>
  The output directory stands in double quotes; a script is only made for one that passed
  \<open>check_build_paths\<close>, whose characters the quotes leave as they are (\<open>output_dir_word\<close>).
\<close>

definition run_script :: "build_tools \<Rightarrow> (string \<Rightarrow> string option) \<Rightarrow> string \<Rightarrow> string \<Rightarrow> string \<Rightarrow> build_run" where
  "run_script T env install_arg build_arg output_dir =
     (let stop = (\<lambda>n cs u. \<lparr>rn_status = n, rn_commands = cs, rn_unchecked = u\<rparr>) in
      if tl_prepare T \<noteq> 0 then stop (tl_prepare T) [] False
      else let got = tl_wget T (env_text env ''KRAPH_TARBALL_URL'') (env_text env ''KRAPH_GITHUB_TOKEN'') in
      if got \<noteq> 0 then stop got [] False
      else if tl_unpack T \<noteq> 0 then stop (tl_unpack T) [] False
      else let env = env(''KRAPH_GITHUB_TOKEN'' := None, ''KRAPH_TARBALL_URL'' := None) in
      (case sh_word Unquoted install_arg of None \<Rightarrow> stop 2 [] False | Some (install, _) \<Rightarrow>
       if tl_sh T True env install \<noteq> 0 then stop (tl_sh T True env install) [(env, install)] False
       else let cut = env_text env ''KRAPH_BUILD_KEEP_TYPECHECK'' = [] \<and> tl_tsconfig T in
       if cut \<and> tl_backup T \<noteq> 0 then stop (tl_backup T) [(env, install)] False
       else let unchecked = (cut \<and> tl_patch T) in
       (case sh_word Unquoted build_arg of None \<Rightarrow> stop 2 [(env, install)] unchecked | Some (build, _) \<Rightarrow>
        let ran = [(env, install), (env, build)] in
        if tl_sh T False env build \<noteq> 0 then stop (tl_sh T False env build) ran unchecked
        else if \<not> tl_has_dir T (''/work/src/'' @ output_dir) then stop 2 ran unchecked
        else stop (tl_copy T (''/work/src/'' @ output_dir @ ''/.'')) ran unchecked)))"

definition run_build_script :: "build_tools \<Rightarrow> build_request \<Rightarrow> build_run" where
  "run_build_script T req =
     run_script T (env_of (build_env req)) (quoted (install_cmd req)) (quoted (build_cmd req))
       (or_default (bq_output_dir req) ''dist'')"

section \<open>What the commands are and what they see\<close>

lemma escape_Cons:
  "escape_single_quoted (c # s) =
     (if c = CHR 0x27 then [CHR 0x27, CHR 0x22, CHR 0x27, CHR 0x22, CHR 0x27] else [c]) @ escape_single_quoted s"
  by (simp add: escape_single_quoted_def)

lemma sh_word_escaped:
  "sh_word Single (escape_single_quoted s @ CHR 0x27 # r) =
     map_option (\<lambda>(w, r'). (s @ w, r')) (sh_word Unquoted r)"
proof (induction s)
  case Nil
  then show ?case by (cases "sh_word Unquoted r") (auto simp: escape_single_quoted_def)
next
  case (Cons c s)
  then show ?case
    by (cases "sh_word Unquoted r") (auto simp: escape_Cons is_space_def)
qed

text \<open>Quoting is inverted by the shell, whatever the command contains.\<close>

lemma sh_word_quoted: "is_space d \<Longrightarrow> sh_word Unquoted (quoted s @ d # r) = Some (s, d # r)"
  by (simp add: quoted_def sh_word_escaped is_space_def)

lemma sh_word_quoted_end: "sh_word Unquoted (quoted s) = Some (s, [])"
  using sh_word_escaped [of s "[]"] by (simp add: quoted_def is_space_def)

text \<open>The two double-quoted words hold the output directory as it stands.\<close>

lemma sh_word_double:
  "list_all (\<lambda>c. c \<noteq> CHR 0x22 \<and> c \<noteq> CHR ''$'' \<and> c \<noteq> CHR 0x60 \<and> c \<noteq> CHR 0x5C) s \<Longrightarrow>
     sh_word Double (s @ CHR 0x22 # r) = map_option (\<lambda>(w, r'). (s @ w, r')) (sh_word Unquoted r)"
proof (induction s)
  case Nil
  then show ?case by (cases "sh_word Unquoted r") auto
next
  case (Cons c s)
  then show ?case by (cases "sh_word Unquoted r") auto
qed

lemma output_dir_word:
  assumes "check_build_paths wide output_dir v = Inr ()"
  shows "sh_word Unquoted (CHR 0x22 # ''/work/src/'' @ output_dir @ ''/.'' @ CHR 0x22 # '' '') =
    Some (''/work/src/'' @ output_dir @ ''/.'', '' '')"
proof -
  have "list_all output_dir_char output_dir" using assms by (auto simp: check_build_paths_def split: if_splits)
  then have "list_all (\<lambda>c. c \<noteq> CHR 0x22 \<and> c \<noteq> CHR ''$'' \<and> c \<noteq> CHR 0x60 \<and> c \<noteq> CHR 0x5C)
      (''/work/src/'' @ output_dir @ ''/.'')"
    by (auto simp: list_all_iff output_dir_char_def is_ascii_alphanumeric_def is_ascii_alphabetic_def
        is_ascii_uppercase_def is_ascii_lowercase_def is_ascii_digit_def)
  from sh_word_double [OF this, of "'' ''"] show ?thesis by (simp add: is_space_def)
qed

lemma env_of_append: "env_of (es @ fs) k = (case env_of fs k of Some v \<Rightarrow> Some v | None \<Rightarrow> env_of es k)"
proof (induction fs rule: rev_induct)
  case (snoc f fs)
  then show ?case by (auto simp: env_of_def simp flip: append_assoc split: option.splits)
qed (simp add: env_of_def)

lemma env_of_keys: "(\<And>e. e \<in> set es \<Longrightarrow> \<forall>k v. break_on ''='' e = Some (k, v) \<longrightarrow> k \<noteq> key) \<Longrightarrow> env_of es key = None"
proof (induction es rule: rev_induct)
  case (snoc e es)
  then show ?case by (force simp: env_of_def split: option.splits)
qed (simp add: env_of_def)

text \<open>A key of the request cannot name a variable of the script, even if it contains an equals sign.\<close>

lemma break_on_prefix:
  assumes "break_on ''='' (k @ ''='' @ v) = Some (k', v')"
  shows "\<exists>r. k = k' @ r"
  using assms
proof (induction k arbitrary: k')
  case (Cons c k)
  then show ?case by (cases "c = CHR ''=''") (auto split: option.splits)
qed simp

lemma user_entries_harmless:
  assumes "starts_with ''KRAPH_'' key"
  shows "env_of (map (\<lambda>(k, v). k @ ''='' @ v) (filter (\<lambda>(k, _). \<not> starts_with ''KRAPH_'' k) vars)) key = None"
proof (rule env_of_keys)
  fix e
  assume "e \<in> set (map (\<lambda>(k, v). k @ ''='' @ v) (filter (\<lambda>(k, _). \<not> starts_with ''KRAPH_'' k) vars))"
  then obtain k v where e: "e = k @ ''='' @ v" "\<not> starts_with ''KRAPH_'' k" by auto
  show "\<forall>k' v'. break_on ''='' e = Some (k', v') \<longrightarrow> k' \<noteq> key"
    using break_on_prefix [of k v] e assms by (fastforce simp: starts_with_iff)
qed

lemma build_env_controls:
  "env_of (build_env req) ''KRAPH_BUILD_KEEP_TYPECHECK'' = None"
  "env_of (build_env req) ''KRAPH_TARBALL_URL'' = Some (bq_tarball_url req)"
  "env_of (build_env req) ''KRAPH_GITHUB_TOKEN'' = Some (or_default (bq_github_token req) [])"
proof -
  have k: "starts_with ''KRAPH_'' ''KRAPH_BUILD_KEEP_TYPECHECK''" "starts_with ''KRAPH_'' ''KRAPH_TARBALL_URL''"
    "starts_with ''KRAPH_'' ''KRAPH_GITHUB_TOKEN''"
    by (simp_all add: starts_with_def)
  show "env_of (build_env req) ''KRAPH_BUILD_KEEP_TYPECHECK'' = None"
    "env_of (build_env req) ''KRAPH_TARBALL_URL'' = Some (bq_tarball_url req)"
    "env_of (build_env req) ''KRAPH_GITHUB_TOKEN'' = Some (or_default (bq_github_token req) [])"
    unfolding build_env_def env_of_append user_entries_harmless [OF k(1)] user_entries_harmless [OF k(2)]
      user_entries_harmless [OF k(3)] option.case
    by (simp_all add: env_of_def)
qed

definition command_env :: "build_request \<Rightarrow> string \<Rightarrow> string option" where
  "command_env req = (env_of (build_env req))(''KRAPH_GITHUB_TOKEN'' := None, ''KRAPH_TARBALL_URL'' := None)"

definition output_path :: "build_request \<Rightarrow> string" where
  "output_path req = ''/work/src/'' @ or_default (bq_output_dir req) ''dist''"

text \<open>
  C25: The build script does what the request says, and no more. The archive is fetched from the URL
  of the request with its token; the two commands of the request, whatever characters they contain,
  reach \<open>sh -c\<close> unchanged, the install command first, and both run in the environment of the
  container without the token and the URL, which no variable of the request can bring back. The
  script ends with 0 exactly if every step did and the output directory exists. Type checks are cut
  whenever there is a \<open>tsconfig.json\<close> that can be patched: no variable of the request changes that.
\<close>

theorem build_script_runs_the_request:
  "(\<exists>n. rn_commands (run_build_script T req) = take n [(command_env req, install_cmd req), (command_env req, build_cmd req)]) \<and>
    (rn_status (run_build_script T req) = 0 \<longleftrightarrow>
       tl_prepare T = 0 \<and> tl_wget T (bq_tarball_url req) (or_default (bq_github_token req) []) = 0 \<and>
       tl_unpack T = 0 \<and> tl_sh T True (command_env req) (install_cmd req) = 0 \<and> \<not> (tl_tsconfig T \<and> tl_backup T \<noteq> 0) \<and>
       tl_sh T False (command_env req) (build_cmd req) = 0 \<and> tl_has_dir T (output_path req) \<and> tl_copy T (output_path req @ ''/.'') = 0) \<and>
    (rn_unchecked (run_build_script T req) \<longleftrightarrow>
       tl_prepare T = 0 \<and> tl_wget T (bq_tarball_url req) (or_default (bq_github_token req) []) = 0 \<and>
       tl_unpack T = 0 \<and> tl_sh T True (command_env req) (install_cmd req) = 0 \<and> tl_tsconfig T \<and> tl_backup T = 0 \<and> tl_patch T)"
proof -
  let ?all = "[(command_env req, install_cmd req), (command_env req, build_cmd req)]"
  have texts: "env_text (env_of (build_env req)) ''KRAPH_TARBALL_URL'' = bq_tarball_url req"
    "env_text (env_of (build_env req)) ''KRAPH_GITHUB_TOKEN'' = or_default (bq_github_token req) []"
    "env_text (command_env req) ''KRAPH_BUILD_KEEP_TYPECHECK'' = []"
    by (simp_all add: env_text_def command_env_def build_env_controls or_default_def)
  have nothing: "\<exists>n. [] = take n ?all" by (rule exI [of _ 0]) simp
  have one: "\<exists>n. [(command_env req, install_cmd req)] = take n ?all" by (rule exI [of _ 1]) simp
  have both: "\<exists>n. ?all = take n ?all" by (rule exI [of _ 2]) simp
  show ?thesis
    unfolding run_build_script_def run_script_def Let_def texts(1,2) sh_word_quoted_end option.case prod.case
      command_env_def [symmetric] texts(3)
    using nothing one both by (auto simp: output_path_def)
qed

section \<open>The container\<close>

datatype build_action =
    B_pull string
  | B_create string string "string list" "string list" nat
  | B_start string
  | B_kill string
  | B_remove string

record build_luck =
  bl_tempdir :: "string option"
  bl_output_made :: bool
  bl_inspect :: inspect
  bl_pull :: "string option list"
  bl_cache :: bool
  bl_nanoid :: string
  bl_create :: "string + string"
  bl_start :: "string option"
  bl_logs :: "log_item list"
  bl_wait :: "wait_event list option"
  bl_ms :: nat

definition build_pull_image :: "build_luck \<Rightarrow> string \<Rightarrow> (build_error + unit) \<times> build_action list" where
  "build_pull_image L img =
     (case bl_inspect L of
        Image_present \<Rightarrow> (Inr (), [])
      | Inspect_error e \<Rightarrow> (Inl (Build_image_error (''inspect image: '' @ e)), [])
      | Image_missing \<Rightarrow>
          (case find (\<lambda>x. x \<noteq> None) (bl_pull L) of
             Some (Some e) \<Rightarrow> (Inl (Build_image_error (''image pull: '' @ e)), [B_pull img])
           | _ \<Rightarrow> (Inr (), [B_pull img])))"

fun build_wait :: "i64 option \<Rightarrow> wait_event list \<Rightarrow> build_error + i64" where
  "build_wait seen [] = Inr (case seen of Some c \<Rightarrow> c | None \<Rightarrow> 0)"
| "build_wait seen (wait_event.Exited c # es) = build_wait (Some c) es"
| "build_wait seen (Wait_error e c # es) = Inr c"
| "build_wait seen (Server_error n e # es) = (if n = 404 then Inr 137 else Inl (Build_wait_failed e))"
| "build_wait seen (Other_error e # es) = Inl (Build_wait_failed e)"

text \<open>
  The log task: every chunk goes to the store first (the entry of this build, if there is one), then
  into the buffer. A panic of the store ends the task and with it the log; what the store holds by
  then stays. After a time-out and after an error of the wait nobody waits for the task: the items are
  then those of the stream up to that moment, and what the task appends later is a step of its own of
  the machine of builds (\<open>late_log\<close>).
\<close>

fun log_task :: "string \<Rightarrow> string \<Rightarrow> log_item list \<Rightarrow> build_map \<Rightarrow> string option \<times> build_map" where
  "log_task build_id buf [] m = (Some (utf8_lossy buf), m)"
| "log_task build_id buf (Stream_error # items) m = (Some (utf8_lossy buf), m)"
| "log_task build_id buf (Chunk message # items) m =
     (case append_log build_id (utf8_lossy message) m of
        None \<Rightarrow> (None, m)
      | Some m1 \<Rightarrow>
          log_task build_id
            (if BUILD_MAX_LOG_BYTES \<le> length buf then buf
             else buf @ take (BUILD_MAX_LOG_BYTES - length buf) message) items m1)"

record build_artifacts =
  ba_log :: string
  ba_exit_code :: i64
  ba_ms :: nat

definition container_binds :: "build_luck \<Rightarrow> string \<Rightarrow> string list" where
  "container_binds L workdir =
     (workdir @ '':/work:rw'') # (if bl_cache L then [''/var/lib/kraph/npm-cache:/root/.npm:rw''] else [])"

text \<open>\<open>to_lower\<close> of the random name; the limits are 4 GiB and three processors.\<close>

definition build_to_artifacts ::
  "(string \<Rightarrow> bool) \<Rightarrow> build_luck \<Rightarrow> build_request \<Rightarrow> string \<Rightarrow> build_map \<Rightarrow>
   (build_error + build_artifacts) \<times> build_action list \<times> build_map" where
  "build_to_artifacts wide L req build_id m =
     (let node_version = or_default (bq_node_version req) ''20''; img = build_image node_version in
      case check_build_paths wide (or_default (bq_output_dir req) ''dist'') node_version of
        Inl e \<Rightarrow> (Inl e, [], m)
      | Inr _ \<Rightarrow>
     (case bl_tempdir L of None \<Rightarrow> (Inl Tempdir_failed, [], m) | Some workdir \<Rightarrow>
      if \<not> bl_output_made L then (Inl Tempdir_failed, [], m)
      else (case build_pull_image L img of
        (Inl e, acts) \<Rightarrow> (Inl e, acts, m)
      | (Inr _, acts) \<Rightarrow>
          let name = ''kraph-build-'' @ to_lower (bl_nanoid L) in
          (case bl_create L of
             Inl e \<Rightarrow> (Inl (Build_create_failed e), acts, m)
           | Inr cid \<Rightarrow>
               let acts = acts @ [B_create name img (build_env req) (container_binds L workdir) (4 * 1024 ^ 3)] in
               (case bl_start L of
                  Some e \<Rightarrow> (Inl (Build_start_failed e), acts @ [B_remove cid], m)
                | None \<Rightarrow>
                    let acts = acts @ [B_start cid]; (text, m) = log_task build_id [] (bl_logs L) m in
                    (case bl_wait L of
                       None \<Rightarrow> (Inl Build_timed_out, acts @ [B_kill cid, B_remove cid], m)
                     | Some es \<Rightarrow>
                         (case build_wait None es of
                            Inl e \<Rightarrow> (Inl e, acts @ [B_remove cid], m)
                          | Inr exit_code \<Rightarrow>
                              let acts = acts @ [B_remove cid]; build_log = or_default text [] in
                              if exit_code \<noteq> 0 then
                                (case tail_log build_log 4096 of
                                   None \<Rightarrow> (Inl Build_log_panic, acts, m)
                                 | Some t \<Rightarrow> (Inl (Build_failed exit_code t), acts, m))
                              else (Inr \<lparr>ba_log = build_log, ba_exit_code = exit_code, ba_ms = bl_ms L\<rparr>, acts, m))))))))"

section \<open>The output\<close>

text \<open>
  What a walk over a directory meets, links below it not followed: a path below it (empty for itself)
  with what stands there and whether reading its size and its contents works. \<open>Out_special\<close> says
  whether it is a socket.
\<close>

datatype out_kind = Out_file string | Out_link string | Out_dir | Out_special bool

datatype walk_item = Walk_error | Walk_entry string out_kind bool bool

text \<open>
  What stands at \<open>/work/output\<close> after the build, which may have put something else in its place: a
  tree, or a symbolic link with its target. \<open>WalkDir\<close> follows a link at the root of the walk whatever
  \<open>follow_links\<close> says, so it then walks what the host has at the target (\<open>host_walk\<close>; nothing when that
  is not a directory).
\<close>

datatype build_output = Output_tree "walk_item list" | Output_link string

definition walk_output :: "(string \<Rightarrow> walk_item list) \<Rightarrow> build_output \<Rightarrow> walk_item list" where
  "walk_output host_walk out = (case out of Output_tree items \<Rightarrow> items | Output_link target \<Rightarrow> host_walk target)"

fun collect_files :: "(string \<times> string) list \<Rightarrow> nat \<Rightarrow> walk_item list \<Rightarrow> build_error + (string \<times> string) list \<times> nat" where
  "collect_files entries total_size [] = Inr (entries, total_size)"
| "collect_files entries total_size (Walk_error # items) = Inl Walk_failed"
| "collect_files entries total_size (Walk_entry p kind stat_ok read_ok # items) =
     (case kind of
        Out_file content \<Rightarrow>
          if MAX_PIN_OUTPUT_FILES \<le> length entries then Inl Too_many_files
          else if \<not> stat_ok then Inl Stat_failed
          else if MAX_PIN_OUTPUT_BYTES < total_size + length content then Inl (Too_many_bytes (total_size + length content))
          else if \<not> read_ok then Inl Read_failed
          else collect_files (entries @ [(p, content)]) (total_size + length content) items
      | _ \<Rightarrow> collect_files entries total_size items)"

definition path_to_forward_slash :: "string \<Rightarrow> string" where
  "path_to_forward_slash p = map (\<lambda>c. if c = CHR 0x5C then CHR ''/'' else c) (utf8_lossy p)"

definition mime_types :: "(string \<times> string) list" where
  "mime_types =
     [(''html'', ''text/html''), (''htm'', ''text/html''), (''css'', ''text/css''),
      (''js'', ''application/javascript''), (''mjs'', ''application/javascript''), (''json'', ''application/json''),
      (''svg'', ''image/svg+xml''), (''txt'', ''text/plain''), (''md'', ''text/markdown''), (''xml'', ''application/xml''),
      (''webmanifest'', ''application/manifest+json''), (''png'', ''image/png''), (''jpg'', ''image/jpeg''),
      (''jpeg'', ''image/jpeg''), (''gif'', ''image/gif''), (''webp'', ''image/webp''), (''ico'', ''image/x-icon''),
      (''woff'', ''font/woff''), (''woff2'', ''font/woff2''), (''ttf'', ''font/ttf''), (''otf'', ''font/otf''),
      (''wasm'', ''application/wasm'')]"

definition mime_for_path :: "string \<Rightarrow> string" where
  "mime_for_path p = or_default (map_of mime_types (to_lower (last (split_on (CHR ''.'') p)))) ''application/octet-stream''"

definition suspicious_path :: "string \<Rightarrow> bool" where
  "suspicious_path p \<longleftrightarrow> contains ''..'' p \<or> starts_with ''/'' p"

record pin_result =
  pn_cid :: string
  pn_size_bytes :: nat
  pn_file_count :: nat

definition pin_directory_to_kubo ::
  "(string \<Rightarrow> (string \<times> string) option) \<Rightarrow> string \<Rightarrow> kubo_answer \<Rightarrow> (string \<Rightarrow> walk_item list) \<Rightarrow> build_output \<Rightarrow>
   (build_error + pin_result) \<times> kubo_call option" where
  "pin_directory_to_kubo js api_url kubo host_walk out =
     (case collect_files [] 0 (walk_output host_walk out) of Inl e \<Rightarrow> (Inl e, None) | Inr (entries, total_size) \<Rightarrow>
      if entries = [] then (Inl Output_empty, None)
      else
        let named = map (\<lambda>(p, content). (path_to_forward_slash p, content)) entries;
            parts = map (\<lambda>(p, content). (p, mime_for_path p, content)) (filter (\<lambda>(p, _). \<not> suspicious_path p) named);
            sent = Some (Kubo_add (trim_end_slashes api_url @
                     ''/api/v0/add?cid-version=1&pin=true&wrap-with-directory=true&progress=false'') parts)
        in (case kubo of
              Kubo_unreachable \<Rightarrow> (Inl Kubo_add_unreachable, sent)
            | Kubo_answered status body \<Rightarrow>
                if \<not> (200 \<le> status \<and> status < 300) then (Inl (Kubo_add_failed status (or_default body [])), sent)
                else (case body of None \<Rightarrow> (Inl Kubo_body_failed, sent) | Some text \<Rightarrow>
                  let parsed = List.map_filter js (filter (\<lambda>l. trim l \<noteq> []) (text_lines text)) in
                  if parsed = [] then (Inl Kubo_no_entries, sent)
                  else (Inr \<lparr>pn_cid = root_entry parsed, pn_size_bytes = total_size, pn_file_count = length entries\<rparr>, sent))))"

text \<open>
  The archive for the side-car has an entry for every directory, file and special file but sockets,
  which cannot be archived. \<open>tar\<close> follows symbolic links, so a link contributes the entries of what
  the host has at its target (\<open>host\<close>, by the path of the link and its target, with paths below the
  link; \<open>None\<close> when that cannot be read or holds a socket). A link in the place of the output is
  read as a directory, and so is followed too.
\<close>

datatype tar_entry = Tar_dir | Tar_file string | Tar_special

fun tar_entries ::
  "(string \<Rightarrow> string \<Rightarrow> (string \<times> tar_entry) list option) \<Rightarrow> walk_item list \<Rightarrow>
   build_error + (string \<times> tar_entry) list" where
  "tar_entries host [] = Inr []"
| "tar_entries host (Walk_error # items) = Inl Pack_failed"
| "tar_entries host (Walk_entry p kind stat_ok read_ok # items) =
     (if \<not> stat_ok \<or> \<not> read_ok then Inl Pack_failed
      else rbind (case kind of
          Out_file content \<Rightarrow> Inr [(p, Tar_file content)]
        | Out_dir \<Rightarrow> Inr [(p, Tar_dir)]
        | Out_special socket \<Rightarrow> if socket then Inl Pack_failed else Inr [(p, Tar_special)]
        | Out_link target \<Rightarrow>
            ok_or Pack_failed (map_option (map (\<lambda>(q, e). (p @ q, e))) (host p target)))
        (\<lambda>now. rbind (tar_entries host items) (\<lambda>es. Inr (now @ es))))"

definition tarball_from_dir ::
  "(string \<Rightarrow> string \<Rightarrow> (string \<times> tar_entry) list option) \<Rightarrow> build_output \<Rightarrow>
   build_error + (string \<times> tar_entry) list" where
  "tarball_from_dir host out =
     rbind (case out of
         Output_tree items \<Rightarrow> tar_entries host items
       | Output_link target \<Rightarrow> ok_or Pack_failed (host [] target))
       (\<lambda>es. Inr (map (\<lambda>(p, e). (''./'' @ p, e)) es))"

end
