(* ===== verification/Build_Api.thy ===== *)
theory Build_Api
  imports Frontend_Build
begin

text \<open>
  The build endpoints (\<open>main.rs\<close>): accepting a build, the task that runs it and writes its outcome
  into the store, polling it, and the machine of accepted and finished builds. The texts of error
  messages, the compression of an archive and all that Docker, Kubo and the file system answer are
  arguments.
\<close>

section \<open>The task\<close>

record build_config =
  bc_api :: api_config
  bc_kubo_url :: string
  bc_wide :: "string \<Rightarrow> bool"
  js_build :: "string \<Rightarrow> build_request option"
  js_kubo_line :: "string \<Rightarrow> (string \<times> string) option"
  say_build :: "build_error \<Rightarrow> string"
  say_deploy :: "deploy_error \<Rightarrow> string"

record task_luck =
  tk_docker :: "string option"
  tk_build :: build_luck
  tk_output :: build_output
  tk_kubo :: kubo_answer
  tk_host_walk :: "string \<Rightarrow> walk_item list"
  tk_host :: "string \<Rightarrow> string \<Rightarrow> (string \<times> tar_entry) list option"
  tk_gzip :: "(string \<times> tar_entry) list \<Rightarrow> string"
  tk_deploy :: deploy_luck
  tk_others :: "db \<Rightarrow> db"
  tk_now :: int

text \<open>
  A task ends with its outcome written, or it panics: while the outcome is written, after the build
  was marked as failed (\<open>Half_written\<close>), or before anything of it was (\<open>Panicked\<close>).
\<close>

datatype task_end = Ended | Half_written | Panicked

text \<open>What a task touches: the database, the directories of the instances, the builds.\<close>

type_synonym task_world = "db \<times> (string \<Rightarrow> site_dir) \<times> build_map"

definition fail_build :: "int \<Rightarrow> string \<Rightarrow> string \<Rightarrow> string \<Rightarrow> int option \<Rightarrow> build_map \<Rightarrow> task_end \<times> build_map" where
  "fail_build now build_id e log_tail code m =
     (case complete_failure now build_id e log_tail code m of (panicked, m1) \<Rightarrow>
        (if panicked then Half_written else Ended, m1))"

definition pinned_url :: "string \<Rightarrow> string" where
  "pinned_url cid = ''https://ipfs.kraph.com/'' @ cid @ ''/''"

definition build_and_pin ::
  "build_config \<Rightarrow> task_luck \<Rightarrow> build_request \<Rightarrow> string \<Rightarrow> build_map \<Rightarrow>
   (build_error + build_artifacts \<times> pin_result) \<times> build_map" where
  "build_and_pin B L req build_id m =
     (case build_to_artifacts (bc_wide B) (tk_build L) req build_id m of
        (Inl e, _, m) \<Rightarrow> (Inl e, m)
      | (Inr a, _, m) \<Rightarrow>
          (case fst (pin_directory_to_kubo (js_kubo_line B) (bc_kubo_url B) (tk_kubo L) (tk_host_walk L) (tk_output L)) of
             Inl e \<Rightarrow> (Inl e, m)
           | Inr p \<Rightarrow> (Inr (a, p), m)))"

definition pinned_patch :: "build_artifacts \<Rightarrow> pin_result \<Rightarrow> build_state \<Rightarrow> build_state" where
  "pinned_patch a p b =
     b\<lparr>bs_cid := Some (pn_cid p), bs_url := Some (pinned_url (pn_cid p)), bs_size_bytes := Some (pn_size_bytes p),
       bs_file_count := Some (pn_file_count p), bs_duration_ms := Some (ba_ms a),
       bs_exit_code := Some (sint (ba_exit_code a)), bs_log_tail := ba_log a\<rparr>"

definition deployed_patch :: "build_artifacts \<Rightarrow> nat \<Rightarrow> deploy_result \<Rightarrow> string \<Rightarrow> build_state \<Rightarrow> build_state" where
  "deployed_patch a n r target b =
     b\<lparr>bs_host_port := Some (unat (dr_host_port r)), bs_container_id := Some (dr_container_id r),
       bs_url := Some (dr_url r), bs_size_bytes := Some n, bs_duration_ms := Some (ba_ms a),
       bs_exit_code := Some (sint (ba_exit_code a)), bs_log_tail := ba_log a, bs_target := Some target\<rparr>"

text \<open>A build that ends in a panic writes nothing more.\<close>

definition run_build_task ::
  "build_config \<Rightarrow> task_luck \<Rightarrow> string \<Rightarrow> string \<Rightarrow> string \<Rightarrow> build_target \<Rightarrow> build_request \<Rightarrow> task_world \<Rightarrow>
   task_end \<times> task_world" where
  "run_build_task B L inst build_id reported target req = (\<lambda>(d, dirs, m).
     let now = tk_now L; ended = (\<lambda>(t, m). (t, d, dirs, m)) in
     case tk_docker L of
       Some e \<Rightarrow> ended (fail_build now build_id (''connect docker: '' @ e) [] None m)
     | None \<Rightarrow>
       (case target of
          Ipfs_pin \<Rightarrow>
            (case build_and_pin B L req build_id m of
               (Inl e, m) \<Rightarrow> if e = Build_log_panic then (Panicked, d, dirs, m)
                  else ended (fail_build now build_id (say_build B e) [] None m)
             | (Inr (a, p), m) \<Rightarrow> (Ended, d, dirs, complete_success now build_id (pinned_patch a p) m))
        | Node_service entry \<Rightarrow>
            (case build_to_artifacts (bc_wide B) (tk_build L) req build_id m of
               (Inl e, _, m) \<Rightarrow> if e = Build_log_panic then (Panicked, d, dirs, m)
                  else ended (fail_build now build_id (say_build B e) [] None m)
             | (Inr a, _, m) \<Rightarrow>
                 (case tarball_from_dir (tk_host L) (tk_output L) of
                    Inl e \<Rightarrow> ended (fail_build now build_id (''pack_failed: '' @ say_build B e) (ba_log a)
                               (Some (sint (ba_exit_code a))) m)
                  | Inr entries \<Rightarrow>
                      let tarball = tk_gzip L entries in
                      (case deploy (ac_crypto (bc_api B)) (nc_data_dir (ac_node (bc_api B)))
                          (nc_public_host (ac_node (bc_api B))) now (tk_deploy L) (tk_others L) inst (bq_wallet req)
                          tarball entry (d, dirs) of
                         (Inr r, _, d1, dirs1) \<Rightarrow>
                           (Ended, d1, dirs1,
                            complete_success now build_id (deployed_patch a (length tarball) r reported) m)
                       | (Inl e, _, d1, dirs1) \<Rightarrow>
                           (case fail_build now build_id (''node_service_deploy_failed: '' @ say_deploy B e) (ba_log a)
                               (Some (sint (ba_exit_code a))) m of (t, m) \<Rightarrow> (t, d1, dirs1, m)))))))"

section \<open>The endpoints\<close>

record running_build =
  rb_guard :: admission_guard
  rb_inst :: string
  rb_id :: string
  rb_reported :: string
  rb_target :: build_target
  rb_request :: build_request

record build_node =
  bn_server :: server
  bn_admission :: admission
  bn_dirs :: "string \<Rightarrow> site_dir"
  bn_builds :: build_map
  bn_running :: "running_build list"

datatype build_payload =
    P_internal
  | P_unauthorized sig_error
  | P_not_found
  | P_busy admission_error
  | P_invalid_target build_error
  | P_accepted string string
  | P_unknown_build
  | P_build build_state

definition reported_target :: "build_request \<Rightarrow> build_target \<Rightarrow> string" where
  "reported_target req target = (case target of
     Ipfs_pin \<Rightarrow> ''ipfs_pin''
   | Node_service _ \<Rightarrow> if bq_target req = Some ''nextjs_service'' then ''nextjs_service'' else ''node_service'')"

text \<open>The guard goes to the task of an accepted build; every refusal gives it back.\<close>

definition build_and_pin_handler ::
  "build_config \<Rightarrow> call \<Rightarrow> string \<Rightarrow> string \<Rightarrow> build_node \<Rightarrow> (nat \<times> build_payload) \<times> build_node" where
  "build_and_pin_handler B c nano inst s =
     (case js_build B (ca_body c) of None \<Rightarrow> ((500, P_internal), s) | Some req \<Rightarrow>
     (case verify_request_sig (ac_crypto (bc_api B)) (sigauth_missing_allowed (ac_allow_missing (bc_api B))) (ca_wall c)
         (ca_instant c) (call_request c ''POST'' (''/instances/'' @ inst @ ''/build-and-pin'') (ca_body c) (bq_wallet req))
         (sv_nonces (bn_server s)) of
        (Inl e, n) \<Rightarrow> ((401, P_unauthorized e), s\<lparr>bn_server := (bn_server s)\<lparr>sv_nonces := n\<rparr>\<rparr>)
      | (Inr _, n) \<Rightarrow>
          let s = s\<lparr>bn_server := (bn_server s)\<lparr>sv_nonces := n\<rparr>\<rparr> in
          if manager_get_instance inst (bq_wallet req) (sv_node (bn_server s)) = None then ((404, P_not_found), s)
          else (case try_acquire Build (bq_wallet req) inst (bn_admission s) of
             Inl e \<Rightarrow> ((429, P_busy e), s)
           | Inr (g, busy) \<Rightarrow>
               (case from_request req of
                  Inl e \<Rightarrow> ((400, P_invalid_target e), s\<lparr>bn_admission := drop_guard g busy\<rparr>)
                | Inr target \<Rightarrow>
                    let build_id = to_lower nano; reported = reported_target req target in
                    ((202, P_accepted build_id reported),
                     s\<lparr>bn_admission := busy,
                       bn_builds := start (ca_time c) build_id inst (bq_wallet req) (Some reported) (bn_builds s),
                       bn_running := \<lparr>rb_guard = g, rb_inst = inst, rb_id = build_id, rb_reported = reported,
                         rb_target = target, rb_request = req\<rparr> # bn_running s\<rparr>)))))"

text \<open>Polling compares the wallet parameter with the wallet of the build; nothing is signed.\<close>

definition get_build_status_handler :: "string \<Rightarrow> string \<Rightarrow> string option \<Rightarrow> build_map \<Rightarrow> nat \<times> build_payload" where
  "get_build_status_handler inst build_id wallet m =
     (case get_build build_id m of None \<Rightarrow> (404, P_unknown_build) | Some b \<Rightarrow>
      if bs_instance_id b \<noteq> inst then (404, P_unknown_build)
      else if or_default wallet [] \<noteq> bs_wallet_pubkey b then (404, P_unknown_build)
      else (200, P_build b))"

section \<open>The machine\<close>

text \<open>
  Requests are accepted, tasks end, and other requests (side-car deployments, migrations) take and
  give back slots of the admission table. A random identifier of a new build is not in use. \<open>bm_lost\<close>
  are the builds whose task panicked before it wrote an outcome. A log task that a time-out or an error
  of the wait has left behind goes on appending to its build, whose entry may be final by then.
\<close>

record build_machine =
  bm_node :: build_node
  bm_elsewhere :: "admission_guard list"
  bm_lost :: "string set"

definition finish_build :: "running_build list \<Rightarrow> running_build \<Rightarrow> task_end \<times> task_world \<Rightarrow> build_machine \<Rightarrow> build_machine" where
  "finish_build rest t = (\<lambda>(e, d, dirs, builds) m.
     m\<lparr>bm_node := (bm_node m)\<lparr>bn_server := set_db d (bn_server (bm_node m)), bn_dirs := dirs, bn_builds := builds,
         bn_admission := drop_guard (rb_guard t) (bn_admission (bm_node m)), bn_running := rest\<rparr>,
       bm_lost := (if e = Panicked then insert (rb_id t) (bm_lost m) else bm_lost m)\<rparr>)"

inductive build_step :: "build_config \<Rightarrow> build_machine \<Rightarrow> build_machine \<Rightarrow> bool" for B where
  request: "to_lower nano \<notin> fst ` set (bn_builds (bm_node m)) \<union> bm_lost m \<Longrightarrow>
     build_step B m (m\<lparr>bm_node := snd (build_and_pin_handler B c nano inst (bm_node m))\<rparr>)"
| task_ends: "bn_running (bm_node m) = xs @ t # ys \<Longrightarrow>
     build_step B m (finish_build (xs @ ys) t
       (run_build_task B L (rb_inst t) (rb_id t) (rb_reported t) (rb_target t) (rb_request t)
          (sdb_of (bn_server (bm_node m)), bn_dirs (bm_node m), bn_builds (bm_node m))) m)"
| late_log: "append_log k (utf8_lossy message) (bn_builds (bm_node m)) = Some grown \<Longrightarrow>
     build_step B m (m\<lparr>bm_node := (bm_node m)\<lparr>bn_builds := grown\<rparr>\<rparr>)"
| slot_taken: "try_acquire kind wallet inst (bn_admission (bm_node m)) = Inr (g, taken) \<Longrightarrow>
     build_step B m (m\<lparr>bm_node := (bm_node m)\<lparr>bn_admission := taken\<rparr>, bm_elsewhere := g # bm_elsewhere m\<rparr>)"
| slot_freed: "bm_elsewhere m = xs @ g # ys \<Longrightarrow>
     build_step B m (m\<lparr>bm_node := (bm_node m)\<lparr>bn_admission := drop_guard g (bn_admission (bm_node m))\<rparr>,
       bm_elsewhere := xs @ ys\<rparr>)"

definition build_init :: "build_machine \<Rightarrow> bool" where
  "build_init m \<longleftrightarrow> bn_admission (bm_node m) = \<lparr>by_wallet = {}, by_instance = {}\<rparr> \<and> bn_builds (bm_node m) = [] \<and>
     bn_running (bm_node m) = [] \<and> bm_elsewhere m = [] \<and> bm_lost m = {}"

end
