(* ===== verification/Build_Guarantees.thy ===== *)
theory Build_Guarantees
  imports Build_Api Job_Admission Env_Secrecy
begin

text \<open>
  What holds of builds: how a task changes the store, what is running when the status says so, and
  what a pinned output or an archive contains.
\<close>

section \<open>What a task does to the store\<close>

text \<open>
  From \<open>m\<close> to \<open>m'\<close> only the entry of one build changed; it keeps its owner, and is final when the
  task wrote its outcome, as open as before when it panicked before that.
\<close>

definition entry_after :: "task_end \<Rightarrow> build_state \<Rightarrow> build_state \<Rightarrow> bool" where
  "entry_after t b b' \<longleftrightarrow> bs_instance_id b' = bs_instance_id b \<and> bs_wallet_pubkey b' = bs_wallet_pubkey b \<and>
     (if t = Panicked then bs_status b' = bs_status b \<and> bs_finished_at b' = bs_finished_at b
      else bs_status b' \<noteq> Running)"

definition changes_entry :: "string \<Rightarrow> task_end \<Rightarrow> build_map \<Rightarrow> build_map \<Rightarrow> bool" where
  "changes_entry k t m m' \<longleftrightarrow> map fst m' = map fst m \<and> (\<forall>j. j \<noteq> k \<longrightarrow> get_build j m' = get_build j m) \<and>
     (\<forall>b. get_build k m = Some b \<longrightarrow> (\<exists>b'. get_build k m' = Some b' \<and> entry_after t b b'))"

lemma changes_entry_refl: "changes_entry k Panicked m m"
  by (simp add: changes_entry_def entry_after_def)

lemma changes_entry_trans:
  "changes_entry k Panicked m m1 \<Longrightarrow> changes_entry k t m1 m2 \<Longrightarrow> changes_entry k t m m2"
  by (fastforce simp: changes_entry_def entry_after_def split: if_splits)

lemma changes_entry_update:
  assumes "get_build k m = Some b" "entry_after t b b'"
  shows "changes_entry k t m (AList.update k b' m)"
proof -
  have "k \<in> set (map fst m)" using assms(1) by (auto simp: get_build_def dest: map_of_SomeD intro: rev_image_eqI)
  then show ?thesis using assms by (simp add: changes_entry_def get_build_def update_keys update_conv')
qed

lemma append_log_entry:
  assumes "append_log k chunk m = Some m'"
  shows "changes_entry k Panicked m m'"
proof (cases "map_of m k")
  case None
  then show ?thesis using assms changes_entry_refl by (simp add: append_log_def)
next
  case (Some b)
  then obtain t where "m' = AList.update k (b\<lparr>bs_log_tail := t\<rparr>) m" using assms by (auto simp: append_log_def)
  then show ?thesis using changes_entry_update [of k m b] Some by (simp add: get_build_def entry_after_def)
qed

lemma log_task_entry: "changes_entry k Panicked m (snd (log_task k buf items m))"
proof (induction k buf items m rule: log_task.induct)
  case (3 k buf message items m)
  show ?case
  proof (cases "append_log k (utf8_lossy message) m")
    case (Some m1)
    show ?thesis unfolding log_task.simps Some option.case
      by (rule changes_entry_trans [OF append_log_entry [OF Some] 3 [OF Some]])
  qed (simp add: changes_entry_refl)
qed (simp_all add: changes_entry_refl)

lemma artifacts_entry: "changes_entry k Panicked m (snd (snd (build_to_artifacts wide L req k m)))"
  using log_task_entry [of k m "[]" "bl_logs L"]
  by (auto simp: build_to_artifacts_def Let_def changes_entry_refl
      split: sum.splits option.splits prod.splits)

lemma build_and_pin_entry: "changes_entry k Panicked m (snd (build_and_pin B L req k m))"
  using artifacts_entry [of k m "bc_wide B" "tk_build L" req]
  by (auto simp: build_and_pin_def split: sum.splits prod.splits)

lemma fail_build_entry:
  assumes "get_build k m = Some b" "fail_build now k e tail code m = (t, m')"
  shows "changes_entry k t m m'"
  using assms changes_entry_update [OF assms(1), of Ended] changes_entry_update [OF assms(1), of Half_written]
  by (auto simp: fail_build_def complete_failure_def get_build_def entry_after_def Let_def split: option.splits)

lemma complete_success_entry:
  assumes "get_build k m = Some b" "\<And>b. entry_after Panicked b (patch b)"
  shows "changes_entry k Ended m (complete_success now k patch m)"
proof -
  have "entry_after Ended b (patch (b\<lparr>bs_status := Succeeded, bs_finished_at := Some now\<rparr>))"
    using assms(2) [of "b\<lparr>bs_status := Succeeded, bs_finished_at := Some now\<rparr>"] by (simp add: entry_after_def)
  from changes_entry_update [OF assms(1) this] show ?thesis
    using assms(1) by (simp add: complete_success_def get_build_def)
qed

lemma patches_keep: "entry_after Panicked b (pinned_patch a p b)" "entry_after Panicked b (deployed_patch a n r t b)"
  by (simp_all add: pinned_patch_def deployed_patch_def entry_after_def)

lemma still_there: "changes_entry k Panicked m m1 \<Longrightarrow> get_build k m = Some b \<Longrightarrow> \<exists>b1. get_build k m1 = Some b1"
  by (auto simp: changes_entry_def)

lemma task_entry:
  assumes b: "get_build k m = Some b"
    and run: "run_build_task B L inst k reported target req (d, dirs, m) = (t, d', dirs', m')"
  shows "changes_entry k t m m'"
proof (cases "tk_docker L")
  case (Some e)
  then show ?thesis using run fail_build_entry [OF b]
    by (auto simp: run_build_task_def Let_def split: prod.splits)
next
  case None
  show ?thesis
  proof (cases target)
    case Ipfs_pin
    obtain r m1 where r: "build_and_pin B L req k m = (r, m1)" by fastforce
    have m1: "changes_entry k Panicked m m1" using build_and_pin_entry [of k m B L req] by (simp add: r)
    obtain b1 where b1: "get_build k m1 = Some b1" using still_there [OF m1 b] by blast
    have "changes_entry k t m1 m'"
      using run None Ipfs_pin r fail_build_entry [OF b1] complete_success_entry [OF b1 patches_keep(1)]
      by (auto simp: run_build_task_def Let_def changes_entry_refl split: sum.splits prod.splits if_splits)
    then show ?thesis by (rule changes_entry_trans [OF m1])
  next
    case (Node_service entry)
    obtain r acts m1 where r: "build_to_artifacts (bc_wide B) (tk_build L) req k m = (r, acts, m1)"
      by (metis prod.exhaust)
    have m1: "changes_entry k Panicked m m1"
      using artifacts_entry [of k m "bc_wide B" "tk_build L" req] by (simp add: r)
    obtain b1 where b1: "get_build k m1 = Some b1" using still_there [OF m1 b] by blast
    have "changes_entry k t m1 m'"
      using run None Node_service r fail_build_entry [OF b1] complete_success_entry [OF b1 patches_keep(2)]
      by (auto simp: run_build_task_def Let_def changes_entry_refl split: sum.splits prod.splits if_splits)
    then show ?thesis by (rule changes_entry_trans [OF m1])
  qed
qed

section \<open>The invariant of the machine\<close>

lemma gate_inv_mset:
  assumes "gate_inv \<lparr>table = s, guards = gs\<rparr>" "mset hs = mset gs"
  shows "gate_inv \<lparr>table = s, guards = hs\<rparr>"
proof -
  have "mset (builds hs) = mset (builds gs)" using assms(2) by (simp add: builds_def mset_filter)
  then have "set (map g_wallet_key (builds hs)) = set (map g_wallet_key (builds gs))"
    "distinct (map g_wallet_key (builds hs)) = distinct (map g_wallet_key (builds gs))"
    by (metis mset_map set_mset_mset, metis mset_map mset_eq_imp_distinct_iff)
  moreover have "set hs = set gs" using assms(2) by (metis set_mset_mset)
  moreover have "distinct (map g_instance_key hs) = distinct (map g_instance_key gs)"
    using assms(2) by (metis mset_map mset_eq_imp_distinct_iff)
  ultimately show ?thesis using assms(1) by (auto simp: gate_inv_def list_all_iff)
qed

definition slots :: "build_machine \<Rightarrow> gate" where
  "slots m = \<lparr>table = bn_admission (bm_node m), guards = map rb_guard (bn_running (bm_node m)) @ bm_elsewhere m\<rparr>"

definition open_entry :: "build_map \<Rightarrow> string \<Rightarrow> build_state \<Rightarrow> bool" where
  "open_entry bs k b \<longleftrightarrow> get_build k bs = Some b \<and> bs_status b = Running \<and> bs_finished_at b = None"

definition running_ok :: "build_map \<Rightarrow> string set \<Rightarrow> running_build \<Rightarrow> bool" where
  "running_ok bs lost t \<longleftrightarrow>
     rb_guard t = \<lparr>g_kind = Build, g_wallet_key = job_key Build (bq_wallet (rb_request t)),
       g_instance_key = job_key Build (rb_inst t)\<rparr> \<and> rb_id t \<notin> lost \<and>
     (\<exists>b. open_entry bs (rb_id t) b \<and> bs_instance_id b = rb_inst t \<and> bs_wallet_pubkey b = bq_wallet (rb_request t))"

definition entries_ok :: "build_map \<Rightarrow> running_build list \<Rightarrow> string set \<Rightarrow> bool" where
  "entries_ok bs ts lost \<longleftrightarrow> distinct (map fst bs) \<and> distinct (map rb_id ts) \<and>
     (\<forall>t \<in> set ts. running_ok bs lost t) \<and> (\<forall>k \<in> lost. \<exists>b. open_entry bs k b) \<and>
     (\<forall>k b. get_build k bs = Some b \<and> bs_status b = Running \<longrightarrow> k \<in> rb_id ` set ts \<union> lost)"

definition machine_ok :: "build_machine \<Rightarrow> bool" where
  "machine_ok m \<longleftrightarrow> gate_inv (slots m) \<and> entries_ok (bn_builds (bm_node m)) (bn_running (bm_node m)) (bm_lost m)"

text \<open>A new build.\<close>

lemma start_keys: "distinct (map fst m) \<Longrightarrow> distinct (map fst (start now k i w t m))"
  unfolding start_def by (rule distinct_map_filter) (rule distinct_update)

lemma start_entry:
  "distinct (map fst m) \<Longrightarrow>
     \<exists>b. open_entry (start now k i w t m) k b \<and> bs_instance_id b = i \<and> bs_wallet_pubkey b = w"
proof -
  assume d: "distinct (map fst m)"
  define b where "b = \<lparr>bs_build_id = k, bs_instance_id = i, bs_wallet_pubkey = w,
    bs_status = Running, bs_started_at = now, bs_finished_at = None, bs_target = t,
    bs_exit_code = None, bs_log_tail = [], bs_duration_ms = None, bs_cid = None,
    bs_size_bytes = None, bs_file_count = None, bs_host_port = None,
    bs_container_id = None, bs_url = None, bs_error = None\<rparr>"
  have "map_of (AList.update k b m) k = Some b" by (simp add: update_conv')
  then have "(k, b) \<in> set (start now k i w t m)"
    using map_of_SomeD [of "AList.update k b m" k b] by (simp add: start_def b_def build_fresh_def)
  then have "get_build k (start now k i w t m) = Some b"
    unfolding get_build_def using start_keys [OF d] by (intro map_of_is_SomeI)
  then show ?thesis by (auto simp: open_entry_def b_def)
qed

text \<open>The entries of other builds that are open stay, and no other open one appears.\<close>

lemma start_others:
  assumes "distinct (map fst m)" "j \<noteq> k"
  shows "open_entry m j b \<Longrightarrow> open_entry (start now k i w t m) j b"
    "get_build j (start now k i w t m) = Some b \<Longrightarrow> get_build j m = Some b"
  using cleanup_keeps_recent_builds [OF assms(1), of k now i w t] assms(2) by (auto simp: open_entry_def)

lemma entries_start:
  assumes ok: "entries_ok bs ts lost" and new: "k \<notin> fst ` set bs \<union> lost"
    and t: "rb_id t = k" "rb_inst t = i" "bq_wallet (rb_request t) = w"
      "rb_guard t = \<lparr>g_kind = Build, g_wallet_key = job_key Build w, g_instance_key = job_key Build i\<rparr>"
  shows "entries_ok (start now k i w target bs) (t # ts) lost"
proof -
  have d: "distinct (map fst bs)" using ok by (simp add: entries_ok_def)
  have absent: "get_build k bs = None" using new by (auto simp: get_build_def map_of_eq_None_iff)
  then have ids: "rb_id u \<noteq> k" if "u \<in> set ts" for u
    using ok that by (auto simp: entries_ok_def running_ok_def open_entry_def)
  have others: "running_ok (start now k i w target bs) lost u" if "u \<in> set ts" for u
    using ok that start_others(1) [OF d ids [OF that]] by (fastforce simp: entries_ok_def running_ok_def)
  have lost: "\<exists>b. open_entry (start now k i w target bs) j b" if "j \<in> lost" for j
    using ok that start_others(1) [OF d, of j] new by (fastforce simp: entries_ok_def)
  have run: "j \<in> rb_id ` set (t # ts) \<union> lost"
    if "get_build j (start now k i w target bs) = Some b \<and> bs_status b = Running" for j b
  proof (cases "j = k")
    case False
    then have "get_build j bs = Some b" using that start_others(2) [OF d] by blast
    then show ?thesis using ok that unfolding entries_ok_def by auto
  qed (simp add: t(1))
  have mine: "running_ok (start now k i w target bs) lost t"
    using start_entry [OF d, of now k i w target] t new by (simp add: running_ok_def)
  show ?thesis
    unfolding entries_ok_def
  proof (intro conjI)
    show "distinct (map rb_id (t # ts))" using ok ids t(1) by (force simp: entries_ok_def)
    show "\<forall>u \<in> set (t # ts). running_ok (start now k i w target bs) lost u" using others mine by simp
    show "\<forall>j \<in> lost. \<exists>b. open_entry (start now k i w target bs) j b" using lost by blast
    show "\<forall>j b. get_build j (start now k i w target bs) = Some b \<and> bs_status b = Running \<longrightarrow>
        j \<in> rb_id ` set (t # ts) \<union> lost" using run by blast
  qed (rule start_keys [OF d])
qed

text \<open>The end of a task.\<close>

lemma entries_end:
  assumes ok: "entries_ok bs (xs @ t # ys) lost" and ch: "changes_entry (rb_id t) e bs bs'"
  shows "entries_ok bs' (xs @ ys) (if e = Panicked then insert (rb_id t) lost else lost)"
proof -
  let ?k = "rb_id t" and ?lost = "if e = Panicked then insert (rb_id t) lost else lost"
  have ids: "?k \<notin> rb_id ` set (xs @ ys)" "distinct (map rb_id (xs @ ys))"
    using ok by (auto simp: entries_ok_def)
  have mine: "running_ok bs lost t" using ok by (simp add: entries_ok_def)
  then obtain b where b: "open_entry bs ?k b" and kl: "?k \<notin> lost" by (auto simp: running_ok_def)
  obtain b' where b': "get_build ?k bs' = Some b'" "entry_after e b b'"
    using ch b by (auto simp: changes_entry_def open_entry_def)
  have same: "get_build j bs' = get_build j bs" if "j \<noteq> ?k" for j using ch that by (simp add: changes_entry_def)
  have others: "running_ok bs' ?lost u" if "u \<in> set (xs @ ys)" for u
  proof -
    have "running_ok bs lost u" using ok that by (auto simp: entries_ok_def)
    moreover have "rb_id u \<noteq> ?k" using that ids(1) by (metis imageI)
    ultimately have u: "running_ok bs lost u" "rb_id u \<noteq> ?k" .
    then show ?thesis using same [OF u(2)] by (simp add: running_ok_def open_entry_def)
  qed
  have lost: "\<exists>c. open_entry bs' j c" if "j \<in> ?lost" for j
  proof (cases "j = ?k")
    case True
    then have "e = Panicked" using that kl by (auto split: if_splits)
    then show ?thesis using True b b' by (auto simp: open_entry_def entry_after_def)
  next
    case False
    then show ?thesis using ok that same [OF False] by (auto simp: entries_ok_def open_entry_def split: if_splits)
  qed
  have run: "j \<in> rb_id ` set (xs @ ys) \<union> ?lost" if "get_build j bs' = Some c \<and> bs_status c = Running" for j c
  proof (cases "j = ?k")
    case True
    then have "bs_status b' = Running" using that b'(1) by simp
    then have "e = Panicked" using b'(2) by (cases e) (simp_all add: entry_after_def)
    then show ?thesis using True by simp
  next
    case False
    then show ?thesis using ok that same [OF False] by (auto simp: entries_ok_def)
  qed
  have "distinct (map fst bs')" using ok ch by (simp add: entries_ok_def changes_entry_def)
  then show ?thesis using ids(2) others lost run unfolding entries_ok_def by blast
qed

text \<open>What a log task appends late changes no entry in what the invariant looks at.\<close>

lemma entries_late:
  assumes ok: "entries_ok bs ts lost" and ch: "changes_entry k Panicked bs bs'"
  shows "entries_ok bs' ts lost"
proof -
  have open_kept: "\<exists>b'. open_entry bs' j b' \<and> bs_instance_id b' = bs_instance_id b \<and>
      bs_wallet_pubkey b' = bs_wallet_pubkey b" if "open_entry bs j b" for j b
    using that ch by (cases "j = k") (auto simp: open_entry_def changes_entry_def entry_after_def)
  have running: "running_ok bs' lost t" if "running_ok bs lost t" for t
    using that open_kept unfolding running_ok_def by metis
  have earlier: "\<exists>c. get_build j bs = Some c \<and> bs_status c = bs_status b" if b: "get_build j bs' = Some b" for j b
  proof (cases "get_build j bs")
    case None
    then have "j \<notin> set (map fst bs)" by (simp add: get_build_def map_of_eq_None_iff)
    then have "j \<notin> set (map fst bs')" using ch unfolding changes_entry_def by metis
    then have "map_of bs' j = None" by (simp add: map_of_eq_None_iff)
    then show ?thesis using b by (simp add: get_build_def)
  next
    case (Some c)
    then show ?thesis using b ch by (cases "j = k") (auto simp: changes_entry_def entry_after_def)
  qed
  have "distinct (map fst bs')" using ok ch by (simp add: entries_ok_def changes_entry_def)
  moreover have "\<forall>j \<in> lost. \<exists>b. open_entry bs' j b" using ok open_kept unfolding entries_ok_def by metis
  moreover have "\<forall>j b. get_build j bs' = Some b \<and> bs_status b = Running \<longrightarrow> j \<in> rb_id ` set ts \<union> lost"
    using ok earlier unfolding entries_ok_def by metis
  ultimately show ?thesis using ok running by (simp add: entries_ok_def)
qed

text \<open>A request is refused and leaves builds, tasks and slots alone, or it is accepted.\<close>

definition build_signed :: "build_config \<Rightarrow> call \<Rightarrow> string \<Rightarrow> build_request \<Rightarrow> nonce_map \<Rightarrow> bool" where
  "build_signed B c inst req n \<longleftrightarrow> is_ok (fst (verify_request_sig (ac_crypto (bc_api B))
     (sigauth_missing_allowed (ac_allow_missing (bc_api B))) (ca_wall c) (ca_instant c)
     (call_request c ''POST'' (''/instances/'' @ inst @ ''/build-and-pin'') (ca_body c) (bq_wallet req)) n))"

lemma request_cases:
  assumes "build_and_pin_handler B c nano inst s = (r, s')"
  obtains
    (refused) "bn_builds s' = bn_builds s" "bn_running s' = bn_running s" "bn_admission s' = bn_admission s" "fst r \<noteq> 202"
  | (accepted) req target g busy where "js_build B (ca_body c) = Some req" "build_signed B c inst req (sv_nonces (bn_server s))"
      "manager_get_instance inst (bq_wallet req) (sv_node (bn_server s)) \<noteq> None"
      "try_acquire Build (bq_wallet req) inst (bn_admission s) = Inr (g, busy)" "from_request req = Inr target"
      "bn_admission s' = busy" "fst r = 202"
      "bn_builds s' = start (ca_time c) (to_lower nano) inst (bq_wallet req) (Some (reported_target req target)) (bn_builds s)"
      "bn_running s' = \<lparr>rb_guard = g, rb_inst = inst, rb_id = to_lower nano, rb_reported = reported_target req target,
         rb_target = target, rb_request = req\<rparr> # bn_running s"
proof (cases "js_build B (ca_body c)")
  case None
  then show ?thesis using refused assms by (auto simp: build_and_pin_handler_def)
next
  case (Some req)
  obtain v n where v: "verify_request_sig (ac_crypto (bc_api B)) (sigauth_missing_allowed (ac_allow_missing (bc_api B)))
      (ca_wall c) (ca_instant c) (call_request c ''POST'' (''/instances/'' @ inst @ ''/build-and-pin'') (ca_body c)
        (bq_wallet req)) (sv_nonces (bn_server s)) = (v, n)" by fastforce
  show ?thesis
  proof (cases "(\<exists>u. v = Inr u) \<and> manager_get_instance inst (bq_wallet req) (sv_node (bn_server s)) \<noteq> None \<and>
      is_ok (try_acquire Build (bq_wallet req) inst (bn_admission s)) \<and> is_ok (from_request req)")
    case True
    then obtain u g busy target i where ok: "v = Inr u" "manager_get_instance inst (bq_wallet req) (sv_node (bn_server s)) = Some i"
      "try_acquire Build (bq_wallet req) inst (bn_admission s) = Inr (g, busy)" "from_request req = Inr target"
      by (auto simp: is_ok_iff)
    show ?thesis
      by (rule accepted [of req g busy target])
        (use Some v ok assms in \<open>auto simp: build_and_pin_handler_def build_signed_def Let_def\<close>)
  next
    case False
    then show ?thesis using refused Some v assms
      by (auto simp: build_and_pin_handler_def Let_def is_ok_iff dest: acquire_release
          split: sum.splits if_splits prod.splits)
  qed
qed

lemma machine_request:
  assumes ok: "machine_ok m" and new: "to_lower nano \<notin> fst ` set (bn_builds (bm_node m)) \<union> bm_lost m"
    and h: "build_and_pin_handler B c nano inst (bm_node m) = (r, s')"
  shows "machine_ok (m\<lparr>bm_node := s'\<rparr>)"
  using h
proof (cases rule: request_cases)
  case refused
  then show ?thesis using ok by (simp add: machine_ok_def slots_def)
next
  case (accepted req target g busy)
  have g: "g = \<lparr>g_kind = Build, g_wallet_key = job_key Build (bq_wallet req), g_instance_key = job_key Build inst\<rparr>"
    using accepted(4) by (auto simp: try_acquire_def Let_def split: if_splits)
  have "gate_inv (slots (m\<lparr>bm_node := s'\<rparr>))"
    using acquire_inv [of "slots m" Build "bq_wallet req" inst g busy] ok accepted(4,6,9)
    by (simp add: machine_ok_def slots_def)
  moreover have "entries_ok (bn_builds s') (bn_running s') (bm_lost m)"
    unfolding accepted(8,9) by (rule entries_start) (use ok new g in \<open>simp_all add: machine_ok_def\<close>)
  ultimately show ?thesis by (simp add: machine_ok_def)
qed

lemma machine_end:
  assumes ok: "machine_ok m" and split: "bn_running (bm_node m) = xs @ t # ys"
    and run: "run_build_task B L (rb_inst t) (rb_id t) (rb_reported t) (rb_target t) (rb_request t)
      (d, dirs, bn_builds (bm_node m)) = (e, d', dirs', bs')"
  shows "machine_ok (finish_build (xs @ ys) t (e, d', dirs', bs') m)"
proof -
  have entries: "entries_ok (bn_builds (bm_node m)) (xs @ t # ys) (bm_lost m)"
    using ok split by (simp add: machine_ok_def)
  then obtain b where "get_build (rb_id t) (bn_builds (bm_node m)) = Some b"
    by (auto simp: entries_ok_def running_ok_def open_entry_def)
  from entries_end [OF entries task_entry [OF this run]]
  have "entries_ok bs' (xs @ ys) (if e = Panicked then insert (rb_id t) (bm_lost m) else bm_lost m)" .
  moreover have "gate_inv \<lparr>table = drop_guard (rb_guard t) (bn_admission (bm_node m)),
      guards = map rb_guard xs @ (map rb_guard ys @ bm_elsewhere m)\<rparr>"
    using release_inv [of "slots m" "map rb_guard xs" "rb_guard t" "map rb_guard ys @ bm_elsewhere m"] ok split
    by (simp add: machine_ok_def slots_def)
  ultimately show ?thesis by (simp add: machine_ok_def slots_def finish_build_def)
qed

lemma machine_step: "machine_ok m \<Longrightarrow> build_step B m m' \<Longrightarrow> machine_ok m'"
proof (erule build_step.cases, goal_cases)
  case (1 nano m1 c inst)
  then show ?case using machine_request [of m nano B c inst] by (metis prod.collapse)
next
  case (2 m1 xs t ys L)
  then show ?case using machine_end [of m xs t ys B L] by (metis prod.collapse)
next
  case (3 k message m1 bs')
  then show ?case using entries_late [OF _ append_log_entry [OF 3(4)]]
    by (simp add: machine_ok_def slots_def)
next
  case (4 kind wallet inst m1 g taken)
  have "gate_inv \<lparr>table = taken, guards = g # guards (slots m)\<rparr>"
    using acquire_inv [of "slots m" kind wallet inst g taken] 4 by (simp add: machine_ok_def slots_def)
  from gate_inv_mset [OF this, of "map rb_guard (bn_running (bm_node m)) @ g # bm_elsewhere m"]
  show ?case using 4 by (simp add: machine_ok_def slots_def)
next
  case (5 m1 xs g ys)
  then show ?case
    using release_inv [of "slots m" "map rb_guard (bn_running (bm_node m)) @ xs" g ys] by (simp add: machine_ok_def slots_def)
qed

interpretation build_machine: inductive_invariant build_init "build_step B" machine_ok for B
  by unfold_locales
    (simp add: build_init_def machine_ok_def slots_def gate_inv_def entries_ok_def get_build_def, rule machine_step)

end
