(* ===== verification/Build_Properties.thy ===== *)
theory Build_Properties
  imports Build_Guarantees Service_Guarantees
begin

text \<open>
  The properties of builds: what is running when the status says so, how a build ends, and what
  leaves the host in a pin or an archive.
\<close>

section \<open>One build at a time\<close>

lemma running_guards:
  assumes "\<forall>t \<in> set ts. running_ok bs lost t"
  shows "map g_instance_key (map rb_guard ts) = map (job_key Build) (map rb_inst ts)"
    "map g_wallet_key (map rb_guard ts) = map (job_key Build) (map (bq_wallet \<circ> rb_request) ts)"
    "builds (map rb_guard ts) = map rb_guard ts"
  using assms by (auto simp: running_ok_def builds_def filter_id_conv)

text \<open>
  C10: Builds run one at a time. In every reachable state of the node, however requests, ends of
  tasks and other users of the admission table interleave, no two running builds share an instance
  or a wallet; a stored build says \<open>running\<close> exactly if its task lives or has panicked before it wrote
  an outcome; and the entry of a running build names its instance and wallet.
\<close>

theorem builds_run_one_at_a_time:
  assumes "reachable build_init (build_step B) m"
  shows "distinct (map rb_inst (bn_running (bm_node m))) \<and>
    distinct (map (bq_wallet \<circ> rb_request) (bn_running (bm_node m))) \<and>
    (\<forall>k b. get_build k (bn_builds (bm_node m)) = Some b \<longrightarrow>
       (bs_status b = Running \<longleftrightarrow> k \<in> rb_id ` set (bn_running (bm_node m)) \<union> bm_lost m)) \<and>
    (\<forall>t \<in> set (bn_running (bm_node m)). rb_id t \<notin> bm_lost m \<and>
       (\<exists>b. get_build (rb_id t) (bn_builds (bm_node m)) = Some b \<and> bs_instance_id b = rb_inst t \<and>
          bs_wallet_pubkey b = bq_wallet (rb_request t)))"
proof -
  have ok: "machine_ok m" by (rule build_machine.inv_reachable [OF assms])
  let ?ts = "bn_running (bm_node m)" and ?bs = "bn_builds (bm_node m)"
  have entries: "entries_ok ?bs ?ts (bm_lost m)" and gate: "gate_inv (slots m)"
    using ok by (simp_all add: machine_ok_def)
  have each: "\<forall>t \<in> set ?ts. running_ok ?bs (bm_lost m) t" using entries by (simp add: entries_ok_def)
  have "distinct (map g_instance_key (map rb_guard ?ts))" "distinct (map g_wallet_key (builds (map rb_guard ?ts)))"
    using gate by (simp_all add: gate_inv_def slots_def)
  then have "distinct (map rb_inst ?ts)" "distinct (map (bq_wallet \<circ> rb_request) ?ts)"
    unfolding running_guards(1,3) [OF each] running_guards(2) [OF each] by (simp_all only: distinct_map)
  moreover have "bs_status b = Running \<longleftrightarrow> k \<in> rb_id ` set ?ts \<union> bm_lost m" if "get_build k ?bs = Some b" for k b
    using entries that by (fastforce simp: entries_ok_def running_ok_def open_entry_def)
  ultimately show ?thesis using each by (auto simp: running_ok_def open_entry_def)
qed

section \<open>How a build ends\<close>



















section \<open>What leaves the host\<close>

definition is_link :: "walk_item \<Rightarrow> bool" where
  "is_link w \<longleftrightarrow> (case w of Walk_entry _ (Out_link _) _ _ \<Rightarrow> True | _ \<Rightarrow> False)"

lemma collect_no_links: "collect_files es n (filter (\<lambda>w. \<not> is_link w) walk) = collect_files es n walk"
  by (induction es n walk rule: collect_files.induct) (auto simp: is_link_def split: out_kind.splits)

lemma collect_bounds:
  assumes "collect_files es n walk = Inr (es', n')" "length es \<le> MAX_PIN_OUTPUT_FILES" "n \<le> MAX_PIN_OUTPUT_BYTES"
    "sum_list (map (length \<circ> snd) es) = n"
  shows "length es' \<le> MAX_PIN_OUTPUT_FILES \<and> n' \<le> MAX_PIN_OUTPUT_BYTES \<and> sum_list (map (length \<circ> snd) es') = n' \<and>
    set es' \<subseteq> set es \<union> {(p, c). Walk_entry p (Out_file c) True True \<in> set walk}"
  using assms
proof (induction es n walk arbitrary: es' n' rule: collect_files.induct)
  case (3 es n p kind stat_ok read_ok items)
  show ?case
  proof (cases kind)
    case (Out_file content)
    have go: "\<not> MAX_PIN_OUTPUT_FILES \<le> length es" "stat_ok" "read_ok" "\<not> MAX_PIN_OUTPUT_BYTES < n + length content"
      using "3.prems"(1) Out_file by (auto split: if_splits)
    have rest: "collect_files (es @ [(p, content)]) (n + length content) items = Inr (es', n')"
      using "3.prems"(1) Out_file go by simp
    show ?thesis using "3.IH"(1) [OF Out_file _ _ _ _ rest] go "3.prems"(4) Out_file by auto
  next
    case (Out_link t)
    then show ?thesis using 3 by auto
  next
    case Out_dir
    then show ?thesis using 3 by auto
  next
    case (Out_special socket)
    then show ?thesis using 3 by auto
  qed
qed auto

lemma archive_follows_links:
  assumes "tar_entries host walk = Inr es" "Walk_entry p (Out_link target) a b \<in> set walk"
  shows "\<exists>found. host p target = Some found \<and> (\<lambda>(q, e). (p @ q, e)) ` set found \<subseteq> set es"
  using assms
  by (induction host walk arbitrary: es rule: tar_entries.induct)
    (fastforce simp: ok_simps split: out_kind.splits option.splits if_splits)+

lemma archive_has_files:
  assumes "tar_entries host walk = Inr es" "Walk_entry p (Out_file c) a b \<in> set walk"
  shows "(p, Tar_file c) \<in> set es"
  using assms
  by (induction host walk arbitrary: es rule: tar_entries.induct)
    (fastforce simp: ok_simps split: out_kind.splits option.splits if_splits)+

lemma archive_contents:
  assumes "tarball_from_dir host out = Inr es"
  shows "case out of
      Output_tree items \<Rightarrow>
        (\<forall>p c a b. Walk_entry p (Out_file c) a b \<in> set items \<longrightarrow> (''./'' @ p, Tar_file c) \<in> set es) \<and>
        (\<forall>p target a b. Walk_entry p (Out_link target) a b \<in> set items \<longrightarrow>
           (\<exists>found. host p target = Some found \<and> (\<lambda>(q, e). (''./'' @ p @ q, e)) ` set found \<subseteq> set es))
    | Output_link target \<Rightarrow> \<exists>found. host [] target = Some found \<and> es = map (\<lambda>(q, e). (''./'' @ q, e)) found"
proof (cases out)
  case (Output_tree items)
  then obtain fs where fs: "tar_entries host items = Inr fs" "es = map (\<lambda>(p, e). (''./'' @ p, e)) fs"
    using assms by (auto simp: tarball_from_dir_def ok_simps)
  have "(''./'' @ p, Tar_file c) \<in> set es" if "Walk_entry p (Out_file c) a b \<in> set items" for p c a b
    using archive_has_files [OF fs(1) that] by (force simp: fs(2))
  moreover have "\<exists>found. host p target = Some found \<and> (\<lambda>(q, e). (''./'' @ p @ q, e)) ` set found \<subseteq> set es"
    if "Walk_entry p (Out_link target) a b \<in> set items" for p target a b
    using archive_follows_links [OF fs(1) that] by (force simp: fs(2))
  ultimately show ?thesis using Output_tree by simp
qed (use assms in \<open>auto simp: tarball_from_dir_def ok_simps\<close>)

lemma parts_bytes:
  "(\<Sum>(_, _, content)\<leftarrow>map (\<lambda>(p, content). (p, f p, content))
      (filter (\<lambda>(p, _). Q p) (map (\<lambda>(p, content). (g p, content)) entries)). length content) \<le>
   sum_list (map (length \<circ> snd) entries)"
  by (induction entries) auto

text \<open>
  C26: A pin holds what the walk over the output meets. What is sent to Kubo is at most 5000 files
  and 100 MiB, each a regular file met by the walk with its contents, under a path without \<open>..\<close> that
  is not absolute. While the output is a directory, the walk stays below it and the symbolic links in
  it make no difference; but if the build has put a link in its place, what is pinned is what the host
  has at the target of the link, as if that were the output. The archive for a side-car holds every
  regular file of the output and follows every link: one in the output is replaced by what the host
  has at its target, and one in the place of the output makes the host's files the archive.
\<close>

theorem pins_hold_walked_files:
  assumes pin: "pin_directory_to_kubo js url kubo host_walk out = (r, Some (Kubo_add u parts))"
    and pack: "tarball_from_dir host out' = Inr es"
  shows "length parts \<le> 5000 \<and> content_bytes (Kubo_add u parts) \<le> 100 * 1024 * 1024 \<and>
    (\<forall>(p, mime, c) \<in> set parts. \<not> contains ''..'' p \<and> \<not> starts_with ''/'' p \<and> mime = mime_for_path p \<and>
       (\<exists>q. p = path_to_forward_slash q \<and>
          Walk_entry q (Out_file c) True True \<in> set (case out of Output_tree items \<Rightarrow> items | Output_link t \<Rightarrow> host_walk t))) \<and>
    (case out of
       Output_tree items \<Rightarrow> \<forall>elsewhere.
         pin_directory_to_kubo js url kubo elsewhere (Output_tree (filter (\<lambda>w. \<not> is_link w) items)) =
           (r, Some (Kubo_add u parts))
     | Output_link target \<Rightarrow>
         pin_directory_to_kubo js url kubo host_walk (Output_tree (host_walk target)) = (r, Some (Kubo_add u parts))) \<and>
    (case out' of
       Output_tree items \<Rightarrow>
         (\<forall>p c a b. Walk_entry p (Out_file c) a b \<in> set items \<longrightarrow> (''./'' @ p, Tar_file c) \<in> set es) \<and>
         (\<forall>p target a b. Walk_entry p (Out_link target) a b \<in> set items \<longrightarrow>
            (\<exists>found. host p target = Some found \<and> (\<lambda>(q, e). (''./'' @ p @ q, e)) ` set found \<subseteq> set es))
     | Output_link target \<Rightarrow> \<exists>found. host [] target = Some found \<and> es = map (\<lambda>(q, e). (''./'' @ q, e)) found)"
proof -
  define walk where "walk = walk_output host_walk out"
  have walk: "walk = (case out of Output_tree items \<Rightarrow> items | Output_link t \<Rightarrow> host_walk t)"
    by (simp add: walk_def walk_output_def)
  obtain entries n where c: "collect_files [] 0 walk = Inr (entries, n)"
    and parts: "parts = map (\<lambda>(p, content). (p, mime_for_path p, content))
      (filter (\<lambda>(p, _). \<not> suspicious_path p) (map (\<lambda>(p, content). (path_to_forward_slash p, content)) entries))"
    using pin by (auto simp: pin_directory_to_kubo_def walk_def Let_def
        split: sum.splits prod.splits if_splits kubo_answer.splits option.splits)
  have b: "length entries \<le> 5000" "n \<le> 100 * 1024 * 1024" "sum_list (map (length \<circ> snd) entries) = n"
    "set entries \<subseteq> {(p, c). Walk_entry p (Out_file c) True True \<in> set walk}"
    using collect_bounds [OF c] by (simp_all add: MAX_PIN_OUTPUT_FILES_def MAX_PIN_OUTPUT_BYTES_def)
  have "length parts \<le> length entries" unfolding parts length_map by (rule order_trans [OF length_filter_le]) simp
  moreover have "content_bytes (Kubo_add u parts) \<le> n"
    unfolding b(3) [symmetric] content_bytes_def kubo_call.case parts by (rule parts_bytes)
  moreover have "\<forall>(p, mime, c) \<in> set parts. \<not> contains ''..'' p \<and> \<not> starts_with ''/'' p \<and> mime = mime_for_path p \<and>
      (\<exists>q. p = path_to_forward_slash q \<and> Walk_entry q (Out_file c) True True \<in> set walk)"
    using b(4) by (auto simp: parts suspicious_path_def)
  moreover have "case out of
       Output_tree items \<Rightarrow> \<forall>elsewhere.
         pin_directory_to_kubo js url kubo elsewhere (Output_tree (filter (\<lambda>w. \<not> is_link w) items)) =
           (r, Some (Kubo_add u parts))
     | Output_link target \<Rightarrow>
         pin_directory_to_kubo js url kubo host_walk (Output_tree (host_walk target)) = (r, Some (Kubo_add u parts))"
    by (cases out) (use pin in \<open>simp_all add: pin_directory_to_kubo_def walk_output_def collect_no_links\<close>)
  ultimately show ?thesis using b(1,2) archive_contents [OF pack] unfolding walk by auto
qed

section \<open>Demonstrations\<close>

text \<open>
  A bundle of one file and one link to a file of the host: the pin has the file, the archive both.
  A bundle replaced by a link to a directory of the host: both have the file of the host.
\<close>

definition demo_walk :: "walk_item list" where
  "demo_walk = [Walk_entry ''index.html'' (Out_file ''hi'') True True, Walk_entry ''x'' (Out_link ''/etc/passwd'') True True]"

definition demo_host :: "string \<Rightarrow> string \<Rightarrow> (string \<times> tar_entry) list option" where
  "demo_host p target =
     (if target = ''/etc/passwd'' then Some [('''', Tar_file ''root:x:0'')]
      else if target = ''/etc'' then Some [('''', Tar_dir), (''passwd'', Tar_file ''root:x:0'')] else None)"

definition demo_host_walk :: "string \<Rightarrow> walk_item list" where
  "demo_host_walk target =
     (if target = ''/etc'' then [Walk_entry '''' Out_dir True True, Walk_entry ''passwd'' (Out_file ''root:x:0'') True True]
      else [])"

lemma demo_pin:
  "pin_directory_to_kubo (\<lambda>l. Some (l, [])) ''http://kubo'' (Kubo_answered 200 (Some ''cid'')) demo_host_walk
      (Output_tree demo_walk) =
     (Inr \<lparr>pn_cid = ''cid'', pn_size_bytes = 2, pn_file_count = 1\<rparr>,
      Some (Kubo_add ''http://kubo/api/v0/add?cid-version=1&pin=true&wrap-with-directory=true&progress=false''
        [(''index.html'', ''text/html'', ''hi'')]))"
proof -
  have files: "collect_files [] 0 (walk_output demo_host_walk (Output_tree demo_walk)) = Inr ([(''index.html'', ''hi'')], 2)"
    by (simp add: walk_output_def demo_walk_def MAX_PIN_OUTPUT_FILES_def MAX_PIN_OUTPUT_BYTES_def)
  have names: "path_to_forward_slash ''index.html'' = ''index.html''" "mime_for_path ''index.html'' = ''text/html''"
    "\<not> suspicious_path ''index.html''" "trim_end_slashes ''http://kubo'' = ''http://kubo''"
    "filter (\<lambda>l. trim l \<noteq> []) (text_lines ''cid'') = [''cid'']" "root_entry [(''cid'', [])] = ''cid''"
    by code_simp+
  show ?thesis
    unfolding pin_directory_to_kubo_def files by (simp add: names List.map_filter_simps Let_def)
qed

lemma demo_link_pin:
  "pin_directory_to_kubo (\<lambda>l. Some (l, [])) ''http://kubo'' (Kubo_answered 200 (Some ''cid'')) demo_host_walk
      (Output_link ''/etc'') =
     (Inr \<lparr>pn_cid = ''cid'', pn_size_bytes = 8, pn_file_count = 1\<rparr>,
      Some (Kubo_add ''http://kubo/api/v0/add?cid-version=1&pin=true&wrap-with-directory=true&progress=false''
        [(''passwd'', ''application/octet-stream'', ''root:x:0'')]))"
proof -
  have files: "collect_files [] 0 (walk_output demo_host_walk (Output_link ''/etc'')) = Inr ([(''passwd'', ''root:x:0'')], 8)"
    by (simp add: walk_output_def demo_host_walk_def MAX_PIN_OUTPUT_FILES_def MAX_PIN_OUTPUT_BYTES_def)
  have names: "path_to_forward_slash ''passwd'' = ''passwd''" "mime_for_path ''passwd'' = ''application/octet-stream''"
    "\<not> suspicious_path ''passwd''" "trim_end_slashes ''http://kubo'' = ''http://kubo''"
    "filter (\<lambda>l. trim l \<noteq> []) (text_lines ''cid'') = [''cid'']" "root_entry [(''cid'', [])] = ''cid''"
    by code_simp+
  show ?thesis
    unfolding pin_directory_to_kubo_def files by (simp add: names List.map_filter_simps Let_def)
qed

theorem pins_hold_walked_files_witness:
  "\<exists>es. tarball_from_dir demo_host (Output_tree demo_walk) = Inr es \<and> (''./x'', Tar_file ''root:x:0'') \<in> set es \<and>
    (\<exists>r u parts. pin_directory_to_kubo (\<lambda>l. Some (l, [])) ''http://kubo'' (Kubo_answered 200 (Some ''cid'')) demo_host_walk
       (Output_tree demo_walk) = (r, Some (Kubo_add u parts)) \<and> length parts \<le> 5000 \<and> parts \<noteq> []) \<and>
    (\<exists>r u parts. pin_directory_to_kubo (\<lambda>l. Some (l, [])) ''http://kubo'' (Kubo_answered 200 (Some ''cid'')) demo_host_walk
       (Output_tree (demo_host_walk ''/etc'')) = (r, Some (Kubo_add u parts)) \<and> map fst parts = [''passwd''])"
proof -
  have pack: "tarball_from_dir demo_host (Output_tree demo_walk) =
      Inr [(''./index.html'', Tar_file ''hi''), (''./x'', Tar_file ''root:x:0'')]"
    by (simp add: tarball_from_dir_def demo_walk_def demo_host_def)
  have "Walk_entry ''x'' (Out_link ''/etc/passwd'') True True \<in> set demo_walk" by (simp add: demo_walk_def)
  moreover have "demo_host ''x'' ''/etc/passwd'' = Some [('''', Tar_file ''root:x:0'')]" by (simp add: demo_host_def)
  ultimately show ?thesis
    using pins_hold_walked_files [OF demo_pin pack] pins_hold_walked_files [OF demo_link_pin pack] demo_pin pack by auto
qed

definition demo_build :: build_request where
  "demo_build = \<lparr>bq_wallet = ''w'', bq_tarball_url = ''u'', bq_github_token = None, bq_install = None, bq_build = None,
     bq_output_dir = None, bq_node_version = None, bq_env_vars = [], bq_target = None, bq_entry = None\<rparr>"

definition demo_build_config :: build_config where
  "demo_build_config = \<lparr>bc_api = lax_api, bc_kubo_url = ''http://kubo'', bc_wide = (\<lambda>_. False),
     js_build = (\<lambda>_. Some demo_build), js_kubo_line = (\<lambda>l. Some (l, [])), say_build = (\<lambda>_. []), say_deploy = (\<lambda>_. [])\<rparr>"





definition demo_machine_builds :: build_machine where
  "demo_machine_builds = \<lparr>bm_node = \<lparr>bn_server = secret_server ''v'', bn_admission = \<lparr>by_wallet = {}, by_instance = {}\<rparr>,
     bn_dirs = (\<lambda>_. \<lparr>sd_target = None, sd_staging = []\<rparr>), bn_builds = [], bn_running = []\<rparr>,
     bm_elsewhere = [], bm_lost = {}\<rparr>"

theorem builds_run_one_at_a_time_witness:
  "\<exists>m t b. reachable build_init (build_step demo_build_config) m \<and> bn_running (bm_node m) = [t] \<and>
     get_build (rb_id t) (bn_builds (bm_node m)) = Some b \<and> bs_status b = Running \<and> bs_wallet_pubkey b = ''w''"
proof -
  let ?m0 = "demo_machine_builds"
  obtain r s' where h: "build_and_pin_handler demo_build_config owner_call ''n'' ''i'' (bm_node ?m0) = (r, s')" by fastforce
  obtain g busy where g: "try_acquire Build ''w'' ''i'' (bn_admission (bm_node ?m0)) = Inr (g, busy)"
    by (simp add: demo_machine_builds_def try_acquire_def Let_def)
  have target: "from_request demo_build = Inr Ipfs_pin" by (simp add: from_request_def demo_build_def)
  have parts: "bn_server (bm_node ?m0) = secret_server ''v''" "bc_api demo_build_config = lax_api"
    "js_build demo_build_config c = Some demo_build" "bq_wallet demo_build = ''w''" "bn_running (bm_node ?m0) = []" for c
    by (simp_all add: demo_machine_builds_def demo_build_config_def demo_build_def)
  have "\<exists>t. bn_running s' = [t] \<and> bq_wallet (rb_request t) = ''w''"
    using h g by (auto simp: build_and_pin_handler_def parts owner_unsigned demo_owner_row target Let_def)
  then obtain t where t: "bn_running s' = [t]" "bq_wallet (rb_request t) = ''w''" by blast
  have "reachable build_init (build_step demo_build_config) ?m0"
    by (rule reach_init) (simp add: build_init_def demo_machine_builds_def)
  moreover have "build_step demo_build_config ?m0 (?m0\<lparr>bm_node := s'\<rparr>)"
    using build_step.request [of "''n''" ?m0 demo_build_config owner_call "''i''"] h by (simp add: demo_machine_builds_def)
  ultimately have m: "reachable build_init (build_step demo_build_config) (?m0\<lparr>bm_node := s'\<rparr>)" by (rule reach_step)
  obtain b where b: "get_build (rb_id t) (bn_builds s') = Some b" "bs_wallet_pubkey b = ''w''"
    using builds_run_one_at_a_time [OF m] t by auto
  then have "bs_status b = Running" using builds_run_one_at_a_time [OF m] t by auto
  then show ?thesis using m t b by (intro exI [of _ "?m0\<lparr>bm_node := s'\<rparr>"]) auto
qed

end
