(* ===== verification/Node_Config.thy ===== *)
theory Node_Config
  imports Node_Machine
begin

text \<open>
  The configuration of a node (\<open>config.rs\<close>): the defaults, what each variable of the environment
  overrides, and the number of instances derived from the memory and the processors of the host.
  A configuration is a \<open>node_config\<close>, the fields the handlers use, with the other fields behind it.
  A variable that is unset or not UTF-8 is \<open>None\<close>.
\<close>

section \<open>The capacity of the host\<close>

definition PER_INSTANCE_RAM_MB :: nat where "PER_INSTANCE_RAM_MB = 1800"
definition SYSTEM_OVERHEAD_RAM_MB_MIN :: nat where "SYSTEM_OVERHEAD_RAM_MB_MIN = 2048"
definition AUTO_MAX_INSTANCES_FLOOR :: nat where "AUTO_MAX_INSTANCES_FLOOR = 1"
definition AUTO_MAX_INSTANCES_CEILING :: nat where "AUTO_MAX_INSTANCES_CEILING = 32"

lemmas capacity_limits = PER_INSTANCE_RAM_MB_def SYSTEM_OVERHEAD_RAM_MB_MIN_def AUTO_MAX_INSTANCES_FLOOR_def
  AUTO_MAX_INSTANCES_CEILING_def

text \<open>\<open>str::parse\<close> of an unsigned integer: an optional plus sign, at least one digit, below the limit.\<close>

definition parse_unsigned :: "nat \<Rightarrow> string \<Rightarrow> nat option" where
  "parse_unsigned limit s =
     (case parse_nat (case s of c # r \<Rightarrow> if c = CHR ''+'' then r else s | [] \<Rightarrow> []) of
        Some n \<Rightarrow> if n < limit then Some n else None | None \<Rightarrow> None)"

definition parse_usize :: "string \<Rightarrow> nat option" where
  "parse_usize = parse_unsigned (2 ^ 64)"

text \<open>The first line that starts with \<open>MemTotal:\<close> decides, even when it cannot be read.\<close>

fun total_ram_of_lines :: "string list \<Rightarrow> nat option" where
  "total_ram_of_lines [] = None"
| "total_ram_of_lines (line # ls) =
     (case strip_prefix ''MemTotal:'' line of
        None \<Rightarrow> total_ram_of_lines ls
      | Some after \<Rightarrow>
          (case split_whitespace (trim after) of
             [] \<Rightarrow> None
           | w # _ \<Rightarrow> map_option (\<lambda>kb. kb div 1024) (parse_usize w)))"

record host =
  ho_meminfo :: "string option"
  ho_parallelism :: "nat option"

definition detect_total_ram_mb :: "host \<Rightarrow> nat option" where
  "detect_total_ram_mb H = Option.bind (ho_meminfo H) (\<lambda>s. total_ram_of_lines (text_lines s))"

definition detect_cpu_cores :: "host \<Rightarrow> nat" where
  "detect_cpu_cores H = (case ho_parallelism H of Some n \<Rightarrow> n | None \<Rightarrow> 2)"

text \<open>The number of instances with what it was derived from: memory, cores, both caps.\<close>

definition auto_derive_max_instances :: "host \<Rightarrow> nat \<times> nat \<times> nat \<times> nat \<times> nat" where
  "auto_derive_max_instances H =
     (let mem_mb = (case detect_total_ram_mb H of Some n \<Rightarrow> n | None \<Rightarrow> 8192);
          cores = detect_cpu_cores H;
          reserved = max SYSTEM_OVERHEAD_RAM_MB_MIN (mem_mb div 8);
          usable = mem_mb - reserved;
          mem_cap = usable div PER_INSTANCE_RAM_MB;
          cpu_cap = min (cores * 2) (2 ^ 64 - 1);
          raw = min mem_cap cpu_cap;
          bounded = min (max raw AUTO_MAX_INSTANCES_FLOOR) AUTO_MAX_INSTANCES_CEILING
      in (bounded, mem_mb, cores, mem_cap, cpu_cap))"

section \<open>The configuration\<close>

record config = node_config +
  cf_api_port :: u16
  cf_solana_rpc_url :: string
  cf_solana_network :: string
  cf_operator_keypair_path :: string
  cf_facilitator_url :: string
  cf_usdc_mint :: string
  cf_operator_address :: "string option"
  cf_heartbeat_interval_secs :: nat
  cf_cleanup_interval_secs :: nat
  cf_idle_suspend_secs :: nat
  cf_idle_sweep_interval_secs :: nat
  cf_wal_archive_interval_secs :: nat
  cf_wal_replication_interval_secs :: nat
  cf_docker_socket_path :: string
  cf_region :: string
  cf_supabase_template_path :: string
  cf_tee_backend :: string
  cf_kbs_url :: string
  cf_expected_measurement_path :: string
  cf_require_attestation :: bool
  cf_tls_enabled :: bool
  cf_tls_cert_path :: string
  cf_tls_key_path :: string
  cf_studio_proxy_secret :: string
  cf_studio_apex :: string
  cf_kubo_api_url :: string
  cf_kubo_gateway_url :: string

definition default_config :: config where
  "default_config =
     \<lparr>nc_data_dir = ''/var/lib/supaba'', nc_hostname = ''127.0.0.1'', nc_public_host = [],
      nc_port_range_start = 10000, nc_port_range_end = 20000, nc_max_instances = 5, nc_warm_pool_size = 0,
      nc_available_cpu_cores = 4, nc_smtp_host = ''smtp.resend.com'', nc_smtp_port = 465, nc_smtp_user = ''resend'',
      nc_smtp_pass = [], nc_smtp_admin_email = [], nc_smtp_sender_name = ''kraph'',
      cf_api_port = 3100, cf_solana_rpc_url = ''https://api.devnet.solana.com'', cf_solana_network = ''devnet'',
      cf_operator_keypair_path = ''/etc/supaba/operator.json'', cf_facilitator_url = ''http://localhost:8080'',
      cf_usdc_mint = ''EPjFWdd5AufqSSqeM2qN1xzybapC8G4wEGGkZwyTDt1v'', cf_operator_address = None,
      cf_heartbeat_interval_secs = 300, cf_cleanup_interval_secs = 60, cf_idle_suspend_secs = 0,
      cf_idle_sweep_interval_secs = 60, cf_wal_archive_interval_secs = 300, cf_wal_replication_interval_secs = 10,
      cf_docker_socket_path = ''/var/run/docker.sock'', cf_region = ''unknown'',
      cf_supabase_template_path = ''/opt/supaba/template'', cf_tee_backend = ''none'', cf_kbs_url = [],
      cf_expected_measurement_path = [], cf_require_attestation = False, cf_tls_enabled = False, cf_tls_cert_path = [],
      cf_tls_key_path = [], cf_studio_proxy_secret = [], cf_studio_apex = [],
      cf_kubo_api_url = ''http://127.0.0.1:5001'', cf_kubo_gateway_url = ''http://127.0.0.1:8080''\<rparr>"

type_synonym process_env = "string \<Rightarrow> string option"

definition env_or :: "process_env \<Rightarrow> string \<Rightarrow> string \<Rightarrow> string" where
  "env_or env key fallback = (case env key of Some v \<Rightarrow> v | None \<Rightarrow> fallback)"

text \<open>A number that cannot be read counts as not set.\<close>

definition env_or_num :: "nat \<Rightarrow> process_env \<Rightarrow> string \<Rightarrow> nat \<Rightarrow> nat" where
  "env_or_num limit env key fallback =
     (case Option.bind (env key) (parse_unsigned limit) of Some n \<Rightarrow> n | None \<Rightarrow> fallback)"

definition env_or_u16 :: "process_env \<Rightarrow> string \<Rightarrow> u16 \<Rightarrow> u16" where
  "env_or_u16 env key fallback = of_nat (env_or_num (2 ^ 16) env key (unat fallback))"

definition env_or_usize :: "process_env \<Rightarrow> string \<Rightarrow> nat \<Rightarrow> nat" where
  "env_or_usize = env_or_num (2 ^ 64)"

definition env_or_bool :: "process_env \<Rightarrow> string \<Rightarrow> bool \<Rightarrow> bool" where
  "env_or_bool env key fallback =
     (case env key of Some v \<Rightarrow> v \<in> {''1'', ''true'', ''yes''} | None \<Rightarrow> fallback)"

definition chosen_max_instances :: "host \<Rightarrow> process_env \<Rightarrow> nat" where
  "chosen_max_instances H env =
     (case Option.bind (env ''SUPABA_MAX_INSTANCES'') parse_usize of
        Some n \<Rightarrow> n | None \<Rightarrow> fst (auto_derive_max_instances H))"

definition operator_address_of :: "process_env \<Rightarrow> string option" where
  "operator_address_of env =
     Option.bind (env ''SUPABA_OPERATOR_ADDRESS'') (\<lambda>v. if trim v = [] then None else Some (trim v))"

definition from_env :: "host \<Rightarrow> process_env \<Rightarrow> config" where
  "from_env H env = (let d = default_config in
     \<lparr>nc_data_dir = env_or env ''SUPABA_DATA_DIR'' (nc_data_dir d),
      nc_hostname = env_or env ''SUPABA_HOSTNAME'' (nc_hostname d),
      nc_public_host = env_or env ''SUPABA_PUBLIC_HOST'' (nc_public_host d),
      nc_port_range_start = env_or_u16 env ''SUPABA_PORT_RANGE_START'' (nc_port_range_start d),
      nc_port_range_end = env_or_u16 env ''SUPABA_PORT_RANGE_END'' (nc_port_range_end d),
      nc_max_instances = chosen_max_instances H env,
      nc_warm_pool_size = env_or_usize env ''SUPABA_WARM_POOL_SIZE'' (nc_warm_pool_size d),
      nc_available_cpu_cores = env_or_usize env ''SUPABA_AVAILABLE_CPU_CORES'' (nc_available_cpu_cores d),
      nc_smtp_host = env_or env ''SUPABA_SMTP_HOST'' (nc_smtp_host d),
      nc_smtp_port = env_or_u16 env ''SUPABA_SMTP_PORT'' (nc_smtp_port d),
      nc_smtp_user = env_or env ''SUPABA_SMTP_USER'' (nc_smtp_user d),
      nc_smtp_pass = (case env ''SUPABA_SMTP_PASS'' of Some v \<Rightarrow> v | None \<Rightarrow> env_or env ''RESEND_API_KEY'' (nc_smtp_pass d)),
      nc_smtp_admin_email = env_or env ''SUPABA_SMTP_ADMIN_EMAIL'' (nc_smtp_admin_email d),
      nc_smtp_sender_name = env_or env ''SUPABA_SMTP_SENDER_NAME'' (nc_smtp_sender_name d),
      cf_api_port = env_or_u16 env ''SUPABA_API_PORT'' (cf_api_port d),
      cf_solana_rpc_url = env_or env ''SUPABA_SOLANA_RPC_URL'' (cf_solana_rpc_url d),
      cf_solana_network = env_or env ''SUPABA_SOLANA_NETWORK'' (cf_solana_network d),
      cf_operator_keypair_path = env_or env ''SUPABA_OPERATOR_KEYPAIR_PATH'' (cf_operator_keypair_path d),
      cf_facilitator_url = env_or env ''SUPABA_FACILITATOR_URL'' (cf_facilitator_url d),
      cf_usdc_mint = env_or env ''SUPABA_USDC_MINT'' (cf_usdc_mint d),
      cf_operator_address = operator_address_of env,
      cf_heartbeat_interval_secs = env_or_usize env ''SUPABA_HEARTBEAT_INTERVAL_SECS'' (cf_heartbeat_interval_secs d),
      cf_cleanup_interval_secs = env_or_usize env ''SUPABA_CLEANUP_INTERVAL_SECS'' (cf_cleanup_interval_secs d),
      cf_idle_suspend_secs = env_or_usize env ''SUPABA_IDLE_SUSPEND_SECS'' (cf_idle_suspend_secs d),
      cf_idle_sweep_interval_secs = env_or_usize env ''SUPABA_IDLE_SWEEP_INTERVAL_SECS'' (cf_idle_sweep_interval_secs d),
      cf_wal_archive_interval_secs = env_or_usize env ''SUPABA_WAL_ARCHIVE_INTERVAL_SECS'' (cf_wal_archive_interval_secs d),
      cf_wal_replication_interval_secs =
        env_or_usize env ''SUPABA_WAL_REPLICATION_INTERVAL_SECS'' (cf_wal_replication_interval_secs d),
      cf_docker_socket_path = env_or env ''SUPABA_DOCKER_SOCKET_PATH'' (cf_docker_socket_path d),
      cf_region = env_or env ''SUPABA_REGION'' (cf_region d),
      cf_supabase_template_path = env_or env ''SUPABA_SUPABASE_TEMPLATE_PATH'' (cf_supabase_template_path d),
      cf_tee_backend = env_or env ''SUPABA_TEE_BACKEND'' (cf_tee_backend d),
      cf_kbs_url = env_or env ''SUPABA_KBS_URL'' (cf_kbs_url d),
      cf_expected_measurement_path = env_or env ''SUPABA_EXPECTED_MEASUREMENT_PATH'' (cf_expected_measurement_path d),
      cf_require_attestation = env_or_bool env ''SUPABA_REQUIRE_ATTESTATION'' (cf_require_attestation d),
      cf_tls_enabled = env_or_bool env ''SUPABA_TLS_ENABLED'' (cf_tls_enabled d),
      cf_tls_cert_path = env_or env ''SUPABA_TLS_CERT_PATH'' (cf_tls_cert_path d),
      cf_tls_key_path = env_or env ''SUPABA_TLS_KEY_PATH'' (cf_tls_key_path d),
      cf_studio_proxy_secret = env_or env ''SUPABA_STUDIO_PROXY_SECRET'' (cf_studio_proxy_secret d),
      cf_studio_apex = env_or env ''SUPABA_STUDIO_APEX'' (cf_studio_apex d),
      cf_kubo_api_url = env_or env ''SUPABA_KUBO_API_URL'' (cf_kubo_api_url d),
      cf_kubo_gateway_url = env_or env ''SUPABA_KUBO_GATEWAY_URL'' (cf_kubo_gateway_url d)\<rparr>)"

section \<open>What the kernel prints is read back\<close>

lemma split_whitespace_word:
  "\<forall>c \<in> set s. \<not> is_space c \<Longrightarrow> is_space d \<Longrightarrow> w @ s \<noteq> [] \<Longrightarrow>
     split_whitespace_from w (s @ d # r) = (w @ s) # split_whitespace_from [] r"
  by (induction s arbitrary: w) auto

lemma dropWhile_blanks: "dropWhile is_space (replicate k (CHR '' '') @ s) = dropWhile is_space s"
  by (induction k) (auto simp: is_space_def)

lemma trim_line:
  assumes "\<not> is_space a" "\<not> is_space z"
  shows "trim (replicate k (CHR '' '') @ a # s @ [z]) = a # s @ [z]"
  using assms by (simp add: trim_def dropWhile_blanks)

lemma digits_no_blank: "c \<in> set (dec_digits n) \<Longrightarrow> \<not> is_space c"
  by (auto simp: is_space_def dest!: digits_clean)

lemma parse_unsigned_digits:
  assumes "n < limit"
  shows "parse_unsigned limit (dec_digits n) = Some n"
proof (cases "dec_digits n")
  case (Cons c s)
  then have "c \<noteq> CHR ''+''" using digits_clean [of c n] by auto
  then show ?thesis using assms parse_show_nat [of n] by (simp add: parse_unsigned_def Cons)
qed simp

lemma meminfo_line:
  assumes "kb < 2 ^ 64"
  shows "total_ram_of_lines ((''MemTotal:'' @ replicate k (CHR '' '') @ dec_digits kb @ '' kB'') # ls) = Some (kb div 1024)"
proof -
  let ?after = "replicate k (CHR '' '') @ dec_digits kb @ '' kB''"
  obtain a s where d: "dec_digits kb = a # s" by (cases "dec_digits kb") auto
  have "trim (replicate k (CHR '' '') @ a # (s @ '' k'') @ [CHR ''B'']) = a # (s @ '' k'') @ [CHR ''B'']"
    by (rule trim_line) (use digits_no_blank [of a kb] d in \<open>auto simp: is_space_def\<close>)
  then have "trim ?after = dec_digits kb @ CHR '' '' # ''kB''" by (simp add: d)
  moreover have "split_whitespace (dec_digits kb @ CHR '' '' # ''kB'') = dec_digits kb # split_whitespace_from [] ''kB''"
    using split_whitespace_word [of "dec_digits kb" "CHR '' ''" "[]" "''kB''"] digits_no_blank
    by (auto simp: split_whitespace_def is_space_def)
  moreover have "strip_prefix ''MemTotal:'' (''MemTotal:'' @ ?after) = Some ?after" by (simp add: strip_prefix_iff)
  ultimately show ?thesis
    using parse_unsigned_digits [OF assms] by (simp add: parse_usize_def)
qed

lemma text_lines_first:
  assumes "CHR 0x0A \<notin> set l" "strip_cr l = l"
  shows "\<exists>ls. text_lines (l @ CHR 0x0A # r) = l # ls"
  using assms by (cases "split_on (CHR 0x0A) r") (auto simp: text_lines_def split_on_append Let_def)

lemma ram_from_meminfo:
  assumes "ho_meminfo H = Some (''MemTotal:'' @ replicate k (CHR '' '') @ dec_digits kb @ '' kB'' @ CHR 0x0A # r)"
    and "kb < 2 ^ 64"
  shows "detect_total_ram_mb H = Some (kb div 1024)"
proof -
  let ?l = "''MemTotal:'' @ replicate k (CHR '' '') @ dec_digits kb @ '' kB''"
  have "CHR 0x0A \<notin> set ?l" using digits_no_blank [of "CHR 0x0A" kb] by (auto simp: is_space_def)
  moreover have "strip_cr ?l = ?l"
    by (auto simp: strip_cr_def strip_suffix_def split: option.splits)
  ultimately obtain ls where "text_lines (?l @ CHR 0x0A # r) = ?l # ls" using text_lines_first by blast
  then show ?thesis
    using assms meminfo_line [of kb k ls] by (simp add: detect_total_ram_mb_def)
qed

section \<open>The derived capacity\<close>

lemma derived_bounds:
  assumes "auto_derive_max_instances H = (cap, ram, cores, mem_cap, cpu_cap)"
  shows "1 \<le> cap" "cap \<le> 32" "1 < cap \<Longrightarrow> 1800 * cap + max 2048 (ram div 8) \<le> ram \<and> cap \<le> 2 * cores"
    "cap < 32 \<Longrightarrow> ram < 1800 * Suc cap + max 2048 (ram div 8) \<or> 2 * cores < Suc cap"
proof -
  let ?usable = "ram - max 2048 (ram div 8)"
  have c: "mem_cap = ?usable div 1800" "cpu_cap = min (cores * 2) (2 ^ 64 - 1)"
      "cap = min (max (min mem_cap cpu_cap) 1) 32"
    using assms by (auto simp: auto_derive_max_instances_def capacity_limits Let_def)
  show "1 \<le> cap" "cap \<le> 32" by (simp_all add: c(3))
  show "1800 * cap + max 2048 (ram div 8) \<le> ram \<and> cap \<le> 2 * cores" if "1 < cap"
  proof -
    have "cap \<le> mem_cap" "cap \<le> cpu_cap" "0 < mem_cap" using that c(3) by linarith+
    moreover have "1800 * mem_cap \<le> ?usable" by (simp add: c(1))
    ultimately show ?thesis using c(2) by linarith
  qed
  show "ram < 1800 * Suc cap + max 2048 (ram div 8) \<or> 2 * cores < Suc cap" if "cap < 32"
  proof -
    have "mem_cap \<le> cap \<or> cpu_cap \<le> cap" using that c(3) by linarith
    moreover have "?usable < 1800 * Suc mem_cap" using dividend_less_times_div [of 1800 ?usable] by (simp add: c(1))
    moreover have "cpu_cap \<le> cap \<Longrightarrow> 2 * cores < Suc cap" using that by (simp add: c(2))
    ultimately show ?thesis by auto
  qed
qed

lemma default_range:
  assumes "env ''SUPABA_PORT_RANGE_START'' = None" "env ''SUPABA_PORT_RANGE_END'' = None"
  shows "nc_port_range_start (from_env H env) = 10000" "nc_port_range_end (from_env H env) = 20000"
  using assms by (simp_all add: from_env_def default_config_def env_or_u16_def env_or_num_def Let_def)

lemma chosen_capacity: "nc_max_instances (from_env H env) = chosen_max_instances H env"
  by (simp add: from_env_def Let_def)

text \<open>
  C34: The derived number of instances fits the host and is the largest that does. It lies between 1
  and 32; more than one instance is only taken on if 1800 MB for each and the reserve (2048 MB or an
  eighth of the memory the kernel reports) fit the memory and there is half a core for each; below 32
  one more would not fit. The cores are those the operating system reports as available to the node,
  two if it cannot tell. The node uses the number unless the environment states one, which then counts
  unchecked. With the default port range the configuration meets what the node's port accounting
  relies on, and the range has a block for every instance.
\<close>

theorem capacity_fits_the_host:
  assumes mem: "ho_meminfo H = Some (''MemTotal:'' @ replicate k (CHR '' '') @ dec_digits kb @ '' kB'' @ CHR 0x0A # r)"
      "kb < 2 ^ 64"
    and auto: "auto_derive_max_instances H = (cap, ram, cores, mem_cap, cpu_cap)"
  shows "ram = kb div 1024 \<and> cores = (case ho_parallelism H of Some n \<Rightarrow> n | None \<Rightarrow> 2) \<and> 1 \<le> cap \<and> cap \<le> 32 \<and>
    (1 < cap \<longrightarrow> 1800 * cap + max 2048 (ram div 8) \<le> ram \<and> cap \<le> 2 * cores) \<and>
    (cap < 32 \<longrightarrow> ram < 1800 * Suc cap + max 2048 (ram div 8) \<or> 2 * cores < Suc cap) \<and>
    (\<forall>env. nc_max_instances (from_env H env) =
       (case Option.bind (env ''SUPABA_MAX_INSTANCES'') parse_usize of Some n \<Rightarrow> n | None \<Rightarrow> cap)) \<and>
    (\<forall>env. env ''SUPABA_PORT_RANGE_START'' = None \<and> env ''SUPABA_PORT_RANGE_END'' = None \<longrightarrow>
       (\<exists>m. node_init (node_config.truncate (from_env H env)) m) \<and>
       unat (nc_port_range_start (from_env H env)) + 10 * cap \<le> unat (nc_port_range_end (from_env H env)))"
proof -
  have "ram = kb div 1024" using auto ram_from_meminfo [OF mem] by (simp add: auto_derive_max_instances_def Let_def)
  moreover have "cores = (case ho_parallelism H of Some n \<Rightarrow> n | None \<Rightarrow> 2)"
    using auto by (simp add: auto_derive_max_instances_def detect_cpu_cores_def Let_def)
  moreover have "\<forall>env. nc_max_instances (from_env H env) =
      (case Option.bind (env ''SUPABA_MAX_INSTANCES'') parse_usize of Some n \<Rightarrow> n | None \<Rightarrow> cap)"
    unfolding chosen_capacity chosen_max_instances_def auto fst_conv by simp
  moreover have "config_ok (node_config.truncate (from_env H env))"
    if "env ''SUPABA_PORT_RANGE_START'' = None" "env ''SUPABA_PORT_RANGE_END'' = None" for env
    using default_range [OF that, of H] by (simp add: config_ok_def node_config.truncate_def)
  ultimately show ?thesis
    using derived_bounds [OF auto] by (auto simp: default_range node_init_def)
qed

definition demo_host :: host where
  "demo_host = \<lparr>ho_meminfo = Some (''MemTotal:'' @ replicate 8 (CHR '' '') @ dec_digits 16384256 @ '' kB'' @ CHR 0x0A # ''MemFree:''),
     ho_parallelism = Some 4\<rparr>"

theorem capacity_fits_the_host_witness: "nc_max_instances (from_env demo_host (\<lambda>_. None)) = 7"
proof -
  obtain cap ram cores mem_cap cpu_cap where a: "auto_derive_max_instances demo_host = (cap, ram, cores, mem_cap, cpu_cap)"
    by (metis prod.exhaust)
  have h: "ho_meminfo demo_host =
      Some (''MemTotal:'' @ replicate 8 (CHR '' '') @ dec_digits 16384256 @ '' kB'' @ CHR 0x0A # ''MemFree:'')"
    by (simp only: demo_host_def host.simps)
  have "(16384256 :: nat) < 2 ^ 64" by simp
  note facts = capacity_fits_the_host [OF h this a]
  have "cores = 4" using facts by (simp add: demo_host_def)
  moreover have "ram = 16000" using facts by simp
  ultimately have "cap = 7" using facts by auto
  then show ?thesis using facts by simp
qed

end
