(* ===== verification/Node_Upkeep.thy ===== *)
theory Node_Upkeep
  imports Node_Config Node_Guarantees Replication "HOL-Library.AList"
begin

text \<open>
  What a node does beside its requests: copying the template of an instance, the grants and the WAL
  settings of a new database (\<open>instance_manager.rs\<close>, \<open>replication.rs\<close>), health reports
  (\<open>instance_manager.rs\<close>, \<open>health.rs\<close>, \<open>main.rs\<close>) and the background tasks (\<open>main.rs\<close>). Docker,
  the file system and the clock answer as arguments.
\<close>

section \<open>Copying the template\<close>

text \<open>
  A directory of the template, in the order it is read, and one of the instance, by name. An entry
  whose listing or metadata fails is \<open>Unreadable\<close>. Links that something else left in the directory of
  the instance are not modelled.
\<close>

datatype template_entry = Dir "(string \<times> template_entry) list" | File string | Link string | Special | Unreadable

datatype disk_tree = Folder "(string \<times> disk_tree) list" | Plain string

datatype copy_error = Template_missing | Copy_io | Refused_link "string list" | Refused_special "string list"

text \<open>
  How the calls on an entry go: the target cannot be made or opened, the source cannot be read or
  opened, or \<open>std::fs::copy\<close> has opened both, cutting the target to nothing, and fails after \<open>n\<close> bytes.
\<close>

datatype copy_io = Io_ok | Not_made | Not_read | Cut_short nat

fun is_folder :: "disk_tree option \<Rightarrow> bool" where
  "is_folder (Some (Folder ks)) = True"
| "is_folder _ = False"

fun kids :: "disk_tree option \<Rightarrow> (string \<times> disk_tree) list" where
  "kids (Some (Folder ks)) = ks"
| "kids _ = []"

text \<open>\<open>io p\<close>: how the calls on the entry at \<open>p\<close> go. What was copied before an error stays.\<close>

fun copy_entries ::
  "(string list \<Rightarrow> copy_io) \<Rightarrow> string list \<Rightarrow> (string \<times> template_entry) list \<Rightarrow> (string \<times> disk_tree) list \<Rightarrow>
   copy_error option \<times> (string \<times> disk_tree) list"
  and copy_entry ::
  "(string list \<Rightarrow> copy_io) \<Rightarrow> string list \<Rightarrow> template_entry \<Rightarrow> disk_tree option \<Rightarrow>
   copy_error option \<times> disk_tree option"
where
  "copy_entries io p [] ks = (None, ks)"
| "copy_entries io p ((n, x) # es) ks =
     (case copy_entry io (p @ [n]) x (map_of ks n) of
        (e, after) \<Rightarrow>
          let ks = (case after of Some t \<Rightarrow> AList.update n t ks | None \<Rightarrow> ks) in
          if e \<noteq> None then (e, ks) else copy_entries io p es ks)"
| "copy_entry io p Unreadable before = (Some Copy_io, before)"
| "copy_entry io p (Link target) before = (Some (Refused_link p), before)"
| "copy_entry io p Special before = (Some (Refused_special p), before)"
| "copy_entry io p (File c) before =
     (if is_folder before then (Some Copy_io, before)
      else (case io p of
          Io_ok \<Rightarrow> (None, Some (Plain c))
        | Cut_short n \<Rightarrow> (Some Copy_io, Some (Plain (take n c)))
        | _ \<Rightarrow> (Some Copy_io, before)))"
| "copy_entry io p (Dir es) before =
     (if io p = Not_made \<or> (before \<noteq> None \<and> \<not> is_folder before) then (Some Copy_io, before)
      else if io p = Not_read then (Some Copy_io, Some (Folder (kids before)))
      else (case copy_entries io p es (kids before) of (e, ks) \<Rightarrow> (e, Some (Folder ks))))"

text \<open>The template is a directory; of anything else the listing fails.\<close>

definition copy_template ::
  "(string list \<Rightarrow> copy_io) \<Rightarrow> template_entry option \<Rightarrow> disk_tree option \<Rightarrow> copy_error option \<times> disk_tree option" where
  "copy_template io src dst = (case src of
     None \<Rightarrow> (Some Template_missing, dst)
   | Some (Dir es) \<Rightarrow> copy_entry io [] (Dir es) dst
   | Some _ \<Rightarrow> copy_entry (\<lambda>_. Not_read) [] (Dir []) dst)"

text \<open>What is at a path, and names that are unique within each directory.\<close>

fun at_tree :: "disk_tree option \<Rightarrow> string list \<Rightarrow> disk_tree option" where
  "at_tree t [] = t"
| "at_tree t (n # p) = at_tree (map_of (kids t) n) p"

fun at_template :: "template_entry option \<Rightarrow> string list \<Rightarrow> template_entry option" where
  "at_template x [] = x"
| "at_template (Some (Dir es)) (n # p) = at_template (map_of es n) p"
| "at_template _ (n # p) = None"

fun unique_names :: "template_entry \<Rightarrow> bool" where
  "unique_names (Dir es) \<longleftrightarrow> distinct (map fst es) \<and> (\<forall>(n, x) \<in> set es. unique_names x)"
| "unique_names _ = True"

lemma at_tree_None [simp]: "at_tree None p = None"
  by (induction p) auto

lemma at_template_None [simp]: "at_template None p = None"
  by (cases p) auto

lemma copied_is_some: "copy_entry io p x before = (e, None) \<Longrightarrow> before = None"
  by (cases x) (auto split: if_splits prod.splits copy_io.splits)

lemma entries_step:
  assumes "copy_entry io (p @ [n]) x (map_of ks n) = (e, after)"
  shows "map_of (case after of Some t \<Rightarrow> AList.update n t ks | None \<Rightarrow> ks) = (map_of ks)(n := after)"
proof (cases after)
  case None
  then have "map_of ks n = None" using copied_is_some assms by blast
  then show ?thesis using None by (simp add: fun_upd_idem)
qed (simp add: update_conv')

text \<open>Of a directory every entry is copied by itself, up to the first error.\<close>

lemma entries_pointwise:
  assumes "copy_entries io p es ks = (e, ks')" "distinct (map fst es)"
  shows "case map_of es n of None \<Rightarrow> map_of ks' n = map_of ks n
    | Some x \<Rightarrow> e \<noteq> None \<and> map_of ks' n = map_of ks n \<or>
        (\<exists>e'. copy_entry io (p @ [n]) x (map_of ks n) = (e', map_of ks' n) \<and> (e = None \<longrightarrow> e' = None))"
  using assms
proof (induction es arbitrary: ks)
  case (Cons nx es)
  obtain k x where nx: "nx = (k, x)" by fastforce
  obtain e1 after where step: "copy_entry io (p @ [k]) x (map_of ks k) = (e1, after)" by fastforce
  let ?ks = "case after of Some t \<Rightarrow> AList.update k t ks | None \<Rightarrow> ks"
  have ks: "map_of ?ks = (map_of ks)(k := after)" by (rule entries_step [OF step])
  show ?case
  proof (cases e1)
    case None
    then have "copy_entries io p es ?ks = (e, ks')" using Cons.prems(1) step by (simp add: nx Let_def)
    note ih = Cons.IH [OF this]
    show ?thesis
    proof (cases "n = k")
      case True
      then have "map_of es n = None" using Cons.prems(2) by (simp add: nx map_of_eq_None_iff)
      then have "map_of ks' n = after" using ih Cons.prems(2) ks True by (simp add: nx)
      then show ?thesis using step True None by (simp add: nx)
    next
      case False
      then have "map_of ?ks n = map_of ks n" by (simp add: ks)
      have "map_of (nx # es) n = map_of es n" using False by (simp add: nx)
      then show ?thesis using ih Cons.prems(2) by (simp only: \<open>map_of ?ks n = map_of ks n\<close>) (simp add: nx)
    qed
  next
    case (Some a)
    then have e: "e = Some a" "map_of ks' = (map_of ks)(k := after)" using Cons.prems(1) step ks by (auto simp: nx Let_def)
    show ?thesis using e step by (cases "n = k") (auto simp: nx split: option.splits)
  qed
qed simp

text \<open>What a copy of an entry leaves: by path, whether it fails or not.\<close>

definition regular_at :: "disk_tree option \<Rightarrow> disk_tree option \<Rightarrow> template_entry option \<Rightarrow> bool" where
  "regular_at before after x = (case x of
     None \<Rightarrow> after = before | Some (File c) \<Rightarrow> after = Some (Plain c) | Some (Dir _) \<Rightarrow> is_folder after | _ \<Rightarrow> False)"

definition bytes_left :: "copy_io \<Rightarrow> string \<Rightarrow> string \<Rightarrow> bool" where
  "bytes_left how c d \<longleftrightarrow> d = c \<or> (\<exists>n. how = Cut_short n \<and> d = take n c)"

definition copied ::
  "(string list \<Rightarrow> copy_io) \<Rightarrow> string list \<Rightarrow> template_entry option \<Rightarrow> disk_tree option \<Rightarrow> disk_tree option \<Rightarrow>
   copy_error option \<Rightarrow> bool" where
  "copied io q x before after e \<longleftrightarrow>
     (\<forall>p d. at_tree after p = Some (Plain d) \<longrightarrow> at_tree before p = Some (Plain d) \<or>
        (\<exists>c. at_template x p = Some (File c) \<and> bytes_left (io (q @ p)) c d)) \<and>
     (\<forall>p c. at_tree before p = Some (Plain c) \<longrightarrow> at_tree after p = Some (Plain c) \<or>
        (\<exists>c' d. at_template x p = Some (File c') \<and> at_tree after p = Some (Plain d) \<and> bytes_left (io (q @ p)) c' d)) \<and>
     (e = None \<longrightarrow> (\<forall>p. regular_at (at_tree before p) (at_tree after p) (at_template x p)))"

lemma copied_same: "e \<noteq> None \<or> x = None \<Longrightarrow> copied io q x before before e"
  by (auto simp: copied_def regular_at_def)

lemma copiedI:
  assumes "\<And>p. at_template x p = None \<and> at_tree after p = at_tree before p \<or>
    (\<exists>c d. at_template x p = Some (File c) \<and> at_tree after p = Some (Plain d) \<and> bytes_left (io (q @ p)) c d \<and>
       (e = None \<longrightarrow> d = c))"
  shows "copied io q x before after e"
  unfolding copied_def
proof (intro conjI allI impI)
  fix p d
  show "at_tree before p = Some (Plain d) \<or> (\<exists>c. at_template x p = Some (File c) \<and> bytes_left (io (q @ p)) c d)"
    if "at_tree after p = Some (Plain d)"
    using assms [of p] that by auto
  show "at_tree after p = Some (Plain d) \<or>
      (\<exists>c' d. at_template x p = Some (File c') \<and> at_tree after p = Some (Plain d) \<and> bytes_left (io (q @ p)) c' d)"
    if "at_tree before p = Some (Plain d)"
    using assms [of p] that by auto
  show "regular_at (at_tree before p) (at_tree after p) (at_template x p)" if "e = None"
    using assms [of p] that by (auto simp: regular_at_def)
qed

lemma copied_file:
  assumes "\<not> is_folder before" "bytes_left (io q) c d" "e = None \<longrightarrow> d = c"
  shows "copied io q (Some (File c)) before (Some (Plain d)) e"
proof (rule copiedI)
  fix p
  have "kids before = []" using assms(1) by (cases before rule: kids.cases) auto
  then have "at_tree before (n # r) = None" for n r by simp
  then show "at_template (Some (File c)) p = None \<and> at_tree (Some (Plain d)) p = at_tree before p \<or>
      (\<exists>c' d'. at_template (Some (File c)) p = Some (File c') \<and> at_tree (Some (Plain d)) p = Some (Plain d') \<and>
         bytes_left (io (q @ p)) c' d' \<and> (e = None \<longrightarrow> d' = c'))"
    using assms(2,3) by (cases p) auto
qed

fun_cases is_folderE: "is_folder t"

lemma is_folder_iff: "is_folder t \<longleftrightarrow> (\<exists>ks. t = Some (Folder ks))"
  by (auto elim: is_folderE)

text \<open>A directory is copied if each of its entries is.\<close>

lemma copied_dir:
  assumes each: "\<And>n. copied io (q @ [n]) (map_of es n) (map_of (kids before) n) (map_of ks n)
      (if e = None then None else err n)"
    and before: "before = None \<or> is_folder before" and err: "\<And>n. e \<noteq> None \<Longrightarrow> err n \<noteq> None"
  shows "copied io q (Some (Dir es)) before (Some (Folder ks)) e"
proof -
  have root: "at_tree before [] \<noteq> Some (Plain c)" for c using before by (auto simp: is_folder_iff)
  have 1: "at_tree before p = Some (Plain d) \<or>
      (\<exists>c. at_template (Some (Dir es)) p = Some (File c) \<and> bytes_left (io (q @ p)) c d)"
    if "at_tree (Some (Folder ks)) p = Some (Plain d)" for p d
  proof (cases p)
    case (Cons n r)
    then show ?thesis using conjunct1 [OF each [of n, unfolded copied_def], THEN spec, of r] that by simp
  qed (use that in simp)
  have 2: "at_tree (Some (Folder ks)) p = Some (Plain c) \<or>
      (\<exists>c' d. at_template (Some (Dir es)) p = Some (File c') \<and> at_tree (Some (Folder ks)) p = Some (Plain d) \<and>
         bytes_left (io (q @ p)) c' d)"
    if "at_tree before p = Some (Plain c)" for p c
  proof (cases p)
    case (Cons n r)
    then show ?thesis
      using conjunct1 [OF conjunct2 [OF each [of n, unfolded copied_def]], THEN spec, of r] that by simp
  qed (use that root [of c] in simp)
  have 3: "e = None \<Longrightarrow> regular_at (at_tree before p) (at_tree (Some (Folder ks)) p) (at_template (Some (Dir es)) p)" for p
    using each by (cases p) (auto simp: copied_def regular_at_def)
  show ?thesis using 1 2 3 unfolding copied_def by blast
qed

lemma unique_names_kid: "unique_names (Dir es) \<Longrightarrow> map_of es n = Some x \<Longrightarrow> unique_names x"
  by (auto dest!: map_of_SomeD)

lemma copy_entry_copies:
  "unique_names x \<Longrightarrow> copy_entry io p x before = (e, after) \<Longrightarrow> copied io p (Some x) before after e"
proof (induction x arbitrary: p before e after)
  case (File c)
  then show ?case by (auto simp: bytes_left_def intro: copied_file copied_same split: if_splits copy_io.splits)
next
  case (Dir es)
  show ?case
  proof (cases "io p = Not_made \<or> (before \<noteq> None \<and> \<not> is_folder before) \<or> io p = Not_read")
    case True
    have "copied io p (Some (Dir es)) before (Some (Folder (kids before))) (Some Copy_io)"
      if "before = None \<or> is_folder before"
      by (rule copied_dir [where err = "\<lambda>_. Some Copy_io"]) (use that in \<open>auto intro: copied_same\<close>)
    then show ?thesis using True Dir.prems(2) by (auto intro: copied_same split: if_splits)
  next
    case False
    then obtain ks where c: "copy_entries io p es (kids before) = (e, ks)" and after: "after = Some (Folder ks)"
      using Dir.prems(2) by (auto split: prod.splits)
    have "copied io (p @ [n]) (map_of es n) (map_of (kids before) n) (map_of ks n)
        (if e = None then None else Some Copy_io)" for n
    proof (cases "map_of es n")
      case None
      then show ?thesis
        using entries_pointwise [OF c, of n] Dir.prems(1) by (simp add: copied_same)
    next
      case (Some x)
      then have x: "(n, x) \<in> set es" "unique_names x" using unique_names_kid Dir.prems(1) by (auto dest: map_of_SomeD)
      have weaken: "copied io q (Some x) b a e1 \<Longrightarrow> copied io q (Some x) b a (Some e2)" for q b a e1 e2
        by (simp add: copied_def)
      from entries_pointwise [OF c, of n] Dir.prems(1) Some consider
          "e \<noteq> None" "map_of ks n = map_of (kids before) n"
        | e' where "copy_entry io (p @ [n]) x (map_of (kids before) n) = (e', map_of ks n)" "e = None \<longrightarrow> e' = None"
        by auto
      then show ?thesis
      proof cases
        case 1
        then show ?thesis using Some by (auto intro: copied_same)
      next
        case 2
        have "copied io (p @ [n]) (Some x) (map_of (kids before) n) (map_of ks n) e'"
          using Dir.IH [OF x(1) _ x(2) 2(1)] by simp
        then show ?thesis using 2(2) Some weaken by auto
      qed
    qed
    then have "copied io p (Some (Dir es)) before (Some (Folder ks)) e"
      by (rule copied_dir) (use False in auto)
    then show ?thesis by (simp add: after)
  qed
qed (auto intro: copied_same)

fun regular_template :: "template_entry \<Rightarrow> bool" where
  "regular_template (Dir es) \<longleftrightarrow> (\<forall>(n, x) \<in> set es. regular_template x)"
| "regular_template (File c) = True"
| "regular_template _ = False"

lemma regular_copies:
  shows "\<forall>q. io q = Io_ok \<Longrightarrow> \<forall>(n, x) \<in> set es. regular_template x \<and> unique_names x \<Longrightarrow> distinct (map fst es) \<Longrightarrow>
      \<forall>n \<in> fst ` set es. map_of ks n = None \<Longrightarrow> fst (copy_entries io p es ks) = None"
    and "\<forall>q. io q = Io_ok \<Longrightarrow> regular_template x \<Longrightarrow> unique_names x \<Longrightarrow> before = None \<Longrightarrow>
      fst (copy_entry io p x before) = None"
proof (induction io p es ks and io p x before rule: copy_entries_copy_entry.induct)
  case (2 io p n x es ks)
  obtain e after where step: "copy_entry io (p @ [n]) x (map_of ks n) = (e, after)" by fastforce
  have "fst (copy_entry io (p @ [n]) x (map_of ks n)) = None"
    by (rule 2(1)) (use 2(3-6) in auto)
  then have e: "e = None" by (simp add: step)
  let ?ks = "case after of Some t \<Rightarrow> AList.update n t ks | None \<Rightarrow> ks"
  have "\<forall>m \<in> fst ` set es. map_of ?ks m = None"
    using 2(5,6) entries_step [OF step] by auto
  then have "fst (copy_entries io p es ?ks) = None"
    by (intro 2(2) [OF step [symmetric] refl]) (use 2(3-6) e in auto)
  then show ?case using step e by (simp add: Let_def)
next
  case (7 io p es before)
  then show ?case by (auto split: prod.splits)
qed auto

text \<open>
  C33: A template copy contains the template and nothing else. Whether it fails or not, every file it
  leaves was there before or is a regular file of the template at the same path, and every file that
  was there is still there or replaced by such a file; the file is complete unless copying it failed
  midway, which leaves its first bytes. If the copy succeeds, the template has no link and
  no special file at any depth, every file and directory of it is at its path, and everything else
  is as before. Into a fresh directory, with a file system that works, it fails only for a link, a
  special or an unreadable entry.
\<close>

theorem template_copied_exactly:
  assumes names: "unique_names (Dir es)"
    and run: "copy_template io (Some (Dir es)) dst = (e, dst')"
  shows "(\<forall>p d. at_tree dst' p = Some (Plain d) \<longrightarrow>
        at_tree dst p = Some (Plain d) \<or>
        (\<exists>c. at_template (Some (Dir es)) p = Some (File c) \<and> (d = c \<or> (\<exists>n. io p = Cut_short n \<and> d = take n c)))) \<and>
    (\<forall>p c. at_tree dst p = Some (Plain c) \<longrightarrow> at_tree dst' p = Some (Plain c) \<or>
        (\<exists>c' d. at_template (Some (Dir es)) p = Some (File c') \<and> at_tree dst' p = Some (Plain d) \<and>
           (d = c' \<or> (\<exists>n. io p = Cut_short n \<and> d = take n c')))) \<and>
    (e = None \<longrightarrow> (\<forall>p. case at_template (Some (Dir es)) p of
        None \<Rightarrow> at_tree dst' p = at_tree dst p
      | Some (File c) \<Rightarrow> at_tree dst' p = Some (Plain c)
      | Some (Dir _) \<Rightarrow> is_folder (at_tree dst' p)
      | Some _ \<Rightarrow> False)) \<and>
    (dst = None \<and> (\<forall>p. io p = Io_ok) \<and> regular_template (Dir es) \<longrightarrow> e = None)"
proof -
  have c: "copy_entry io [] (Dir es) dst = (e, dst')" using run by (simp add: copy_template_def)
  have "e = None" if "dst = None" "\<forall>p. io p = Io_ok" "regular_template (Dir es)"
    using regular_copies(2) [OF that(2,3) names that(1), of "[]"] c by simp
  then show ?thesis
    using copy_entry_copies [OF names c] unfolding copied_def regular_at_def bytes_left_def append_Nil by blast
qed

definition demo_template :: "(string \<times> template_entry) list" where
  "demo_template = [(''docker-compose.yml'', File ''services''), (''volumes'', Dir [(''db.sql'', File ''sql'')]),
     (''keys'', Link ''/etc/supaba'')]"

theorem template_copied_exactly_witness:
  "\<exists>e t. copy_template (\<lambda>_. Io_ok) (Some (Dir demo_template)) None = (e, t) \<and> e \<noteq> None \<and>
     at_tree t [''volumes'', ''db.sql''] = Some (Plain ''sql'') \<and>
     copy_template (\<lambda>_. Io_ok) (Some (Dir (take 2 demo_template))) None = (None, t)"
proof -
  obtain e t where r: "copy_template (\<lambda>_. Io_ok) (Some (Dir demo_template)) None = (e, t)" by fastforce
  have "unique_names (Dir demo_template)" by (simp add: demo_template_def)
  note facts = template_copied_exactly [OF this r]
  have "at_template (Some (Dir demo_template)) [''keys''] = Some (Link ''/etc/supaba'')" by (simp add: demo_template_def)
  moreover have "e = None \<longrightarrow> (case at_template (Some (Dir demo_template)) [''keys''] of
        None \<Rightarrow> at_tree t [''keys''] = at_tree None [''keys'']
      | Some (File c) \<Rightarrow> at_tree t [''keys''] = Some (Plain c)
      | Some (Dir _) \<Rightarrow> is_folder (at_tree t [''keys''])
      | Some _ \<Rightarrow> False)"
    using facts by blast
  ultimately have "e \<noteq> None" by auto
  moreover have t: "t = Some (Folder [(''docker-compose.yml'', Plain ''services''), (''volumes'', Folder [(''db.sql'', Plain ''sql'')])])"
    using r by (simp add: copy_template_def demo_template_def)
  moreover have "copy_template (\<lambda>_. Io_ok) (Some (Dir (take 2 demo_template))) None = (None, t)"
    unfolding t by (simp add: copy_template_def demo_template_def)
  ultimately show ?thesis using r by auto
qed

section \<open>The gateway file of an instance\<close>

text \<open>\<open>str::replace\<close> of a non-empty pattern.\<close>

definition replace_all :: "string \<Rightarrow> string \<Rightarrow> string \<Rightarrow> string" where
  "replace_all pat new s = join new (split_str pat s)"

definition render_kong :: "instance_secrets \<Rightarrow> string \<Rightarrow> string" where
  "render_kong sec kong_template =
     replace_all ''${SERVICE_ROLE_KEY}'' (service_role_key sec) (replace_all ''${ANON_KEY}'' (anon_key sec) kong_template)"

lemma replace_all_absent: "\<not> contains pat s \<Longrightarrow> replace_all pat new s = s"
proof -
  assume "\<not> contains pat s"
  then have "break_on pat s = None" unfolding contains_def by blast
  then show ?thesis by (simp add: replace_all_def split_str.simps [of pat s])
qed

lemma replace_all_step: "break_on pat s = Some (a, b) \<Longrightarrow> pat \<noteq> [] \<Longrightarrow> replace_all pat new s = a @ new @ replace_all pat new b"
proof -
  assume "break_on pat s = Some (a, b)" "pat \<noteq> []"
  then have "split_str pat s = a # split_str pat b" by (simp add: split_str.simps [of pat s])
  moreover have "split_str pat b \<noteq> []" by (subst split_str.simps) (auto split: option.splits)
  ultimately show ?thesis by (cases "split_str pat b") (simp_all add: replace_all_def)
qed

section \<open>A new database: grants and WAL settings\<close>

text \<open>The grants are tried ten times; the caller never learns whether any attempt worked.\<close>

fun grant_attempts :: "nat \<Rightarrow> exec list \<Rightarrow> nat \<times> bool" where
  "grant_attempts 0 os = (0, False)"
| "grant_attempts (Suc n) [] = (0, False)"
| "grant_attempts (Suc n) (ob # os) =
     (if ob = Exit_success then (1, True) else map_prod Suc id (grant_attempts n os))"

definition apply_storage_grants :: "exec list \<Rightarrow> nat \<times> bool" where
  "apply_storage_grants os = grant_attempts 10 os"

text \<open>
  The commands of \<open>configure_wal_archiving\<close> on the container of the database, in their order. A
  command that cannot be started is \<open>Spawn_error\<close>; \<open>wl_show\<close> and \<open>wl_verify\<close> carry the output.
\<close>

datatype wal_command = W_mkdir | W_settings | W_show | W_restart | W_probe | W_verify

record wal_luck =
  wl_mkdir :: exec
  wl_settings :: exec
  wl_dirs_made :: bool
  wl_show :: "exec \<times> string"
  wl_restart :: exec
  wl_probes :: "exec list"
  wl_verify :: "exec \<times> string"

datatype wal_config_error = Wal_instance_not_found | Wal_exec_failed | Wal_dirs_failed

definition shows_on :: "exec \<times> string \<Rightarrow> bool" where
  "shows_on r \<longleftrightarrow> fst r = Exit_success \<and> trim (snd r) = ''on''"

definition probes_run :: "exec list \<Rightarrow> nat" where
  "probes_run ps = (let qs = take 30 ps in
     length (takeWhile (\<lambda>p. p \<noteq> Exit_success) qs) + (if Exit_success \<in> set qs then 1 else 0))"

definition configure_wal_archiving ::
  "wal_luck \<Rightarrow> string \<Rightarrow> db \<Rightarrow> (wal_config_error + unit) \<times> (string \<times> wal_command) list" where
  "configure_wal_archiving L inst d =
     (case get_instance_by_id inst d of None \<Rightarrow> (Inl Wal_instance_not_found, []) | Some i \<Rightarrow>
      let on = map (Pair (in_project i @ ''-db-1'')) in
      if wl_mkdir L = Spawn_error then (Inl Wal_exec_failed, on [W_mkdir])
      else if wl_settings L = Spawn_error then (Inl Wal_exec_failed, on [W_mkdir, W_settings])
      else if \<not> wl_dirs_made L then (Inl Wal_dirs_failed, on [W_mkdir, W_settings])
      else if shows_on (wl_show L) then (Inr (), on [W_mkdir, W_settings, W_show])
      else if wl_restart L = Spawn_error then (Inl Wal_exec_failed, on [W_mkdir, W_settings, W_show, W_restart])
      else (Inr (), on ([W_mkdir, W_settings, W_show, W_restart] @
          (if wl_restart L = Exit_success then replicate (probes_run (wl_probes L)) W_probe else []) @ [W_verify])))"

section \<open>Health\<close>

record container_summary =
  cs_name :: "string option"
  cs_status :: "string option"
  cs_state :: "string option"
  cs_created :: "int option"

record container_info =
  ci_name :: string
  ci_status :: string
  ci_health :: "string option"

record instance_health =
  ih_id :: string
  ih_status :: string
  ih_containers :: "container_info list"
  ih_uptime :: int

definition health_label :: "string \<Rightarrow> string" where
  "health_label inst = ''com.docker.compose.project=supaba-'' @ inst"

definition container_info_of :: "container_summary \<Rightarrow> container_info" where
  "container_info_of c =
     \<lparr>ci_name = (case cs_name c of Some n \<Rightarrow> dropWhile (\<lambda>x. x = CHR ''/'') n | None \<Rightarrow> []),
      ci_status = (case cs_status c of Some s \<Rightarrow> s | None \<Rightarrow> []), ci_health = cs_state c\<rparr>"

text \<open>\<open>listed l\<close>: the containers with the label \<open>l\<close>, stopped ones included, if Docker answers.\<close>

definition get_health ::
  "int \<Rightarrow> (string \<Rightarrow> container_summary list option) \<Rightarrow> string \<Rightarrow> node_error + instance_health option" where
  "get_health now listed inst =
     (case listed (health_label inst) of None \<Rightarrow> Inl Docker_failed | Some [] \<Rightarrow> Inr None
      | Some cs \<Rightarrow>
          let oldest = foldl (\<lambda>t c. case cs_created c of Some u \<Rightarrow> min t u | None \<Rightarrow> t) now cs in
          Inr (Some \<lparr>ih_id = inst,
            ih_status = (if list_all (\<lambda>c. cs_state c = Some ''running'') cs then ''running'' else ''degraded''),
            ih_containers = map container_info_of cs, ih_uptime = now - oldest\<rparr>))"

definition instance_health_handler ::
  "int \<Rightarrow> (string \<Rightarrow> container_summary list option) \<Rightarrow> string \<Rightarrow> nat \<times> instance_health option" where
  "instance_health_handler now listed inst = (case get_health now listed inst of
     Inl e \<Rightarrow> (500, None) | Inr h \<Rightarrow> (200, h))"

text \<open>The report and the heartbeat of \<open>health.rs\<close>, with the statistics of the node.\<close>

record capacity_info =
  ci_max :: u32
  ci_running :: u32
  ci_available :: u32

record health_report =
  hr_status :: string
  hr_region :: string
  hr_capacity :: capacity_info
  hr_backend :: string
  hr_attestation :: bool
  hr_interval :: nat
  hr_active :: bool
  hr_uptime :: nat
  hr_timestamp :: int

definition get_health_report :: "config \<Rightarrow> int \<Rightarrow> node \<Rightarrow> health_report" where
  "get_health_report cfg now n =
     (let st = get_stats (node_config.truncate cfg) n in
      \<lparr>hr_status = ''healthy'', hr_region = cf_region cfg,
       hr_capacity = \<lparr>ci_max = of_nat (nc_max_instances cfg), ci_running = of_nat (st_running st),
         ci_available = of_nat (st_available st)\<rparr>,
       hr_backend = cf_tee_backend cfg, hr_attestation = (cf_tee_backend cfg \<noteq> ''none''),
       hr_interval = cf_heartbeat_interval_secs cfg, hr_active = True, hr_uptime = 0, hr_timestamp = now\<rparr>)"

record heartbeat =
  hb_region :: string
  hb_running :: nat
  hb_available :: nat
  hb_backend :: string
  hb_timestamp :: int

text \<open>The answer to a heartbeat: its status and the signature read from its body.\<close>

definition send_heartbeat ::
  "config \<Rightarrow> int \<Rightarrow> node \<Rightarrow> (string \<Rightarrow> heartbeat \<Rightarrow> (nat \<times> string option) option) \<Rightarrow> string option" where
  "send_heartbeat cfg now n post =
     (let st = get_stats (node_config.truncate cfg) n in
      case post (trim_end_slashes (cf_solana_rpc_url cfg) @ ''/heartbeat'')
        \<lparr>hb_region = cf_region cfg, hb_running = st_running st, hb_available = st_available st,
         hb_backend = cf_tee_backend cfg, hb_timestamp = now\<rparr> of
        Some (status, signature) \<Rightarrow> if 200 \<le> status \<and> status < 300 then signature else None
      | None \<Rightarrow> None)"

section \<open>Background tasks\<close>








text \<open>One tick of the WAL task: archiving, then shipping.\<close>

definition wal_tick ::
  "crypto \<Rightarrow> repl_env \<Rightarrow> string \<Rightarrow> (string \<Rightarrow> string option) \<Rightarrow> (string \<Rightarrow> string \<Rightarrow> pull) \<Rightarrow> (string \<Rightarrow> string \<Rightarrow> bool) \<Rightarrow>
   int \<Rightarrow> ('w \<Rightarrow> string \<Rightarrow> wire_segment \<Rightarrow> 'w \<times> reply) \<Rightarrow> 'w \<times> store \<Rightarrow> 'w \<times> store" where
  "wal_tick C E dd listing pulled written now post = (\<lambda>(w, st).
     ship_pending_segments C E now post (w, process_new_segments C dd listing pulled written st))"

section \<open>What the sweeps do to a node\<close>

definition wiped :: "int \<Rightarrow> instance_row \<Rightarrow> instance_row" where
  "wiped now r = r\<lparr>in_status := ''destroyed'', in_destroyed_at := Some now\<rparr>"

lemma wiped_simps [simp]: "in_id (wiped now r) = in_id r" "in_wallet (wiped now r) = in_wallet r" "\<not> live (wiped now r)"
  by (simp_all add: wiped_def live_def)















end
