(* ===== verification/Spec2Isabelle.thy ===== *)
theory Spec2Isabelle
  imports Registry_Guarantees Credits_Hook Path_Safety Sigauth Ipfs Job_Admission Build_Store Merkle Tee
    Studio_Proxy Node_Guarantees Replica_Chain Api_Properties Migration_Guarantees Service_Guarantees Functions_Api
    Build_Properties Node_Upkeep
begin

text \<open>
  A verification library for Kraph: the Rust node that runs Supabase instances for wallets
  (\<open>node-rs/src\<close>) and the two Solana programs it is paid through (\<open>contracts/programs\<close>). Paths below
  are relative to \<open>src/\<close>; \<open>main.rs\<close> and the other Rust files without a directory are in \<open>node-rs/src\<close>.

  \<^bold>\<open>The system.\<close> The registry program keeps nodes, instances and payment escrows on chain; the
  credits hook decides which transfers of the credits token pass. A node serves an HTTP interface:
  it provisions instances (a port block, a directory, a compose stack, a database row), keeps their
  environment variables encrypted, builds and deploys front-ends and side-cars, migrates databases,
  pins content, archives the WAL of every instance in a hash chain and ships it to replicas, attests
  its platform and gates the Studio dashboards. A request is signed by the wallet it concerns
  (\<open>sigauth.rs\<close>), passes admission where it is expensive (\<open>job_admission.rs\<close>) and works on one
  SQLite database (\<open>db/mod.rs\<close>). Background tasks tick beside the requests.

  \<^bold>\<open>Foundations.\<close> \<open>Kraph_Prelude\<close>: machine integers with the checked and saturating operations of
  Rust, results as sums, the collections \<open>ok_simps\<close> and \<open>word_facts\<close>, reachability and the locale
  \<open>inductive_invariant\<close> that every state machine of the library interprets. \<open>Kraph_Text\<close>: strings as
  UTF-8 bytes, slices that can panic, splitting, trimming, numbers. \<open>Kraph_Crypto\<close>: hashing, signatures,
  authenticated encryption and encodings as the fields of one record, with the laws a property may
  assume of them, and an instance that satisfies the laws.

  \<^bold>\<open>The chain\<close> (\<open>contracts/programs/supaba-registry/src/lib.rs\<close>).
  \<^item> \<open>Registry_Types\<close>: constants, account structs, error codes; \<open>Registry_Platform\<close>: the runtime and the
    programs the registry calls, as parameters with documented laws.
  \<^item> \<open>Registry_Nodes\<close>, \<open>Registry_Instances\<close>, \<open>Registry_Payments\<close>: the fifteen instructions with their
    account constraints; \<open>Registry\<close>: dispatch, the step relation, the invariant of the account store.
  \<^item> \<open>Registry_Lifecycle\<close>: the abstract life cycles and the simulation; \<open>Registry_Escrow\<close>: what a
    distribution moves into which token account and the backing of the escrows; \<open>Registry_Demo\<close>: a concrete platform and history;
    \<open>Registry_Properties\<close>, \<open>Registry_Guarantees\<close>: the properties.
  \<^item> \<open>Credits_Hook\<close> (\<open>contracts/programs/kraph-credits-hook/src/lib.rs\<close>): allow-list and transfer gate,
    as a refinement of a finite set.

  \<^bold>\<open>The database of a node.\<close> \<open>Database\<close> (\<open>db/mod.rs\<close>, \<open>db/schema.rs\<close>): rows, instances, port blocks;
  \<open>Env_Vault\<close>: the encrypted environment variables; \<open>Wal_Store\<close>: segments, replicas and shipments, whose
  unique keys are the locale \<open>keyed_table\<close>. A table is the list of its rows; a refusal of SQLite is an
  error value.

  \<^bold>\<open>Instances.\<close>
  \<^item> \<open>Env_Files\<close>, \<open>Instance_Manager\<close> (\<open>instance_manager.rs\<close>, \<open>warm_pool.rs\<close>): the files of an instance,
    provisioning in two phases, destroying, suspending, resuming, the warm pool.
  \<^item> \<open>Node_Machine\<close>: the same as a state machine in which the database calls of concurrent requests
    interleave, requests are lost and the process restarts; its invariant. \<open>Node_Guarantees\<close>: disjoint
    ports, the capacity race, the leak of the warm pool.
  \<^item> \<open>Node_Config\<close> (\<open>config.rs\<close>): the configuration and the capacity derived from the host.
    \<open>Node_Upkeep\<close> (\<open>instance_manager.rs\<close>, \<open>replication.rs\<close>, \<open>health.rs\<close>, \<open>main.rs\<close>): the template copy, the
    settings of a new database, health, and the background tasks, each of whose ticks is a run of the
    node machine.

  \<^bold>\<open>The interface\<close> (\<open>main.rs\<close>).
  \<^item> \<open>Sigauth\<close> (\<open>sigauth.rs\<close>): what a verified request guarantees, the window of the nonces.
    \<open>Env_Api\<close>, \<open>Node_Handlers\<close>: gates and handlers with the dispatcher \<open>serve_api\<close>.
  \<^item> \<open>Api_Guarantees\<close>, \<open>Env_Secrecy\<close>, \<open>Api_Properties\<close>: which change needs whose signature, that no
    answer depends on a protected value (two runs related operation by operation; the locale
    \<open>lockstep\<close> lifts the relation to sequences of requests), that a variable reaches its file.
  \<^item> \<open>Job_Admission\<close> (\<open>job_admission.rs\<close>), \<open>Build_Store\<close> (\<open>build_store.rs\<close>), \<open>Path_Safety\<close>
    (\<open>path_safety.rs\<close>), \<open>Studio_Proxy\<close> (\<open>studio_proxy.rs\<close> and its routes), \<open>Ipfs\<close> (pinning and the daily
    quota), \<open>Functions_Api\<close> (edge functions, the integrity root).
  \<^item> \<open>Node_Service\<close>, \<open>Service_Guarantees\<close> (\<open>nextjs_service.rs\<close> and its endpoints): the side-car.
  \<^item> \<open>Frontend_Build\<close>, \<open>Build_Api\<close>, \<open>Build_Guarantees\<close>, \<open>Build_Properties\<close> (\<open>frontend_build.rs\<close> and the
    build endpoints): the script as what its words mean to the shell, the container, the output or the
    link in its place, and the machine of accepted, running and finished builds, with log tasks that
    outlive them, over the admission table and the build store.
  \<^item> \<open>Migration_Scripts\<close>, \<open>Migration\<close>, \<open>Migration_Logs\<close>, \<open>Migration_Outcomes\<close>, \<open>Migration_Api\<close>,
    \<open>Migration_Guarantees\<close> (\<open>db_migration.rs\<close> and its endpoints): command lines, scripts as what they
    print and the status they end with, containers, the verdict read from the log.

  \<^bold>\<open>Integrity and attestation.\<close>
  \<^item> \<open>Replication\<close>, \<open>Wal_Chain\<close>, \<open>Replica_Chain\<close> (\<open>replication.rs\<close>): archiving keeps a chain, a replica
    accepts exactly its continuation, and a lossy network refines the abstract replica that holds one
    contiguous part.
  \<^item> \<open>Merkle\<close> (\<open>integrity.rs\<close>): the loop that builds the tree, as \<open>while\<close> with a proof that it ends.
  \<^item> \<open>Attestation\<close>, \<open>Tee\<close> (\<open>tee/attestation.rs\<close>, \<open>tee/mock.rs\<close>, \<open>tee/mod.rs\<close>): parsers, mock backend,
    manager and endpoint.

  \<^bold>\<open>How the code is rendered.\<close> A struct is a record, an enum a datatype, a handler a function from the
  state it finds to its answer and the state it leaves, every early return a branch. Integers keep
  their width where they can wrap or are checked; where a value cannot leave the range (byte counts of
  files, times in seconds) they are \<open>nat\<close> or \<open>int\<close>. A Rust panic is \<open>None\<close> or an error value of its own, so
  that its absence, or its effect on what follows, is proved; what an operation has written before it
  panics or fails midway (a build marked as failed, the first bytes of a copied file, the rest of a
  directory half removed) is part of its result. An operation behind a mutex is one step; where a
  handler makes several database calls, \<open>Node_Machine\<close> has one step for each.

  What Docker, the file system, the network, the clock, chance, \<open>serde_json\<close>, the tools inside a
  container and other Solana programs answer is an argument of the definition that uses it, never
  fixed. A law that a property needs of such an argument is a hypothesis of the property, and the
  witness of the property satisfies it on a concrete instance. \<open>trim\<close>, \<open>to_lowercase\<close> and
  \<open>split_whitespace\<close> are those of ASCII text.

  \<^bold>\<open>Loops and bounds.\<close> Loops over collections are structural. Loops that poll (health, logs, connection
  attempts) run over the list of what they observe, which ends at the deadline of the code. Retries
  carry the bound of the code (three \<open>compose up\<close>, five shipments, ten grants, thirty probes). The
  cut-over of a live migration is the only loop with fuel: every turn sleeps three seconds, so fuel of
  a third of the waiting time and two is enough, and the property about it proves a result from that.
  The Merkle loop is \<open>while_option\<close>; that it returns is proved, with the number of its rounds.

  \<^bold>\<open>The properties\<close> carry their number C1 to C40 in the order of their importance: non-interference of
  protected values; authority over the registry; the money of the escrows; ports; replication; life
  cycles; builds; signatures, secrets and files of the interface; migrations and side-cars; nonces;
  the vault; the remaining components. Several state what the code does where that is not what it
  means to do: a distribution to three replicas pays more than is due, the warm pool only leaks port
  blocks, a live migration always claims success, a link that a build leaves in the place of its output
  directory is followed and the files of the host are pinned, the links in an output are followed into
  its archive, a degraded instance is never cleaned up.

  \<^bold>\<open>Not modelled.\<close> The start of the process, the table of routes, signals and log lines of \<open>main.rs\<close>; the
  opening of SQLite and the copying of columns (\<open>row_to_instance\<close>); the temporary files and the
  certificate download around the external tools of \<open>tee/mod.rs\<close>, whose results are arguments; the text
  of the SQL that is sent to an instance's own Postgres. Non-interference (C1) covers the requests of
  \<open>serve_api\<close> only: not the migrations, builds, side-cars and functions, which are handed the values by
  design or run what is, nor their logs. Outside the node and the programs: the TypeScript package in
  \<open>crypto\<close>, the scripts in \<open>firmware\<close> and \<open>node-rs/scripts\<close>, the command line in \<open>node-rs/examples\<close>.
\<close>

end
